(* ===== verification/Prelude.thy ===== *)
theory Prelude
  imports Main
begin

text \<open>
  What the component theories share.

  \<^item> 64-bit unsigned arithmetic. A \<open>uint64_t\<close> (or \<open>size_t\<close>) is a natural number below
    \<open>W64 = 2 ^ 64\<close>; \<open>add64\<close> and \<open>sub64\<close> are \<open>+\<close> and \<open>-\<close> with the wrap-around of the
    machine written out. Where the operands are in range they are the ordinary
    operations (\<open>add64_exact\<close>, \<open>sub64_exact\<close>, both simplification rules).
    \<open>to_int32\<close> is the conversion of a 64-bit value to \<open>int\<close>.
  \<^item> Failure. \<open>ERAFT_FATAL\<close> logs and then throws
    (\<open>src/raft_driver/logger.cc\<close>, \<open>log_fatal\<close>), \<open>.at()\<close> throws \<open>std::out_of_range\<close>, and
    an index past the end of a vector or of a protobuf repeated field is undefined
    behaviour. Each is a constructor of \<open>fault\<close>; a routine that can fail returns
    \<open>'a res = fault + 'a\<close>, sequenced by \<open>bindR\<close>.
  \<^item> \<open>okay m Q\<close> (if \<open>m\<close> returns, the result satisfies \<open>Q\<close>) and \<open>returns m Q\<close>
    (\<open>m\<close> returns, and the result satisfies \<open>Q\<close>) with their rules over \<open>bindR\<close> and the
    monadic fold.
\<close>

section \<open>Machine integers\<close>

type_synonym u64 = nat

definition W64 :: nat where
  "W64 = 2 ^ 64"

definition u64_max :: u64 where
  "u64_max = W64 - 1"

definition add64 :: "u64 \<Rightarrow> u64 \<Rightarrow> u64" where
  "add64 a b = (a + b) mod W64"

definition sub64 :: "u64 \<Rightarrow> u64 \<Rightarrow> u64" where
  "sub64 a b = (a + (W64 - b)) mod W64"

definition to_int32 :: "nat \<Rightarrow> int" where
  "to_int32 n = (let m = n mod 2 ^ 32 in if m < 2 ^ 31 then int m else int m - 2 ^ 32)"

lemma W64_pos [simp]: "0 < W64"
  by (simp add: W64_def)

lemma W64_gt_1 [simp]: "Suc 0 < W64"
  by (simp add: W64_def)

lemma u64_max_less [simp]: "u64_max < W64"
  by (simp add: u64_max_def)

lemma add64_exact [simp]: "a + b < W64 \<Longrightarrow> add64 a b = a + b"
  by (simp add: add64_def)

lemma add64_less [simp]: "add64 a b < W64"
  by (simp add: add64_def)

lemma sub64_exact [simp]: "b \<le> a \<Longrightarrow> a < W64 \<Longrightarrow> sub64 a b = a - b"
proof -
  assume "b \<le> a" "a < W64"
  then have "a + (W64 - b) = (a - b) + W64" "a - b < W64" by auto
  then show ?thesis by (simp add: sub64_def)
qed

lemma sub64_less [simp]: "sub64 a b < W64"
  by (simp add: sub64_def)

lemma sub64_wrap: "a < b \<Longrightarrow> b < W64 \<Longrightarrow> sub64 a b = W64 + a - b"
  by (simp add: sub64_def)

lemma to_int32_exact [simp]: "n < 2 ^ 31 \<Longrightarrow> to_int32 n = int n"
  by (simp add: to_int32_def)

lemma to_int32_le: "to_int32 n \<le> int n"
  by (simp add: to_int32_def Let_def mod_less_eq_dividend order_trans [OF _ of_nat_mono [OF mod_less_eq_dividend [of n "2 ^ 32"]]])

section \<open>Failing computations\<close>

datatype fault =
    Panic string        \<comment> \<open>\<open>ERAFT_FATAL\<close>: the exception thrown by \<open>log_fatal\<close>\<close>
  | OutOfRange string   \<comment> \<open>\<open>std::out_of_range\<close>, thrown by \<open>.at()\<close>\<close>
  | Undefined string    \<comment> \<open>undefined behaviour: an access past the end\<close>
  | Thrown string string \<comment> \<open>\<open>RG_THROW\<close>: a \<open>common::Exception\<close>, its code and message\<close>
  | NoFuel              \<comment> \<open>a bounded loop of the model ran out of iterations\<close>

type_synonym 'a res = "fault + 'a"

definition bindR :: "'a res \<Rightarrow> ('a \<Rightarrow> 'b res) \<Rightarrow> 'b res" where
  "bindR m f = (case m of Inl e \<Rightarrow> Inl e | Inr x \<Rightarrow> f x)"

lemma bindR_Inl [simp]: "bindR (Inl e) f = Inl e"
  by (simp add: bindR_def)

lemma bindR_Inr [simp]: "bindR (Inr x) f = f x"
  by (simp add: bindR_def)

lemma bindR_eq_Inr: "bindR m f = Inr y \<longleftrightarrow> (\<exists>x. m = Inr x \<and> f x = Inr y)"
  by (cases m) auto

lemma bindR_InrE [elim!]:
  assumes "bindR m f = Inr y"
  obtains x where "m = Inr x" "f x = Inr y"
  using assms by (auto simp: bindR_eq_Inr)

lemma bindR_cong [fundef_cong]:
  "m = m' \<Longrightarrow> (\<And>x. m' = Inr x \<Longrightarrow> f x = g x) \<Longrightarrow> bindR m f = bindR m' g"
  by (cases m') auto

definition okay :: "'a res \<Rightarrow> ('a \<Rightarrow> bool) \<Rightarrow> bool" where
  "okay m Q \<longleftrightarrow> (\<forall>x. m = Inr x \<longrightarrow> Q x)"

definition returns :: "'a res \<Rightarrow> ('a \<Rightarrow> bool) \<Rightarrow> bool" where
  "returns m Q \<longleftrightarrow> (\<exists>x. m = Inr x \<and> Q x)"

lemma okay_Inl [simp]: "okay (Inl e) Q"
  by (simp add: okay_def)

lemma okay_Inr [simp]: "okay (Inr x) Q \<longleftrightarrow> Q x"
  by (simp add: okay_def)

lemma okayI [intro?]: "(\<And>x. m = Inr x \<Longrightarrow> Q x) \<Longrightarrow> okay m Q"
  by (simp add: okay_def)

lemma okayD: "okay m Q \<Longrightarrow> m = Inr x \<Longrightarrow> Q x"
  by (simp add: okay_def)

lemma okay_bindR: "okay m P \<Longrightarrow> (\<And>x. P x \<Longrightarrow> okay (f x) Q) \<Longrightarrow> okay (bindR m f) Q"
  by (cases m) auto

lemma okay_bindR': "okay m (\<lambda>x. okay (f x) Q) \<Longrightarrow> okay (bindR m f) Q"
  by (cases m) auto

lemma okay_mono: "okay m P \<Longrightarrow> (\<And>x. P x \<Longrightarrow> Q x) \<Longrightarrow> okay m Q"
  by (auto simp: okay_def)

lemma okay_conj: "okay m P \<Longrightarrow> okay m Q \<Longrightarrow> okay m (\<lambda>x. P x \<and> Q x)"
  by (auto simp: okay_def)

lemma okay_if: "(b \<Longrightarrow> okay m Q) \<Longrightarrow> (\<not> b \<Longrightarrow> okay m' Q) \<Longrightarrow> okay (if b then m else m') Q"
  by simp

lemma returns_Inl [simp]: "\<not> returns (Inl e) Q"
  by (simp add: returns_def)

lemma returns_Inr [simp]: "returns (Inr x) Q \<longleftrightarrow> Q x"
  by (simp add: returns_def)

lemma returns_bindR: "returns m P \<Longrightarrow> (\<And>x. P x \<Longrightarrow> returns (f x) Q) \<Longrightarrow> returns (bindR m f) Q"
  by (cases m) auto

lemma returns_mono: "returns m P \<Longrightarrow> (\<And>x. P x \<Longrightarrow> Q x) \<Longrightarrow> returns m Q"
  by (auto simp: returns_def)

lemma returns_okay: "returns m P \<Longrightarrow> okay m Q \<Longrightarrow> returns m (\<lambda>x. P x \<and> Q x)"
  by (auto simp: returns_def okay_def)

lemma returnsE:
  assumes "returns m Q"
  obtains x where "m = Inr x" "Q x"
  using assms by (auto simp: returns_def)

text \<open>A loop over a container whose body may fail.\<close>

fun foldR :: "('a \<Rightarrow> 's \<Rightarrow> 's res) \<Rightarrow> 'a list \<Rightarrow> 's \<Rightarrow> 's res" where
  "foldR f [] s = Inr s"
| "foldR f (x # xs) s = bindR (f x s) (foldR f xs)"

lemma foldR_append: "foldR f (xs @ ys) s = bindR (foldR f xs s) (foldR f ys)"
proof (induction xs arbitrary: s)
  case (Cons x xs)
  then show ?case by (cases "f x s") simp_all
qed simp

lemma okay_foldR:
  assumes "I s" and "\<And>x s. x \<in> set xs \<Longrightarrow> I s \<Longrightarrow> okay (f x s) I"
  shows "okay (foldR f xs s) I"
  using assms
proof (induction xs arbitrary: s)
  case Nil
  then show ?case by simp
next
  case (Cons x xs)
  have "okay (f x s) I" using Cons.prems by simp
  then show ?case
    unfolding foldR.simps
  proof (rule okay_bindR)
    fix t assume "I t"
    then show "okay (foldR f xs t) I" using Cons by simp
  qed
qed

lemma returns_foldR:
  assumes "I s" and "\<And>x s. x \<in> set xs \<Longrightarrow> I s \<Longrightarrow> returns (f x s) I"
  shows "returns (foldR f xs s) I"
  using assms
proof (induction xs arbitrary: s)
  case Nil
  then show ?case by simp
next
  case (Cons x xs)
  have "returns (f x s) I" using Cons.prems by simp
  then show ?case
    unfolding foldR.simps
  proof (rule returns_bindR)
    fix t assume "I t"
    then show "returns (foldR f xs t) I" using Cons by simp
  qed
qed

text \<open>Reading a vector element: past the end is undefined behaviour.\<close>

definition at_ix :: "'a list \<Rightarrow> nat \<Rightarrow> 'a res" where
  "at_ix xs i = (if i < length xs then Inr (xs ! i) else Inl (Undefined ''vector index''))"

lemma at_ix_ok [simp]: "i < length xs \<Longrightarrow> at_ix xs i = Inr (xs ! i)"
  by (simp add: at_ix_def)

text \<open>
  The iterator pair \<open>{v.begin() + lo, v.begin() + hi}\<close>: undefined unless
  \<open>lo \<le> hi \<le> v.size()\<close>.
\<close>

definition subvec :: "'a list \<Rightarrow> nat \<Rightarrow> nat \<Rightarrow> 'a list res" where
  "subvec xs lo hi =
     (if lo \<le> hi \<and> hi \<le> length xs then Inr (take (hi - lo) (drop lo xs))
      else Inl (Undefined ''vector range''))"

lemma subvec_ok [simp]:
  "lo \<le> hi \<Longrightarrow> hi \<le> length xs \<Longrightarrow> subvec xs lo hi = Inr (take (hi - lo) (drop lo xs))"
  by (simp add: subvec_def)

section \<open>Returned errors\<close>

text \<open>
  The class \<open>Error\<close> of \<open>util.h\<close>. The constants \<open>ErrCompacted\<close>, \<open>ErrSnapOutOfDate\<close>,
  \<open>ErrUnavailable\<close> and \<open>ErrSnapshotTemporarilyUnavailable\<close> of \<open>storage.h\<close> are the only
  errors built with their codes, so the code determines the message; every other error
  has the code \<open>Unknown\<close> and is told apart by its message.
\<close>

datatype error =
    Ok
  | ErrCompacted
  | ErrSnapOutOfDate
  | ErrUnavailable
  | ErrSnapshotTemporarilyUnavailable
  | UnknownErr string

fun error_msg :: "error \<Rightarrow> string" where
  "error_msg Ok = ''''"
| "error_msg ErrCompacted = ''requested index is unavailable due to compaction''"
| "error_msg ErrSnapOutOfDate = ''requested index is older than the existing snapshot''"
| "error_msg ErrUnavailable = ''requested entry at index is unavailable''"
| "error_msg ErrSnapshotTemporarilyUnavailable = ''snapshot is temporarily unavailable''"
| "error_msg (UnknownErr s) = s"

fun error_code :: "error \<Rightarrow> nat" where
  "error_code Ok = 0"
| "error_code ErrCompacted = 1"
| "error_code ErrSnapOutOfDate = 2"
| "error_code ErrUnavailable = 3"
| "error_code ErrSnapshotTemporarilyUnavailable = 4"
| "error_code (UnknownErr s) = 5"

text \<open>\<open>operator==\<close> compares the messages when the left code is \<open>Unknown\<close>, the codes
  otherwise; \<open>operator!=\<close> compares the codes only.\<close>

definition error_eq :: "error \<Rightarrow> error \<Rightarrow> bool" where
  "error_eq a b =
     (if error_code a = 5 then error_msg a = error_msg b else error_code a = error_code b)"

definition error_neq :: "error \<Rightarrow> error \<Rightarrow> bool" where
  "error_neq a b = (error_code a \<noteq> error_code b)"

lemma error_eq_consts [simp]:
  "error_eq e ErrCompacted \<longleftrightarrow> e = ErrCompacted \<or> e = UnknownErr (error_msg ErrCompacted)"
  "error_eq e ErrUnavailable \<longleftrightarrow> e = ErrUnavailable \<or> e = UnknownErr (error_msg ErrUnavailable)"
  by (cases e; simp add: error_eq_def)+

end
