(* ===== verification/Raftpb.thy ===== *)
theory Raftpb
  imports Prelude
begin

text \<open>
  The protobuf messages of \<open>src/etcd_raft/raftpb/raft.proto\<close> as records and datatypes, the
  helpers of \<open>src/etcd_raft/util.h\<close> that work on them, and the configuration-change
  wrappers of \<open>raftpb/confchange.h\<close> and \<open>raftpb/confstate.h\<close>.

  An unset protobuf field has its zero value, so \<open>raftpb::Message m;\<close> is \<open>Message0\<close> and
  each \<open>m.set_f(v)\<close> a record update. Proto3 enums are open: where the code has a \<open>default\<close>
  branch for an unknown value the datatype has a constructor for it. The field \<open>responses\<close>
  of a message, which only the storage threads of the asynchronous mode read, is not part
  of the record; \<open>RawNode\<close> pairs those messages with their responses.

  The protobuf runtime and the random device are not part of the repository. What the code
  uses of them is an \<open>env\<close>, an argument of every definition that calls them.
\<close>

section \<open>Messages\<close>

datatype EntryType = EntryNormal | EntryConfChange | EntryConfChangeV2

record entry =
  e_term :: u64
  e_index :: u64
  e_type :: EntryType
  e_data :: string

definition Entry0 :: entry where
  "Entry0 = \<lparr>e_term = 0, e_index = 0, e_type = EntryNormal, e_data = ''''\<rparr>"

record ConfState =
  cs_voters :: "u64 list"
  cs_learners :: "u64 list"
  cs_voters_outgoing :: "u64 list"
  cs_learners_next :: "u64 list"
  cs_auto_leave :: bool

definition ConfState0 :: ConfState where
  "ConfState0 = \<lparr>cs_voters = [], cs_learners = [], cs_voters_outgoing = [],
     cs_learners_next = [], cs_auto_leave = False\<rparr>"

record snapshot_metadata =
  sm_conf_state :: ConfState
  sm_index :: u64
  sm_term :: u64

record snapshot =
  sn_data :: string
  sn_metadata :: snapshot_metadata

definition Snapshot0 :: snapshot where
  "Snapshot0 = \<lparr>sn_data = '''',
     sn_metadata = \<lparr>sm_conf_state = ConfState0, sm_index = 0, sm_term = 0\<rparr>\<rparr>"

abbreviation sn_index :: "snapshot \<Rightarrow> u64" where
  "sn_index s \<equiv> sm_index (sn_metadata s)"

abbreviation sn_term :: "snapshot \<Rightarrow> u64" where
  "sn_term s \<equiv> sm_term (sn_metadata s)"

datatype MessageType =
    MsgHup | MsgBeat | MsgProp | MsgApp | MsgAppResp | MsgVote | MsgVoteResp | MsgSnap
  | MsgHeartbeat | MsgHeartbeatResp | MsgUnreachable | MsgSnapStatus | MsgCheckQuorum
  | MsgTransferLeader | MsgTimeoutNow | MsgReadIndex | MsgReadIndexResp | MsgPreVote
  | MsgPreVoteResp | MsgStorageAppend | MsgStorageAppendResp | MsgStorageApply
  | MsgStorageApplyResp | MsgForgetLeader

record message =
  m_type :: MessageType
  m_to :: u64
  m_from :: u64
  m_term :: u64
  m_logterm :: u64
  m_index :: u64
  m_entries :: "entry list"
  m_commit :: u64
  m_vote :: u64
  m_snapshot :: snapshot
  m_reject :: bool
  m_rejecthint :: u64
  m_context :: string

definition Message0 :: message where
  "Message0 = \<lparr>m_type = MsgHup, m_to = 0, m_from = 0, m_term = 0, m_logterm = 0, m_index = 0,
     m_entries = [], m_commit = 0, m_vote = 0, m_snapshot = Snapshot0, m_reject = False,
     m_rejecthint = 0, m_context = ''''\<rparr>"

record HardState =
  hs_term :: u64
  hs_vote :: u64
  hs_commit :: u64

definition HardState0 :: HardState where
  "HardState0 = \<lparr>hs_term = 0, hs_vote = 0, hs_commit = 0\<rparr>"

datatype ConfChangeTransition =
    ConfChangeTransitionAuto
  | ConfChangeTransitionJointImplicit
  | ConfChangeTransitionJointExplicit
  | ConfChangeTransitionOther nat

datatype ConfChangeType =
    ConfChangeAddNode
  | ConfChangeRemoveNode
  | ConfChangeUpdateNode
  | ConfChangeAddLearnerNode
  | ConfChangeOther nat

record ConfChange =
  cc_type :: ConfChangeType
  cc_node_id :: u64
  cc_context :: string
  cc_id :: u64

record ConfChangeSingle =
  ccs_type :: ConfChangeType
  ccs_node_id :: u64

record ConfChangeV2 =
  v2_transition :: ConfChangeTransition
  v2_changes :: "ConfChangeSingle list"
  v2_context :: string

definition ConfChangeV2_0 :: ConfChangeV2 where
  "ConfChangeV2_0 = \<lparr>v2_transition = ConfChangeTransitionAuto, v2_changes = [], v2_context = ''''\<rparr>"

section \<open>What the code uses of the protobuf runtime and the random device\<close>

record env =
  pb_UInt64Size :: "u64 \<Rightarrow> nat"                   \<comment> \<open>\<open>WireFormatLite::UInt64Size\<close>\<close>
  pb_parse_ConfChange :: "string \<Rightarrow> ConfChange option"
  pb_parse_ConfChangeV2 :: "string \<Rightarrow> ConfChangeV2 option"
  pb_ser_ConfChange :: "ConfChange \<Rightarrow> string option"
  pb_ser_ConfChangeV2 :: "ConfChangeV2 \<Rightarrow> string option"
  env_random :: "nat \<Rightarrow> int \<Rightarrow> int"               \<comment> \<open>the \<open>k\<close>-th draw of \<open>random(n)\<close>\<close>

text \<open>An environment for the examples: varints of one byte, a runtime that encodes only the
  empty change, and a random device that always draws 0.\<close>

definition env_example :: env where
  "env_example = \<lparr>pb_UInt64Size = (\<lambda>n. 1), pb_parse_ConfChange = (\<lambda>d. None),
     pb_parse_ConfChangeV2 = (\<lambda>d. if d = '''' then Some ConfChangeV2_0 else None),
     pb_ser_ConfChange = (\<lambda>c. None),
     pb_ser_ConfChangeV2 = (\<lambda>c. if c = ConfChangeV2_0 then Some '''' else None),
     env_random = (\<lambda>k n. 0)\<rparr>"

text \<open>\<open>Entry::ByteSizeLong\<close> of the generated \<open>raft.pb.cc\<close>. The two non-zero enum values
  are one-byte varints (\<open>EnumSize\<close>), \<open>BytesSize\<close> is the length and its varint.\<close>

definition Entry_ByteSizeLong :: "env \<Rightarrow> entry \<Rightarrow> u64" where
  "Entry_ByteSizeLong E e =
     (if e_data e \<noteq> '''' then 1 + (pb_UInt64Size E (length (e_data e)) + length (e_data e)) else 0)
     + (if e_term e \<noteq> 0 then pb_UInt64Size E (e_term e) + 1 else 0)
     + (if e_index e \<noteq> 0 then pb_UInt64Size E (e_index e) + 1 else 0)
     + (if e_type e \<noteq> EntryNormal then 1 + pb_UInt64Size E 1 else 0)"

section \<open>Helpers of util.h\<close>

definition IsLocalMsg :: "MessageType \<Rightarrow> bool" where
  "IsLocalMsg t =
     (t = MsgHup \<or> t = MsgBeat \<or> t = MsgUnreachable \<or> t = MsgSnapStatus \<or> t = MsgCheckQuorum \<or>
      t = MsgStorageAppend \<or> t = MsgStorageAppendResp \<or> t = MsgStorageApply \<or>
      t = MsgStorageApplyResp)"

definition IsResponseMsg :: "MessageType \<Rightarrow> bool" where
  "IsResponseMsg t =
     (t = MsgAppResp \<or> t = MsgVoteResp \<or> t = MsgHeartbeatResp \<or> t = MsgUnreachable \<or>
      t = MsgReadIndexResp \<or> t = MsgPreVoteResp \<or> t = MsgStorageAppendResp \<or>
      t = MsgStorageApplyResp)"

definition NoneId :: u64 where
  "NoneId = 0"

definition LocalAppendThread :: u64 where
  "LocalAppendThread = u64_max"

definition LocalApplyThread :: u64 where
  "LocalApplyThread = u64_max - 1"

definition IsLocalMsgTarget :: "u64 \<Rightarrow> bool" where
  "IsLocalMsgTarget i = (i = LocalAppendThread \<or> i = LocalApplyThread)"

fun voteRespMsgType :: "MessageType \<Rightarrow> MessageType res" where
  "voteRespMsgType MsgVote = Inr MsgVoteResp"
| "voteRespMsgType MsgPreVote = Inr MsgPreVoteResp"
| "voteRespMsgType _ = Inl (Panic ''not a vote message'')"

definition IsEmptySnap :: "snapshot \<Rightarrow> bool" where
  "IsEmptySnap sp = (sn_index sp = 0)"

text \<open>The loop of \<open>limitSize\<close> from \<open>limit\<close> on: the entries it keeps after the ones whose
  size is already in \<open>sz\<close>.\<close>

fun limitSize_from :: "env \<Rightarrow> u64 \<Rightarrow> u64 \<Rightarrow> entry list \<Rightarrow> entry list" where
  "limitSize_from E maxSize sz [] = []"
| "limitSize_from E maxSize sz (e # es) =
     (let sz' = add64 sz (Entry_ByteSizeLong E e)
      in if maxSize < sz' then [] else e # limitSize_from E maxSize sz' es)"

fun limitSize :: "env \<Rightarrow> entry list \<Rightarrow> u64 \<Rightarrow> entry list" where
  "limitSize E [] maxSize = []"
| "limitSize E (e # es) maxSize = e # limitSize_from E maxSize (Entry_ByteSizeLong E e) es"

definition payloadSize :: "entry \<Rightarrow> u64" where
  "payloadSize e = length (e_data e)"

definition payloadsSize :: "entry list \<Rightarrow> u64" where
  "payloadsSize ents = foldl (\<lambda>s e. add64 s (payloadSize e)) 0 ents"

definition entsSize :: "env \<Rightarrow> entry list \<Rightarrow> u64" where
  "entsSize E ents = foldl (\<lambda>s e. add64 s (Entry_ByteSizeLong E e)) 0 ents"

definition isHardStateEqual :: "HardState \<Rightarrow> HardState \<Rightarrow> bool" where
  "isHardStateEqual a b =
     (hs_term a = hs_term b \<and> hs_vote a = hs_vote b \<and> hs_commit a = hs_commit b)"

definition IsEmptyHardState :: "HardState \<Rightarrow> bool" where
  "IsEmptyHardState st = isHardStateEqual st HardState0"

definition noLimit :: u64 where
  "noLimit = u64_max"

section \<open>Configuration changes\<close>

datatype ConfChangeI = ConfChangeWrap ConfChange | ConfChangeV2Wrap ConfChangeV2

fun AsV2 :: "ConfChangeI \<Rightarrow> ConfChangeV2" where
  "AsV2 (ConfChangeWrap c) =
     \<lparr>v2_transition = ConfChangeTransitionAuto,
      v2_changes = [\<lparr>ccs_type = cc_type c, ccs_node_id = cc_node_id c\<rparr>],
      v2_context = cc_context c\<rparr>"
| "AsV2 (ConfChangeV2Wrap c) = c"

fun AsV1 :: "ConfChangeI \<Rightarrow> ConfChange option" where
  "AsV1 (ConfChangeWrap c) = Some c"
| "AsV1 (ConfChangeV2Wrap c) = None"

definition ConfChangeV2_EnterJoint :: "ConfChangeV2 \<Rightarrow> (bool \<times> bool) res" where
  "ConfChangeV2_EnterJoint c =
     (if v2_transition c \<noteq> ConfChangeTransitionAuto \<or> 1 < length (v2_changes c)
      then (case v2_transition c of
              ConfChangeTransitionAuto \<Rightarrow> Inr (True, True)
            | ConfChangeTransitionJointImplicit \<Rightarrow> Inr (True, True)
            | ConfChangeTransitionJointExplicit \<Rightarrow> Inr (False, True)
            | ConfChangeTransitionOther _ \<Rightarrow> Inl (Panic ''unknown transition''))
      else Inr (False, False))"

text \<open>\<open>LeaveJoint\<close> clears the context and compares with the empty message.\<close>

definition ConfChangeV2_LeaveJoint :: "ConfChangeV2 \<Rightarrow> bool" where
  "ConfChangeV2_LeaveJoint c = (c\<lparr>v2_context := ''''\<rparr> = ConfChangeV2_0)"

definition MarshalConfChange :: "env \<Rightarrow> ConfChangeI option \<Rightarrow> EntryType \<times> string \<times> error" where
  "MarshalConfChange E c =
     (case c of
        None \<Rightarrow> (EntryConfChangeV2, '''', Ok)
      | Some cc \<Rightarrow>
          (case AsV1 cc of
             Some ccv1 \<Rightarrow>
               (case pb_ser_ConfChange E ccv1 of
                  Some d \<Rightarrow> (EntryConfChange, d, Ok)
                | None \<Rightarrow> (EntryConfChange, '''', UnknownErr ''ConfChange.SerializeToString error''))
           | None \<Rightarrow>
               (case pb_ser_ConfChangeV2 E (AsV2 cc) of
                  Some d \<Rightarrow> (EntryConfChangeV2, d, Ok)
                | None \<Rightarrow> (EntryConfChangeV2, '''',
                            UnknownErr ''ConfChangeV2.SerializeToString error''))))"

definition confChangeToMsg :: "env \<Rightarrow> ConfChangeI option \<Rightarrow> message \<times> error" where
  "confChangeToMsg E c =
     (case MarshalConfChange E c of (typ, d, err) \<Rightarrow>
        if err \<noteq> Ok then (Message0, err)
        else (Message0\<lparr>m_type := MsgProp,
                m_entries := [Entry0\<lparr>e_type := typ, e_data := d\<rparr>]\<rparr>, Ok))"

definition ConfState_sort :: "ConfState \<Rightarrow> ConfState" where
  "ConfState_sort cs =
     cs\<lparr>cs_voters := sort (cs_voters cs), cs_learners := sort (cs_learners cs),
        cs_voters_outgoing := sort (cs_voters_outgoing cs),
        cs_learners_next := sort (cs_learners_next cs)\<rparr>"

definition Equivalent :: "ConfState \<Rightarrow> ConfState \<Rightarrow> error" where
  "Equivalent cs1 cs2 =
     (if ConfState_sort cs1 \<noteq> ConfState_sort cs2
      then UnknownErr ''ConfStates not equivalent after sorting'' else Ok)"

section \<open>Sizes\<close>

definition ents_bytes :: "env \<Rightarrow> entry list \<Rightarrow> nat" where
  "ents_bytes E ents = sum_list (map (Entry_ByteSizeLong E) ents)"

lemma ents_bytes_simps [simp]:
  "ents_bytes E [] = 0"
  "ents_bytes E (e # es) = Entry_ByteSizeLong E e + ents_bytes E es"
  "ents_bytes E (xs @ ys) = ents_bytes E xs + ents_bytes E ys"
  by (simp_all add: ents_bytes_def)

lemma foldl_add64:
  "s + sum_list (map f xs) < W64 \<Longrightarrow> foldl (\<lambda>s e. add64 s (f e)) s xs = s + sum_list (map f xs)"
  by (induction xs arbitrary: s) (simp_all add: add.assoc)

lemma entsSize_exact: "ents_bytes E ents < W64 \<Longrightarrow> entsSize E ents = ents_bytes E ents"
  using foldl_add64 [of 0 "Entry_ByteSizeLong E" ents] by (simp add: entsSize_def ents_bytes_def)

lemma foldl_add64_less: "s < W64 \<Longrightarrow> foldl (\<lambda>s e. add64 s (f e)) s xs < W64"
  by (induction xs arbitrary: s) simp_all

lemma payloadsSize_less [simp]: "payloadsSize ents < W64"
  by (simp add: payloadsSize_def foldl_add64_less)

lemma entsSize_less [simp]: "entsSize E ents < W64"
  by (simp add: entsSize_def foldl_add64_less)

lemma payloadsSize_Nil [simp]: "payloadsSize [] = 0"
  by (simp add: payloadsSize_def)

lemma limitSize_from_take: "limitSize_from E maxSize s es = take (length (limitSize_from E maxSize s es)) es"
  by (induction es arbitrary: s) (simp_all add: Let_def)

lemma limitSize_take: "limitSize E ents maxSize = take (length (limitSize E ents maxSize)) ents"
  by (cases ents) (simp_all add: limitSize_from_take [symmetric])

lemma limitSize_length: "length (limitSize E ents maxSize) \<le> length ents"
  by (metis limitSize_take length_take min.cobounded1)

lemma limitSize_Nil_iff [simp]: "limitSize E ents maxSize = [] \<longleftrightarrow> ents = []"
  by (cases ents) simp_all

lemma limitSize_from_bound:
  "s + ents_bytes E es < W64 \<Longrightarrow> limitSize_from E maxSize s es \<noteq> [] \<Longrightarrow>
   s + ents_bytes E (limitSize_from E maxSize s es) \<le> maxSize"
proof (induction es arbitrary: s)
  case Nil
  then show ?case by simp
next
  case (Cons e es)
  let ?s = "s + Entry_ByteSizeLong E e"
  have eq: "add64 s (Entry_ByteSizeLong E e) = ?s" using Cons.prems(1) by simp
  have le: "?s \<le> maxSize" using Cons.prems(2) by (auto simp: Let_def eq split: if_splits)
  have "?s + ents_bytes E (limitSize_from E maxSize ?s es) \<le> maxSize"
  proof (cases "limitSize_from E maxSize ?s es = []")
    case True
    then show ?thesis using le by simp
  next
    case False
    then show ?thesis using Cons.IH [of ?s] Cons.prems(1) by (simp add: add.assoc)
  qed
  then show ?case using le by (simp add: Let_def eq add.assoc)
qed

lemma limitSize_from_maximal:
  "s + ents_bytes E es < W64 \<Longrightarrow> n = length (limitSize_from E maxSize s es) \<Longrightarrow> n < length es \<Longrightarrow>
   maxSize < s + ents_bytes E (take (Suc n) es)"
proof (induction es arbitrary: s n)
  case Nil
  then show ?case by simp
next
  case (Cons e es)
  let ?s = "s + Entry_ByteSizeLong E e"
  have eq: "add64 s (Entry_ByteSizeLong E e) = ?s" using Cons.prems(1) by simp
  show ?case
  proof (cases "maxSize < ?s")
    case True
    then show ?thesis using Cons.prems(2) by (simp add: eq Let_def)
  next
    case False
    then obtain k where k: "n = Suc k" "k = length (limitSize_from E maxSize ?s es)"
      using Cons.prems(2) by (simp add: eq Let_def)
    then have "maxSize < ?s + ents_bytes E (take (Suc k) es)"
      using Cons.IH [of ?s k] Cons.prems by (simp add: add.assoc)
    then show ?thesis using k by (simp add: add.assoc)
  qed
qed

end
