(* ===== verification/Unstable.thy ===== *)
theory Unstable
  imports Raftpb
begin

text \<open>
  \<open>src/etcd_raft/log_unstable.h\<close>: the tail of the log, and possibly a snapshot, that is
  not known to be on stable storage. \<open>entries_[i]\<close> has the log position \<open>i + offset_\<close>.
  The invariant \<open>unstable_wf\<close> makes that numbering explicit; under it no operation faults,
  and each has the effect on the sequence of entries that its lemma states.
\<close>

section \<open>Definitions\<close>

record Unstable =
  u_snapshot :: "snapshot option"
  u_entries :: "entry list"
  u_offset :: u64
  u_snapshotInProgress :: bool
  u_offsetInProgress :: u64

definition Unstable0 :: Unstable where
  "Unstable0 = \<lparr>u_snapshot = None, u_entries = [], u_offset = 0, u_snapshotInProgress = False,
     u_offsetInProgress = 0\<rparr>"

definition Unstable_maybeFirstIndex :: "Unstable \<Rightarrow> u64 \<times> bool" where
  "Unstable_maybeFirstIndex u =
     (case u_snapshot u of Some s \<Rightarrow> (add64 (sn_index s) 1, True) | None \<Rightarrow> (0, False))"

definition Unstable_maybeLastIndex :: "Unstable \<Rightarrow> u64 \<times> bool" where
  "Unstable_maybeLastIndex u =
     (if u_entries u \<noteq> [] then (sub64 (add64 (u_offset u) (length (u_entries u))) 1, True)
      else case u_snapshot u of Some s \<Rightarrow> (sn_index s, True) | None \<Rightarrow> (0, False))"

definition Unstable_maybeTerm :: "Unstable \<Rightarrow> u64 \<Rightarrow> (u64 \<times> bool) res" where
  "Unstable_maybeTerm u i =
     (if i < u_offset u
      then Inr (case u_snapshot u of
                  Some s \<Rightarrow> if sn_index s = i then (sn_term s, True) else (0, False)
                | None \<Rightarrow> (0, False))
      else case Unstable_maybeLastIndex u of (lasti, ok) \<Rightarrow>
        if \<not> ok then Inr (0, False)
        else if lasti < i then Inr (0, False)
        else bindR (at_ix (u_entries u) (sub64 i (u_offset u))) (\<lambda>e. Inr (e_term e, True)))"

definition Unstable_nextEntries :: "Unstable \<Rightarrow> entry list res" where
  "Unstable_nextEntries u =
     (let inProgress = sub64 (u_offsetInProgress u) (u_offset u)
      in if length (u_entries u) = inProgress then Inr []
         else subvec (u_entries u) inProgress (length (u_entries u)))"

definition Unstable_nextSnapshot :: "Unstable \<Rightarrow> snapshot option" where
  "Unstable_nextSnapshot u =
     (if u_snapshot u = None \<or> u_snapshotInProgress u then None else u_snapshot u)"

definition Unstable_acceptInProgress :: "Unstable \<Rightarrow> Unstable" where
  "Unstable_acceptInProgress u =
     (let u1 = (if u_entries u \<noteq> []
                then u\<lparr>u_offsetInProgress := add64 (e_index (last (u_entries u))) 1\<rparr> else u)
      in if u_snapshot u1 \<noteq> None then u1\<lparr>u_snapshotInProgress := True\<rparr> else u1)"

definition Unstable_stableTo :: "Unstable \<Rightarrow> u64 \<Rightarrow> u64 \<Rightarrow> Unstable res" where
  "Unstable_stableTo u i t =
     bindR (Unstable_maybeTerm u i) (\<lambda>(gt, ok).
       if \<not> ok then Inr u
       else if i < u_offset u then Inr u
       else if gt \<noteq> t then Inr u
       else let num = sub64 (add64 i 1) (u_offset u)
            in bindR (subvec (u_entries u) num (length (u_entries u))) (\<lambda>es.
                 Inr (u\<lparr>u_entries := es, u_offset := add64 i 1,
                        u_offsetInProgress := max (u_offsetInProgress u) (add64 i 1)\<rparr>)))"

definition Unstable_stableSnapTo :: "Unstable \<Rightarrow> u64 \<Rightarrow> Unstable" where
  "Unstable_stableSnapTo u i =
     (case u_snapshot u of
        Some s \<Rightarrow> if sn_index s = i then u\<lparr>u_snapshot := None, u_snapshotInProgress := False\<rparr> else u
      | None \<Rightarrow> u)"

definition Unstable_restore :: "Unstable \<Rightarrow> snapshot \<Rightarrow> Unstable" where
  "Unstable_restore u s =
     u\<lparr>u_offset := add64 (sn_index s) 1, u_offsetInProgress := add64 (sn_index s) 1, u_entries := [],
       u_snapshot := Some s, u_snapshotInProgress := False\<rparr>"

definition Unstable_mustCheckOutOfBounds :: "Unstable \<Rightarrow> u64 \<Rightarrow> u64 \<Rightarrow> unit res" where
  "Unstable_mustCheckOutOfBounds u lo hi =
     (if hi < lo then Inl (Panic ''invalid unstable.slice'')
      else let upper = add64 (u_offset u) (length (u_entries u))
           in if lo < u_offset u \<or> upper < hi then Inl (Panic ''unstable.slice out of bound'')
              else Inr ())"

definition Unstable_slice :: "Unstable \<Rightarrow> u64 \<Rightarrow> u64 \<Rightarrow> entry list res" where
  "Unstable_slice u lo hi =
     bindR (Unstable_mustCheckOutOfBounds u lo hi) (\<lambda>_.
       subvec (u_entries u) (sub64 lo (u_offset u)) (sub64 hi (u_offset u)))"

definition Unstable_truncateAndAppend :: "Unstable \<Rightarrow> entry list \<Rightarrow> Unstable res" where
  "Unstable_truncateAndAppend u ents =
     bindR (at_ix ents 0) (\<lambda>e0.
       let fromIndex = e_index e0 in
       if fromIndex = add64 (u_offset u) (length (u_entries u))
       then Inr (u\<lparr>u_entries := u_entries u @ ents\<rparr>)
       else if fromIndex \<le> u_offset u
       then Inr (u\<lparr>u_entries := ents, u_offset := fromIndex, u_offsetInProgress := fromIndex\<rparr>)
       else bindR (Unstable_slice u (u_offset u) fromIndex) (\<lambda>keep.
              Inr (u\<lparr>u_entries := keep @ ents,
                     u_offsetInProgress := min (u_offsetInProgress u) fromIndex\<rparr>)))"

section \<open>Numbered sequences of entries\<close>

definition numbered :: "u64 \<Rightarrow> entry list \<Rightarrow> bool" where
  "numbered i es \<longleftrightarrow> (\<forall>k < length es. e_index (es ! k) = i + k)"

lemma numbered_Nil [simp]: "numbered i []"
  by (simp add: numbered_def)

lemma numbered_Cons [simp]: "numbered i (e # es) \<longleftrightarrow> e_index e = i \<and> numbered (Suc i) es"
  by (auto simp: numbered_def less_Suc_eq_0_disj all_conj_distrib)

lemma numbered_append: "numbered i (xs @ ys) \<longleftrightarrow> numbered i xs \<and> numbered (i + length xs) ys"
  by (induction xs arbitrary: i) auto

lemma numbered_take: "numbered i es \<Longrightarrow> numbered i (take n es)"
  by (simp add: numbered_def)

lemma numbered_drop: "numbered i es \<Longrightarrow> numbered (i + n) (drop n es)"
  by (simp add: numbered_def add.assoc)

lemma numbered_last: "numbered i es \<Longrightarrow> es \<noteq> [] \<Longrightarrow> e_index (last es) = i + length es - 1"
  by (cases "length es") (simp_all add: numbered_def last_conv_nth)

lemma numbered_hd: "numbered i es \<Longrightarrow> es \<noteq> [] \<Longrightarrow> e_index (es ! 0) = i"
  by (simp add: numbered_def)

section \<open>The invariant\<close>

definition unstable_wf :: "Unstable \<Rightarrow> bool" where
  "unstable_wf u \<longleftrightarrow> numbered (u_offset u) (u_entries u) \<and> 0 < u_offset u \<and>
     u_offset u + length (u_entries u) < W64 \<and>
     u_offset u \<le> u_offsetInProgress u \<and> u_offsetInProgress u \<le> u_offset u + length (u_entries u) \<and>
     (\<forall>s. u_snapshot u = Some s \<longrightarrow> sn_index s < u_offset u)"

lemma unstable_wfD:
  assumes "unstable_wf u"
  shows "numbered (u_offset u) (u_entries u)" "0 < u_offset u" "u_offset u + length (u_entries u) < W64"
    "u_offset u \<le> u_offsetInProgress u" "u_offsetInProgress u \<le> u_offset u + length (u_entries u)"
    "u_snapshot u = Some s \<Longrightarrow> sn_index s < u_offset u"
  using assms by (auto simp: unstable_wf_def)

lemma maybeLastIndex_wf:
  "unstable_wf u \<Longrightarrow> u_entries u \<noteq> [] \<Longrightarrow>
   Unstable_maybeLastIndex u = (u_offset u + length (u_entries u) - 1, True)"
  by (simp add: Unstable_maybeLastIndex_def unstable_wf_def)

lemma maybeTerm_below:
  "i < u_offset u \<Longrightarrow> Unstable_maybeTerm u i =
     Inr (case u_snapshot u of Some s \<Rightarrow> if sn_index s = i then (sn_term s, True) else (0, False)
          | None \<Rightarrow> (0, False))"
  by (simp add: Unstable_maybeTerm_def)

lemma maybeTerm_entry:
  assumes "unstable_wf u" "u_offset u \<le> i" "i < u_offset u + length (u_entries u)"
  shows "Unstable_maybeTerm u i = Inr (e_term (u_entries u ! (i - u_offset u)), True)"
proof -
  have "u_entries u \<noteq> []" using assms by auto
  then show ?thesis
    using assms unstable_wfD(3) [OF assms(1)] by (auto simp: Unstable_maybeTerm_def maybeLastIndex_wf)
qed

lemma maybeTerm_above:
  assumes "unstable_wf u" "u_offset u + length (u_entries u) \<le> i"
  shows "Unstable_maybeTerm u i = Inr (0, False)"
proof (cases "u_entries u = []")
  case True
  then show ?thesis
    using assms unstable_wfD(6) [OF assms(1)]
    by (force simp: Unstable_maybeTerm_def Unstable_maybeLastIndex_def split: option.splits)
next
  case False
  then have "0 < length (u_entries u)" by simp
  then have "u_offset u + length (u_entries u) - 1 < i" using assms(2) by linarith
  then show ?thesis
    using assms False by (simp add: Unstable_maybeTerm_def maybeLastIndex_wf)
qed

lemma nextEntries_wf:
  "unstable_wf u \<Longrightarrow> Unstable_nextEntries u = Inr (drop (u_offsetInProgress u - u_offset u) (u_entries u))"
  by (auto simp: Unstable_nextEntries_def unstable_wf_def Let_def)

lemma acceptInProgress_wf:
  assumes "unstable_wf u"
  shows "unstable_wf (Unstable_acceptInProgress u)"
    and "u_offsetInProgress (Unstable_acceptInProgress u) = u_offset u + length (u_entries u)"
    and "u_entries (Unstable_acceptInProgress u) = u_entries u" "u_offset (Unstable_acceptInProgress u) = u_offset u"
    and "u_snapshot (Unstable_acceptInProgress u) = u_snapshot u"
proof -
  have e: "u_entries u \<noteq> [] \<Longrightarrow> add64 (e_index (last (u_entries u))) 1 = u_offset u + length (u_entries u)"
  proof -
    assume ne: "u_entries u \<noteq> []"
    then have "0 < length (u_entries u)" by simp
    then have "e_index (last (u_entries u)) + 1 = u_offset u + length (u_entries u)"
      using numbered_last [OF unstable_wfD(1) [OF assms] ne] by linarith
    then show ?thesis using unstable_wfD(3) [OF assms] by (metis add64_exact)
  qed
  show off: "u_offsetInProgress (Unstable_acceptInProgress u) = u_offset u + length (u_entries u)"
    using e assms by (auto simp: Unstable_acceptInProgress_def Let_def unstable_wf_def)
  show f: "u_entries (Unstable_acceptInProgress u) = u_entries u" "u_offset (Unstable_acceptInProgress u) = u_offset u"
    "u_snapshot (Unstable_acceptInProgress u) = u_snapshot u"
    by (simp_all add: Unstable_acceptInProgress_def Let_def)
  show "unstable_wf (Unstable_acceptInProgress u)"
    using assms unfolding unstable_wf_def off f by simp
qed

lemma stableSnapTo_wf: "unstable_wf u \<Longrightarrow> unstable_wf (Unstable_stableSnapTo u i)"
  by (simp add: Unstable_stableSnapTo_def unstable_wf_def split: option.split)

lemma restore_wf: "sn_index s + 1 < W64 \<Longrightarrow> unstable_wf (Unstable_restore u s)"
  by (simp add: Unstable_restore_def unstable_wf_def)

text \<open>\<open>stableTo\<close> drops the entries up to an index whose term still matches, and does nothing
  otherwise.\<close>

lemma stableTo_spec:
  assumes "unstable_wf u"
  shows "returns (Unstable_stableTo u i t) (\<lambda>u'. unstable_wf u' \<and> u_snapshot u' = u_snapshot u \<and>
      (if u_offset u \<le> i \<and> i < u_offset u + length (u_entries u) \<and> e_term (u_entries u ! (i - u_offset u)) = t
       then u_offset u' = i + 1 \<and> u_entries u' = drop (i + 1 - u_offset u) (u_entries u)
       else u' = u))"
proof -
  consider "i < u_offset u" | "u_offset u + length (u_entries u) \<le> i"
    | "u_offset u \<le> i" "i < u_offset u + length (u_entries u)" by linarith
  then show ?thesis
  proof cases
    case 1
    then show ?thesis
      using assms by (auto simp: Unstable_stableTo_def maybeTerm_below split: option.split)
  next
    case 2
    then show ?thesis
      using assms by (simp add: Unstable_stableTo_def maybeTerm_above)
  next
    case 3
    have m: "Unstable_maybeTerm u i = Inr (e_term (u_entries u ! (i - u_offset u)), True)"
      using maybeTerm_entry [OF assms 3] .
    have b: "add64 i 1 = i + 1" "sub64 (i + 1) (u_offset u) = i + 1 - u_offset u"
      "i + 1 - u_offset u \<le> length (u_entries u)"
      using 3 unstable_wfD(3) [OF assms] by simp_all
    let ?u = "u\<lparr>u_entries := drop (i + 1 - u_offset u) (u_entries u), u_offset := i + 1,
        u_offsetInProgress := max (u_offsetInProgress u) (i + 1)\<rparr>"
    have "numbered (u_offset u + (i + 1 - u_offset u)) (drop (i + 1 - u_offset u) (u_entries u))"
      using numbered_drop [OF unstable_wfD(1) [OF assms]] .
    then have "unstable_wf ?u"
      using 3 assms by (auto simp: unstable_wf_def)
    then show ?thesis
      using m b 3 assms by (simp add: Unstable_stableTo_def Let_def)
  qed
qed

lemma slice_spec:
  assumes "unstable_wf u" "u_offset u \<le> lo" "lo \<le> hi" "hi \<le> u_offset u + length (u_entries u)"
  shows "Unstable_slice u lo hi = Inr (take (hi - lo) (drop (lo - u_offset u) (u_entries u)))"
  using assms unstable_wfD(3) [OF assms(1)]
  by (simp add: Unstable_slice_def Unstable_mustCheckOutOfBounds_def Let_def)

text \<open>\<open>truncateAndAppend\<close> overwrites the log from the index of the first new entry on.\<close>

lemma truncateAndAppend_spec:
  assumes "unstable_wf u" "ents \<noteq> []" "numbered f ents" "0 < f" "f \<le> u_offset u + length (u_entries u)"
    and "f + length ents < W64" "\<And>s. u_snapshot u = Some s \<Longrightarrow> sn_index s < f"
  shows "returns (Unstable_truncateAndAppend u ents) (\<lambda>u'. unstable_wf u' \<and> u_snapshot u' = u_snapshot u \<and>
      u_offset u' = min f (u_offset u) \<and> u_entries u' = take (f - u_offset u) (u_entries u) @ ents \<and>
      u_snapshotInProgress u' = u_snapshotInProgress u \<and>
      u_offsetInProgress u' = min f (u_offsetInProgress u))"
proof -
  have ix: "at_ix ents 0 = Inr (ents ! 0)" "e_index (ents ! 0) = f"
    using assms(2,3) numbered_hd by simp_all
  have wf: "numbered (u_offset u) (u_entries u)" "u_offset u \<le> u_offsetInProgress u"
      "u_offsetInProgress u \<le> u_offset u + length (u_entries u)" "u_offset u + length (u_entries u) < W64"
    using assms(1) by (simp_all add: unstable_wf_def)
  consider (app) "f = u_offset u + length (u_entries u)"
    | (rep) "f \<noteq> u_offset u + length (u_entries u)" "f \<le> u_offset u"
    | (cut) "u_offset u < f" "f < u_offset u + length (u_entries u)" using assms(5) by linarith
  then show ?thesis
  proof cases
    case app
    then show ?thesis
      using assms wf ix by (simp add: Unstable_truncateAndAppend_def unstable_wf_def numbered_append)
  next
    case rep
    then show ?thesis
      using assms wf ix by (simp add: Unstable_truncateAndAppend_def unstable_wf_def)
  next
    case cut
    have s: "Unstable_slice u (u_offset u) f = Inr (take (f - u_offset u) (u_entries u))"
      using slice_spec [OF assms(1), of "u_offset u" f] cut by simp
    have "numbered (u_offset u) (take (f - u_offset u) (u_entries u) @ ents)"
      using cut assms(3) wf(1) by (simp add: numbered_append numbered_take)
    then show ?thesis
      using assms wf ix cut s by (auto simp: Unstable_truncateAndAppend_def unstable_wf_def)
  qed
qed

end
