(* ===== verification/Storage.thy ===== *)
theory Storage
  imports Unstable
begin

text \<open>
  \<open>src/etcd_raft/storage.h\<close>: the interface \<open>Storage\<close> through which the log reads what is
  on stable storage, and \<open>MemoryStorage\<close>, the implementation in an array whose first
  element is a dummy entry at the compaction point. An object that implements the interface
  is seen by the log as the record of its query functions. The call counters of
  \<open>MemoryStorage\<close> (\<open>callStats_\<close>, read by tests only) and its mutex are left out.

  \<open>storage_ok\<close> is the contract of the queries: together they describe one sequence of
  entries above a compaction point. The locale \<open>storage_provider\<close> adds the laws of the
  update \<open>Append\<close> and is interpreted on \<open>MemoryStorage\<close>.
\<close>

section \<open>Definitions\<close>

record storage =
  st_InitialState :: "(HardState \<times> ConfState \<times> error) res"
  st_Entries :: "u64 \<Rightarrow> u64 \<Rightarrow> u64 \<Rightarrow> (entry list \<times> error) res"
  st_Term :: "u64 \<Rightarrow> (u64 \<times> error) res"
  st_LastIndex :: "(u64 \<times> error) res"
  st_FirstIndex :: "(u64 \<times> error) res"
  st_Snapshot :: "(snapshot \<times> error) res"

record MemoryStorage =
  ms_hardState :: HardState
  ms_snapshot :: snapshot
  ms_ents :: "entry list"

definition MemoryStorage_lastIndex :: "MemoryStorage \<Rightarrow> u64 res" where
  "MemoryStorage_lastIndex ms =
     bindR (at_ix (ms_ents ms) 0) (\<lambda>e0. Inr (sub64 (add64 (e_index e0) (length (ms_ents ms))) 1))"

definition MemoryStorage_InitialState :: "MemoryStorage \<Rightarrow> (HardState \<times> ConfState \<times> error) res" where
  "MemoryStorage_InitialState ms = Inr (ms_hardState ms, sm_conf_state (sn_metadata (ms_snapshot ms)), Ok)"

definition MemoryStorage_SetHardState :: "MemoryStorage \<Rightarrow> HardState \<Rightarrow> MemoryStorage" where
  "MemoryStorage_SetHardState ms st = ms\<lparr>ms_hardState := st\<rparr>"

definition MemoryStorage_Entries ::
    "env \<Rightarrow> MemoryStorage \<Rightarrow> u64 \<Rightarrow> u64 \<Rightarrow> u64 \<Rightarrow> (entry list \<times> error) res" where
  "MemoryStorage_Entries E ms lo hi maxSize =
     bindR (at_ix (ms_ents ms) 0) (\<lambda>e0.
       let offset = e_index e0 in
       if lo \<le> offset then Inr ([], ErrCompacted)
       else bindR (MemoryStorage_lastIndex ms) (\<lambda>lasti.
         if add64 lasti 1 < hi then Inl (Panic ''entries' hi is out of bound lastindex'')
         else if length (ms_ents ms) = 1 then Inr ([], ErrUnavailable)
         else bindR (subvec (ms_ents ms) (sub64 lo offset) (sub64 hi offset)) (\<lambda>ret.
                Inr (limitSize E ret maxSize, Ok))))"

definition MemoryStorage_Term :: "MemoryStorage \<Rightarrow> u64 \<Rightarrow> (u64 \<times> error) res" where
  "MemoryStorage_Term ms i =
     bindR (at_ix (ms_ents ms) 0) (\<lambda>e0.
       let offset = e_index e0 in
       if i < offset then Inr (0, ErrCompacted)
       else if length (ms_ents ms) \<le> sub64 i offset then Inr (0, ErrUnavailable)
       else bindR (at_ix (ms_ents ms) (sub64 i offset)) (\<lambda>e. Inr (e_term e, Ok)))"

definition MemoryStorage_LastIndex :: "MemoryStorage \<Rightarrow> (u64 \<times> error) res" where
  "MemoryStorage_LastIndex ms = bindR (MemoryStorage_lastIndex ms) (\<lambda>i. Inr (i, Ok))"

definition MemoryStorage_firstIndex :: "MemoryStorage \<Rightarrow> u64 res" where
  "MemoryStorage_firstIndex ms = bindR (at_ix (ms_ents ms) 0) (\<lambda>e0. Inr (add64 (e_index e0) 1))"

definition MemoryStorage_FirstIndex :: "MemoryStorage \<Rightarrow> (u64 \<times> error) res" where
  "MemoryStorage_FirstIndex ms = bindR (MemoryStorage_firstIndex ms) (\<lambda>i. Inr (i, Ok))"

definition MemoryStorage_Snapshot :: "MemoryStorage \<Rightarrow> (snapshot \<times> error) res" where
  "MemoryStorage_Snapshot ms = Inr (ms_snapshot ms, Ok)"

definition MemoryStorage_ApplySnapshot :: "MemoryStorage \<Rightarrow> snapshot \<Rightarrow> MemoryStorage \<times> error" where
  "MemoryStorage_ApplySnapshot ms snap =
     (if sn_index snap \<le> sn_index (ms_snapshot ms) then (ms, ErrSnapOutOfDate)
      else (ms\<lparr>ms_snapshot := snap,
               ms_ents := [Entry0\<lparr>e_term := sn_term snap, e_index := sn_index snap\<rparr>]\<rparr>, Ok))"

definition MemoryStorage_CreateSnapshot ::
    "MemoryStorage \<Rightarrow> u64 \<Rightarrow> ConfState option \<Rightarrow> string \<Rightarrow> (MemoryStorage \<times> snapshot \<times> error) res" where
  "MemoryStorage_CreateSnapshot ms i cs data =
     (if i \<le> sn_index (ms_snapshot ms) then Inr (ms, Snapshot0, ErrSnapOutOfDate)
      else bindR (at_ix (ms_ents ms) 0) (\<lambda>e0.
        bindR (MemoryStorage_lastIndex ms) (\<lambda>lasti.
          if lasti < i then Inl (Panic ''snapshot is out of bound lastindex'')
          else bindR (at_ix (ms_ents ms) (sub64 i (e_index e0))) (\<lambda>e.
            let md = sn_metadata (ms_snapshot ms);
                md1 = md\<lparr>sm_index := i, sm_term := e_term e\<rparr>;
                md2 = (case cs of Some c \<Rightarrow> md1\<lparr>sm_conf_state := c\<rparr> | None \<Rightarrow> md1);
                s = \<lparr>sn_data = data, sn_metadata = md2\<rparr>
            in Inr (ms\<lparr>ms_snapshot := s\<rparr>, s, Ok)))))"

definition MemoryStorage_Compact :: "MemoryStorage \<Rightarrow> u64 \<Rightarrow> (MemoryStorage \<times> error) res" where
  "MemoryStorage_Compact ms compactIndex =
     bindR (at_ix (ms_ents ms) 0) (\<lambda>e0.
       let offset = e_index e0 in
       if compactIndex \<le> offset then Inr (ms, ErrCompacted)
       else bindR (MemoryStorage_lastIndex ms) (\<lambda>lasti.
         if lasti < compactIndex then Inl (Panic ''compact is out of bound lastindex'')
         else bindR (subvec (ms_ents ms) (sub64 compactIndex offset) (length (ms_ents ms))) (\<lambda>es.
                Inr (ms\<lparr>ms_ents := es\<rparr>, Ok))))"

definition MemoryStorage_Append :: "MemoryStorage \<Rightarrow> entry list \<Rightarrow> (MemoryStorage \<times> error) res" where
  "MemoryStorage_Append ms entries =
     (if entries = [] then Inr (ms, Ok)
      else bindR (MemoryStorage_firstIndex ms) (\<lambda>first.
        let last' = sub64 (add64 (e_index (entries ! 0)) (length entries)) 1 in
        if last' < first then Inr (ms, Ok)
        else bindR (if e_index (entries ! 0) < first
                    then subvec entries (sub64 first (e_index (entries ! 0))) (length entries)
                    else Inr entries) (\<lambda>entries'.
          bindR (at_ix entries' 0) (\<lambda>e.
            bindR (at_ix (ms_ents ms) 0) (\<lambda>e0.
              let offset = sub64 (e_index e) (e_index e0) in
              if offset < length (ms_ents ms)
              then Inr (ms\<lparr>ms_ents := take offset (ms_ents ms) @ entries'\<rparr>, Ok)
              else if length (ms_ents ms) = offset
              then Inr (ms\<lparr>ms_ents := ms_ents ms @ entries'\<rparr>, Ok)
              else Inl (Panic ''missing log entry''))))))"

definition NewMemoryStorage :: MemoryStorage where
  "NewMemoryStorage = \<lparr>ms_hardState = HardState0, ms_snapshot = Snapshot0, ms_ents = [Entry0]\<rparr>"

definition as_Storage :: "env \<Rightarrow> MemoryStorage \<Rightarrow> storage" where
  "as_Storage E ms =
     \<lparr>st_InitialState = MemoryStorage_InitialState ms, st_Entries = MemoryStorage_Entries E ms,
      st_Term = MemoryStorage_Term ms, st_LastIndex = MemoryStorage_LastIndex ms,
      st_FirstIndex = MemoryStorage_FirstIndex ms, st_Snapshot = MemoryStorage_Snapshot ms\<rparr>"

section \<open>The contract\<close>

text \<open>
  \<open>storage_ok E st b t es\<close>: the queries of \<open>st\<close> describe the entries \<open>es\<close>, numbered
  from \<open>b + 1\<close>, above the compaction point \<open>b\<close> whose term is \<open>t\<close>. \<open>Entries\<close> is
  specified for the ranges inside the log, which are the ones the log asks for.
\<close>

definition storage_ok :: "env \<Rightarrow> storage \<Rightarrow> u64 \<Rightarrow> u64 \<Rightarrow> entry list \<Rightarrow> bool" where
  "storage_ok E st b t es \<longleftrightarrow>
     numbered (b + 1) es \<and> b + length es + 1 < W64 \<and>
     st_FirstIndex st = Inr (b + 1, Ok) \<and> st_LastIndex st = Inr (b + length es, Ok) \<and>
     (\<forall>i. i < W64 \<longrightarrow> st_Term st i =
        Inr (if i < b then (0, ErrCompacted) else if i = b then (t, Ok)
             else if i \<le> b + length es then (e_term (es ! (i - b - 1)), Ok) else (0, ErrUnavailable))) \<and>
     (\<forall>lo hi maxSize. b < lo \<longrightarrow> lo < hi \<longrightarrow> hi \<le> b + length es + 1 \<longrightarrow>
        st_Entries st lo hi maxSize =
          Inr (limitSize E (take (hi - lo) (drop (lo - b - 1) es)) maxSize, Ok))"

lemma storage_okD:
  assumes "storage_ok E st b t es"
  shows "numbered (b + 1) es" "b + length es + 1 < W64"
    "st_FirstIndex st = Inr (b + 1, Ok)" "st_LastIndex st = Inr (b + length es, Ok)"
    "i < b \<Longrightarrow> st_Term st i = Inr (0, ErrCompacted)" "st_Term st b = Inr (t, Ok)"
    "b < j \<Longrightarrow> j \<le> b + length es \<Longrightarrow> st_Term st j = Inr (e_term (es ! (j - b - 1)), Ok)"
    "b + length es < k \<Longrightarrow> k < W64 \<Longrightarrow> st_Term st k = Inr (0, ErrUnavailable)"
    "b < lo \<Longrightarrow> lo < hi \<Longrightarrow> hi \<le> b + length es + 1 \<Longrightarrow>
       st_Entries st lo hi maxSize = Inr (limitSize E (take (hi - lo) (drop (lo - b - 1) es)) maxSize, Ok)"
  using assms by (simp_all add: storage_ok_def)

text \<open>
  A provider of the interface that can also be written: \<open>base\<close>, \<open>bterm\<close> and \<open>ents\<close> give
  the log an object holds, and \<open>append\<close> overwrites it from the index of the first new
  entry on.
\<close>

locale storage_provider =
  fixes E :: env
    and view :: "'s \<Rightarrow> storage"
    and inv :: "'s \<Rightarrow> bool"
    and base :: "'s \<Rightarrow> u64"
    and bterm :: "'s \<Rightarrow> u64"
    and ents :: "'s \<Rightarrow> entry list"
    and append :: "'s \<Rightarrow> entry list \<Rightarrow> ('s \<times> error) res"
  assumes view_ok: "inv s \<Longrightarrow> storage_ok E (view s) (base s) (bterm s) (ents s)"
    and append_nil: "append s [] = Inr (s, Ok)"
    and append_spec:
      "inv s \<Longrightarrow> numbered f es \<Longrightarrow> es \<noteq> [] \<Longrightarrow> base s < f \<Longrightarrow> f \<le> base s + length (ents s) + 1 \<Longrightarrow>
       f + length es < W64 \<Longrightarrow>
       returns (append s es) (\<lambda>(s', err). err = Ok \<and> inv s' \<and> base s' = base s \<and> bterm s' = bterm s \<and>
         ents s' = take (f - base s - 1) (ents s) @ es)"
begin

lemma append_idempotent:
  assumes "inv s" "numbered f es" "es \<noteq> []" "base s < f" "f \<le> base s + length (ents s) + 1" "f + length es < W64"
    and "append s es = Inr (s', err)"
  shows "returns (append s' es) (\<lambda>(s'', err). err = Ok \<and> ents s'' = ents s' \<and> base s'' = base s')"
proof -
  have s': "inv s'" "base s' = base s" "ents s' = take (f - base s - 1) (ents s) @ es"
    using append_spec [OF assms(1-6)] assms(7) by auto
  have "f \<le> base s' + length (ents s') + 1" using assms(4,5) s' by simp
  then show ?thesis
    using append_spec [OF s'(1) assms(2,3)] assms(4-6) s' by (auto simp: returns_def)
qed

end

section \<open>MemoryStorage keeps the contract\<close>

definition ms_inv :: "MemoryStorage \<Rightarrow> bool" where
  "ms_inv ms \<longleftrightarrow> ms_ents ms \<noteq> [] \<and> numbered (e_index (ms_ents ms ! 0)) (ms_ents ms) \<and>
     e_index (ms_ents ms ! 0) + length (ms_ents ms) < W64"

definition ms_base :: "MemoryStorage \<Rightarrow> u64" where
  "ms_base ms = e_index (ms_ents ms ! 0)"

definition ms_bterm :: "MemoryStorage \<Rightarrow> u64" where
  "ms_bterm ms = e_term (ms_ents ms ! 0)"

definition ms_log :: "MemoryStorage \<Rightarrow> entry list" where
  "ms_log ms = tl (ms_ents ms)"

lemma ms_invE:
  assumes "ms_inv ms"
  obtains d where "ms_ents ms = d # ms_log ms" "ms_base ms = e_index d" "ms_bterm ms = e_term d"
    "numbered (ms_base ms + 1) (ms_log ms)" "ms_base ms + length (ms_log ms) + 1 < W64"
proof -
  obtain d l where dl: "ms_ents ms = d # l" using assms by (cases "ms_ents ms") (auto simp: ms_inv_def)
  show ?thesis
    using assms by (intro that [of d]) (simp_all add: dl ms_inv_def ms_base_def ms_bterm_def ms_log_def)
qed

lemma ms_Term:
  assumes "ms_inv ms" "i < W64"
  shows "MemoryStorage_Term ms i =
    Inr (if i < ms_base ms then (0, ErrCompacted) else if i = ms_base ms then (ms_bterm ms, Ok)
         else if i \<le> ms_base ms + length (ms_log ms) then (e_term (ms_log ms ! (i - ms_base ms - 1)), Ok)
         else (0, ErrUnavailable))"
proof -
  obtain d where d: "ms_ents ms = d # ms_log ms" "ms_base ms = e_index d" "ms_bterm ms = e_term d"
    using assms(1) by (rule ms_invE)
  show ?thesis using assms(2) by (auto simp: MemoryStorage_Term_def d Let_def nth_Cons')
qed

lemma ms_Entries:
  assumes "ms_inv ms" "ms_base ms < lo" "lo < hi" "hi \<le> ms_base ms + length (ms_log ms) + 1"
  shows "MemoryStorage_Entries E ms lo hi maxSize =
    Inr (limitSize E (take (hi - lo) (drop (lo - ms_base ms - 1) (ms_log ms))) maxSize, Ok)"
proof -
  obtain d where d: "ms_ents ms = d # ms_log ms" "ms_base ms = e_index d"
      "ms_base ms + length (ms_log ms) + 1 < W64"
    using assms(1) by (rule ms_invE)
  have "ms_log ms \<noteq> []" using assms by auto
  moreover have "MemoryStorage_lastIndex ms = Inr (ms_base ms + length (ms_log ms))"
    using d by (simp add: MemoryStorage_lastIndex_def)
  moreover have "drop (lo - ms_base ms) (ms_ents ms) = drop (lo - ms_base ms - 1) (ms_log ms)"
    using assms(2) by (simp add: d(1) drop_Cons')
  ultimately show ?thesis
    using assms(2-4) d by (simp add: MemoryStorage_Entries_def Let_def)
qed

lemma ms_view_ok:
  assumes "ms_inv ms"
  shows "storage_ok E (as_Storage E ms) (ms_base ms) (ms_bterm ms) (ms_log ms)"
proof -
  obtain d where d: "ms_ents ms = d # ms_log ms" "ms_base ms = e_index d"
      "numbered (ms_base ms + 1) (ms_log ms)" "ms_base ms + length (ms_log ms) + 1 < W64"
    using assms by (rule ms_invE)
  have "MemoryStorage_FirstIndex ms = Inr (ms_base ms + 1, Ok)"
    using d(2,4) by (simp add: MemoryStorage_FirstIndex_def MemoryStorage_firstIndex_def d(1))
  moreover have "MemoryStorage_LastIndex ms = Inr (ms_base ms + length (ms_log ms), Ok)"
    using d(2,4) by (simp add: MemoryStorage_LastIndex_def MemoryStorage_lastIndex_def d(1))
  ultimately show ?thesis
    using assms d(3,4) by (simp add: storage_ok_def as_Storage_def ms_Term ms_Entries)
qed

lemma ms_Append:
  assumes "ms_inv ms" "numbered f es" "es \<noteq> []" "ms_base ms < f"
    and "f \<le> ms_base ms + length (ms_log ms) + 1" "f + length es < W64"
  shows "returns (MemoryStorage_Append ms es) (\<lambda>(ms', err). err = Ok \<and> ms_inv ms' \<and>
      ms_base ms' = ms_base ms \<and> ms_bterm ms' = ms_bterm ms \<and>
      ms_log ms' = take (f - ms_base ms - 1) (ms_log ms) @ es)"
proof -
  obtain d where d: "ms_ents ms = d # ms_log ms" "ms_base ms = e_index d" "ms_bterm ms = e_term d"
      "numbered (ms_base ms + 1) (ms_log ms)" "ms_base ms + length (ms_log ms) + 1 < W64"
    using assms(1) by (rule ms_invE)
  define k where "k = f - ms_base ms - 1"
  have k: "f = ms_base ms + Suc k" "k \<le> length (ms_log ms)"
    using assms(4,5) by (simp_all add: k_def)
  have len: "0 < length es" using assms(3) by simp
  have f0: "e_index (es ! 0) = f" using numbered_hd assms(2,3) by blast
  have first: "MemoryStorage_firstIndex ms = Inr (ms_base ms + 1)"
    using d(2,5) by (simp add: MemoryStorage_firstIndex_def d(1))
  have last': "sub64 (add64 f (length es)) 1 = f + length es - 1"
    using assms(4,6) sub64_exact [of 1 "f + length es"] by simp
  have off: "sub64 f (e_index d) = Suc k" using assms(6) k d(2) by simp
  let ?ms = "ms\<lparr>ms_ents := d # take k (ms_log ms) @ es\<rparr>"
  have app: "MemoryStorage_Append ms es = Inr (?ms, Ok)"
    using assms(3,4) len first last' off k
    by (auto simp: MemoryStorage_Append_def f0 d(1) Let_def)
  have num: "numbered (Suc (ms_base ms)) (take k (ms_log ms) @ es)"
    using d(4) assms(2) k by (simp add: numbered_append numbered_take)
  then have "ms_inv ?ms" using assms(6) k d(2) by (simp add: ms_inv_def)
  then show ?thesis
    using app k d(2,3) by (simp add: ms_base_def ms_bterm_def ms_log_def)
qed

interpretation mem: storage_provider E "as_Storage E" ms_inv ms_base ms_bterm ms_log MemoryStorage_Append
  for E
  by unfold_locales (auto simp: ms_view_ok MemoryStorage_Append_def dest: ms_Append)

lemma NewMemoryStorage_inv:
  "ms_inv NewMemoryStorage" "ms_base NewMemoryStorage = 0" "ms_log NewMemoryStorage = []"
  by (simp_all add: NewMemoryStorage_def ms_inv_def ms_base_def ms_log_def Entry0_def W64_def)

lemma ApplySnapshot_spec:
  assumes "ms_inv ms" "sn_index (ms_snapshot ms) < sn_index s" "sn_index s + 1 < W64"
  shows "case MemoryStorage_ApplySnapshot ms s of (ms', err) \<Rightarrow> err = Ok \<and> ms_inv ms' \<and>
    ms_base ms' = sn_index s \<and> ms_bterm ms' = sn_term s \<and> ms_log ms' = [] \<and> ms_snapshot ms' = s"
  using assms
  by (simp add: MemoryStorage_ApplySnapshot_def ms_inv_def ms_base_def ms_bterm_def ms_log_def)

text \<open>Compaction moves the base forward and keeps every later entry and term.\<close>

lemma Compact_spec:
  assumes "ms_inv ms" "ms_base ms < i" "i \<le> ms_base ms + length (ms_log ms)"
  shows "returns (MemoryStorage_Compact ms i) (\<lambda>(ms', err). err = Ok \<and> ms_inv ms' \<and> ms_base ms' = i \<and>
      ms_bterm ms' = e_term (ms_log ms ! (i - ms_base ms - 1)) \<and>
      ms_log ms' = drop (i - ms_base ms) (ms_log ms))"
proof -
  obtain d where d: "ms_ents ms = d # ms_log ms" "ms_base ms = e_index d"
      "numbered (ms_base ms + 1) (ms_log ms)" "ms_base ms + length (ms_log ms) + 1 < W64"
    using assms(1) by (rule ms_invE)
  obtain k where k: "i = ms_base ms + Suc k" "k < length (ms_log ms)"
    using assms(2,3) less_imp_Suc_add [OF assms(2)] by auto
  have last: "MemoryStorage_lastIndex ms = Inr (ms_base ms + length (ms_log ms))"
    using d(2,4) by (simp add: MemoryStorage_lastIndex_def d(1))
  have off: "sub64 i (e_index d) = Suc k" using assms(3) d(2,4) k by simp
  let ?ms = "ms\<lparr>ms_ents := drop k (ms_log ms)\<rparr>"
  have c: "MemoryStorage_Compact ms i = Inr (?ms, Ok)"
    using assms(2,3) k last off d(2) by (simp add: MemoryStorage_Compact_def d(1) Let_def)
  have cons: "drop k (ms_log ms) = ms_log ms ! k # drop (Suc k) (ms_log ms)"
    using k(2) by (rule Cons_nth_drop_Suc [symmetric])
  have ix: "e_index (ms_log ms ! k) = i" using d(3) k by (simp add: numbered_def)
  have "numbered i (drop k (ms_log ms))" using numbered_drop [OF d(3), of k] k(1) by simp
  then have "ms_inv ?ms" using ix d(4) k by (simp add: ms_inv_def cons)
  then show ?thesis
    using c cons ix k by (simp add: ms_base_def ms_bterm_def ms_log_def)
qed

end
