(* ===== verification/RaftLog.thy ===== *)
theory RaftLog
  imports Storage
begin

text \<open>
  \<open>src/etcd_raft/log.h\<close>: the replicated log of a node, stable storage below and the
  unstable tail above, with the commit and apply cursors. The first part translates the
  class; the log it denotes and the proofs about it are in the theory \<open>LogSpec\<close>.
  Arguments of log messages are not evaluated (they could fail only if the storage broke its contract).
\<close>

section \<open>Definitions\<close>

record RaftLog =
  l_storage :: storage
  l_unstable :: Unstable
  l_committed :: u64
  l_applying :: u64
  l_applied :: u64
  l_maxApplyingEntsSize :: u64
  l_applyingEntsSize :: u64
  l_applyingEntsPaused :: bool

definition RaftLog_firstIndex :: "RaftLog \<Rightarrow> u64 res" where
  "RaftLog_firstIndex l =
     (case Unstable_maybeFirstIndex (l_unstable l) of (i, ok) \<Rightarrow>
        if ok then Inr i
        else bindR (st_FirstIndex (l_storage l)) (\<lambda>(index, err).
               if err \<noteq> Ok then Inl (Panic (error_msg err)) else Inr index))"

definition RaftLog_lastIndex :: "RaftLog \<Rightarrow> u64 res" where
  "RaftLog_lastIndex l =
     (case Unstable_maybeLastIndex (l_unstable l) of (i, ok) \<Rightarrow>
        if ok then Inr i
        else bindR (st_LastIndex (l_storage l)) (\<lambda>(i, err).
               if err \<noteq> Ok then Inl (Panic (error_msg err)) else Inr i))"

definition RaftLog_term :: "RaftLog \<Rightarrow> u64 \<Rightarrow> (u64 \<times> error) res" where
  "RaftLog_term l i =
     bindR (Unstable_maybeTerm (l_unstable l) i) (\<lambda>(t, ok).
       if ok then Inr (t, Ok)
       else bindR (RaftLog_firstIndex l) (\<lambda>fi.
         if add64 i 1 < fi then Inr (0, ErrCompacted)
         else bindR (RaftLog_lastIndex l) (\<lambda>li.
           if li < i then Inr (0, ErrUnavailable)
           else bindR (st_Term (l_storage l) i) (\<lambda>(t, err).
             if err = Ok then Inr (t, Ok)
             else if error_eq err ErrCompacted \<or> error_eq err ErrUnavailable then Inr (0, err)
             else Inl (Panic (error_msg err))))))"

definition RaftLog_matchTerm :: "RaftLog \<Rightarrow> u64 \<Rightarrow> u64 \<Rightarrow> bool res" where
  "RaftLog_matchTerm l i te =
     bindR (RaftLog_term l i) (\<lambda>(t, err). Inr (if err \<noteq> Ok then False else t = te))"

definition RaftLog_zeroTermOnOutOfBounds :: "u64 \<times> error \<Rightarrow> u64 res" where
  "RaftLog_zeroTermOnOutOfBounds = (\<lambda>(t, err).
     if err = Ok then Inr t
     else if error_eq err ErrCompacted \<or> error_eq err ErrUnavailable then Inr 0
     else Inl (Panic ''unexpected error''))"

fun RaftLog_findConflict :: "RaftLog \<Rightarrow> entry list \<Rightarrow> u64 res" where
  "RaftLog_findConflict l [] = Inr 0"
| "RaftLog_findConflict l (ne # ents) =
     bindR (RaftLog_matchTerm l (e_index ne) (e_term ne)) (\<lambda>ok.
       if \<not> ok then Inr (e_index ne) else RaftLog_findConflict l ents)"

definition RaftLog_append :: "RaftLog \<Rightarrow> entry list \<Rightarrow> (RaftLog \<times> u64) res" where
  "RaftLog_append l ents =
     (if length ents = 0 then bindR (RaftLog_lastIndex l) (\<lambda>li. Inr (l, li))
      else if sub64 (e_index (ents ! 0)) 1 < l_committed l
      then Inl (Panic ''after is out of range [committed]'')
      else bindR (Unstable_truncateAndAppend (l_unstable l) ents) (\<lambda>u.
        let l' = l\<lparr>l_unstable := u\<rparr>
        in bindR (RaftLog_lastIndex l') (\<lambda>li. Inr (l', li))))"

definition RaftLog_commitTo :: "RaftLog \<Rightarrow> u64 \<Rightarrow> RaftLog res" where
  "RaftLog_commitTo l tocommit =
     (if l_committed l < tocommit
      then bindR (RaftLog_lastIndex l) (\<lambda>li.
        if li < tocommit then Inl (Panic ''tocommit is out of range [lastIndex]'')
        else Inr (l\<lparr>l_committed := tocommit\<rparr>))
      else Inr l)"

definition RaftLog_maybeAppend ::
    "RaftLog \<Rightarrow> u64 \<Rightarrow> u64 \<Rightarrow> u64 \<Rightarrow> entry list \<Rightarrow> (RaftLog \<times> u64 \<times> bool) res" where
  "RaftLog_maybeAppend l index logTerm committed ents =
     bindR (RaftLog_matchTerm l index logTerm) (\<lambda>m.
       if \<not> m then Inr (l, 0, False)
       else let lastnewi = add64 index (length ents) in
         bindR (RaftLog_findConflict l ents) (\<lambda>ci.
           bindR (if ci = 0 then Inr l
                  else if ci \<le> l_committed l then Inl (Panic ''entry conflict with committed entry'')
                  else let offset = add64 index 1 in
                    if length ents < sub64 ci offset then Inl (Panic ''index is out of range'')
                    else let k = to_int32 (sub64 ci offset) in
                      if k < 0 then Inl (Undefined ''vector range'')
                      else bindR (subvec ents (nat k) (length ents)) (\<lambda>es.
                        bindR (RaftLog_append l es) (\<lambda>(l', _). Inr l'))) (\<lambda>l1.
             bindR (RaftLog_commitTo l1 (min committed lastnewi)) (\<lambda>l2. Inr (l2, lastnewi, True)))))"

fun RaftLog_findConflictByTerm :: "RaftLog \<Rightarrow> u64 \<Rightarrow> u64 \<Rightarrow> (u64 \<times> u64) res" where
  "RaftLog_findConflictByTerm l 0 te = Inr (0, 0)"
| "RaftLog_findConflictByTerm l (Suc i) te =
     bindR (RaftLog_term l (Suc i)) (\<lambda>(ourTerm, err).
       if err \<noteq> Ok then Inr (Suc i, 0)
       else if ourTerm \<le> te then Inr (Suc i, ourTerm)
       else RaftLog_findConflictByTerm l i te)"

definition RaftLog_nextUnstableEnts :: "RaftLog \<Rightarrow> entry list res" where
  "RaftLog_nextUnstableEnts l = Unstable_nextEntries (l_unstable l)"

definition RaftLog_hasNextUnstableEnts :: "RaftLog \<Rightarrow> bool res" where
  "RaftLog_hasNextUnstableEnts l = bindR (RaftLog_nextUnstableEnts l) (\<lambda>es. Inr (0 < length es))"

definition RaftLog_hasNextOrInProgressUnstableEnts :: "RaftLog \<Rightarrow> bool" where
  "RaftLog_hasNextOrInProgressUnstableEnts l = (0 < length (u_entries (l_unstable l)))"

definition RaftLog_hasNextOrInProgressSnapshot :: "RaftLog \<Rightarrow> bool" where
  "RaftLog_hasNextOrInProgressSnapshot l = (u_snapshot (l_unstable l) \<noteq> None)"

definition RaftLog_maxAppliableIndex :: "RaftLog \<Rightarrow> bool \<Rightarrow> u64" where
  "RaftLog_maxAppliableIndex l allowUnstable =
     (if \<not> allowUnstable then min (l_committed l) (sub64 (u_offset (l_unstable l)) 1)
      else l_committed l)"

definition RaftLog_mustCheckOutOfBounds :: "RaftLog \<Rightarrow> u64 \<Rightarrow> u64 \<Rightarrow> error res" where
  "RaftLog_mustCheckOutOfBounds l lo hi =
     (if hi < lo then Inl (Panic ''invalid slice'')
      else bindR (RaftLog_firstIndex l) (\<lambda>fi.
        if lo < fi then Inr ErrCompacted
        else bindR (RaftLog_lastIndex l) (\<lambda>li.
          let len = sub64 (add64 li 1) fi in
          if add64 fi len < hi then Inl (Panic ''slice out of bound'') else Inr Ok)))"

text \<open>The part of \<open>slice\<close> that reads from storage: the tail after \<open>Entries\<close> returned.\<close>

definition slice_join ::
    "env \<Rightarrow> RaftLog \<Rightarrow> u64 \<Rightarrow> u64 \<Rightarrow> u64 \<Rightarrow> u64 \<Rightarrow> entry list \<Rightarrow> (entry list \<times> error) res" where
  "slice_join E l lo hi cuti maxSize ents =
     (if hi \<le> u_offset (l_unstable l) then Inr (ents, Ok)
      else if length ents < sub64 cuti lo then Inr (ents, Ok)
      else let sz = entsSize E ents in
        if maxSize \<le> sz then Inr (ents, Ok)
        else bindR (Unstable_slice (l_unstable l) (u_offset (l_unstable l)) hi) (\<lambda>un.
          let unstable = limitSize E un (sub64 maxSize sz) in
          if length unstable = 1 \<and> maxSize < add64 sz (entsSize E unstable) then Inr (ents, Ok)
          else Inr (ents @ unstable, Ok)))"

definition RaftLog_slice :: "env \<Rightarrow> RaftLog \<Rightarrow> u64 \<Rightarrow> u64 \<Rightarrow> u64 \<Rightarrow> (entry list \<times> error) res" where
  "RaftLog_slice E l lo hi maxSize =
     bindR (RaftLog_mustCheckOutOfBounds l lo hi) (\<lambda>err.
       if err \<noteq> Ok then Inr ([], err)
       else if lo = hi then Inr ([], Ok)
       else if u_offset (l_unstable l) \<le> lo
       then bindR (Unstable_slice (l_unstable l) lo hi) (\<lambda>ents. Inr (limitSize E ents maxSize, Ok))
       else let cuti = min hi (u_offset (l_unstable l)) in
         bindR (st_Entries (l_storage l) lo cuti maxSize) (\<lambda>(ents, err).
           if error_eq err ErrCompacted then Inr ([], err)
           else if error_eq err ErrUnavailable then Inl (Panic ''entries is unavailable from storage'')
           else if err \<noteq> Ok then Inl (Panic (error_msg err))
           else slice_join E l lo hi cuti maxSize ents))"

text \<open>The loop of \<open>scan\<close>; the callback updates a state \<open>s\<close> and returns an error. Every
  iteration advances \<open>lo\<close>, so \<open>hi - lo\<close> iterations are enough.\<close>

fun scan_loop ::
    "nat \<Rightarrow> env \<Rightarrow> RaftLog \<Rightarrow> u64 \<Rightarrow> u64 \<Rightarrow> u64 \<Rightarrow> (entry list \<Rightarrow> 's \<Rightarrow> 's \<times> error) \<Rightarrow> 's \<Rightarrow> ('s \<times> error) res" where
  "scan_loop fuel E l lo hi page v s =
     (if lo < hi
      then case fuel of
          0 \<Rightarrow> Inl NoFuel
        | Suc fuel' \<Rightarrow>
            bindR (RaftLog_slice E l lo hi page) (\<lambda>(ents, err).
              if err \<noteq> Ok then Inr (s, err)
              else if ents = [] then Inr (s, UnknownErr ''got 0 entries'')
              else case v ents s of (s', err') \<Rightarrow>
                if err' \<noteq> Ok then Inr (s', err')
                else scan_loop fuel' E l (add64 lo (length ents)) hi page v s')
      else Inr (s, Ok))"

declare scan_loop.simps [simp del]

lemma scan_loop_done [simp]: "hi \<le> lo \<Longrightarrow> scan_loop fuel E l lo hi page v s = Inr (s, Ok)"
  by (subst scan_loop.simps) simp

lemma scan_loop_Suc:
  "lo < hi \<Longrightarrow> scan_loop (Suc fuel) E l lo hi page v s =
     bindR (RaftLog_slice E l lo hi page) (\<lambda>(ents, err).
       if err \<noteq> Ok then Inr (s, err)
       else if ents = [] then Inr (s, UnknownErr ''got 0 entries'')
       else case v ents s of (s', err') \<Rightarrow>
         if err' \<noteq> Ok then Inr (s', err')
         else scan_loop fuel E l (add64 lo (length ents)) hi page v s')"
  by (subst scan_loop.simps) simp

text \<open>\<open>pageSize\<close> is an \<open>int\<close>, converted back to 64 bits in the call of \<open>slice\<close>.\<close>

definition int_to_u64 :: "int \<Rightarrow> u64" where
  "int_to_u64 z = nat (z mod int W64)"

definition RaftLog_scan ::
    "env \<Rightarrow> RaftLog \<Rightarrow> u64 \<Rightarrow> u64 \<Rightarrow> int \<Rightarrow> (entry list \<Rightarrow> 's \<Rightarrow> 's \<times> error) \<Rightarrow> 's \<Rightarrow> ('s \<times> error) res" where
  "RaftLog_scan E l lo hi pageSize v s = scan_loop (hi - lo) E l lo hi (int_to_u64 pageSize) v s"

definition RaftLog_nextCommittedEnts :: "env \<Rightarrow> RaftLog \<Rightarrow> bool \<Rightarrow> entry list res" where
  "RaftLog_nextCommittedEnts E l allowUnstable =
     (if l_applyingEntsPaused l then Inr []
      else if RaftLog_hasNextOrInProgressSnapshot l then Inr []
      else let lo = add64 (l_applying l) 1;
               hi = add64 (RaftLog_maxAppliableIndex l allowUnstable) 1
           in if hi \<le> lo then Inr []
              else let maxSize = sub64 (l_maxApplyingEntsSize l) (l_applyingEntsSize l)
                   in if maxSize \<le> 0 then Inl (Panic ''applying entry size not positive'')
                      else bindR (RaftLog_slice E l lo hi maxSize) (\<lambda>(ents, err).
                        if err \<noteq> Ok then Inl (Panic ''unexpected error when getting unapplied entries'')
                        else Inr ents))"

definition RaftLog_hasNextCommittedEnts :: "RaftLog \<Rightarrow> bool \<Rightarrow> bool" where
  "RaftLog_hasNextCommittedEnts l allowUnstable =
     (if l_applyingEntsPaused l then False
      else if RaftLog_hasNextOrInProgressSnapshot l then False
      else add64 (l_applying l) 1 < add64 (RaftLog_maxAppliableIndex l allowUnstable) 1)"

definition RaftLog_nextUnstableSnapshot :: "RaftLog \<Rightarrow> snapshot option" where
  "RaftLog_nextUnstableSnapshot l = Unstable_nextSnapshot (l_unstable l)"

definition RaftLog_hasNextUnstableSnapshot :: "RaftLog \<Rightarrow> bool" where
  "RaftLog_hasNextUnstableSnapshot l = (Unstable_nextSnapshot (l_unstable l) \<noteq> None)"

definition RaftLog_snapshot :: "RaftLog \<Rightarrow> (snapshot \<times> error) res" where
  "RaftLog_snapshot l =
     (case u_snapshot (l_unstable l) of Some s \<Rightarrow> Inr (s, Ok) | None \<Rightarrow> st_Snapshot (l_storage l))"

definition RaftLog_appliedTo :: "RaftLog \<Rightarrow> u64 \<Rightarrow> u64 \<Rightarrow> RaftLog res" where
  "RaftLog_appliedTo l i sz =
     (if l_committed l < i \<or> i < l_applied l
      then Inl (Panic ''applied is out of range [prevApplied, committed]'')
      else let sz' = (if sz < l_applyingEntsSize l then l_applyingEntsSize l - sz else 0)
           in Inr (l\<lparr>l_applied := i, l_applying := max (l_applying l) i, l_applyingEntsSize := sz',
                     l_applyingEntsPaused := (l_maxApplyingEntsSize l \<le> sz')\<rparr>))"

definition RaftLog_acceptApplying :: "RaftLog \<Rightarrow> u64 \<Rightarrow> u64 \<Rightarrow> bool \<Rightarrow> RaftLog res" where
  "RaftLog_acceptApplying l i sz allowUnstable =
     (if l_committed l < i then Inl (Panic ''applying is out of range'')
      else let sz' = add64 (l_applyingEntsSize l) sz
           in Inr (l\<lparr>l_applying := i, l_applyingEntsSize := sz',
                     l_applyingEntsPaused := (l_maxApplyingEntsSize l \<le> sz' \<or>
                       i < RaftLog_maxAppliableIndex l allowUnstable)\<rparr>))"

definition RaftLog_stableTo :: "RaftLog \<Rightarrow> u64 \<Rightarrow> u64 \<Rightarrow> RaftLog res" where
  "RaftLog_stableTo l i t =
     bindR (Unstable_stableTo (l_unstable l) i t) (\<lambda>u. Inr (l\<lparr>l_unstable := u\<rparr>))"

definition RaftLog_stableSnapTo :: "RaftLog \<Rightarrow> u64 \<Rightarrow> RaftLog" where
  "RaftLog_stableSnapTo l i = l\<lparr>l_unstable := Unstable_stableSnapTo (l_unstable l) i\<rparr>"

definition RaftLog_acceptUnstable :: "RaftLog \<Rightarrow> RaftLog" where
  "RaftLog_acceptUnstable l = l\<lparr>l_unstable := Unstable_acceptInProgress (l_unstable l)\<rparr>"

definition RaftLog_lastTerm :: "RaftLog \<Rightarrow> u64 res" where
  "RaftLog_lastTerm l =
     bindR (RaftLog_lastIndex l) (\<lambda>li.
       bindR (RaftLog_term l li) (\<lambda>(t, err).
         if err \<noteq> Ok then Inl (Panic ''unexpected error when getting the last term'') else Inr t))"

definition RaftLog_entries :: "env \<Rightarrow> RaftLog \<Rightarrow> u64 \<Rightarrow> u64 \<Rightarrow> (entry list \<times> error) res" where
  "RaftLog_entries E l i maxSize =
     bindR (RaftLog_lastIndex l) (\<lambda>li.
       if li < i then Inr ([], Ok) else RaftLog_slice E l i (add64 li 1) maxSize)"

text \<open>\<open>allEntries\<close> retries when the first index was compacted meanwhile; whether it returns
  depends on the storage.\<close>

partial_function (option) RaftLog_allEntries :: "env \<Rightarrow> RaftLog \<Rightarrow> entry list res option" where
  "RaftLog_allEntries E l =
     (case bindR (RaftLog_firstIndex l) (\<lambda>fi. RaftLog_entries E l fi noLimit) of
        Inl f \<Rightarrow> Some (Inl f)
      | Inr (ents, err) \<Rightarrow>
          if err = Ok then Some (Inr ents)
          else if error_eq err ErrCompacted then RaftLog_allEntries E l
          else Some (Inl (Panic (error_msg err))))"

definition RaftLog_isUpToDate :: "RaftLog \<Rightarrow> u64 \<Rightarrow> u64 \<Rightarrow> bool res" where
  "RaftLog_isUpToDate l lasti te =
     bindR (RaftLog_lastTerm l) (\<lambda>lt.
       if lt < te then Inr True
       else if te = lt then bindR (RaftLog_lastIndex l) (\<lambda>li. Inr (li \<le> lasti))
       else Inr False)"

definition RaftLog_maybeCommit :: "RaftLog \<Rightarrow> u64 \<Rightarrow> u64 \<Rightarrow> (RaftLog \<times> bool) res" where
  "RaftLog_maybeCommit l maxIndex te =
     (if l_committed l < maxIndex \<and> te \<noteq> 0
      then bindR (RaftLog_term l maxIndex) (\<lambda>tt.
        bindR (RaftLog_zeroTermOnOutOfBounds tt) (\<lambda>t.
          if t = te then bindR (RaftLog_commitTo l maxIndex) (\<lambda>l'. Inr (l', True))
          else Inr (l, False)))
      else Inr (l, False))"

definition RaftLog_restore :: "RaftLog \<Rightarrow> snapshot \<Rightarrow> RaftLog" where
  "RaftLog_restore l s =
     l\<lparr>l_committed := sn_index s, l_unstable := Unstable_restore (l_unstable l) s\<rparr>"

definition newLogWithSize :: "storage \<Rightarrow> u64 \<Rightarrow> RaftLog res" where
  "newLogWithSize st maxApplyingEntsSize =
     bindR (st_FirstIndex st) (\<lambda>(firstIndex, err).
       if err \<noteq> Ok then Inl (Panic (error_msg err))
       else bindR (st_LastIndex st) (\<lambda>(lastIndex, err).
         if err \<noteq> Ok then Inl (Panic (error_msg err))
         else Inr \<lparr>l_storage = st,
                   l_unstable = Unstable0\<lparr>u_offset := add64 lastIndex 1, u_offsetInProgress := add64 lastIndex 1\<rparr>,
                   l_committed = sub64 firstIndex 1, l_applying = sub64 firstIndex 1,
                   l_applied = sub64 firstIndex 1, l_maxApplyingEntsSize = maxApplyingEntsSize,
                   l_applyingEntsSize = 0, l_applyingEntsPaused = False\<rparr>))"

definition newLog :: "storage \<Rightarrow> RaftLog res" where
  "newLog st = newLogWithSize st noLimit"

end
