(* ===== verification/LogSpec.thy ===== *)
theory LogSpec
  imports RaftLog
begin

text \<open>
  The log a \<open>RaftLog\<close> denotes, and the operations of \<open>log.h\<close> against it. An abstract log
  (\<open>alog\<close>) is a compaction point with its term and the entries above it. \<open>log_abs E l a\<close>
  says that the storage and the unstable tail of \<open>l\<close> together hold the abstract log \<open>a\<close>;
  it is the data invariant of \<open>RaftLog\<close>. Queries are equal to their specification on
  \<open>a\<close>, and updates take \<open>a\<close> to the log their specification says.
\<close>

section \<open>Abstract logs\<close>

record alog =
  al_base :: u64
  al_bterm :: u64
  al_ents :: "entry list"

definition al_last :: "alog \<Rightarrow> u64" where
  "al_last a = al_base a + length (al_ents a)"

definition al_term :: "alog \<Rightarrow> u64 \<Rightarrow> u64 \<times> error" where
  "al_term a i =
     (if i < al_base a then (0, ErrCompacted)
      else if i = al_base a then (al_bterm a, Ok)
      else if i \<le> al_last a then (e_term (al_ents a ! (i - al_base a - 1)), Ok)
      else (0, ErrUnavailable))"

definition al_slice :: "alog \<Rightarrow> u64 \<Rightarrow> u64 \<Rightarrow> entry list" where
  "al_slice a lo hi = take (hi - lo) (drop (lo - al_base a - 1) (al_ents a))"

definition al_write :: "alog \<Rightarrow> u64 \<Rightarrow> entry list \<Rightarrow> alog" where
  "al_write a f es = a\<lparr>al_ents := take (f - al_base a - 1) (al_ents a) @ es\<rparr>"

definition al_entry :: "alog \<Rightarrow> u64 \<Rightarrow> entry" where
  "al_entry a i = al_ents a ! (i - al_base a - 1)"

definition al_wf :: "alog \<Rightarrow> bool" where
  "al_wf a \<longleftrightarrow> numbered (al_base a + 1) (al_ents a) \<and> al_last a + 1 < W64"

lemma al_slice_length: "al_base a < lo \<Longrightarrow> lo \<le> hi \<Longrightarrow> hi \<le> al_last a + 1 \<Longrightarrow> length (al_slice a lo hi) = hi - lo"
  by (simp add: al_slice_def al_last_def)

lemma al_slice_nth:
  "al_base a < lo \<Longrightarrow> hi \<le> al_last a + 1 \<Longrightarrow> k < hi - lo \<Longrightarrow>
   al_slice a lo hi ! k = al_ents a ! (lo - al_base a - 1 + k)"
  by (simp add: al_slice_def al_last_def)

lemma al_slice_numbered: "al_wf a \<Longrightarrow> al_base a < lo \<Longrightarrow> numbered lo (al_slice a lo hi)"
  using numbered_take [OF numbered_drop [of "al_base a + 1" "al_ents a" "lo - al_base a - 1"]]
  by (simp add: al_slice_def al_wf_def)

lemma al_term_Ok_iff: "snd (al_term a i) = Ok \<longleftrightarrow> al_base a \<le> i \<and> i \<le> al_last a"
  by (auto simp: al_term_def al_last_def)

lemma al_term_cases:
  "i < al_base a \<Longrightarrow> al_term a i = (0, ErrCompacted)"
  "al_term a (al_base a) = (al_bterm a, Ok)"
  "al_base a < i \<Longrightarrow> i \<le> al_last a \<Longrightarrow> al_term a i = (e_term (al_ents a ! (i - al_base a - 1)), Ok)"
  "al_last a < i \<Longrightarrow> al_term a i = (0, ErrUnavailable)"
  by (auto simp: al_term_def al_last_def)

section \<open>The log of a RaftLog\<close>

definition log_parts :: "env \<Rightarrow> RaftLog \<Rightarrow> u64 \<Rightarrow> u64 \<Rightarrow> entry list \<Rightarrow> bool" where
  "log_parts E l b t es \<longleftrightarrow>
     storage_ok E (l_storage l) b t es \<and> unstable_wf (l_unstable l) \<and>
     (case u_snapshot (l_unstable l) of
        Some s \<Rightarrow> u_offset (l_unstable l) = sn_index s + 1
      | None \<Rightarrow> b < u_offset (l_unstable l) \<and> u_offset (l_unstable l) \<le> b + length es + 1 \<and>
          (u_entries (l_unstable l) = [] \<longrightarrow> u_offset (l_unstable l) = b + length es + 1))"

definition alog_of :: "RaftLog \<Rightarrow> u64 \<Rightarrow> u64 \<Rightarrow> entry list \<Rightarrow> alog" where
  "alog_of l b t es =
     (case u_snapshot (l_unstable l) of
        Some s \<Rightarrow> \<lparr>al_base = sn_index s, al_bterm = sn_term s, al_ents = u_entries (l_unstable l)\<rparr>
      | None \<Rightarrow> \<lparr>al_base = b, al_bterm = t,
                 al_ents = take (u_offset (l_unstable l) - b - 1) es @ u_entries (l_unstable l)\<rparr>)"

definition log_abs :: "env \<Rightarrow> RaftLog \<Rightarrow> alog \<Rightarrow> bool" where
  "log_abs E l a \<longleftrightarrow> (\<exists>b t es. log_parts E l b t es \<and> a = alog_of l b t es)"

text \<open>The two shapes: above an unstable snapshot, or above the storage.\<close>

lemma log_abs_cases:
  assumes "log_abs E l a"
  obtains (snap) s where "u_snapshot (l_unstable l) = Some s" "unstable_wf (l_unstable l)"
      "u_offset (l_unstable l) = sn_index s + 1" "al_base a = sn_index s" "al_bterm a = sn_term s"
      "al_ents a = u_entries (l_unstable l)" "al_last a + 1 < W64"
      "u_offset (l_unstable l) + length (u_entries (l_unstable l)) = al_last a + 1"
  | (stor) es where "u_snapshot (l_unstable l) = None" "unstable_wf (l_unstable l)"
      "storage_ok E (l_storage l) (al_base a) (al_bterm a) es"
      "al_base a < u_offset (l_unstable l)" "u_offset (l_unstable l) \<le> al_base a + length es + 1"
      "u_entries (l_unstable l) = [] \<Longrightarrow> u_offset (l_unstable l) = al_base a + length es + 1"
      "al_ents a = take (u_offset (l_unstable l) - al_base a - 1) es @ u_entries (l_unstable l)"
      "al_last a + 1 < W64"
      "u_offset (l_unstable l) + length (u_entries (l_unstable l)) = al_last a + 1"
proof -
  obtain b t es where p: "log_parts E l b t es" "a = alog_of l b t es"
    using assms by (auto simp: log_abs_def)
  show ?thesis
  proof (cases "u_snapshot (l_unstable l)")
    case (Some s)
    then show ?thesis
      using p unstable_wfD(3) [of "l_unstable l"]
      by (intro snap [of s]) (auto simp: log_parts_def alog_of_def al_last_def)
  next
    case None
    then show ?thesis
      using p unstable_wfD(3) [of "l_unstable l"]
      by (intro stor [of es]) (auto simp: log_parts_def alog_of_def al_last_def min_def)
  qed
qed

lemma log_abs_wf:
  assumes "log_abs E l a"
  shows "al_wf a"
  using assms
proof (cases rule: log_abs_cases)
  case (snap s)
  then show ?thesis using unstable_wfD(1) [OF snap(2)] by (simp add: al_wf_def)
next
  case (stor es)
  have "numbered (al_base a + 1) es" using storage_okD(1) [OF stor(3)] .
  then show ?thesis
    using unstable_wfD(1) [OF stor(2)] stor(4,5,8) by (simp add: al_wf_def stor(7) numbered_append numbered_take)
qed

lemma firstIndex_abs:
  assumes "log_abs E l a"
  shows "RaftLog_firstIndex l = Inr (al_base a + 1)"
  using assms
proof (cases rule: log_abs_cases)
  case (snap s)
  then show ?thesis by (simp add: RaftLog_firstIndex_def Unstable_maybeFirstIndex_def al_last_def)
next
  case (stor es)
  then show ?thesis
    using storage_okD(3) [OF stor(3)] by (simp add: RaftLog_firstIndex_def Unstable_maybeFirstIndex_def)
qed

lemma lastIndex_abs:
  assumes "log_abs E l a"
  shows "RaftLog_lastIndex l = Inr (al_last a)"
proof (cases "u_entries (l_unstable l) = []")
  case True
  from assms show ?thesis
  proof (cases rule: log_abs_cases)
    case (snap s)
    then show ?thesis using True by (simp add: RaftLog_lastIndex_def Unstable_maybeLastIndex_def)
  next
    case (stor es)
    then show ?thesis
      using True storage_okD(4) [OF stor(3)] by (simp add: RaftLog_lastIndex_def Unstable_maybeLastIndex_def)
  qed
next
  case False
  have "unstable_wf (l_unstable l)" "u_offset (l_unstable l) + length (u_entries (l_unstable l)) = al_last a + 1"
    using assms by (auto elim: log_abs_cases)
  then show ?thesis using False maybeLastIndex_wf by (simp add: RaftLog_lastIndex_def)
qed

lemma term_abs:
  assumes "log_abs E l a" "i + 1 < W64"
  shows "RaftLog_term l i = Inr (al_term a i)"
  using assms(1)
proof (cases rule: log_abs_cases)
  case (snap s)
  consider "i < al_base a" | "i = al_base a" | "al_base a < i" "i \<le> al_last a" | "al_last a < i" by linarith
  then show ?thesis
  proof cases
    case 3
    then have "Unstable_maybeTerm (l_unstable l) i = Inr (e_term (al_ents a ! (i - al_base a - 1)), True)"
      using maybeTerm_entry [OF snap(2), of i] snap by simp
    then show ?thesis using 3 by (simp add: RaftLog_term_def al_term_cases)
  next
    case 4
    then have "Unstable_maybeTerm (l_unstable l) i = Inr (0, False)"
      using maybeTerm_above [OF snap(2), of i] snap by simp
    then show ?thesis
      using 4 assms(2) snap(4) by (simp add: RaftLog_term_def firstIndex_abs [OF assms(1)] lastIndex_abs [OF assms(1)]
          al_term_cases al_last_def)
  qed (use snap assms(2) in \<open>auto simp: RaftLog_term_def maybeTerm_below al_term_def firstIndex_abs [OF assms(1)]\<close>)
next
  case (stor es)
  consider "i < u_offset (l_unstable l)" | "u_offset (l_unstable l) \<le> i" "i \<le> al_last a" | "al_last a < i" by linarith
  then show ?thesis
  proof cases
    case 1
    then have u: "Unstable_maybeTerm (l_unstable l) i = Inr (0, False)" using stor(1) by (simp add: maybeTerm_below)
    have le: "i \<le> al_last a" using 1 stor(9) by linarith
    have "i \<le> al_base a + length es" using 1 stor(5) by linarith
    moreover have "al_ents a ! (i - al_base a - 1) = es ! (i - al_base a - 1)" if "al_base a < i"
      using that 1 stor(5) by (simp add: stor(7) nth_append)
    ultimately show ?thesis
      using u le assms(2) storage_okD(5-7) [OF stor(3)]
      by (auto simp: RaftLog_term_def firstIndex_abs [OF assms(1)] lastIndex_abs [OF assms(1)] al_term_def)
  next
    case 2
    then have "Unstable_maybeTerm (l_unstable l) i = Inr (e_term (u_entries (l_unstable l) ! (i - u_offset (l_unstable l))), True)"
      using maybeTerm_entry [OF stor(2), of i] stor(9) by simp
    moreover have "al_ents a ! (i - al_base a - 1) = u_entries (l_unstable l) ! (i - u_offset (l_unstable l))"
      using 2 stor(4,5) by (simp add: stor(7) nth_append)
    ultimately show ?thesis using 2 stor(4) by (simp add: RaftLog_term_def al_term_cases)
  next
    case 3
    then have "Unstable_maybeTerm (l_unstable l) i = Inr (0, False)"
      using maybeTerm_above [OF stor(2), of i] stor(9) by simp
    then show ?thesis
      using 3 assms(2) by (simp add: RaftLog_term_def firstIndex_abs [OF assms(1)] lastIndex_abs [OF assms(1)]
          al_term_cases al_last_def)
  qed
qed

lemma matchTerm_abs:
  "log_abs E l a \<Longrightarrow> i + 1 < W64 \<Longrightarrow> RaftLog_matchTerm l i te = Inr (al_term a i = (te, Ok))"
  by (simp add: RaftLog_matchTerm_def term_abs split: prod.split)

lemma lastTerm_abs:
  assumes "log_abs E l a"
  shows "RaftLog_lastTerm l = Inr (fst (al_term a (al_last a)))"
proof -
  have "snd (al_term a (al_last a)) = Ok" by (simp add: al_term_Ok_iff al_last_def)
  moreover have "al_last a + 1 < W64" using log_abs_wf [OF assms] by (simp add: al_wf_def)
  ultimately show ?thesis
    using term_abs [OF assms] by (auto simp: RaftLog_lastTerm_def lastIndex_abs [OF assms] split: prod.split)
qed

lemma isUpToDate_abs:
  assumes "log_abs E l a"
  shows "RaftLog_isUpToDate l lasti te =
    Inr (fst (al_term a (al_last a)) < te \<or> (te = fst (al_term a (al_last a)) \<and> al_last a \<le> lasti))"
  by (simp add: RaftLog_isUpToDate_def lastTerm_abs [OF assms] lastIndex_abs [OF assms])

section \<open>Reading a range\<close>

text \<open>Every entry of a log has a positive index, so its encoding is not empty.\<close>

lemma ByteSizeLong_pos: "e_index e \<noteq> 0 \<Longrightarrow> 0 < Entry_ByteSizeLong E e"
  by (simp add: Entry_ByteSizeLong_def)

lemma limitSize_from_shift:
  "k \<le> maxSize \<Longrightarrow> k + s + ents_bytes E es < W64 \<Longrightarrow> maxSize < W64 \<Longrightarrow>
   limitSize_from E (maxSize - k) s es = limitSize_from E maxSize (k + s) es"
proof (induction es arbitrary: s)
  case (Cons e es)
  have "add64 s (Entry_ByteSizeLong E e) = s + Entry_ByteSizeLong E e"
      "add64 (k + s) (Entry_ByteSizeLong E e) = k + s + Entry_ByteSizeLong E e"
    using Cons.prems by simp_all
  moreover have "maxSize - k < s + Entry_ByteSizeLong E e \<longleftrightarrow> maxSize < k + s + Entry_ByteSizeLong E e"
    using Cons.prems(1) by linarith
  ultimately show ?case
    using Cons.IH [of "s + Entry_ByteSizeLong E e"] Cons.prems by (simp add: Let_def add.assoc)
qed simp

text \<open>Cutting a concatenation: the second part only counts when the first is kept whole.\<close>

lemma limitSize_from_append:
  "s + ents_bytes E xs < W64 \<Longrightarrow>
   limitSize_from E maxSize s (xs @ ys) =
     (if length (limitSize_from E maxSize s xs) < length xs then limitSize_from E maxSize s xs
      else xs @ limitSize_from E maxSize (s + ents_bytes E xs) ys)"
proof (induction xs arbitrary: s)
  case (Cons x xs)
  have "add64 s (Entry_ByteSizeLong E x) = s + Entry_ByteSizeLong E x" using Cons.prems by simp
  then show ?case
    using Cons.IH [of "s + Entry_ByteSizeLong E x"] Cons.prems by (simp add: Let_def add.assoc)
qed simp

lemma limitSize_append:
  assumes "xs \<noteq> []" "ents_bytes E xs < W64"
  shows "limitSize E (xs @ ys) maxSize =
     (if length (limitSize E xs maxSize) < length xs then limitSize E xs maxSize
      else xs @ limitSize_from E maxSize (ents_bytes E xs) ys)"
proof -
  obtain x xs' where "xs = x # xs'" using assms(1) by (cases xs) auto
  then show ?thesis using limitSize_from_append [of "Entry_ByteSizeLong E x" E xs' maxSize ys] assms(2) by simp
qed

lemma limitSize_from_full:
  "maxSize \<le> s \<Longrightarrow> s < W64 \<Longrightarrow> s + ents_bytes E es < W64 \<Longrightarrow> (\<And>e. e \<in> set es \<Longrightarrow> e_index e \<noteq> 0) \<Longrightarrow>
   limitSize_from E maxSize s es = []"
  using ByteSizeLong_pos [of "hd es" E] by (cases es) (auto simp: Let_def)

text \<open>The join of \<open>slice\<close> computes the same cut as one \<open>limitSize\<close> over the whole range.\<close>

lemma limitSize_join:
  assumes "st \<noteq> []" "un \<noteq> []" "ents_bytes E (st @ un) < W64" "maxSize < W64"
    and "\<And>e. e \<in> set un \<Longrightarrow> e_index e \<noteq> 0" "length (limitSize E st maxSize) = length st"
  shows "limitSize E (st @ un) maxSize =
    (if maxSize \<le> entsSize E st then st
     else let u = limitSize E un (sub64 maxSize (entsSize E st))
          in if length u = 1 \<and> maxSize < add64 (entsSize E st) (entsSize E u) then st else st @ u)"
proof -
  let ?k = "ents_bytes E st"
  have k: "entsSize E st = ?k" "?k < W64" using assms(3) entsSize_exact [of E st] by simp_all
  have whole: "limitSize E (st @ un) maxSize = st @ limitSize_from E maxSize ?k un"
    using limitSize_append [OF assms(1) k(2)] assms(6) by simp
  obtain e es where un: "un = e # es" using assms(2) by (cases un) auto
  let ?s = "Entry_ByteSizeLong E e"
  show ?thesis
  proof (cases "maxSize \<le> ?k")
    case True
    then show ?thesis using whole k limitSize_from_full [OF True k(2)] assms(3,5) by simp
  next
    case False
    let ?u = "limitSize E un (maxSize - ?k)"
    have sub: "sub64 maxSize (entsSize E st) = maxSize - ?k" using False k assms(4) by simp
    have u: "?u = e # limitSize_from E maxSize (?k + ?s) es"
      using limitSize_from_shift [of ?k maxSize ?s E es] False assms(3,4) un by simp
    have add: "add64 ?k ?s = ?k + ?s" using assms(3) un by simp
    show ?thesis
    proof (cases "maxSize < ?k + ?s")
      case True
      then have "limitSize_from E maxSize (?k + ?s) es = []"
        using limitSize_from_full [of maxSize "?k + ?s" E es] assms(3,5) un by simp
      then show ?thesis
        using True False whole k sub u add un assms(3) by (simp add: Let_def entsSize_exact)
    next
      case False2: False
      then have "maxSize \<ge> add64 (entsSize E st) (entsSize E ?u)" if "length ?u = 1"
        using that u k add assms(3) un by (simp add: entsSize_exact)
      then show ?thesis
        using False False2 whole k sub u add un by (auto simp: Let_def)
    qed
  qed
qed

lemma mustCheckOutOfBounds_abs:
  assumes "log_abs E l a" "lo \<le> hi" "hi \<le> al_last a + 1"
  shows "RaftLog_mustCheckOutOfBounds l lo hi = Inr (if lo \<le> al_base a then ErrCompacted else Ok)"
proof -
  have "al_last a + 1 < W64" "al_base a \<le> al_last a"
    using log_abs_wf [OF assms(1)] by (simp_all add: al_wf_def al_last_def)
  then have "add64 (al_base a + 1) (sub64 (add64 (al_last a) 1) (al_base a + 1)) = al_last a + 1" by simp
  then show ?thesis
    using assms(2,3) by (simp add: RaftLog_mustCheckOutOfBounds_def firstIndex_abs [OF assms(1)]
        lastIndex_abs [OF assms(1)] Let_def)
qed

lemma al_slice_index_pos: "al_wf a \<Longrightarrow> al_base a < lo \<Longrightarrow> e \<in> set (al_slice a lo hi) \<Longrightarrow> e_index e \<noteq> 0"
  using al_slice_numbered [of a lo hi] by (auto simp: numbered_def in_set_conv_nth)

lemma slice_above:
  assumes "log_abs E l a" "u_offset (l_unstable l) \<le> lo" "lo \<le> hi" "hi \<le> al_last a + 1"
  shows "Unstable_slice (l_unstable l) lo hi = Inr (al_slice a lo hi)"
  using assms(1)
proof (cases rule: log_abs_cases)
  case (snap s)
  then show ?thesis using slice_spec [OF snap(2) assms(2,3)] assms(4) by (simp add: al_slice_def)
next
  case (stor es)
  have "drop (lo - al_base a - 1) (al_ents a) = drop (lo - u_offset (l_unstable l)) (u_entries (l_unstable l))"
    using assms(2) stor(4,5) by (simp add: stor(7))
  then show ?thesis
    using slice_spec [OF stor(2) assms(2,3)] assms(4) stor(9) by (simp add: al_slice_def)
qed

lemma slice_below:
  assumes "u_snapshot (l_unstable l) = None" "storage_ok E (l_storage l) (al_base a) (al_bterm a) es"
    and "al_ents a = take (u_offset (l_unstable l) - al_base a - 1) es @ u_entries (l_unstable l)"
    and "u_offset (l_unstable l) \<le> al_base a + length es + 1"
    and "al_base a < lo" "lo < hi" "hi \<le> u_offset (l_unstable l)"
  shows "st_Entries (l_storage l) lo hi maxSize = Inr (limitSize E (al_slice a lo hi) maxSize, Ok)"
proof -
  have "take (hi - lo) (drop (lo - al_base a - 1) es) = al_slice a lo hi"
    using assms(4-7) by (simp add: al_slice_def assms(3) drop_take min_def take_take)
  then show ?thesis using storage_okD(9) [OF assms(2,5,6)] assms(4,7) by simp
qed

lemma al_slice_split:
  assumes "al_base a < lo" "lo \<le> mid" "mid \<le> hi"
  shows "al_slice a lo hi = al_slice a lo mid @ al_slice a mid hi"
proof -
  have "take (hi - lo) xs = take (mid - lo) xs @ take (hi - mid) (drop (mid - lo) xs)" for xs :: "entry list"
    using assms(2,3) take_add [of "mid - lo" "hi - mid" xs] by simp
  moreover have "drop (mid - lo) (drop (lo - al_base a - 1) (al_ents a)) = drop (mid - al_base a - 1) (al_ents a)"
    using assms by simp
  ultimately show ?thesis unfolding al_slice_def by metis
qed

text \<open>The range that straddles the boundary between storage and the unstable tail.\<close>

lemma slice_join_abs:
  assumes "log_abs E l a" "u_snapshot (l_unstable l) = None" "al_base a < u_offset (l_unstable l)"
    and "al_base a < lo" "lo < u_offset (l_unstable l)" "u_offset (l_unstable l) < hi"
    and "hi \<le> al_last a + 1" "maxSize < W64" "ents_bytes E (al_slice a lo hi) < W64"
  defines "off \<equiv> u_offset (l_unstable l)"
  shows "slice_join E l lo hi off maxSize (limitSize E (al_slice a lo off) maxSize) =
    Inr (limitSize E (al_slice a lo hi) maxSize, Ok)"
proof -
  let ?st = "al_slice a lo off" and ?un = "al_slice a off hi"
  have split: "al_slice a lo hi = ?st @ ?un" using al_slice_split [OF assms(4)] assms(5,6) by (simp add: off_def)
  have lens: "length ?st = off - lo" "length ?un = hi - off"
    using al_slice_length [of a lo off] al_slice_length [of a off hi] assms(3-7) by (simp_all add: off_def)
  then have ne: "?st \<noteq> []" "?un \<noteq> []" using assms(5,6) by (auto simp: off_def)
  have "al_last a + 1 < W64" using log_abs_wf [OF assms(1)] by (simp add: al_wf_def)
  then have sub: "sub64 off lo = off - lo" using assms(5-7) by (simp add: off_def)
  have un: "Unstable_slice (l_unstable l) off hi = Inr ?un"
    using slice_above [OF assms(1), of off hi] assms(6,7) by (simp add: off_def)
  have bytes: "ents_bytes E ?st < W64" "ents_bytes E (?st @ ?un) < W64" using assms(9) split by simp_all
  show ?thesis
  proof (cases "length (limitSize E ?st maxSize) < length ?st")
    case True
    then show ?thesis
      using lens sub assms(6) limitSize_append [OF ne(1) bytes(1), of ?un maxSize]
      by (simp add: slice_join_def split off_def)
  next
    case False
    then have eq: "length (limitSize E ?st maxSize) = length ?st" "limitSize E ?st maxSize = ?st"
      using limitSize_length [of E ?st maxSize] limitSize_take [of E ?st maxSize] by simp_all
    have "\<And>e. e \<in> set ?un \<Longrightarrow> e_index e \<noteq> 0"
      using al_slice_index_pos [OF log_abs_wf [OF assms(1)]] assms(3) by (simp add: off_def)
    from limitSize_join [OF ne bytes(2) assms(8) this eq(1)] show ?thesis
      using lens sub assms(6) eq(2) un by (simp add: slice_join_def split off_def Let_def)
  qed
qed

lemma slice_abs:
  assumes "log_abs E l a" "al_base a < lo" "lo \<le> hi" "hi \<le> al_last a + 1" "maxSize < W64"
    and "ents_bytes E (al_slice a lo hi) < W64"
  shows "RaftLog_slice E l lo hi maxSize = Inr (limitSize E (al_slice a lo hi) maxSize, Ok)"
proof -
  let ?off = "u_offset (l_unstable l)"
  have chk: "RaftLog_mustCheckOutOfBounds l lo hi = Inr Ok"
    using mustCheckOutOfBounds_abs [OF assms(1,3,4)] assms(2) by simp
  consider (eq) "lo = hi" | (above) "lo < hi" "?off \<le> lo" | (below) "lo < hi" "lo < ?off" using assms(3) by linarith
  then show ?thesis
  proof cases
    case eq
    then show ?thesis using chk by (simp add: RaftLog_slice_def al_slice_def)
  next
    case above
    then show ?thesis
      using slice_above [OF assms(1) above(2) assms(3,4)] by (simp add: RaftLog_slice_def chk)
  next
    case below
    from assms(1) show ?thesis
    proof (cases rule: log_abs_cases)
      case (snap s)
      then show ?thesis using below assms(2) by simp
    next
      case (stor es)
      have ent: "st_Entries (l_storage l) lo (min hi ?off) maxSize =
          Inr (limitSize E (al_slice a lo (min hi ?off)) maxSize, Ok)"
        using slice_below [OF stor(1,3,7,5) assms(2), of "min hi ?off"] below by simp
      have S: "RaftLog_slice E l lo hi maxSize =
          slice_join E l lo hi (min hi ?off) maxSize (limitSize E (al_slice a lo (min hi ?off)) maxSize)"
        using below by (simp add: RaftLog_slice_def chk ent Let_def error_eq_def)
      show ?thesis
      proof (cases "hi \<le> ?off")
        case True
        then show ?thesis using S by (simp add: slice_join_def min_absorb1)
      next
        case False
        then show ?thesis
          using S slice_join_abs [OF assms(1) stor(1,4) assms(2) below(2) _ assms(4-6)] by (simp add: min_absorb2)
      qed
    qed
  qed
qed

section \<open>Writing\<close>

lemma al_write_simps [simp]:
  "al_base (al_write a f es) = al_base a" "al_bterm (al_write a f es) = al_bterm a"
  by (simp_all add: al_write_def)

lemma al_write_last:
  "al_base a < f \<Longrightarrow> f \<le> al_last a + 1 \<Longrightarrow> al_last (al_write a f es) + 1 = f + length es"
  by (auto simp: al_write_def al_last_def min_def)

text \<open>Below the first written index nothing changes, from there on the new entries stand.\<close>

lemma al_write_entry_old:
  "al_base a < i \<Longrightarrow> i < f \<Longrightarrow> f \<le> al_last a + 1 \<Longrightarrow> al_entry (al_write a f es) i = al_entry a i"
  by (auto simp: al_entry_def al_write_def al_last_def nth_append)

lemma al_write_term_old:
  "al_base a < f \<Longrightarrow> f \<le> al_last a + 1 \<Longrightarrow> i < f \<Longrightarrow> al_term (al_write a f es) i = al_term a i"
  by (auto simp: al_write_def al_term_def al_last_def nth_append)

lemma al_write_term_new:
  assumes "al_base a < f" "f \<le> al_last a + 1" "k < length es"
  shows "al_term (al_write a f es) (f + k) = (e_term (es ! k), Ok)"
proof -
  let ?n = "f - al_base a - 1"
  have n: "length (take ?n (al_ents a)) = ?n" "f + k - al_base a - 1 = ?n + k"
    using assms(1,2) by (auto simp: al_last_def)
  have "(take ?n (al_ents a) @ es) ! (?n + k) = es ! k"
    using nth_append_length_plus [of "take ?n (al_ents a)" es k] n(1) by simp
  moreover have "f + k \<le> al_last (al_write a f es)" using al_write_last [OF assms(1,2), of es] assms(3) by linarith
  ultimately show ?thesis
    using n(2) assms(1) by (simp add: al_term_def al_write_def)
qed

lemma truncateAndAppend_abs:
  assumes "log_abs E l a" "es \<noteq> []" "numbered f es" "al_base a < f" "f \<le> al_last a + 1" "f + length es < W64"
  shows "returns (Unstable_truncateAndAppend (l_unstable l) es)
    (\<lambda>u. log_abs E (l\<lparr>l_unstable := u\<rparr>) (al_write a f es) \<and> u_snapshot u = u_snapshot (l_unstable l))"
  using assms(1)
proof (cases rule: log_abs_cases)
  case (snap s)
  obtain b t es0 where st: "storage_ok E (l_storage l) b t es0" using assms(1) by (auto simp: log_abs_def log_parts_def)
  have "returns (Unstable_truncateAndAppend (l_unstable l) es) (\<lambda>u. unstable_wf u \<and> u_snapshot u = u_snapshot (l_unstable l) \<and>
      u_offset u = min f (u_offset (l_unstable l)) \<and>
      u_entries u = take (f - u_offset (l_unstable l)) (u_entries (l_unstable l)) @ es)"
    using returns_mono [OF truncateAndAppend_spec [OF snap(2) assms(2,3)]] assms(4-6) snap by simp
  then show ?thesis
  proof (rule returns_mono)
    fix u
    assume u: "unstable_wf u \<and> u_snapshot u = u_snapshot (l_unstable l) \<and> u_offset u = min f (u_offset (l_unstable l)) \<and>
        u_entries u = take (f - u_offset (l_unstable l)) (u_entries (l_unstable l)) @ es"
    then have "log_parts E (l\<lparr>l_unstable := u\<rparr>) b t es0" "al_write a f es = alog_of (l\<lparr>l_unstable := u\<rparr>) b t es0"
      using st snap assms(4) by (auto simp: log_parts_def alog_of_def al_write_def)
    then show "log_abs E (l\<lparr>l_unstable := u\<rparr>) (al_write a f es) \<and> u_snapshot u = u_snapshot (l_unstable l)"
      using u by (auto simp: log_abs_def)
  qed
next
  case (stor es0)
  have "returns (Unstable_truncateAndAppend (l_unstable l) es) (\<lambda>u. unstable_wf u \<and> u_snapshot u = u_snapshot (l_unstable l) \<and>
      u_offset u = min f (u_offset (l_unstable l)) \<and>
      u_entries u = take (f - u_offset (l_unstable l)) (u_entries (l_unstable l)) @ es)"
    using returns_mono [OF truncateAndAppend_spec [OF stor(2) assms(2,3)]] assms(4-6) stor(1,9) by simp
  then show ?thesis
  proof (rule returns_mono)
    fix u
    assume u: "unstable_wf u \<and> u_snapshot u = u_snapshot (l_unstable l) \<and> u_offset u = min f (u_offset (l_unstable l)) \<and>
        u_entries u = take (f - u_offset (l_unstable l)) (u_entries (l_unstable l)) @ es"
    have parts: "log_parts E (l\<lparr>l_unstable := u\<rparr>) (al_base a) (al_bterm a) es0"
      using u stor assms(2,4) by (auto simp: log_parts_def)
    have "take (f - al_base a - 1) (al_ents a) =
        take (min f (u_offset (l_unstable l)) - al_base a - 1) es0 @ take (f - u_offset (l_unstable l)) (u_entries (l_unstable l))"
    proof -
      have "length (take (u_offset (l_unstable l) - al_base a - 1) es0) = u_offset (l_unstable l) - al_base a - 1"
        using stor(5) by simp
      moreover have "f - al_base a - 1 - (u_offset (l_unstable l) - al_base a - 1) = f - u_offset (l_unstable l)"
        "min (f - al_base a - 1) (u_offset (l_unstable l) - al_base a - 1) = min f (u_offset (l_unstable l)) - al_base a - 1"
        using stor(4) assms(4) by linarith+
      ultimately show ?thesis unfolding stor(7) take_append take_take by metis
    qed
    then have "al_write a f es = alog_of (l\<lparr>l_unstable := u\<rparr>) (al_base a) (al_bterm a) es0"
      using u stor(1) by (simp add: alog_of_def al_write_def)
    then show "log_abs E (l\<lparr>l_unstable := u\<rparr>) (al_write a f es) \<and> u_snapshot u = u_snapshot (l_unstable l)"
      using parts u by (auto simp: log_abs_def)
  qed
qed

lemma append_abs:
  assumes "log_abs E l a" "es \<noteq> []" "numbered f es" "al_base a < f" "f \<le> al_last a + 1" "f + length es < W64"
    and "l_committed l < f"
  shows "returns (RaftLog_append l es) (\<lambda>(l', li). log_abs E l' (al_write a f es) \<and> li + 1 = f + length es \<and>
    (\<exists>u. l' = l\<lparr>l_unstable := u\<rparr> \<and> u_snapshot u = u_snapshot (l_unstable l)))"
proof -
  obtain u where u: "Unstable_truncateAndAppend (l_unstable l) es = Inr u"
      "log_abs E (l\<lparr>l_unstable := u\<rparr>) (al_write a f es)" "u_snapshot u = u_snapshot (l_unstable l)"
    using truncateAndAppend_abs [OF assms(1-6)] by (auto elim: returnsE)
  have "sub64 (e_index (es ! 0)) 1 = f - 1"
    using numbered_hd [OF assms(3,2)] assms(4,6) by simp
  then show ?thesis
    using u assms(2,7) al_write_last [OF assms(4,5)] lastIndex_abs [OF u(2)]
    by (auto simp: RaftLog_append_def Let_def)
qed

lemma commitTo_abs:
  assumes "log_abs E l a" "c \<le> al_last a"
  shows "RaftLog_commitTo l c = Inr (l\<lparr>l_committed := max (l_committed l) c\<rparr>)"
  using assms(2) by (auto simp: RaftLog_commitTo_def lastIndex_abs [OF assms(1)] max_def)

lemma log_abs_cong:
  "l_storage l = l_storage l' \<Longrightarrow> l_unstable l = l_unstable l' \<Longrightarrow> log_abs E l a = log_abs E l' a"
  by (simp add: log_abs_def log_parts_def alog_of_def cong: option.case_cong)

lemma log_abs_updates [simp]:
  "log_abs E (l\<lparr>l_committed := c\<rparr>) a = log_abs E l a" "log_abs E (l\<lparr>l_applied := c\<rparr>) a = log_abs E l a"
  "log_abs E (l\<lparr>l_applying := c\<rparr>) a = log_abs E l a"
  "log_abs E (l\<lparr>l_applyingEntsSize := c\<rparr>) a = log_abs E l a"
  "log_abs E (l\<lparr>l_applyingEntsPaused := p\<rparr>) a = log_abs E l a"
  by (rule log_abs_cong; simp)+

definition matches :: "alog \<Rightarrow> entry \<Rightarrow> bool" where
  "matches a e \<longleftrightarrow> al_term a (e_index e) = (e_term e, Ok)"

lemma findConflict_abs:
  assumes "log_abs E l a" "numbered i ents" "i + length ents < W64"
  shows "RaftLog_findConflict l ents =
    Inr (let k = length (takeWhile (matches a) ents) in if k = length ents then 0 else i + k)"
  using assms(2,3)
proof (induction ents arbitrary: i)
  case (Cons e ents)
  have "RaftLog_matchTerm l (e_index e) (e_term e) = Inr (matches a e)"
    using matchTerm_abs [OF assms(1)] Cons.prems by (simp add: matches_def)
  then show ?case using Cons.IH [of "Suc i"] Cons.prems by (simp add: Let_def)
qed simp

text \<open>The log after a successful \<open>maybeAppend\<close>: unchanged when every new entry is already
  there, otherwise rewritten from the first entry that is not.\<close>

definition al_merge :: "alog \<Rightarrow> u64 \<Rightarrow> entry list \<Rightarrow> alog" where
  "al_merge a index ents =
     (let k = length (takeWhile (matches a) ents)
      in if k = length ents then a else al_write a (index + 1 + k) (drop k ents))"

lemma takeWhile_matches_last:
  assumes "numbered i ents" "k = length (takeWhile (matches a) ents)" "0 < k"
  shows "i + k - 1 \<le> al_last a"
proof -
  have "k - 1 < k" using assms(3) by simp
  then have "matches a (ents ! (k - 1))"
    using assms(2) by (metis nth_mem set_takeWhileD takeWhile_nth)
  moreover have "k - 1 < length ents"
    using assms(2,3) length_takeWhile_le [of "matches a" ents] by linarith
  then have "e_index (ents ! (k - 1)) = i + (k - 1)" using assms(1) by (simp add: numbered_def)
  ultimately have "snd (al_term a (i + (k - 1))) = Ok" by (simp add: matches_def)
  then show ?thesis using assms(3) by (simp add: al_term_Ok_iff)
qed

lemma al_merge_last:
  assumes "numbered (index + 1) ents" "al_base a \<le> index" "index \<le> al_last a"
  shows "index + length ents \<le> al_last (al_merge a index ents)"
proof (cases "length (takeWhile (matches a) ents) = length ents")
  case True
  then show ?thesis
    using takeWhile_matches_last [OF assms(1) refl, of a] assms(3) by (cases "ents = []") (auto simp: al_merge_def Let_def)
next
  case False
  let ?k = "length (takeWhile (matches a) ents)"
  have k: "?k \<le> length ents" by (rule length_takeWhile_le)
  have "index + 1 + ?k \<le> al_last a + 1"
    using takeWhile_matches_last [OF assms(1) refl, of a] assms(3) by (cases "?k = 0") auto
  then show ?thesis
    using False k al_write_last [of a "index + 1 + ?k" "drop ?k ents"] assms(2) by (simp add: al_merge_def Let_def)
qed

lemma maybeAppend_merge:
  assumes "log_abs E l a" "numbered (index + 1) ents" "index + 1 + length ents < W64" "l_committed l \<le> al_last a"
    and "al_term a index = (logTerm, Ok)" "length ents < 2 ^ 31"
    and "\<And>e. e \<in> set ents \<Longrightarrow> e_index e \<le> l_committed l \<Longrightarrow> matches a e"
  shows "returns (RaftLog_maybeAppend l index logTerm committed ents) (\<lambda>(l', lastnewi, ok).
      ok \<and> lastnewi = index + length ents \<and> log_abs E l' (al_merge a index ents) \<and>
      (\<exists>u. l' = l\<lparr>l_unstable := u, l_committed := max (l_committed l) (min committed (index + length ents))\<rparr> \<and>
           u_snapshot u = u_snapshot (l_unstable l)))"
proof -
  let ?k = "length (takeWhile (matches a) ents)"
  let ?n = "index + length ents"
  have le: "al_base a \<le> index" "index \<le> al_last a" using al_term_Ok_iff [of a index] assms(5) by simp_all
  have m: "RaftLog_matchTerm l index logTerm = Inr True" using matchTerm_abs [OF assms(1)] assms(3,5) by simp
  have n: "add64 index (length ents) = ?n" using assms(3) by simp
  have fc: "RaftLog_findConflict l ents = Inr (if ?k = length ents then 0 else index + 1 + ?k)"
    using findConflict_abs [OF assms(1,2)] assms(3) by (simp add: Let_def)
  have last: "?n \<le> al_last (al_merge a index ents)" using al_merge_last [OF assms(2) le] .
  show ?thesis
  proof (cases "?k = length ents")
    case True
    then have merge: "al_merge a index ents = a" by (simp add: al_merge_def Let_def)
    have "RaftLog_commitTo l (min committed ?n) = Inr (l\<lparr>l_committed := max (l_committed l) (min committed ?n)\<rparr>)"
      using commitTo_abs [OF assms(1)] last merge by simp
    then have "RaftLog_maybeAppend l index logTerm committed ents =
        Inr (l\<lparr>l_committed := max (l_committed l) (min committed ?n)\<rparr>, ?n, True)"
      using True m n fc by (simp add: RaftLog_maybeAppend_def Let_def)
    then show ?thesis
      using assms(1) merge by (auto intro!: exI [of _ "l_unstable l"])
  next
    case False
    let ?f = "index + 1 + ?k" and ?es = "drop ?k ents"
    have k: "?k < length ents" using False length_takeWhile_le [of "matches a" ents] by linarith
    have num: "numbered ?f ?es" "?es \<noteq> []" using numbered_drop [OF assms(2), of ?k] k by simp_all
    have f: "al_base a < ?f" "?f \<le> al_last a + 1" "?f + length ?es < W64"
      using takeWhile_matches_last [OF assms(2) refl, of a] le assms(3) k by (cases "?k = 0"; simp)+
    have "\<not> matches a (ents ! ?k)" using k by (rule nth_length_takeWhile)
    moreover have "e_index (ents ! ?k) = ?f" using assms(2) k by (simp add: numbered_def)
    ultimately have c: "l_committed l < ?f" using assms(7) [of "ents ! ?k"] k by (metis not_le nth_mem)
    obtain u where u: "RaftLog_append l ?es = Inr (l\<lparr>l_unstable := u\<rparr>, al_last (al_write a ?f ?es))"
        "log_abs E (l\<lparr>l_unstable := u\<rparr>) (al_write a ?f ?es)" "u_snapshot u = u_snapshot (l_unstable l)"
      using append_abs [OF assms(1) num(2,1) f c] al_write_last [OF f(1,2), of ?es] by (auto simp: returns_def)
    have merge: "al_merge a index ents = al_write a ?f ?es" using False by (simp add: al_merge_def Let_def)
    have "RaftLog_commitTo (l\<lparr>l_unstable := u\<rparr>) (min committed ?n) =
        Inr (l\<lparr>l_unstable := u, l_committed := max (l_committed l) (min committed ?n)\<rparr>)"
      using commitTo_abs [OF u(2)] last merge by simp
    moreover have "sub64 ?f (add64 index 1) = ?k" "to_int32 ?k = int ?k" using assms(3,6) k by simp_all
    ultimately have "RaftLog_maybeAppend l index logTerm committed ents =
        Inr (l\<lparr>l_unstable := u, l_committed := max (l_committed l) (min committed ?n)\<rparr>, ?n, True)"
      using u(1) m n fc c k False by (simp add: RaftLog_maybeAppend_def Let_def)
    then show ?thesis using u(2,3) merge by auto
  qed
qed

end
