(* ===== verification/LogProps.thy ===== *)
theory LogProps
  imports LogSpec
begin

text \<open>
  The correctness of \<open>log.h\<close>: reading a range, merging the entries of a leader, finding a
  common point with another log, scanning, the commit and apply cursors, and the hand-over
  of the unstable tail to storage. All of it rests on the contract \<open>storage_ok\<close>; the
  hand-over is proved once for every provider of it and used for \<open>MemoryStorage\<close>.
\<close>

section \<open>Cursors\<close>

text \<open>
  The invariants the fields of \<open>RaftLog\<close> document. While a snapshot waits to be
  persisted the applied index may still be below it.
\<close>

definition log_ok :: "env \<Rightarrow> RaftLog \<Rightarrow> alog \<Rightarrow> bool" where
  "log_ok E l a \<longleftrightarrow> log_abs E l a \<and>
     l_applied l \<le> l_applying l \<and> l_applying l \<le> l_committed l \<and>
     al_base a \<le> l_committed l \<and> l_committed l \<le> al_last a \<and>
     (u_snapshot (l_unstable l) = None \<longrightarrow> al_base a \<le> l_applied l)"

lemma log_okD:
  assumes "log_ok E l a"
  shows "log_abs E l a" "l_applied l \<le> l_applying l" "l_applying l \<le> l_committed l"
    "al_base a \<le> l_committed l" "l_committed l \<le> al_last a"
    "u_snapshot (l_unstable l) = None \<Longrightarrow> al_base a \<le> l_applied l" "al_last a + 1 < W64"
  using assms log_abs_wf [of E l a] by (auto simp: log_ok_def al_wf_def)

lemma newLogWithSize_ok:
  assumes "storage_ok E st b t es"
  shows "returns (newLogWithSize st n) (\<lambda>l. log_ok E l \<lparr>al_base = b, al_bterm = t, al_ents = es\<rparr> \<and>
    l_storage l = st \<and> l_committed l = b \<and> l_applied l = b \<and> l_applying l = b \<and> l_maxApplyingEntsSize l = n)"
proof -
  let ?l = "\<lparr>l_storage = st, l_unstable = Unstable0\<lparr>u_offset := b + length es + 1, u_offsetInProgress := b + length es + 1\<rparr>,
      l_committed = b, l_applying = b, l_applied = b, l_maxApplyingEntsSize = n, l_applyingEntsSize = 0,
      l_applyingEntsPaused = False\<rparr>"
  have W: "b + length es + 1 < W64" using storage_okD(2) [OF assms] .
  have "newLogWithSize st n = Inr ?l"
    using W storage_okD(3,4) [OF assms] by (simp add: newLogWithSize_def)
  moreover have "log_parts E ?l b t es"
    using assms W by (simp add: log_parts_def unstable_wf_def Unstable0_def)
  then have "log_abs E ?l \<lparr>al_base = b, al_bterm = t, al_ents = es\<rparr>"
    by (auto simp: log_abs_def alog_of_def Unstable0_def intro!: exI [of _ b] exI [of _ t] exI [of _ es])
  ultimately show ?thesis by (simp add: log_ok_def al_last_def)
qed

lemma commitTo_ok:
  assumes "log_ok E l a" "c \<le> al_last a"
  shows "returns (RaftLog_commitTo l c) (\<lambda>l'. log_ok E l' a \<and> l_committed l' = max (l_committed l) c)"
  using commitTo_abs [OF log_okD(1) [OF assms(1)] assms(2)] assms by (auto simp: log_ok_def max_def)

lemma appliedTo_ok:
  assumes "log_ok E l a" "l_applied l \<le> i" "i \<le> l_committed l"
  shows "returns (RaftLog_appliedTo l i sz) (\<lambda>l'. log_ok E l' a \<and> l_applied l' = i \<and> l_committed l' = l_committed l)"
  using assms by (auto simp: RaftLog_appliedTo_def Let_def log_ok_def)

lemma acceptApplying_ok:
  assumes "log_ok E l a" "l_applied l \<le> i" "i \<le> l_committed l"
  shows "returns (RaftLog_acceptApplying l i sz b) (\<lambda>l'. log_ok E l' a \<and> l_applying l' = i \<and> l_committed l' = l_committed l)"
  using assms by (auto simp: RaftLog_acceptApplying_def Let_def log_ok_def)

lemma append_ok:
  assumes "log_ok E l a" "numbered f es" "es \<noteq> []" "l_committed l < f" "f \<le> al_last a + 1" "f + length es < W64"
  shows "returns (RaftLog_append l es) (\<lambda>(l', li). log_ok E l' (al_write a f es) \<and> li + 1 = f + length es \<and>
     l_committed l' = l_committed l)"
proof -
  have b: "al_base a < f" using log_okD(4) [OF assms(1)] assms(4) by linarith
  obtain u li where "RaftLog_append l es = Inr (l\<lparr>l_unstable := u\<rparr>, li)" "u_snapshot u = u_snapshot (l_unstable l)"
      "log_abs E (l\<lparr>l_unstable := u\<rparr>) (al_write a f es)" "li + 1 = f + length es"
    using append_abs [OF log_okD(1) [OF assms(1)] assms(3,2) b assms(5,6,4)] by (auto simp: returns_def)
  then show ?thesis
    using assms(1,4) al_write_last [OF b assms(5), of es] by (auto simp: log_ok_def)
qed

section \<open>Merging\<close>

lemma takeWhile_all_matches:
  "length (takeWhile P xs) = length xs \<longleftrightarrow> (\<forall>x \<in> set xs. P x)"
  by (metis takeWhile_eq_all_conv takeWhile_eq_take take_all_iff order_refl length_takeWhile_le)

lemma al_merge_write:
  assumes "numbered (index + 1) ents" "al_base a \<le> index" "index \<le> al_last a" "\<not> (\<forall>e \<in> set ents. matches a e)"
  defines "k \<equiv> length (takeWhile (matches a) ents)"
  shows "al_merge a index ents = al_write a (index + 1 + k) (drop k ents)" "k < length ents"
    "al_base a < index + 1 + k" "index + 1 + k \<le> al_last a + 1" "\<not> matches a (ents ! k)"
proof -
  have "k \<noteq> length ents" using assms(4) takeWhile_all_matches [of "matches a" ents] by (simp add: k_def)
  then show k: "k < length ents" using length_takeWhile_le [of "matches a" ents] by (simp add: k_def)
  then show "al_merge a index ents = al_write a (index + 1 + k) (drop k ents)"
    by (simp add: al_merge_def Let_def k_def)
  show "al_base a < index + 1 + k" using assms(2) by linarith
  show "index + 1 + k \<le> al_last a + 1"
    using takeWhile_matches_last [OF assms(1), of k a] assms(3) by (cases "k = 0") (auto simp: k_def)
  show "\<not> matches a (ents ! k)" using k unfolding k_def by (rule nth_length_takeWhile)
qed

lemma al_merge_same: "\<forall>e \<in> set ents. matches a e \<Longrightarrow> al_merge a index ents = a"
  using takeWhile_all_matches [of "matches a" ents] by (simp add: al_merge_def Let_def)

lemma al_merge_terms:
  assumes "numbered (index + 1) ents" "al_base a \<le> index" "index \<le> al_last a" "e \<in> set ents"
  shows "matches (al_merge a index ents) e"
proof (cases "\<forall>e \<in> set ents. matches a e")
  case True
  then show ?thesis
    using assms(4) takeWhile_all_matches [of "matches a" ents] by (simp add: al_merge_def Let_def)
next
  case False
  let ?k = "length (takeWhile (matches a) ents)"
  note M = al_merge_write [OF assms(1-3) False]
  obtain j where j: "j < length ents" "e = ents ! j" using assms(4) by (auto simp: in_set_conv_nth)
  have ix: "e_index e = index + 1 + j" using assms(1) j by (simp add: numbered_def)
  show ?thesis
  proof (cases "j < ?k")
    case True
    then have "matches a e" using j(2) by (metis nth_mem set_takeWhileD takeWhile_nth)
    then show ?thesis
      using True ix al_write_term_old [OF M(3,4)] by (simp add: matches_def M(1))
  next
    case False
    then have "al_term (al_write a (index + 1 + ?k) (drop ?k ents)) (index + 1 + ?k + (j - ?k)) = (e_term e, Ok)"
      using al_write_term_new [OF M(3,4), of "j - ?k" "drop ?k ents"] j by simp
    then show ?thesis using False ix by (simp add: matches_def M(1))
  qed
qed

lemma al_merge_old:
  assumes "numbered (index + 1) ents" "al_base a \<le> index" "index \<le> al_last a"
    and "\<And>e. e \<in> set ents \<Longrightarrow> e_index e \<le> c \<Longrightarrow> matches a e" "i \<le> max index c"
  shows "al_term (al_merge a index ents) i = al_term a i"
proof (cases "\<forall>e \<in> set ents. matches a e")
  case True
  then show ?thesis using takeWhile_all_matches [of "matches a" ents] by (simp add: al_merge_def Let_def)
next
  case False
  let ?k = "length (takeWhile (matches a) ents)"
  note M = al_merge_write [OF assms(1-3) False]
  have "e_index (ents ! ?k) = index + 1 + ?k" using assms(1) M(2) by (simp add: numbered_def)
  then have "c < index + 1 + ?k" using assms(4) [of "ents ! ?k"] M(2,5) by force
  then have "i < index + 1 + ?k" using assms(5) by linarith
  then show ?thesis using al_write_term_old [OF M(3,4)] by (simp add: M(1))
qed

lemma al_merge_entry_old:
  assumes "numbered (index + 1) ents" "al_base a \<le> index" "index \<le> al_last a"
    and "\<And>e. e \<in> set ents \<Longrightarrow> e_index e \<le> c \<Longrightarrow> matches a e" "al_base a < i" "i \<le> max index c"
  shows "al_entry (al_merge a index ents) i = al_entry a i"
proof (cases "\<forall>e \<in> set ents. matches a e")
  case True
  then show ?thesis using takeWhile_all_matches [of "matches a" ents] by (simp add: al_merge_def Let_def)
next
  case False
  let ?k = "length (takeWhile (matches a) ents)"
  note M = al_merge_write [OF assms(1-3) False]
  have "e_index (ents ! ?k) = index + 1 + ?k" using assms(1) M(2) by (simp add: numbered_def)
  then have "c < index + 1 + ?k" using assms(4) [of "ents ! ?k"] M(2,5) by force
  then have "i < index + 1 + ?k" using assms(6) by linarith
  then show ?thesis using al_write_entry_old [OF assms(5) _ M(4)] by (simp add: M(1))
qed

text \<open>The merged log, entry by entry.\<close>

lemma al_merge_entries:
  assumes "numbered (index + 1) ents" "al_base a \<le> index" "index \<le> al_last a" "\<not> (\<forall>e \<in> set ents. matches a e)"
  obtains k where "k < length ents" "\<forall>e \<in> set (take k ents). matches a e" "\<not> matches a (ents ! k)"
    "al_ents (al_merge a index ents) = take (index + k - al_base a) (al_ents a) @ drop k ents"
    "al_last (al_merge a index ents) = index + length ents"
proof -
  let ?k = "length (takeWhile (matches a) ents)"
  note M = al_merge_write [OF assms]
  have "\<forall>e \<in> set (take ?k ents). matches a e"
    by (metis set_takeWhileD takeWhile_eq_take)
  moreover have "al_ents (al_merge a index ents) = take (index + ?k - al_base a) (al_ents a) @ drop ?k ents"
    using M(3) by (simp add: M(1) al_write_def)
  moreover have "al_last (al_merge a index ents) = index + length ents"
    using al_write_last [OF M(3,4), of "drop ?k ents"] M(2) by (simp add: M(1))
  ultimately show ?thesis using that [of ?k] M(2,5) by blast
qed

text \<open>
  C7: \<open>maybeAppend\<close> installs a leader's entries. The hypotheses: the log is well-formed, the
  entries are numbered from the index after \<open>index\<close>, they stay below the 64-bit range and are
  fewer than \<open>2 ^ 31\<close> (the code converts the position of the first new entry to \<open>int\<close>), and none
  of them contradicts the committed part. Then no call faults, and the entries are accepted
  exactly when the entry at \<open>index\<close> has the term \<open>logTerm\<close>; otherwise nothing changes. When they are
  accepted, the index of the last new entry is returned, and the log has at every index of
  the new entries an entry of the new term. A log that already held all of them is not
  touched. Any other is cut at the first of them it does not hold and continued with the
  new entries from there on, so it ends with the last new one. In both cases its start, every entry it holds
  up to \<open>index\<close> and every committed entry are the same as before, term, type and data included. The commit index is advanced
  to the leader's as far as the new entries reach, never backwards.
\<close>

theorem maybeAppend_installs:
  assumes "log_ok E l a" "numbered (index + 1) ents" "index + 1 + length ents < W64" "length ents < 2 ^ 31"
    and "\<forall>e \<in> set ents. e_index e \<le> l_committed l \<longrightarrow> al_term a (e_index e) = (e_term e, Ok)"
  shows "returns (RaftLog_maybeAppend l index logTerm committed ents) (\<lambda>(l', lastnewi, ok).
    if al_term a index = (logTerm, Ok)
    then ok \<and> lastnewi = index + length ents \<and>
      l_committed l' = max (l_committed l) (min committed lastnewi) \<and>
      (\<exists>a'. log_ok E l' a' \<and> (\<forall>e \<in> set ents. al_term a' (e_index e) = (e_term e, Ok)) \<and>
         al_base a' = al_base a \<and> al_bterm a' = al_bterm a \<and>
         (\<forall>i \<le> max index (l_committed l). al_term a' i = al_term a i \<and>
            (al_base a < i \<longrightarrow> al_entry a' i = al_entry a i)) \<and>
         (if \<forall>e \<in> set ents. al_term a (e_index e) = (e_term e, Ok) then a' = a
          else al_last a' = lastnewi \<and>
            (\<exists>k < length ents. (\<forall>e \<in> set (take k ents). al_term a (e_index e) = (e_term e, Ok)) \<and>
               al_term a (e_index (ents ! k)) \<noteq> (e_term (ents ! k), Ok) \<and>
               al_ents a' = take (index + k - al_base a) (al_ents a) @ drop k ents)))
    else \<not> ok \<and> lastnewi = 0 \<and> l' = l)"
proof (cases "al_term a index = (logTerm, Ok)")
  case False
  then show ?thesis
    using matchTerm_abs [OF log_okD(1) [OF assms(1)]] assms(3) by (simp add: RaftLog_maybeAppend_def)
next
  case True
  let ?m = "al_merge a index ents" and ?c = "max (l_committed l) (min committed (index + length ents))"
  have le: "al_base a \<le> index" "index \<le> al_last a" using al_term_Ok_iff [of a index] True by simp_all
  have safe: "\<And>e. e \<in> set ents \<Longrightarrow> e_index e \<le> l_committed l \<Longrightarrow> matches a e"
    using assms(5) by (simp add: matches_def)
  obtain u where u: "RaftLog_maybeAppend l index logTerm committed ents =
      Inr (l\<lparr>l_unstable := u, l_committed := ?c\<rparr>, index + length ents, True)"
      "log_abs E (l\<lparr>l_unstable := u, l_committed := ?c\<rparr>) ?m" "u_snapshot u = u_snapshot (l_unstable l)"
    using maybeAppend_merge [OF log_okD(1) [OF assms(1)] assms(2,3) log_okD(5) [OF assms(1)] True assms(4) safe, of committed]
    by (auto simp: returns_def)
  have base: "al_base ?m = al_base a" "al_bterm ?m = al_bterm a" by (simp_all add: al_merge_def Let_def)
  have last: "index + length ents \<le> al_last ?m" using al_merge_last [OF assms(2) le] .
  have old: "\<forall>i \<le> max index (l_committed l). al_term ?m i = al_term a i \<and> (al_base a < i \<longrightarrow> al_entry ?m i = al_entry a i)"
    using al_merge_old [OF assms(2) le safe] al_merge_entry_old [OF assms(2) le safe] by blast
  then have "snd (al_term ?m (l_committed l)) = Ok"
    using log_okD(4,5) [OF assms(1)] by (simp add: al_term_Ok_iff)
  then have "l_committed l \<le> al_last ?m" by (simp add: al_term_Ok_iff)
  then have ok: "log_ok E (l\<lparr>l_unstable := u, l_committed := ?c\<rparr>) ?m"
    using assms(1) u(2,3) last by (auto simp: log_ok_def base)
  have new: "if \<forall>e \<in> set ents. matches a e then ?m = a
      else al_last ?m = index + length ents \<and> (\<exists>k < length ents. (\<forall>e \<in> set (take k ents). matches a e) \<and>
        \<not> matches a (ents ! k) \<and> al_ents ?m = take (index + k - al_base a) (al_ents a) @ drop k ents)"
    using al_merge_same [of ents a index] al_merge_entries [OF assms(2) le] by (metis (no_types, lifting))
  show ?thesis
    unfolding u(1) returns_Inr prod.case if_P [OF True]
    using ok base old new al_merge_terms [OF assms(2) le] unfolding matches_def
    by (intro conjI exI [of _ ?m]) simp_all
qed

text \<open>A log of three entries, the last one not yet on storage, for the examples.\<close>

definition ent :: "u64 \<Rightarrow> u64 \<Rightarrow> entry" where
  "ent t i = \<lparr>e_term = t, e_index = i, e_type = EntryNormal, e_data = ''''\<rparr>"

definition ms_example :: MemoryStorage where
  "ms_example = \<lparr>ms_hardState = HardState0, ms_snapshot = Snapshot0, ms_ents = [Entry0, ent 1 1, ent 1 2]\<rparr>"

definition log_example :: "env \<Rightarrow> RaftLog" where
  "log_example E = \<lparr>l_storage = as_Storage E ms_example,
     l_unstable = \<lparr>u_snapshot = None, u_entries = [ent 2 3], u_offset = 3, u_snapshotInProgress = False,
        u_offsetInProgress = 3\<rparr>,
     l_committed = 2, l_applying = 1, l_applied = 1, l_maxApplyingEntsSize = noLimit,
     l_applyingEntsSize = 0, l_applyingEntsPaused = False\<rparr>"

definition alog_example :: alog where
  "alog_example = \<lparr>al_base = 0, al_bterm = 0, al_ents = [ent 1 1, ent 1 2, ent 2 3]\<rparr>"

lemma ms_example_inv: "ms_inv ms_example" "ms_base ms_example = 0" "ms_bterm ms_example = 0"
    "ms_log ms_example = [ent 1 1, ent 1 2]"
  by (simp_all add: ms_inv_def ms_base_def ms_bterm_def ms_log_def ms_example_def Entry0_def ent_def W64_def)

lemma log_example_abs: "log_abs E (log_example E) alog_example"
proof -
  have "log_parts E (log_example E) 0 0 [ent 1 1, ent 1 2]"
    using mem.view_ok [OF ms_example_inv(1), of E] ms_example_inv(2-4)
    by (simp add: log_parts_def log_example_def unstable_wf_def ent_def W64_def)
  moreover have "alog_example = alog_of (log_example E) 0 0 [ent 1 1, ent 1 2]"
    by (simp add: alog_example_def alog_of_def log_example_def)
  ultimately show ?thesis unfolding log_abs_def by blast
qed

lemma log_example_ok: "log_ok E (log_example E) alog_example"
  using log_example_abs by (simp add: log_ok_def log_example_def alog_example_def al_last_def)

lemma log_example_fields:
  "l_applying (log_example E) = 1" "l_committed (log_example E) = 2" "l_maxApplyingEntsSize (log_example E) = noLimit"
  "l_applyingEntsSize (log_example E) = 0"
  by (simp_all add: log_example_def)

lemma alog_example_terms:
  "al_term alog_example 1 = (1, Ok)" "al_term alog_example 2 = (1, Ok)" "al_term alog_example 3 = (2, Ok)"
  "al_base alog_example = 0" "al_last alog_example = 3"
  by (simp_all add: al_term_def alog_example_def al_last_def ent_def)

theorem maybeAppend_installs_witness:
  "\<exists>l' a'. RaftLog_maybeAppend (log_example env_example) 2 1 4 [ent 3 3, ent 3 4] = Inr (l', 4, True) \<and>
     l_committed l' = 4 \<and> log_ok env_example l' a' \<and> al_term a' 3 = (3, Ok) \<and> al_term a' 4 = (3, Ok) \<and>
     al_entry a' 2 = ent 1 2 \<and> al_last a' = 4 \<and> al_ents a' = [ent 1 1, ent 1 2, ent 3 3, ent 3 4]"
proof -
  have e: "numbered (2 + 1) [ent 3 3, ent 3 4]" "2 + 1 + length [ent 3 3, ent 3 4] < W64"
      "length [ent 3 3, ent 3 4] < 2 ^ 31"
      "\<forall>e \<in> set [ent 3 3, ent 3 4]. e_index e \<le> l_committed (log_example env_example) \<longrightarrow>
         al_term alog_example (e_index e) = (e_term e, Ok)"
    by (simp_all add: ent_def W64_def log_example_def)
  have c: "l_committed (log_example env_example) = 2" by (simp add: log_example_def)
  obtain l' lastnewi ok a' k where r: "RaftLog_maybeAppend (log_example env_example) 2 1 4 [ent 3 3, ent 3 4] = Inr (l', lastnewi, ok)"
      "ok" "lastnewi = 4" "l_committed l' = 4" "log_ok env_example l' a'"
      "\<forall>e \<in> set [ent 3 3, ent 3 4]. al_term a' (e_index e) = (e_term e, Ok)"
      "al_last a' = 4" "\<forall>i \<le> 2. al_term a' i = al_term alog_example i \<and> (0 < i \<longrightarrow> al_entry a' i = al_entry alog_example i)" "k < Suc (Suc 0)"
      "\<forall>e \<in> set (take k [ent 3 3, ent 3 4]). al_term alog_example (e_index e) = (e_term e, Ok)"
      "al_ents a' = take (2 + k - al_base alog_example) (al_ents alog_example) @ drop k [ent 3 3, ent 3 4]"
    using maybeAppend_installs [OF log_example_ok e, of 1 4]
    by (auto simp: returns_def alog_example_terms ent_def c)
  have "k = 0" using r(10) by (cases k) (auto simp: ent_def alog_example_terms)
  moreover have "al_entry a' 2 = al_entry alog_example 2" using r(8) by simp
  then have "al_entry a' 2 = ent 1 2" by (simp add: alog_example_def al_entry_def)
  ultimately show ?thesis using r by (auto simp: ent_def alog_example_def)
qed

section \<open>Reading\<close>

text \<open>
  C9: \<open>slice\<close> returns the requested range of the log, cut by size. For every range within
  the log the result is \<open>limitSize\<close> applied to the entries of that range, whether they lie
  in storage, in the unstable tail, or across the boundary, where the code joins two cut
  pieces; a range that starts at or below the compaction point gives \<open>ErrCompacted\<close>.
\<close>

theorem slice_reads_log:
  assumes "log_abs E l a" "lo \<le> hi" "hi \<le> al_last a + 1" "maxSize < W64" "ents_bytes E (al_slice a lo hi) < W64"
  shows "RaftLog_slice E l lo hi maxSize =
    Inr (if lo \<le> al_base a then ([], ErrCompacted) else (limitSize E (al_slice a lo hi) maxSize, Ok))"
proof (cases "lo \<le> al_base a")
  case True
  then show ?thesis using mustCheckOutOfBounds_abs [OF assms(1-3)] by (simp add: RaftLog_slice_def)
next
  case False
  then show ?thesis using slice_abs [OF assms(1) _ assms(2-5)] by simp
qed

theorem slice_reads_log_witness:
  "RaftLog_slice env_example (log_example env_example) 2 4 8 = Inr ([ent 1 2, ent 2 3], Ok)"
proof -
  have s: "al_slice alog_example 2 4 = [ent 1 2, ent 2 3]"
    by (simp add: al_slice_def alog_example_def)
  have b: "Entry_ByteSizeLong env_example (ent 1 2) = 4" "Entry_ByteSizeLong env_example (ent 2 3) = 4"
    by (simp_all add: Entry_ByteSizeLong_def env_example_def ent_def)
  then have "limitSize env_example [ent 1 2, ent 2 3] 8 = [ent 1 2, ent 2 3]"
    by (simp add: Let_def add64_def W64_def)
  then show ?thesis
    using slice_reads_log [OF log_example_abs, of 2 4 8 env_example] s b by (simp add: alog_example_terms W64_def)
qed

text \<open>
  C13: \<open>findConflictByTerm\<close> finds the largest possible match. The returned index is the
  greatest one not above the given index whose term is at most the given term, or whose
  term is unknown (reported as 0), and 0 when there is none; every index skipped holds an
  entry of a larger term, so it cannot match the other log.
\<close>

theorem findConflictByTerm_maximal:
  assumes "log_abs E l a" "index + 1 < W64"
  shows "returns (RaftLog_findConflictByTerm l index te) (\<lambda>(g, t). g \<le> index \<and>
    (g = 0 \<and> t = 0 \<or> snd (al_term a g) \<noteq> Ok \<and> t = 0 \<or> al_term a g = (t, Ok) \<and> t \<le> te) \<and>
    (\<forall>i. g < i \<and> i \<le> index \<longrightarrow> snd (al_term a i) = Ok \<and> te < fst (al_term a i)))"
  using assms(2)
proof (induction index)
  case 0
  then show ?case by simp
next
  case (Suc index)
  obtain t err where t: "al_term a (Suc index) = (t, err)" by (cases "al_term a (Suc index)")
  have T: "RaftLog_term l (Suc index) = Inr (t, err)" using term_abs [OF assms(1)] Suc.prems t by simp
  show ?case
  proof (cases "err = Ok \<and> te < t")
    case True
    have "returns (RaftLog_findConflictByTerm l index te) (\<lambda>(g, t). g \<le> index \<and>
        (g = 0 \<and> t = 0 \<or> snd (al_term a g) \<noteq> Ok \<and> t = 0 \<or> al_term a g = (t, Ok) \<and> t \<le> te) \<and>
        (\<forall>i. g < i \<and> i \<le> index \<longrightarrow> snd (al_term a i) = Ok \<and> te < fst (al_term a i)))"
      using Suc by simp
    then show ?thesis
      using True T t by (auto simp: returns_def le_Suc_eq)
  next
    case False
    then show ?thesis using T t by (auto simp: not_less)
  qed
qed

theorem findConflictByTerm_maximal_witness:
  "RaftLog_findConflictByTerm (log_example env_example) 3 1 = Inr (2, 1)"
proof -
  have "3 + 1 < W64" by (simp add: W64_def)
  from findConflictByTerm_maximal [OF log_example_abs this, of env_example 1]
  obtain g t where r: "RaftLog_findConflictByTerm (log_example env_example) 3 1 = Inr (g, t)" "g \<le> 3"
      "g = 0 \<and> t = 0 \<or> snd (al_term alog_example g) \<noteq> Ok \<and> t = 0 \<or> al_term alog_example g = (t, Ok) \<and> t \<le> 1"
      "\<forall>i. g < i \<and> i \<le> 3 \<longrightarrow> snd (al_term alog_example i) = Ok \<and> 1 < fst (al_term alog_example i)"
    by (auto simp: returns_def)
  have "\<not> g < 2" using r(4) [rule_format, of 2] by (auto simp: alog_example_terms)
  moreover have "g \<noteq> 3" using r(3) by (auto simp: alog_example_terms)
  ultimately have "g = 2" using r(2) by linarith
  then show ?thesis using r(1,3) by (auto simp: alog_example_terms)
qed

text \<open>A scan from a position inside the log: what the pages hold, read one after the other.\<close>

lemma scan_loop_pages:
  assumes "log_abs E l a" "al_base a < lo" "lo \<le> hi" "hi \<le> al_last a + 1" "page < W64"
    and "ents_bytes E (al_slice a lo hi) < W64" "hi - lo \<le> fuel"
    and "\<And>es s. v es s = (f s es, Ok)" "\<And>s xs ys. f (f s xs) ys = f s (xs @ ys)" "\<And>s. f s [] = s"
  shows "scan_loop fuel E l lo hi page v s = Inr (f s (al_slice a lo hi), Ok)"
  using assms(2,3,6,7)
proof (induction fuel arbitrary: lo s)
  case 0
  then have "lo = hi" by simp
  then show ?case by (simp add: al_slice_def assms(10))
next
  case (Suc fuel)
  show ?case
  proof (cases "lo = hi")
    case True
    then show ?thesis by (simp add: al_slice_def assms(10))
  next
    case False
    let ?S = "al_slice a lo hi" let ?P = "limitSize E ?S page" let ?n = "length ?P"
    have S: "RaftLog_slice E l lo hi page = Inr (?P, Ok)"
      using slice_abs [OF assms(1) Suc.prems(1,2) assms(4,5) Suc.prems(3)] .
    have len: "length ?S = hi - lo" using al_slice_length [OF Suc.prems(1,2) assms(4)] .
    then have ne: "?P \<noteq> []" "0 < ?n" "lo + ?n \<le> hi"
      using False Suc.prems(2) limitSize_length [of E ?S page] by auto
    have "al_last a + 1 < W64" using log_abs_wf [OF assms(1)] by (simp add: al_wf_def)
    then have add: "add64 lo ?n = lo + ?n" using ne(3) assms(4) by simp
    have split: "?S = ?P @ al_slice a (lo + ?n) hi"
    proof -
      have "al_slice a lo (lo + ?n) = take ?n ?S" using ne(3) by (simp add: al_slice_def min_def)
      then show ?thesis
        using al_slice_split [OF Suc.prems(1), of "lo + ?n" hi] ne(3) limitSize_take [of E ?S page] by simp
    qed
    have "ents_bytes E (al_slice a (lo + ?n) hi) < W64"
      using Suc.prems(3) arg_cong [OF split, of "ents_bytes E"] by simp
    moreover have "hi - (lo + ?n) \<le> fuel" using Suc.prems(4) ne(2) by linarith
    ultimately have "scan_loop fuel E l (lo + ?n) hi page v (f s ?P) = Inr (f (f s ?P) (al_slice a (lo + ?n) hi), Ok)"
      using Suc.IH [of "lo + ?n" "f s ?P"] Suc.prems(1) ne(3) by simp
    moreover have "f (f s ?P) (al_slice a (lo + ?n) hi) = f s ?S" using assms(9) split by metis
    ultimately show ?thesis
      using False Suc.prems(2) S ne(1) add assms(8) [of ?P s] by (simp add: scan_loop_Suc)
  qed
qed

text \<open>
  C14: \<open>scan\<close> visits every entry once, in order, and terminates. With a callback that never
  stops it, a scan of a range inside the log hands over pages whose concatenation is
  exactly that range, whatever the page size; \<open>hi - lo\<close> iterations of the loop suffice.
\<close>

theorem scan_visits_range:
  assumes "log_abs E l a" "al_base a < lo" "lo \<le> hi" "hi \<le> al_last a + 1"
    and "ents_bytes E (al_slice a lo hi) < W64"
  shows "RaftLog_scan E l lo hi pageSize (\<lambda>ents visited. (visited @ ents, Ok)) [] = Inr (al_slice a lo hi, Ok)"
proof -
  have "int_to_u64 pageSize < W64"
    using pos_mod_bound [of "int W64" pageSize] pos_mod_sign [of "int W64" pageSize]
    by (simp add: int_to_u64_def nat_less_iff)
  from scan_loop_pages [OF assms(1-4) this assms(5) order_refl, of _ "\<lambda>s xs. s @ xs" "[]"]
  show ?thesis by (simp add: RaftLog_scan_def)
qed

theorem scan_visits_range_witness:
  "RaftLog_scan env_example (log_example env_example) 1 4 0 (\<lambda>ents visited. (visited @ ents, Ok)) [] =
     Inr ([ent 1 1, ent 1 2, ent 2 3], Ok)"
proof -
  have s: "al_slice alog_example 1 4 = [ent 1 1, ent 1 2, ent 2 3]"
    by (simp add: al_slice_def alog_example_def)
  have "ents_bytes env_example (al_slice alog_example 1 4) < W64"
    unfolding s by (simp add: Entry_ByteSizeLong_def env_example_def ent_def W64_def)
  from scan_visits_range [OF log_example_abs _ _ _ this, of 0] show ?thesis
    unfolding s by (simp add: alog_example_terms)
qed

lemma limitSize_noLimit:
  assumes "ents_bytes E es < W64"
  shows "limitSize E es noLimit = es"
proof -
  have "s + ents_bytes E xs < W64 \<Longrightarrow> limitSize_from E noLimit s xs = xs" for s xs
  proof (induction xs arbitrary: s)
    case (Cons x xs)
    have "add64 s (Entry_ByteSizeLong E x) = s + Entry_ByteSizeLong E x" using Cons.prems by simp
    moreover have "s + Entry_ByteSizeLong E x \<le> noLimit"
      using Cons.prems by (simp add: noLimit_def u64_max_def)
    ultimately show ?case
      using Cons.IH [of "s + Entry_ByteSizeLong E x"] Cons.prems by (simp add: Let_def add.assoc)
  qed simp
  then show ?thesis using assms by (cases es) simp_all
qed

text \<open>
  C15: \<open>allEntries\<close> returns, and returns the whole log. The retry on \<open>ErrCompacted\<close> is
  never taken when the storage is not compacted concurrently.
\<close>

theorem allEntries_total:
  assumes "log_abs E l a" "ents_bytes E (al_ents a) < W64"
  shows "RaftLog_allEntries E l = Some (Inr (al_ents a))"
proof -
  have W: "al_last a + 1 < W64" "noLimit < W64"
    using log_abs_wf [OF assms(1)] by (simp_all add: al_wf_def noLimit_def)
  have s: "al_slice a (al_base a + 1) (al_last a + 1) = al_ents a" by (simp add: al_slice_def al_last_def)
  have "RaftLog_entries E l (al_base a + 1) noLimit = Inr (al_ents a, Ok)"
  proof (cases "al_ents a = []")
    case True
    then show ?thesis by (simp add: RaftLog_entries_def lastIndex_abs [OF assms(1)] al_last_def)
  next
    case False
    then have "al_base a + 1 \<le> al_last a" by (cases "al_ents a") (simp_all add: al_last_def)
    then show ?thesis
      using slice_abs [OF assms(1), of "al_base a + 1" "al_last a + 1" noLimit] W assms(2) s
      by (simp add: RaftLog_entries_def lastIndex_abs [OF assms(1)] limitSize_noLimit)
  qed
  then show ?thesis
    by (subst RaftLog_allEntries.simps) (simp add: firstIndex_abs [OF assms(1)])
qed

theorem allEntries_total_witness:
  "RaftLog_allEntries env_example (log_example env_example) = Some (Inr [ent 1 1, ent 1 2, ent 2 3])"
  using allEntries_total [OF log_example_abs, of env_example]
  by (simp add: alog_example_def Entry_ByteSizeLong_def env_example_def ent_def W64_def)

section \<open>Applying\<close>

lemma maxAppliableIndex_bounds:
  fixes allowUnstable :: bool
  assumes "log_ok E l a"
  defines "hi \<equiv> RaftLog_maxAppliableIndex l allowUnstable"
  shows "hi \<le> l_committed l" "allowUnstable \<or> hi < u_offset (l_unstable l)"
    "add64 (l_applying l) 1 = l_applying l + 1" "add64 hi 1 = hi + 1"
proof -
  have off: "0 < u_offset (l_unstable l)" "u_offset (l_unstable l) < W64"
    using log_okD(1) [OF assms(1)] unstable_wfD(2,3) [of "l_unstable l"] by (auto elim!: log_abs_cases)
  show hi: "hi \<le> l_committed l" "allowUnstable \<or> hi < u_offset (l_unstable l)"
    using off by (auto simp: RaftLog_maxAppliableIndex_def hi_def)
  have "l_applying l + 1 < W64" "hi + 1 < W64"
    using log_okD(3,5,7) [OF assms(1)] hi(1) by linarith+
  then show "add64 (l_applying l) 1 = l_applying l + 1" "add64 hi 1 = hi + 1" by simp_all
qed

lemma ents_bytes_part: "ents_bytes E (take n (drop m xs)) \<le> ents_bytes E xs"
  by (metis append_take_drop_id ents_bytes_simps(3) le_add1 le_add2 le_trans)

lemma nextCommittedEnts_eq:
  assumes "log_ok E l a" "RaftLog_hasNextCommittedEnts l allowUnstable"
    and "l_applyingEntsPaused l \<or> l_applyingEntsSize l < l_maxApplyingEntsSize l"
    and "l_maxApplyingEntsSize l < W64" "ents_bytes E (al_ents a) < W64"
  defines "hi \<equiv> RaftLog_maxAppliableIndex l allowUnstable"
  shows "\<exists>m. RaftLog_nextCommittedEnts E l allowUnstable = Inr (limitSize E (al_slice a (l_applying l + 1) (hi + 1)) m)"
    and "al_base a < l_applying l + 1" "l_applying l < hi"
proof -
  note B = maxAppliableIndex_bounds(1,2) [OF assms(1), of allowUnstable, folded hi_def]
    maxAppliableIndex_bounds(3) [OF assms(1)]
    maxAppliableIndex_bounds(4) [OF assms(1), of allowUnstable, folded hi_def]
  have h: "\<not> l_applyingEntsPaused l" "u_snapshot (l_unstable l) = None" "l_applying l < hi"
    using assms(2) unfolding RaftLog_hasNextCommittedEnts_def hi_def [symmetric] B(3,4)
      RaftLog_hasNextOrInProgressSnapshot_def by (auto split: if_splits)
  show base: "al_base a < l_applying l + 1" using log_okD(2,6) [OF assms(1)] h(2) by linarith
  show "l_applying l < hi" by (rule h(3))
  let ?m = "sub64 (l_maxApplyingEntsSize l) (l_applyingEntsSize l)"
  have bytes: "ents_bytes E (al_slice a (l_applying l + 1) (hi + 1)) < W64"
    using assms(5) ents_bytes_part unfolding al_slice_def by (rule le_less_trans [rotated])
  have m: "\<not> ?m \<le> 0" using assms(3,4) h(1) by simp
  have "RaftLog_slice E l (l_applying l + 1) (hi + 1) ?m = Inr (limitSize E (al_slice a (l_applying l + 1) (hi + 1)) ?m, Ok)"
    using slice_abs [OF log_okD(1) [OF assms(1)] base _ _ _ bytes] h(3) B(1) log_okD(5) [OF assms(1)] by simp
  then have "RaftLog_nextCommittedEnts E l allowUnstable = Inr (limitSize E (al_slice a (l_applying l + 1) (hi + 1)) ?m)"
    unfolding RaftLog_nextCommittedEnts_def Let_def hi_def [symmetric] B(3,4) RaftLog_hasNextOrInProgressSnapshot_def
    using h m by simp
  then show "\<exists>m. RaftLog_nextCommittedEnts E l allowUnstable = Inr (limitSize E (al_slice a (l_applying l + 1) (hi + 1)) m)"
    by blast
qed



section \<open>Persisting\<close>

lemma stableTo_parts:
  assumes "log_parts E l b t es" "u_snapshot (l_unstable l) = None"
    and "u_offset (l_unstable l) \<le> i" "i < u_offset (l_unstable l) + length (u_entries (l_unstable l))"
    and "es = take (u_offset (l_unstable l) - b - 1) es @ u_entries (l_unstable l)"
  shows "returns (RaftLog_stableTo l i (e_term (u_entries (l_unstable l) ! (i - u_offset (l_unstable l)))))
    (\<lambda>l'. log_parts E l' b t es \<and> alog_of l' b t es = alog_of l b t es \<and> u_offset (l_unstable l') = i + 1 \<and>
       u_entries (l_unstable l') = drop (i + 1 - u_offset (l_unstable l)) (u_entries (l_unstable l)) \<and>
       (\<exists>u. l' = l\<lparr>l_unstable := u\<rparr>))"
proof -
  let ?u = "l_unstable l" and ?off = "u_offset (l_unstable l)"
  have p: "storage_ok E (l_storage l) b t es" "unstable_wf ?u" "b < ?off" "?off \<le> b + length es + 1"
    using assms(1,2) by (simp_all add: log_parts_def)
  obtain u where u: "Unstable_stableTo ?u i (e_term (u_entries ?u ! (i - ?off))) = Inr u" "unstable_wf u"
      "u_snapshot u = None" "u_offset u = i + 1" "u_entries u = drop (i + 1 - ?off) (u_entries ?u)"
    using stableTo_spec [OF p(2), of i "e_term (u_entries ?u ! (i - ?off))"] assms(2-4) by (auto simp: returns_def)
  have len: "length es = ?off - b - 1 + length (u_entries ?u)"
    using arg_cong [OF assms(5), of length] p(4) by simp
  have "log_parts E (l\<lparr>l_unstable := u\<rparr>) b t es"
    using p u assms(3,4) len by (auto simp: log_parts_def)
  moreover have "take (i + 1 - b - 1) es @ drop (i + 1 - ?off) (u_entries ?u) = es"
  proof -
    have n: "i + 1 - b - 1 = ?off - b - 1 + (i + 1 - ?off)" using p(3) assms(3) by linarith
    have "take (i + 1 - b - 1) es = take (?off - b - 1) es @ take (i + 1 - ?off) (u_entries ?u)"
      unfolding n take_add by (metis append_take_drop_id assms(5) same_append_eq)
    then show ?thesis using assms(5) by (metis append.assoc append_take_drop_id)
  qed
  then have "alog_of (l\<lparr>l_unstable := u\<rparr>) b t es = alog_of l b t es"
    using u assms(2,5) by (simp add: alog_of_def)
  ultimately show ?thesis
    using u by (auto simp: RaftLog_stableTo_def)
qed

context storage_provider
begin

text \<open>The log \<open>l\<close> reads from the object \<open>s\<close> and the two together hold \<open>a\<close>.\<close>

definition holds :: "'s \<Rightarrow> RaftLog \<Rightarrow> alog \<Rightarrow> bool" where
  "holds s l a \<longleftrightarrow> inv s \<and> l_storage l = view s \<and> log_parts E l (base s) (bterm s) (ents s) \<and>
     a = alog_of l (base s) (bterm s) (ents s)"

lemma holds_abs: "holds s l a \<Longrightarrow> log_abs E l a"
  by (auto simp: holds_def log_abs_def)

lemma persist_append:
  assumes "holds s l a" "u_snapshot (l_unstable l) = None" "u_entries (l_unstable l) \<noteq> []"
  shows "returns (append s (u_entries (l_unstable l))) (\<lambda>(s', err). err = Ok \<and> holds s' (l\<lparr>l_storage := view s'\<rparr>) a \<and>
    ents s' = take (u_offset (l_unstable l) - base s' - 1) (ents s') @ u_entries (l_unstable l))"
proof -
  let ?u = "l_unstable l"
  have h: "inv s" "unstable_wf ?u" "base s < u_offset ?u" "u_offset ?u \<le> base s + length (ents s) + 1"
      "a = alog_of l (base s) (bterm s) (ents s)"
    using assms(1,2) by (simp_all add: holds_def log_parts_def)
  have "returns (append s (u_entries ?u)) (\<lambda>(s', err). err = Ok \<and> inv s' \<and> base s' = base s \<and> bterm s' = bterm s \<and>
      ents s' = take (u_offset ?u - base s - 1) (ents s) @ u_entries ?u)"
    using append_spec [OF h(1) unstable_wfD(1) [OF h(2)] assms(3) h(3,4) unstable_wfD(3) [OF h(2)]] .
  then show ?thesis
  proof (rule returns_mono, clarify)
    fix s'
    assume s': "inv s'" "base s' = base s" "bterm s' = bterm s" "ents s' = take (u_offset ?u - base s - 1) (ents s) @ u_entries ?u"
    have tk: "take (u_offset ?u - base s - 1) (ents s') = take (u_offset ?u - base s - 1) (ents s)"
    proof -
      have "length (take (u_offset ?u - base s - 1) (ents s)) = u_offset ?u - base s - 1"
        using h(4) by simp
      then show ?thesis unfolding s'(4) take_append take_take by simp
    qed
    have "log_parts E (l\<lparr>l_storage := view s'\<rparr>) (base s') (bterm s') (ents s')"
      using view_ok [OF s'(1)] h assms(2,3) by (auto simp: log_parts_def s'(2,4))
    moreover have "a = alog_of (l\<lparr>l_storage := view s'\<rparr>) (base s') (bterm s') (ents s')"
      using h(5) assms(2) tk s'(2,3) by (simp add: alog_of_def)
    moreover have "ents s' = take (u_offset ?u - base s' - 1) (ents s') @ u_entries ?u"
      using tk s'(2,4) by simp
    ultimately show "Ok = Ok \<and> holds s' (l\<lparr>l_storage := view s'\<rparr>) a \<and>
        ents s' = take (u_offset ?u - base s' - 1) (ents s') @ u_entries ?u"
      using s'(1) by (simp add: holds_def)
  qed
qed

lemma persist_keeps_log:
  assumes "holds s l a" "u_snapshot (l_unstable l) = None" "u_entries (l_unstable l) \<noteq> []"
  shows "returns (append s (u_entries (l_unstable l))) (\<lambda>(s', err). err = Ok \<and>
    returns (RaftLog_stableTo (l\<lparr>l_storage := view s'\<rparr>) (e_index (last (u_entries (l_unstable l))))
        (e_term (last (u_entries (l_unstable l)))))
      (\<lambda>l'. holds s' l' a \<and> u_entries (l_unstable l') = [] \<and> ents s' = al_ents a))"
  using persist_append [OF assms]
proof (rule returns_mono, clarify)
  fix s'
  let ?u = "l_unstable l" and ?l = "l\<lparr>l_storage := view s'\<rparr>"
  assume h: "holds s' ?l a" and e: "ents s' = take (u_offset ?u - base s' - 1) (ents s') @ u_entries ?u"
  let ?i = "e_index (last (u_entries ?u))"
  have wf: "unstable_wf ?u" using assms(1) by (simp add: holds_def log_parts_def)
  have len: "0 < length (u_entries ?u)" using assms(3) by simp
  have i: "?i = u_offset ?u + length (u_entries ?u) - 1"
    using numbered_last [OF unstable_wfD(1) [OF wf] assms(3)] .
  then have bounds: "u_offset ?u \<le> ?i" "?i < u_offset ?u + length (u_entries ?u)"
      "?i - u_offset ?u = length (u_entries ?u) - 1" "?i + 1 - u_offset ?u = length (u_entries ?u)"
    using len by linarith+
  have t: "e_term (u_entries ?u ! (?i - u_offset ?u)) = e_term (last (u_entries ?u))"
    using assms(3) bounds(3) by (simp add: last_conv_nth)
  have p: "log_parts E ?l (base s') (bterm s') (ents s')" using h by (simp add: holds_def)
  have ents: "ents s' = al_ents a" using h e assms(2) by (simp add: holds_def alog_of_def)
  have "returns (RaftLog_stableTo ?l ?i (e_term (last (u_entries ?u))))
      (\<lambda>l'. log_parts E l' (base s') (bterm s') (ents s') \<and>
        alog_of l' (base s') (bterm s') (ents s') = alog_of ?l (base s') (bterm s') (ents s') \<and>
        u_entries (l_unstable l') = [] \<and> (\<exists>u. l' = ?l\<lparr>l_unstable := u\<rparr>))"
    using returns_mono [OF stableTo_parts [OF p, of ?i]] assms(2) bounds t e by simp
  then show "Ok = Ok \<and> returns (RaftLog_stableTo ?l ?i (e_term (last (u_entries ?u))))
      (\<lambda>l'. holds s' l' a \<and> u_entries (l_unstable l') = [] \<and> ents s' = al_ents a)"
    using h ents by (auto simp: returns_def holds_def)
qed

end

text \<open>A log whose storage is a \<open>MemoryStorage\<close> object.\<close>

definition mem_holds :: "env \<Rightarrow> MemoryStorage \<Rightarrow> RaftLog \<Rightarrow> alog \<Rightarrow> bool" where
  "mem_holds E ms l a \<longleftrightarrow> ms_inv ms \<and> l_storage l = as_Storage E ms \<and>
     log_parts E l (ms_base ms) (ms_bterm ms) (ms_log ms) \<and> a = alog_of l (ms_base ms) (ms_bterm ms) (ms_log ms)"

lemma mem_holds_eq: "mem_holds E = mem.holds E"
  by (simp add: fun_eq_iff mem_holds_def mem.holds_def)

lemma log_example_holds: "mem_holds env_example ms_example (log_example env_example) alog_example"
proof -
  have "log_parts env_example (log_example env_example) 0 0 [ent 1 1, ent 1 2]"
    using mem.view_ok [OF ms_example_inv(1), of env_example] ms_example_inv(2-4)
    by (simp add: log_parts_def log_example_def unstable_wf_def ent_def W64_def)
  then show ?thesis
    using ms_example_inv by (simp add: mem_holds_def alog_of_def) (simp add: log_example_def alog_example_def)
qed

text \<open>
  C8: persisting does not change the log. Let a log lie over a \<open>MemoryStorage\<close>, with unstable
  entries and no unstable snapshot. When the application appends all unstable entries
  to the storage and then reports the last of them as stable, both steps succeed,
  the log denotes the same entries as before (also where the unstable tail overwrites
  entries of the storage), no unstable entry is left, and the storage alone holds the log.
  While a snapshot is unstable the storage has to take that first, which is not covered here.
\<close>

theorem persisting_keeps_log:
  assumes "mem_holds E ms l a" "u_snapshot (l_unstable l) = None" "u_entries (l_unstable l) \<noteq> []"
  shows "returns (MemoryStorage_Append ms (u_entries (l_unstable l))) (\<lambda>(ms', err). err = Ok \<and>
    returns (RaftLog_stableTo (l\<lparr>l_storage := as_Storage E ms'\<rparr>) (e_index (last (u_entries (l_unstable l))))
        (e_term (last (u_entries (l_unstable l)))))
      (\<lambda>l'. mem_holds E ms' l' a \<and> u_entries (l_unstable l') = [] \<and> ms_log ms' = al_ents a))"
  using mem.persist_keeps_log [of E ms l a] assms by (simp add: mem_holds_eq)

theorem persisting_keeps_log_witness:
  "\<exists>ms' l'. MemoryStorage_Append ms_example [ent 2 3] = Inr (ms', Ok) \<and>
     RaftLog_stableTo ((log_example env_example)\<lparr>l_storage := as_Storage env_example ms'\<rparr>) 3 2 = Inr l' \<and>
     mem_holds env_example ms' l' alog_example \<and> ms_log ms' = [ent 1 1, ent 1 2, ent 2 3]"
  using persisting_keeps_log [OF log_example_holds] by (auto simp: returns_def log_example_def alog_example_def ent_def)

end
