(* ===== verification/Quorum.thy ===== *)
theory Quorum
  imports Prelude "HOL-Library.Multiset"
begin

text \<open>
  \<open>src/etcd_raft/quorum/\<close>: majority and joint quorums. A \<open>MajorityConfig\<close> is the set of
  its voter ids (\<open>std::unordered_set\<close>); a loop over it is a loop over the sorted list of
  its elements, and the results are shown not to depend on the order. A \<open>JointConfig\<close> is a
  pair of majority configurations, and an \<open>AckedIndexer\<close> the function \<open>AckedIndex\<close>.

  The library part is the locale \<open>quorum_system\<close>: what the election and commit rules rely
  on is that quorums are upward closed and that any two of them meet. Its two
  interpretations discharge these laws for majority and joint configurations, and
  \<open>GetVoteResult\<close> and \<open>CommittedIndex\<close> are characterised by its quorums.
\<close>

section \<open>Definitions\<close>

type_synonym MajorityConfig = "u64 set"
type_synonym JointConfig = "MajorityConfig \<times> MajorityConfig"
type_synonym AckedIndexer = "u64 \<Rightarrow> u64 \<times> bool"

datatype VoteResult = VotePending | VoteLost | VoteWon

definition MajorityConfig_Slice :: "MajorityConfig \<Rightarrow> u64 list" where
  "MajorityConfig_Slice c = sorted_list_of_set c"

text \<open>The loop that fills \<open>srt\<close> from the right with the acknowledged indexes.\<close>

fun fill_acked :: "AckedIndexer \<Rightarrow> u64 list \<Rightarrow> u64 list \<Rightarrow> u64 \<Rightarrow> u64 list" where
  "fill_acked l [] srt i = srt"
| "fill_acked l (v # vs) srt i =
     (case l v of (idx, ok) \<Rightarrow>
        if ok then fill_acked l vs (srt[i := idx]) (sub64 i 1) else fill_acked l vs srt i)"

definition MajorityConfig_CommittedIndex :: "MajorityConfig \<Rightarrow> AckedIndexer \<Rightarrow> u64" where
  "MajorityConfig_CommittedIndex c l =
     (let n = card c in
      if n = 0 then u64_max
      else let srt = fill_acked l (sorted_list_of_set c) (replicate n 0) (n - 1);
               pos = n - (n div 2 + 1)
           in sort srt ! pos)"

text \<open>The counting loop of \<open>GetVoteResult\<close>: the yes votes and the missing ones.\<close>

fun count_votes :: "(u64 \<Rightarrow> bool option) \<Rightarrow> u64 list \<Rightarrow> nat \<times> nat \<Rightarrow> nat \<times> nat" where
  "count_votes votes [] acc = acc"
| "count_votes votes (v # vs) (votedCnt, missing) =
     (case votes v of
        None \<Rightarrow> count_votes votes vs (votedCnt, missing + 1)
      | Some yes \<Rightarrow> count_votes votes vs (if yes then votedCnt + 1 else votedCnt, missing))"

definition MajorityConfig_GetVoteResult :: "MajorityConfig \<Rightarrow> (u64 \<Rightarrow> bool option) \<Rightarrow> VoteResult" where
  "MajorityConfig_GetVoteResult c votes =
     (if c = {} then VoteWon
      else case count_votes votes (sorted_list_of_set c) (0, 0) of (votedCnt, missing) \<Rightarrow>
        let q = card c div 2 + 1
        in if q \<le> votedCnt then VoteWon
           else if q \<le> votedCnt + missing then VotePending
           else VoteLost)"

definition JointConfig_IDs :: "JointConfig \<Rightarrow> u64 set" where
  "JointConfig_IDs j = fst j \<union> snd j"

definition JointConfig_CommittedIndex :: "JointConfig \<Rightarrow> AckedIndexer \<Rightarrow> u64" where
  "JointConfig_CommittedIndex j l =
     (let idx0 = MajorityConfig_CommittedIndex (fst j) l;
          idx1 = MajorityConfig_CommittedIndex (snd j) l
      in if idx0 < idx1 then idx0 else idx1)"

definition JointConfig_GetVoteResult :: "JointConfig \<Rightarrow> (u64 \<Rightarrow> bool option) \<Rightarrow> VoteResult" where
  "JointConfig_GetVoteResult j votes =
     (let r1 = MajorityConfig_GetVoteResult (fst j) votes;
          r2 = MajorityConfig_GetVoteResult (snd j) votes
      in if r1 = r2 then r1
         else if r1 = VoteLost \<or> r2 = VoteLost then VoteLost
         else VotePending)"

text \<open>Specification: the quorums of a configuration, and the index a voter has
  acknowledged (0 when it has not reported).\<close>

definition majority_quorum :: "MajorityConfig \<Rightarrow> u64 set \<Rightarrow> bool" where
  "majority_quorum c A \<longleftrightarrow> c = {} \<or> card c div 2 + 1 \<le> card (c \<inter> A)"

definition joint_quorum :: "JointConfig \<Rightarrow> u64 set \<Rightarrow> bool" where
  "joint_quorum j A \<longleftrightarrow> majority_quorum (fst j) A \<and> majority_quorum (snd j) A"

definition acked :: "AckedIndexer \<Rightarrow> u64 \<Rightarrow> u64" where
  "acked l v = (case l v of (idx, ok) \<Rightarrow> if ok then idx else 0)"

abbreviation yes_votes :: "(u64 \<Rightarrow> bool option) \<Rightarrow> u64 set" where
  "yes_votes votes \<equiv> {v. votes v = Some True}"

section \<open>Quorum systems\<close>

locale quorum_system =
  fixes quorum :: "'c \<Rightarrow> 'v set \<Rightarrow> bool"
    and valid :: "'c \<Rightarrow> bool"
  assumes quorum_mono: "quorum c A \<Longrightarrow> A \<subseteq> B \<Longrightarrow> valid c \<Longrightarrow> quorum c B"
    and quorum_meet: "valid c \<Longrightarrow> quorum c A \<Longrightarrow> quorum c B \<Longrightarrow> A \<inter> B \<noteq> {}"
begin

lemma quorum_nonempty: "valid c \<Longrightarrow> quorum c A \<Longrightarrow> A \<noteq> {}"
  using quorum_meet [of c A A] by simp

lemma quorum_choice_unique:
  assumes "valid c" "quorum c A" "quorum c B"
    and "\<And>v. v \<in> A \<Longrightarrow> choice v = Some a" "\<And>v. v \<in> B \<Longrightarrow> choice v = Some b"
  shows "a = b"
  using quorum_meet [OF assms(1-3)] assms(4,5) by fastforce

end

lemma card_majorities_meet:
  assumes "finite c" "c \<noteq> {}" "card c div 2 + 1 \<le> card (c \<inter> A)" "card c div 2 + 1 \<le> card (c \<inter> B)"
  shows "A \<inter> B \<noteq> {}"
proof
  assume "A \<inter> B = {}"
  then have "card (c \<inter> A) + card (c \<inter> B) = card ((c \<inter> A) \<union> (c \<inter> B))"
    using assms(1) by (subst card_Un_disjoint) auto
  also have "\<dots> \<le> card c"
    using assms(1) by (intro card_mono) auto
  finally show False using assms(3,4) by linarith
qed

lemma majority_quorum_mono:
  "majority_quorum c A \<Longrightarrow> A \<subseteq> B \<Longrightarrow> finite c \<Longrightarrow> majority_quorum c B"
  using card_mono [of "c \<inter> B" "c \<inter> A"] by (auto simp: majority_quorum_def le_infI2)

interpretation majority: quorum_system majority_quorum "\<lambda>c. finite c \<and> c \<noteq> {}"
proof unfold_locales
  fix c :: MajorityConfig and A B
  assume "majority_quorum c A" "A \<subseteq> B" "finite c \<and> c \<noteq> {}"
  then show "majority_quorum c B" by (auto intro: majority_quorum_mono)
next
  fix c :: MajorityConfig and A B
  assume "finite c \<and> c \<noteq> {}" "majority_quorum c A" "majority_quorum c B"
  then show "A \<inter> B \<noteq> {}"
    using card_majorities_meet [of c A B] by (simp add: majority_quorum_def)
qed

interpretation joint: quorum_system joint_quorum "\<lambda>j. finite (fst j) \<and> finite (snd j) \<and> fst j \<noteq> {}"
proof unfold_locales
  fix j :: JointConfig and A B
  assume "joint_quorum j A" "A \<subseteq> B" "finite (fst j) \<and> finite (snd j) \<and> fst j \<noteq> {}"
  then show "joint_quorum j B" by (auto simp: joint_quorum_def intro: majority_quorum_mono)
next
  fix j :: JointConfig and A B
  assume "finite (fst j) \<and> finite (snd j) \<and> fst j \<noteq> {}" "joint_quorum j A" "joint_quorum j B"
  then show "A \<inter> B \<noteq> {}"
    using majority.quorum_meet [of "fst j" A B] by (simp add: joint_quorum_def)
qed

section \<open>Counting\<close>

lemma count_votes_eq:
  "count_votes votes vs (a, b) =
     (a + length (filter (\<lambda>v. votes v = Some True) vs), b + length (filter (\<lambda>v. votes v = None) vs))"
  by (induction vs arbitrary: a b) (auto split: option.splits)

lemma length_filter_set: "finite c \<Longrightarrow> length (filter P (sorted_list_of_set c)) = card {v \<in> c. P v}"
  using distinct_card [of "filter P (sorted_list_of_set c)"] by simp

lemma GetVoteResult_counts:
  assumes "finite c"
  shows "MajorityConfig_GetVoteResult c votes =
    (if c = {} then VoteWon
     else if card c div 2 + 1 \<le> card {v \<in> c. votes v = Some True} then VoteWon
     else if card c div 2 + 1 \<le> card {v \<in> c. votes v = Some True} + card {v \<in> c. votes v = None}
     then VotePending else VoteLost)"
  using assms by (simp add: MajorityConfig_GetVoteResult_def count_votes_eq length_filter_set Let_def)

lemma majority_won_iff:
  "finite c \<Longrightarrow> MajorityConfig_GetVoteResult c votes = VoteWon \<longleftrightarrow> majority_quorum c (yes_votes votes)"
  by (auto simp: GetVoteResult_counts majority_quorum_def Int_def)

lemma joint_won_iff:
  assumes "finite (fst j)" "finite (snd j)"
  shows "JointConfig_GetVoteResult j votes = VoteWon \<longleftrightarrow> joint_quorum j (yes_votes votes)"
  using majority_won_iff [OF assms(1), of votes] majority_won_iff [OF assms(2), of votes]
  by (auto simp: JointConfig_GetVoteResult_def joint_quorum_def Let_def)

lemma majority_lost_iff:
  assumes "finite c"
  shows "MajorityConfig_GetVoteResult c votes = VoteLost \<longleftrightarrow> \<not> majority_quorum c {v. votes v \<noteq> Some False}"
proof -
  have "{v \<in> c. votes v = Some True} \<union> {v \<in> c. votes v = None} = c \<inter> {v. votes v \<noteq> Some False}"
    by auto
  moreover have "{v \<in> c. votes v = Some True} \<inter> {v \<in> c. votes v = None} = {}" by auto
  ultimately have "card {v \<in> c. votes v = Some True} + card {v \<in> c. votes v = None} =
      card (c \<inter> {v. votes v \<noteq> Some False})"
    using assms by (metis (no_types, lifting) card_Un_disjoint finite_Int finite_Un)
  then show ?thesis using assms by (auto simp: GetVoteResult_counts majority_quorum_def)
qed

lemma joint_lost_iff:
  assumes "finite (fst j)" "finite (snd j)"
  shows "JointConfig_GetVoteResult j votes = VoteLost \<longleftrightarrow> \<not> joint_quorum j {v. votes v \<noteq> Some False}"
proof -
  have "JointConfig_GetVoteResult j votes = VoteLost \<longleftrightarrow>
      MajorityConfig_GetVoteResult (fst j) votes = VoteLost \<or>
      MajorityConfig_GetVoteResult (snd j) votes = VoteLost"
    by (auto simp: JointConfig_GetVoteResult_def Let_def)
  then show ?thesis
    by (simp add: joint_quorum_def majority_lost_iff [OF assms(1)] majority_lost_iff [OF assms(2)])
qed

section \<open>The committed index\<close>

lemma fill_acked_eq:
  assumes "length vs \<le> k" "k + length A = n" "n < W64"
  shows "fill_acked l vs (replicate k 0 @ A) (sub64 k 1) =
     replicate (k - length (filter (\<lambda>v. snd (l v)) vs)) 0
       @ rev (map (\<lambda>v. fst (l v)) (filter (\<lambda>v. snd (l v)) vs)) @ A"
  using assms
proof (induction vs arbitrary: k A)
  case Nil
  then show ?case by simp
next
  case (Cons v vs)
  obtain idx ok where lv: "l v = (idx, ok)" by (cases "l v")
  show ?case
  proof (cases ok)
    case False
    have "fill_acked l vs (replicate k 0 @ A) (sub64 k 1) =
        replicate (k - length (filter (\<lambda>v. snd (l v)) vs)) 0
          @ rev (map (\<lambda>v. fst (l v)) (filter (\<lambda>v. snd (l v)) vs)) @ A"
      using Cons.prems by (intro Cons.IH) auto
    then show ?thesis using False lv by simp
  next
    case True
    obtain j where k: "k = Suc j" using Cons.prems(1) by (cases k) auto
    have upd: "(replicate k 0 @ A)[sub64 k 1 := idx] = replicate j 0 @ (idx # A)"
      using Cons.prems(2,3) k by (simp add: list_update_append replicate_append_same [symmetric])
    have "fill_acked l vs (replicate j 0 @ (idx # A)) (sub64 j 1) =
        replicate (j - length (filter (\<lambda>v. snd (l v)) vs)) 0
          @ rev (map (\<lambda>v. fst (l v)) (filter (\<lambda>v. snd (l v)) vs)) @ idx # A"
      using Cons.IH [of j "idx # A"] Cons.prems k by simp
    moreover have "sub64 k 1 = j" using Cons.prems(2,3) k by simp
    ultimately show ?thesis using True lv upd k by simp
  qed
qed

lemma mset_fill_acked:
  assumes "length vs < W64"
  shows "mset (fill_acked l vs (replicate (length vs) 0) (length vs - 1)) = mset (map (acked l) vs)"
proof (cases vs)
  case Nil
  then show ?thesis by simp
next
  case (Cons a as)
  have "mset (map (acked l) vs) =
      replicate_mset (length vs - length (filter (\<lambda>v. snd (l v)) vs)) 0
        + mset (map (\<lambda>v. fst (l v)) (filter (\<lambda>v. snd (l v)) vs))" for vs
  proof (induction vs)
    case Nil
    then show ?case by simp
  next
    case (Cons v vs)
    have "length (filter (\<lambda>v. snd (l v)) vs) \<le> length vs" by simp
    then show ?case using Cons by (cases "l v") (auto simp: acked_def Suc_diff_le)
  qed
  moreover have "length vs - 1 = sub64 (length vs) 1" using assms Cons by simp
  ultimately show ?thesis
    using fill_acked_eq [of vs "length vs" "[]" "length vs" l] assms by simp
qed

lemma sorted_nth_ge_iff:
  assumes "sorted ys" "k < length ys"
  shows "i \<le> ys ! k \<longleftrightarrow> length ys - k \<le> length (filter (\<lambda>x. i \<le> x) ys)"
proof
  assume le: "i \<le> ys ! k"
  have "\<forall>x \<in> set (drop k ys). i \<le> x"
  proof
    fix x assume "x \<in> set (drop k ys)"
    then obtain j where "k + j < length ys" "x = ys ! (k + j)"
      unfolding in_set_conv_nth length_drop by (force simp: less_diff_conv add.commute)
    then show "i \<le> x" using sorted_nth_mono [OF assms(1), of k "k + j"] le by simp
  qed
  then have "filter (\<lambda>x. i \<le> x) (drop k ys) = drop k ys" by (simp add: filter_id_conv)
  then have "length ys - k = length (filter (\<lambda>x. i \<le> x) (drop k ys))" by simp
  also have "\<dots> \<le> length (filter (\<lambda>x. i \<le> x) ys)"
    by (metis append_take_drop_id filter_append le_add2 length_append)
  finally show "length ys - k \<le> length (filter (\<lambda>x. i \<le> x) ys)" .
next
  assume cnt: "length ys - k \<le> length (filter (\<lambda>x. i \<le> x) ys)"
  show "i \<le> ys ! k"
  proof (rule ccontr)
    assume not: "\<not> i \<le> ys ! k"
    have small: "\<forall>x \<in> set (take (Suc k) ys). \<not> i \<le> x"
    proof
      fix x assume "x \<in> set (take (Suc k) ys)"
      then obtain j where "j \<le> k" "x = ys ! j"
        by (auto simp: in_set_conv_nth less_Suc_eq_le)
      then have "x \<le> ys ! k" using assms by (simp add: sorted_nth_mono)
      then show "\<not> i \<le> x" using not by simp
    qed
    have "length (filter (\<lambda>x. i \<le> x) ys) =
        length (filter (\<lambda>x. i \<le> x) (take (Suc k) ys)) + length (filter (\<lambda>x. i \<le> x) (drop (Suc k) ys))"
      by (metis append_take_drop_id filter_append length_append)
    also have "filter (\<lambda>x. i \<le> x) (take (Suc k) ys) = []"
      using small by (simp add: filter_empty_conv)
    finally have "length (filter (\<lambda>x. i \<le> x) ys) \<le> length ys - Suc k"
      using length_filter_le [of "\<lambda>x. i \<le> x" "drop (Suc k) ys"] by simp
    then show False using cnt assms(2) by linarith
  qed
qed

lemma majority_committed_iff:
  assumes "finite c" "card c < W64"
  shows "i \<le> MajorityConfig_CommittedIndex c l \<longleftrightarrow>
    (if c = {} then i \<le> u64_max else majority_quorum c {v. i \<le> acked l v})"
proof (cases "c = {}")
  case True
  then show ?thesis by (simp add: MajorityConfig_CommittedIndex_def)
next
  case False
  let ?vs = "sorted_list_of_set c"
  let ?n = "card c"
  let ?srt = "fill_acked l ?vs (replicate ?n 0) (?n - 1)"
  let ?pos = "?n - (?n div 2 + 1)"
  have n: "0 < ?n" using assms False by (simp add: card_gt_0_iff)
  have len: "length ?vs = ?n" using assms by simp
  have ms: "mset ?srt = mset (map (acked l) ?vs)"
    using mset_fill_acked [of ?vs l] assms(2) by (simp add: len)
  have len2: "length (sort ?srt) = ?n" using ms len by (metis length_map length_sort size_mset)
  have cnt: "length (filter (\<lambda>x. i \<le> x) (sort ?srt)) = card (c \<inter> {v. i \<le> acked l v})"
  proof -
    have "length (filter (\<lambda>x. i \<le> x) (sort ?srt)) = size (filter_mset (\<lambda>x. i \<le> x) (mset ?srt))"
      by (metis mset_filter mset_sort size_mset)
    also have "\<dots> = length (filter (\<lambda>v. i \<le> acked l v) ?vs)"
      unfolding ms by (simp add: filter_mset_image_mset flip: mset_filter)
    also have "\<dots> = card (c \<inter> {v. i \<le> acked l v})"
      using assms(1) by (simp add: length_filter_set Int_def)
    finally show ?thesis .
  qed
  have "?pos < length (sort ?srt)" using n len2 by linarith
  then have "i \<le> sort ?srt ! ?pos \<longleftrightarrow> ?n - ?pos \<le> card (c \<inter> {v. i \<le> acked l v})"
    using sorted_nth_ge_iff [OF sorted_sort] len2 cnt by metis
  moreover have "?n - ?pos = ?n div 2 + 1" using n by linarith
  ultimately show ?thesis
    using False n by (simp add: MajorityConfig_CommittedIndex_def majority_quorum_def Let_def)
qed

lemma joint_committed_iff:
  assumes "finite (fst j)" "finite (snd j)" "card (fst j) < W64" "card (snd j) < W64"
    and "i \<le> u64_max"
  shows "i \<le> JointConfig_CommittedIndex j l \<longleftrightarrow> joint_quorum j {v. i \<le> acked l v}"
proof -
  have "i \<le> JointConfig_CommittedIndex j l \<longleftrightarrow>
      i \<le> MajorityConfig_CommittedIndex (fst j) l \<and> i \<le> MajorityConfig_CommittedIndex (snd j) l"
    by (auto simp: JointConfig_CommittedIndex_def Let_def)
  also have "\<dots> \<longleftrightarrow> joint_quorum j {v. i \<le> acked l v}"
    using assms(5)
    by (simp add: majority_committed_iff [OF assms(1,3)] majority_committed_iff [OF assms(2,4)]
        joint_quorum_def majority_quorum_def)
  finally show ?thesis .
qed

section \<open>Elections over time\<close>

lemma joint_quorum_mono:
  "joint_quorum j A \<Longrightarrow> A \<subseteq> B \<Longrightarrow> finite (fst j) \<Longrightarrow> finite (snd j) \<Longrightarrow> joint_quorum j B"
  by (auto simp: joint_quorum_def intro: majority_quorum_mono)

lemma joint_won_extends:
  assumes "finite (fst j)" "finite (snd j)" "votes \<subseteq>\<^sub>m votes'"
    and "JointConfig_GetVoteResult j votes = VoteWon"
  shows "JointConfig_GetVoteResult j votes' = VoteWon"
proof -
  have "yes_votes votes \<subseteq> yes_votes votes'"
    using assms(3) by (force simp: map_le_def dom_def)
  then show ?thesis
    using assms joint_quorum_mono [of j "yes_votes votes" "yes_votes votes'"] by (simp add: joint_won_iff)
qed

text \<open>The most favourable completion of a set of votes: everybody who has not voted says yes.\<close>

definition best_case :: "(u64 \<Rightarrow> bool option) \<Rightarrow> (u64 \<Rightarrow> bool option)" where
  "best_case votes v = (case votes v of None \<Rightarrow> Some True | Some b \<Rightarrow> Some b)"

lemma best_case_extends: "votes \<subseteq>\<^sub>m best_case votes"
  by (auto simp: map_le_def best_case_def)

lemma best_case_yes: "yes_votes (best_case votes) = {v. votes v \<noteq> Some False}"
  by (auto simp: best_case_def split: option.splits)

section \<open>Properties\<close>

text \<open>
  C4: \<open>JointConfig::CommittedIndex\<close> is exactly the largest index a joint quorum has
  acknowledged: an index is at most the result if and only if, in both halves of the
  configuration, a majority of the voters reports an acknowledged index at least as large
  (an empty half constrains nothing, a voter that has not reported counts as 0). The
  in-place sort of the partly filled array computes this order statistic.
\<close>

theorem committed_index_is_quorum_maximum:
  assumes "finite (fst j)" "finite (snd j)" "card (fst j) < W64" "card (snd j) < W64"
    and "i \<le> u64_max"
  shows "i \<le> JointConfig_CommittedIndex j l \<longleftrightarrow> joint_quorum j {v. i \<le> acked l v}"
  by (rule joint_committed_iff [OF assms])

definition acks_example :: AckedIndexer where
  "acks_example v = (if v = 1 then (5, True) else if v = 2 then (3, True) else (0, False))"

theorem committed_index_is_quorum_maximum_witness:
  "(3 \<le> JointConfig_CommittedIndex ({1, 2, 3}, {}) acks_example \<longleftrightarrow>
      joint_quorum ({1, 2, 3}, {}) {v. 3 \<le> acked acks_example v})
   \<and> JointConfig_CommittedIndex ({1, 2, 3}, {}) acks_example = 3"
proof -
  have "sorted_list_of_set {1, 2, 3 :: nat} = [1, 2, 3]"
    by (simp add: insort_key.simps)
  then have "JointConfig_CommittedIndex ({1, 2, 3}, {}) acks_example = 3"
    by (simp add: JointConfig_CommittedIndex_def MajorityConfig_CommittedIndex_def acks_example_def
        u64_max_def W64_def sub64_def Let_def)
  then show ?thesis
    using committed_index_is_quorum_maximum [of "({1, 2, 3}, {})" 3 acks_example]
    by (simp add: u64_max_def W64_def)
qed

text \<open>
  C18: a tally is final when it is not pending. \<open>JointConfig::GetVoteResult\<close> says
  \<open>VoteLost\<close> if and only if no way of casting the missing votes can still win the
  election, and a won election stays won whatever votes are added.
\<close>

theorem vote_result_final:
  assumes "finite (fst j)" "finite (snd j)"
  shows "(JointConfig_GetVoteResult j votes = VoteLost \<longleftrightarrow>
            (\<forall>votes'. votes \<subseteq>\<^sub>m votes' \<longrightarrow> JointConfig_GetVoteResult j votes' \<noteq> VoteWon)) \<and>
         (JointConfig_GetVoteResult j votes = VoteWon \<longleftrightarrow>
            (\<forall>votes'. votes \<subseteq>\<^sub>m votes' \<longrightarrow> JointConfig_GetVoteResult j votes' = VoteWon))"
proof -
  have "JointConfig_GetVoteResult j votes' \<noteq> VoteWon"
    if "JointConfig_GetVoteResult j votes = VoteLost" "votes \<subseteq>\<^sub>m votes'" for votes'
  proof
    assume "JointConfig_GetVoteResult j votes' = VoteWon"
    moreover have "yes_votes votes' \<subseteq> {v. votes v \<noteq> Some False}"
      using that(2) by (force simp: map_le_def dom_def)
    ultimately have "joint_quorum j {v. votes v \<noteq> Some False}"
      using assms joint_quorum_mono joint_won_iff by metis
    then show False using that(1) joint_lost_iff [OF assms] by metis
  qed
  moreover have "JointConfig_GetVoteResult j (best_case votes) = VoteWon"
    if "JointConfig_GetVoteResult j votes \<noteq> VoteLost"
    using that by (simp add: joint_won_iff [OF assms] joint_lost_iff [OF assms] best_case_yes)
  ultimately show ?thesis
    using best_case_extends joint_won_extends [OF assms] map_le_refl by metis
qed

theorem vote_result_final_witness:
  "JointConfig_GetVoteResult ({1, 2, 3}, {}) [1 \<mapsto> False, 2 \<mapsto> False] = VoteLost \<and>
   JointConfig_GetVoteResult ({1, 2, 3}, {}) [1 \<mapsto> False, 2 \<mapsto> False, 3 \<mapsto> True] \<noteq> VoteWon"
proof -
  have "sorted_list_of_set {1, 2, 3 :: nat} = [1, 2, 3]"
    by (simp add: insort_key.simps)
  then have "JointConfig_GetVoteResult ({1, 2, 3}, {}) [1 \<mapsto> False, 2 \<mapsto> False] = VoteLost"
    by (simp add: JointConfig_GetVoteResult_def MajorityConfig_GetVoteResult_def Let_def)
  then show ?thesis
    using vote_result_final [of "({1, 2, 3}, {})" "[1 \<mapsto> False, 2 \<mapsto> False]"]
    by (auto simp: map_le_def)
qed

text \<open>
  C5: committed entries reach every later leader's electorate. If the tally of an election
  is \<open>VoteWon\<close> and index \<open>i\<close> is at most the committed index computed from the
  acknowledgements, under the same joint configuration, then some voter granted its vote
  and had acknowledged \<open>i\<close>. Two elections won under the same configuration likewise share
  a voter.
\<close>

theorem election_meets_commit:
  assumes "finite (fst j)" "finite (snd j)" "card (fst j) < W64" "card (snd j) < W64" "fst j \<noteq> {}"
    and "JointConfig_GetVoteResult j votes = VoteWon"
  shows "(i \<le> u64_max \<and> i \<le> JointConfig_CommittedIndex j l \<longrightarrow>
            (\<exists>v. votes v = Some True \<and> i \<le> acked l v)) \<and>
         (JointConfig_GetVoteResult j votes' = VoteWon \<longrightarrow>
            (\<exists>v. votes v = Some True \<and> votes' v = Some True))"
proof -
  have q: "joint_quorum j (yes_votes votes)" using assms joint_won_iff by metis
  have v: "finite (fst j) \<and> finite (snd j) \<and> fst j \<noteq> {}" using assms by simp
  have "yes_votes votes \<inter> {v. i \<le> acked l v} \<noteq> {}"
    if "i \<le> u64_max" "i \<le> JointConfig_CommittedIndex j l"
    using joint.quorum_meet [OF v q] joint_committed_iff [OF assms(1-4) that(1)] that(2) by metis
  moreover have "yes_votes votes \<inter> yes_votes votes' \<noteq> {}"
    if "JointConfig_GetVoteResult j votes' = VoteWon"
    using joint.quorum_meet [OF v q] joint_won_iff [OF assms(1,2)] that by metis
  ultimately show ?thesis by auto
qed

theorem election_meets_commit_witness:
  "\<exists>v. [1 \<mapsto> True, 3 \<mapsto> True] v = Some True \<and> 3 \<le> acked acks_example v"
proof -
  have s: "sorted_list_of_set {1, 2, 3 :: nat} = [1, 2, 3]"
    by (simp add: insort_key.simps)
  then have "JointConfig_CommittedIndex ({1, 2, 3}, {}) acks_example = 3"
    by (simp add: JointConfig_CommittedIndex_def MajorityConfig_CommittedIndex_def acks_example_def
        u64_max_def W64_def sub64_def Let_def)
  moreover have "JointConfig_GetVoteResult ({1, 2, 3}, {}) [1 \<mapsto> True, 3 \<mapsto> True] = VoteWon"
    using s by (simp add: JointConfig_GetVoteResult_def MajorityConfig_GetVoteResult_def Let_def)
  ultimately show ?thesis
    using election_meets_commit [of "({1, 2, 3}, {})" "[1 \<mapsto> True, 3 \<mapsto> True]" 3 acks_example]
    by (simp add: W64_def u64_max_def)
qed

end
