(* ===== verification/Inflights.thy ===== *)
theory Inflights
  imports Prelude
begin

text \<open>
  \<open>src/etcd_raft/tracker/inflights.h\<close>: the sliding window of in-flight append messages,
  a ring buffer that is grown on demand. The record has the fields of the class; \<open>Add\<close>
  and \<open>FreeLE\<close> index the buffer and may therefore fail.

  The abstract view is a first-in first-out queue. The locale \<open>flow_window\<close> is what the
  replication code relies on: adding appends at the end, freeing drops the acknowledged
  prefix. The interpretation discharges it for the ring buffer under the representation
  invariant \<open>inflights_wf\<close>.
\<close>

section \<open>Definitions\<close>

record inflight =
  il_index :: u64
  il_bytes :: u64

record Inflights =
  inf_start :: nat
  inf_count :: nat
  inf_bytes :: u64
  inf_size :: nat
  inf_maxBytes :: u64
  inf_buffer :: "inflight list"

definition inflight0 :: inflight where
  "inflight0 = \<lparr>il_index = 0, il_bytes = 0\<rparr>"

definition NewInflights :: "nat \<Rightarrow> u64 \<Rightarrow> Inflights" where
  "NewInflights sz maxBytes =
     \<lparr>inf_start = 0, inf_count = 0, inf_bytes = 0, inf_size = sz, inf_maxBytes = maxBytes,
      inf_buffer = []\<rparr>"

definition Inflights_reset :: "Inflights \<Rightarrow> Inflights" where
  "Inflights_reset f = f\<lparr>inf_count := 0, inf_start := 0, inf_bytes := 0\<rparr>"

definition Inflights_Full :: "Inflights \<Rightarrow> bool" where
  "Inflights_Full f =
     (inf_count f = inf_size f \<or> (inf_maxBytes f \<noteq> 0 \<and> inf_maxBytes f \<le> inf_bytes f))"

definition Inflights_Count :: "Inflights \<Rightarrow> nat" where
  "Inflights_Count f = inf_count f"

text \<open>\<open>std::vector::resize\<close>: cut, or pad with default elements.\<close>

definition resize :: "inflight list \<Rightarrow> nat \<Rightarrow> inflight list" where
  "resize xs n = take n xs @ replicate (n - length xs) inflight0"

definition Inflights_grow :: "Inflights \<Rightarrow> Inflights" where
  "Inflights_grow f =
     (let newSize = (length (inf_buffer f) * 2) mod W64;
          newSize' = (if newSize = 0 then 1 else if inf_size f < newSize then inf_size f else newSize)
      in f\<lparr>inf_buffer := resize (inf_buffer f) newSize'\<rparr>)"

definition Inflights_Add :: "Inflights \<Rightarrow> u64 \<Rightarrow> u64 \<Rightarrow> Inflights res" where
  "Inflights_Add f index bytes =
     (if Inflights_Full f then Inl (Panic ''cannot add into a Full inflights'')
      else
        let next1 = add64 (inf_start f) (inf_count f);
            next2 = (if inf_size f \<le> next1 then sub64 next1 (inf_size f) else next1);
            g = (if length (inf_buffer f) \<le> next2 then Inflights_grow f else f)
        in if next2 < length (inf_buffer g)
           then Inr (g\<lparr>inf_buffer := (inf_buffer g)[next2 := \<lparr>il_index = index, il_bytes = bytes\<rparr>],
                       inf_count := add64 (inf_count g) 1,
                       inf_bytes := add64 (inf_bytes g) bytes\<rparr>)
           else Inl (Undefined ''buffer_[next]''))"

text \<open>The loop of \<open>FreeLE\<close> over \<open>i < count_\<close>; \<open>k\<close> iterations are left.\<close>

fun FreeLE_loop :: "inflight list \<Rightarrow> nat \<Rightarrow> u64 \<Rightarrow> nat \<Rightarrow> nat \<Rightarrow> nat \<Rightarrow> u64 \<Rightarrow> (nat \<times> nat \<times> u64) res" where
  "FreeLE_loop buf sz to 0 idx i bytes = Inr (idx, i, bytes)"
| "FreeLE_loop buf sz to (Suc k) idx i bytes =
     bindR (at_ix buf idx) (\<lambda>e.
       if to < il_index e then Inr (idx, i, bytes)
       else let idx' = add64 idx 1
            in FreeLE_loop buf sz to k (if sz \<le> idx' then sub64 idx' sz else idx') (i + 1)
                 (add64 bytes (il_bytes e)))"

definition Inflights_FreeLE :: "Inflights \<Rightarrow> u64 \<Rightarrow> Inflights res" where
  "Inflights_FreeLE f to =
     (if inf_count f = 0 then Inr f
      else bindR (at_ix (inf_buffer f) (inf_start f)) (\<lambda>e0.
        if to < il_index e0 then Inr f
        else bindR (FreeLE_loop (inf_buffer f) (inf_size f) to (inf_count f) (inf_start f) 0 0)
          (\<lambda>(idx, i, bytes).
             let g = f\<lparr>inf_count := inf_count f - i, inf_bytes := sub64 (inf_bytes f) bytes,
                       inf_start := idx\<rparr>
             in Inr (if inf_count g = 0 then g\<lparr>inf_start := 0\<rparr> else g))))"

section \<open>The queue it implements\<close>

locale flow_window =
  fixes wf :: "'w \<Rightarrow> bool"
    and items :: "'w \<Rightarrow> 'a list"
    and full :: "'w \<Rightarrow> bool"
    and add :: "'w \<Rightarrow> 'a \<Rightarrow> 'w res"
    and free :: "'w \<Rightarrow> nat \<Rightarrow> 'w res"
    and reset :: "'w \<Rightarrow> 'w"
    and key :: "'a \<Rightarrow> nat"
  assumes add_spec: "wf w \<Longrightarrow> \<not> full w \<Longrightarrow> returns (add w x) (\<lambda>w'. wf w' \<and> items w' = items w @ [x])"
    and free_spec: "wf w \<Longrightarrow>
      returns (free w k) (\<lambda>w'. wf w' \<and> items w' = dropWhile (\<lambda>x. key x \<le> k) (items w))"
    and reset_spec: "wf w \<Longrightarrow> wf (reset w) \<and> items (reset w) = []"
begin

definition ordered :: "'w \<Rightarrow> bool" where
  "ordered w \<longleftrightarrow> sorted (map key (items w))"

lemma dropWhile_sorted:
  "sorted (map key xs) \<Longrightarrow> dropWhile (\<lambda>x. key x \<le> k) xs = filter (\<lambda>x. k < key x) xs"
  by (induction xs) (auto intro!: filter_True [symmetric])

lemma free_ordered:
  assumes "wf w" "ordered w"
  shows "returns (free w k) (\<lambda>w'. wf w' \<and> ordered w' \<and> items w' = filter (\<lambda>x. k < key x) (items w))"
  using free_spec [OF assms(1), of k] assms(2)
  by (auto simp: returns_def ordered_def dropWhile_sorted sorted_filter)

lemma add_ordered:
  assumes "wf w" "\<not> full w" "ordered w" "\<And>y. y \<in> set (items w) \<Longrightarrow> key y \<le> key x"
  shows "returns (add w x) (\<lambda>w'. wf w' \<and> ordered w' \<and> items w' = items w @ [x])"
  using add_spec [OF assms(1,2), of x] assms(3,4)
  by (auto simp: returns_def ordered_def sorted_append)

end

text \<open>Position \<open>k\<close> of the window in the ring, the queue it holds, and the representation
  invariant: until the buffer has its full size the window does not wrap.\<close>

definition ring_ix :: "Inflights \<Rightarrow> nat \<Rightarrow> nat" where
  "ring_ix f k = (if inf_start f + k < inf_size f then inf_start f + k
                  else inf_start f + k - inf_size f)"

definition inflights_items :: "Inflights \<Rightarrow> inflight list" where
  "inflights_items f = map (\<lambda>k. inf_buffer f ! ring_ix f k) [0..<inf_count f]"

definition inflights_wf :: "Inflights \<Rightarrow> bool" where
  "inflights_wf f \<longleftrightarrow>
     inf_size f * 2 < W64 \<and> inf_count f \<le> inf_size f \<and> length (inf_buffer f) \<le> inf_size f \<and>
     (inf_start f < inf_size f \<or> inf_start f = 0) \<and>
     (length (inf_buffer f) = inf_size f \<or> inf_start f + inf_count f \<le> length (inf_buffer f)) \<and>
     inf_bytes f = sum_list (map il_bytes (inflights_items f)) mod W64"

section \<open>Reset and creation\<close>

lemma NewInflights_wf [simp]:
  "sz * 2 < W64 \<Longrightarrow> inflights_wf (NewInflights sz mb)" "inflights_items (NewInflights sz mb) = []"
  by (auto simp: inflights_wf_def NewInflights_def inflights_items_def)

lemma reset_wf: "inflights_wf f \<Longrightarrow> inflights_wf (Inflights_reset f)"
  by (auto simp: inflights_wf_def Inflights_reset_def inflights_items_def)

lemma reset_items [simp]: "inflights_items (Inflights_reset f) = []"
  by (simp add: Inflights_reset_def inflights_items_def)

lemma length_items [simp]: "length (inflights_items f) = inf_count f"
  by (simp add: inflights_items_def)

section \<open>Adding\<close>

lemma length_resize [simp]: "length (resize xs n) = n"
  by (simp add: resize_def)

lemma nth_resize: "i < length xs \<Longrightarrow> i < n \<Longrightarrow> resize xs n ! i = xs ! i"
  by (simp add: resize_def nth_append)

lemma ring_ix_less:
  "inflights_wf f \<Longrightarrow> k < inf_count f \<Longrightarrow> ring_ix f k < length (inf_buffer f)"
  by (auto simp: inflights_wf_def ring_ix_def)

lemma ring_ix_inj:
  "inflights_wf f \<Longrightarrow> k < inf_count f \<Longrightarrow> inf_count f < inf_size f \<Longrightarrow> ring_ix f k \<noteq> ring_ix f (inf_count f)"
  by (auto simp: inflights_wf_def ring_ix_def)

text \<open>The buffer after the growth test: it has room at the insertion point, keeps the old
  elements, and is within \<open>size\<close>.\<close>

definition room_made :: "Inflights \<Rightarrow> Inflights" where
  "room_made f =
     (if length (inf_buffer f) \<le> ring_ix f (inf_count f) then Inflights_grow f else f)"

lemma room_made_fields [simp]:
  "inf_start (room_made f) = inf_start f" "inf_count (room_made f) = inf_count f"
  "inf_bytes (room_made f) = inf_bytes f" "inf_size (room_made f) = inf_size f"
  "inf_maxBytes (room_made f) = inf_maxBytes f" "ring_ix (room_made f) = ring_ix f"
  by (auto simp: room_made_def Inflights_grow_def Let_def ring_ix_def)

lemma room_made_buffer:
  assumes "inflights_wf f" "inf_count f < inf_size f"
  shows "ring_ix f (inf_count f) < length (inf_buffer (room_made f))"
    and "length (inf_buffer (room_made f)) \<le> inf_size f"
    and "length (inf_buffer f) \<le> length (inf_buffer (room_made f))"
    and "\<And>i. i < length (inf_buffer f) \<Longrightarrow> inf_buffer (room_made f) ! i = inf_buffer f ! i"
    and "length (inf_buffer f) = inf_size f \<Longrightarrow> length (inf_buffer (room_made f)) = inf_size f"
proof -
  let ?n = "length (inf_buffer f)"
  have wf: "inf_size f * 2 < W64" "?n \<le> inf_size f" using assms by (auto simp: inflights_wf_def)
  show room: "ring_ix f (inf_count f) < length (inf_buffer (room_made f))"
    and le: "length (inf_buffer (room_made f)) \<le> inf_size f"
    and ge: "?n \<le> length (inf_buffer (room_made f))"
    and full: "?n = inf_size f \<Longrightarrow> length (inf_buffer (room_made f)) = inf_size f"
    using assms wf by (auto simp: room_made_def Inflights_grow_def Let_def inflights_wf_def ring_ix_def)
  fix i assume "i < ?n"
  then show "inf_buffer (room_made f) ! i = inf_buffer f ! i"
    using ge by (auto simp: room_made_def Inflights_grow_def Let_def nth_resize)
qed

lemma Add_eq:
  assumes "inflights_wf f" "\<not> Inflights_Full f"
  shows "Inflights_Add f index bytes =
     Inr ((room_made f)\<lparr>inf_buffer := (inf_buffer (room_made f))[ring_ix f (inf_count f) :=
             \<lparr>il_index = index, il_bytes = bytes\<rparr>],
          inf_count := inf_count f + 1, inf_bytes := add64 (inf_bytes f) bytes\<rparr>)"
proof -
  have cnt: "inf_count f < inf_size f"
    using assms by (auto simp: inflights_wf_def Inflights_Full_def)
  then have sum: "inf_start f + inf_count f < W64" "inf_count f + 1 < W64" "inf_size f < W64"
    using assms by (auto simp: inflights_wf_def)
  have nxt: "(if inf_size f \<le> add64 (inf_start f) (inf_count f)
              then sub64 (add64 (inf_start f) (inf_count f)) (inf_size f)
              else add64 (inf_start f) (inf_count f)) = ring_ix f (inf_count f)"
    using sum by (auto simp: ring_ix_def)
  have "ring_ix f (inf_count f) < length (inf_buffer (room_made f))"
    by (rule room_made_buffer(1) [OF assms(1) cnt])
  then show ?thesis
    using assms(2) sum unfolding Inflights_Add_def Let_def nxt by (simp flip: room_made_def)
qed

lemma Add_spec:
  assumes "inflights_wf f" "\<not> Inflights_Full f"
  shows "returns (Inflights_Add f index bytes)
    (\<lambda>g. inflights_wf g \<and> inflights_items g = inflights_items f @ [\<lparr>il_index = index, il_bytes = bytes\<rparr>]
         \<and> inf_size g = inf_size f \<and> inf_maxBytes g = inf_maxBytes f)"
proof -
  let ?e = "\<lparr>il_index = index, il_bytes = bytes\<rparr>"
  let ?p = "ring_ix f (inf_count f)"
  define b where "b = (inf_buffer (room_made f))[?p := ?e]"
  define g where "g = (room_made f)\<lparr>inf_buffer := b, inf_count := inf_count f + 1,
      inf_bytes := add64 (inf_bytes f) bytes\<rparr>"
  have cnt: "inf_count f < inf_size f"
    using assms by (auto simp: inflights_wf_def Inflights_Full_def)
  note room = room_made_buffer [OF assms(1) cnt]
  have g: "inf_buffer g = b" "inf_count g = Suc (inf_count f)" "inf_start g = inf_start f"
    "inf_size g = inf_size f" "inf_maxBytes g = inf_maxBytes f"
    "inf_bytes g = add64 (inf_bytes f) bytes"
    by (simp_all add: g_def)
  have ring: "ring_ix g = ring_ix f" by (simp add: ring_ix_def g fun_eq_iff)
  have old: "b ! ring_ix f k = inf_buffer f ! ring_ix f k" if "k < inf_count f" for k
    using ring_ix_inj [OF assms(1) that cnt] ring_ix_less [OF assms(1) that] room(4)
    by (simp add: b_def)
  have items: "inflights_items g = inflights_items f @ [?e]"
    using room(1) by (simp add: inflights_items_def g ring old) (simp add: b_def)
  have bytes: "inf_bytes g = sum_list (map il_bytes (inflights_items g)) mod W64"
    using assms(1) unfolding items g(6)
    by (simp add: inflights_wf_def add64_def mod_simps add.commute)
  have lenb: "length b = length (inf_buffer (room_made f))" by (simp add: b_def)
  have len: "length b = inf_size f \<or> Suc (inf_start f + inf_count f) \<le> length b"
  proof (cases "length (inf_buffer f) = inf_size f")
    case True
    then show ?thesis using room(5) lenb by simp
  next
    case False
    then have "inf_start f + inf_count f < inf_size f"
      using assms(1) by (auto simp: inflights_wf_def)
    then show ?thesis using room(1) lenb by (simp add: ring_ix_def)
  qed
  have "inflights_wf g"
    using assms(1) room(2) cnt len bytes lenb unfolding inflights_wf_def [of g] g(1-5)
    by (auto simp: inflights_wf_def)
  then show ?thesis using items g(4,5) by (simp add: Add_eq [OF assms] g_def b_def)
qed

section \<open>Freeing\<close>

lemma ring_ix_Suc:
  assumes "inflights_wf f" "k < inf_count f"
  shows "(let idx' = add64 (ring_ix f k) 1 in if inf_size f \<le> idx' then sub64 idx' (inf_size f) else idx')
    = ring_ix f (Suc k)"
  using assms by (auto simp: Let_def ring_ix_def inflights_wf_def)

lemma FreeLE_loop_eq:
  assumes "inflights_wf f" "i + k = inf_count f"
  shows "FreeLE_loop (inf_buffer f) (inf_size f) to k (ring_ix f i) i b =
    (let n = i + length (takeWhile (\<lambda>e. il_index e \<le> to) (drop i (inflights_items f)))
     in Inr (ring_ix f n, n,
          (if k = 0 then b else
           foldl (\<lambda>b e. add64 b (il_bytes e)) b (takeWhile (\<lambda>e. il_index e \<le> to) (drop i (inflights_items f))))))"
  using assms(2)
proof (induction k arbitrary: i b)
  case 0
  then show ?case by (simp add: Let_def)
next
  case (Suc k)
  let ?e = "inf_buffer f ! ring_ix f i"
  have i: "i < inf_count f" using Suc.prems by simp
  have d: "drop i (inflights_items f) = ?e # drop (Suc i) (inflights_items f)"
    using i Cons_nth_drop_Suc [of i "inflights_items f"] by (simp add: inflights_items_def)
  have ix: "ring_ix f i < length (inf_buffer f)" by (rule ring_ix_less [OF assms(1) i])
  show ?case
  proof (cases "to < il_index ?e")
    case True
    then show ?thesis using ix by (simp add: d)
  next
    case False
    have nil: "k = 0 \<Longrightarrow> drop (Suc i) (inflights_items f) = []"
      using Suc.prems by simp
    have "FreeLE_loop (inf_buffer f) (inf_size f) to (Suc k) (ring_ix f i) i b =
        FreeLE_loop (inf_buffer f) (inf_size f) to k (ring_ix f (Suc i)) (Suc i) (add64 b (il_bytes ?e))"
      using False ix ring_ix_Suc [OF assms(1) i] by (simp add: Let_def)
    then show ?thesis
      using Suc.IH [of "Suc i" "add64 b (il_bytes ?e)"] Suc.prems False nil by (auto simp: d Let_def)
  qed
qed

lemma sum_mod_sub:
  assumes "a = x mod W64" "b = y mod W64" "y \<le> x"
  shows "sub64 a b = (x - y) mod W64"
proof -
  have "b \<le> W64" using assms(2) by (simp add: less_imp_le)
  then have "int (sub64 a b) = ((int a - int b) + int W64) mod int W64"
    by (simp add: sub64_def zmod_int of_nat_diff algebra_simps)
  also have "\<dots> = (int a - int b) mod int W64" by (rule mod_add_self2)
  also have "\<dots> = (int x - int y) mod int W64"
    unfolding assms(1,2) zmod_int by (rule mod_diff_eq)
  also have "\<dots> = int ((x - y) mod W64)"
    using assms(3) by (simp add: zmod_int of_nat_diff)
  finally show ?thesis by simp
qed

lemma foldl_add64_mod:
  "foldl (\<lambda>b e. add64 b (il_bytes e)) b xs mod W64 = (b + sum_list (map il_bytes xs)) mod W64"
  by (induction xs arbitrary: b) (simp_all add: add64_def mod_simps add.assoc)

lemma foldl_add64_less2: "b < W64 \<Longrightarrow> foldl (\<lambda>b e. add64 b (il_bytes e)) b xs < W64"
  by (induction xs arbitrary: b) simp_all

lemma FreeLE_spec:
  assumes "inflights_wf f"
  shows "returns (Inflights_FreeLE f to)
    (\<lambda>g. inflights_wf g \<and> inflights_items g = dropWhile (\<lambda>e. il_index e \<le> to) (inflights_items f)
         \<and> inf_size g = inf_size f \<and> inf_maxBytes g = inf_maxBytes f)"
proof (cases "inf_count f = 0")
  case True
  then show ?thesis using assms by (simp add: Inflights_FreeLE_def inflights_items_def)
next
  case False
  let ?xs = "inflights_items f" and ?P = "\<lambda>e. il_index e \<le> to"
  let ?e0 = "inf_buffer f ! inf_start f"
  have r0: "ring_ix f 0 = inf_start f" using assms False by (auto simp: ring_ix_def inflights_wf_def)
  have ix: "inf_start f < length (inf_buffer f)"
    using ring_ix_less [OF assms, of 0] False r0 by simp
  have hd: "?xs = ?e0 # tl ?xs"
    using False by (simp add: inflights_items_def upt_conv_Cons r0)
  show ?thesis
  proof (cases "to < il_index ?e0")
    case True
    then have "dropWhile ?P ?xs = ?xs" by (subst hd, subst (2) hd) simp
    then show ?thesis using assms False True ix by (simp add: Inflights_FreeLE_def)
  next
    case notless: False
    define n where "n = length (takeWhile ?P ?xs)"
    define fb where "fb = foldl (\<lambda>b e. add64 b (il_bytes e)) 0 (takeWhile ?P ?xs)"
    define h where "h = f\<lparr>inf_count := inf_count f - n, inf_bytes := sub64 (inf_bytes f) fb,
      inf_start := ring_ix f n\<rparr>"
    define g where "g = (if inf_count f - n = 0 then h\<lparr>inf_start := 0\<rparr> else h)"
    have nle: "n \<le> inf_count f" unfolding n_def by (metis length_items length_takeWhile_le)
    have "FreeLE_loop (inf_buffer f) (inf_size f) to (inf_count f) (inf_start f) 0 0 =
        Inr (ring_ix f n, n, fb)"
      using FreeLE_loop_eq [OF assms, of 0 "inf_count f" to 0] False
      by (simp add: r0 n_def fb_def Let_def)
    then have eq: "Inflights_FreeLE f to = Inr g"
      using False notless ix by (simp add: Inflights_FreeLE_def Let_def g_def h_def)
    have dw: "dropWhile ?P ?xs = drop n ?xs" by (simp add: n_def dropWhile_eq_drop)
    have "inflights_items g = drop n ?xs"
    proof (rule nth_equalityI)
      show "length (inflights_items g) = length (drop n ?xs)" by (simp add: g_def h_def)
      fix k assume "k < length (inflights_items g)"
      then have k: "k < inf_count f - n" by (simp add: g_def h_def split: if_splits)
      have "ring_ix h k = ring_ix f (n + k)"
        using k assms by (auto simp: ring_ix_def h_def inflights_wf_def)
      then show "inflights_items g ! k = drop n ?xs ! k"
        using k by (simp add: inflights_items_def g_def h_def)
    qed
    then have items: "inflights_items g = dropWhile ?P ?xs" by (simp add: dw)
    have split: "sum_list (map il_bytes ?xs) =
        sum_list (map il_bytes (takeWhile ?P ?xs)) + sum_list (map il_bytes (dropWhile ?P ?xs))"
      by (metis map_append sum_list_append takeWhile_dropWhile_id)
    have fb: "fb = sum_list (map il_bytes (takeWhile ?P ?xs)) mod W64"
      using foldl_add64_mod [of 0 "takeWhile ?P ?xs"] foldl_add64_less2 [of 0 "takeWhile ?P ?xs"]
      by (simp add: fb_def)
    have bf: "inf_bytes f = sum_list (map il_bytes ?xs) mod W64"
      using assms by (simp add: inflights_wf_def)
    have "sub64 (inf_bytes f) fb =
        (sum_list (map il_bytes ?xs) - sum_list (map il_bytes (takeWhile ?P ?xs))) mod W64"
      by (rule sum_mod_sub [OF bf fb]) (simp add: split)
    then have "sub64 (inf_bytes f) fb = sum_list (map il_bytes (inflights_items g)) mod W64"
      unfolding items split by simp
    moreover have "inf_bytes g = sub64 (inf_bytes f) fb" by (simp add: g_def h_def)
    ultimately have bytes: "inf_bytes g = sum_list (map il_bytes (inflights_items g)) mod W64"
      by (rule trans [rotated])
    have g: "inf_buffer g = inf_buffer f" "inf_size g = inf_size f" "inf_maxBytes g = inf_maxBytes f"
      "inf_count g = inf_count f - n" "inf_start g = (if inf_count f - n = 0 then 0 else ring_ix f n)"
      by (simp_all add: g_def h_def)
    have ring: "inf_count f - n \<noteq> 0 \<Longrightarrow> ring_ix f n < length (inf_buffer f)"
      using nle by (intro ring_ix_less [OF assms]) simp
    have "length (inf_buffer f) = inf_size f \<or> inf_start g + inf_count g \<le> length (inf_buffer f)"
    proof (cases "length (inf_buffer f) = inf_size f")
      case False
      then have "inf_start f + inf_count f < inf_size f" "inf_start f + inf_count f \<le> length (inf_buffer f)"
        using assms by (auto simp: inflights_wf_def)
      then show ?thesis using nle unfolding g by (auto simp: ring_ix_def)
    qed simp
    then have "inflights_wf g"
      unfolding inflights_wf_def [of g] g(1,2)
      using assms ring bytes by (auto simp: inflights_wf_def g(4,5))
    then show ?thesis using items g(2,3) by (simp add: eq)
  qed
qed

interpretation ring: flow_window inflights_wf inflights_items Inflights_Full
  "\<lambda>f e. Inflights_Add f (il_index e) (il_bytes e)" Inflights_FreeLE Inflights_reset il_index
proof unfold_locales
  fix w and x :: inflight
  assume "inflights_wf w" "\<not> Inflights_Full w"
  then show "returns (Inflights_Add w (il_index x) (il_bytes x))
      (\<lambda>w'. inflights_wf w' \<and> inflights_items w' = inflights_items w @ [x])"
    using Add_spec [of w "il_index x" "il_bytes x"] by (auto elim!: returns_mono)
next
  fix w k
  assume "inflights_wf w"
  then show "returns (Inflights_FreeLE w k)
      (\<lambda>w'. inflights_wf w' \<and> inflights_items w' = dropWhile (\<lambda>x. il_index x \<le> k) (inflights_items w))"
    using FreeLE_spec [of w k] by (auto elim!: returns_mono)
next
  fix w
  assume "inflights_wf w"
  then show "inflights_wf (Inflights_reset w) \<and> inflights_items (Inflights_reset w) = []"
    by (simp add: reset_wf)
qed

end
