(* ===== verification/Progress.thy ===== *)
theory Progress
  imports Inflights
begin

text \<open>
  \<open>src/etcd_raft/tracker/progress.h\<close> and \<open>state.h\<close>: a follower's progress as the leader
  sees it, a small state machine over \<open>StateProbe\<close>, \<open>StateReplicate\<close> and
  \<open>StateSnapshot\<close>. The window of in-flight messages is a field of the record
  (\<open>inflights_\<close> is a pointer that every constructor of a tracked progress sets and no two
  progresses share).
\<close>

section \<open>Definitions\<close>

datatype ProgressStateType = StateProbe | StateReplicate | StateSnapshot

record Progress =
  pr_match :: u64
  pr_next :: u64
  pr_state :: ProgressStateType
  pr_pendingSnapshot :: u64
  pr_recentActive :: bool
  pr_msgAppFlowPaused :: bool
  pr_inflights :: Inflights
  pr_isLearner :: bool

definition Progress_ResetState :: "Progress \<Rightarrow> ProgressStateType \<Rightarrow> Progress" where
  "Progress_ResetState pr s =
     pr\<lparr>pr_msgAppFlowPaused := False, pr_pendingSnapshot := 0, pr_state := s,
        pr_inflights := Inflights_reset (pr_inflights pr)\<rparr>"

definition Progress_BecomeProbe :: "Progress \<Rightarrow> Progress" where
  "Progress_BecomeProbe pr =
     (if pr_state pr = StateSnapshot
      then let pendingSnapshot = pr_pendingSnapshot pr;
               pr' = Progress_ResetState pr StateProbe
           in pr'\<lparr>pr_next := max (add64 (pr_match pr') 1) (add64 pendingSnapshot 1)\<rparr>
      else let pr' = Progress_ResetState pr StateProbe
           in pr'\<lparr>pr_next := add64 (pr_match pr') 1\<rparr>)"

definition Progress_BecomeReplicate :: "Progress \<Rightarrow> Progress" where
  "Progress_BecomeReplicate pr =
     (let pr' = Progress_ResetState pr StateReplicate
      in pr'\<lparr>pr_next := add64 (pr_match pr') 1\<rparr>)"

definition Progress_BecomeSnapshot :: "Progress \<Rightarrow> u64 \<Rightarrow> Progress" where
  "Progress_BecomeSnapshot pr snapshoti =
     (Progress_ResetState pr StateSnapshot)\<lparr>pr_pendingSnapshot := snapshoti\<rparr>"

definition Progress_OptimisticUpdate :: "Progress \<Rightarrow> u64 \<Rightarrow> Progress" where
  "Progress_OptimisticUpdate pr n = pr\<lparr>pr_next := add64 n 1\<rparr>"

text \<open>\<open>entries\<close> is an \<open>int\<close>: the caller converts a \<open>size_t\<close>.\<close>

definition Progress_UpdateOnEntriesSend ::
    "Progress \<Rightarrow> int \<Rightarrow> u64 \<Rightarrow> u64 \<Rightarrow> (Progress \<times> error) res" where
  "Progress_UpdateOnEntriesSend pr entries bytes nextIndex =
     (case pr_state pr of
        StateReplicate \<Rightarrow>
          bindR (if 0 < entries
                 then let last = sub64 (add64 nextIndex (nat entries)) 1;
                          pr1 = Progress_OptimisticUpdate pr last
                      in bindR (Inflights_Add (pr_inflights pr1) last bytes)
                           (\<lambda>f. Inr (pr1\<lparr>pr_inflights := f\<rparr>))
                 else Inr pr)
            (\<lambda>pr2. Inr (pr2\<lparr>pr_msgAppFlowPaused := Inflights_Full (pr_inflights pr2)\<rparr>, Ok))
      | StateProbe \<Rightarrow>
          Inr (if 0 < entries then pr\<lparr>pr_msgAppFlowPaused := True\<rparr> else pr, Ok)
      | StateSnapshot \<Rightarrow> Inr (pr, UnknownErr ''sending append in unhandled state''))"

definition Progress_MaybeUpdate :: "Progress \<Rightarrow> u64 \<Rightarrow> Progress \<times> bool" where
  "Progress_MaybeUpdate pr n =
     (let updated = pr_match pr < n;
          pr1 = (if updated then pr\<lparr>pr_match := n, pr_msgAppFlowPaused := False\<rparr> else pr)
      in (pr1\<lparr>pr_next := max (pr_next pr1) (add64 n 1)\<rparr>, updated))"

definition Progress_MaybeDecrTo :: "Progress \<Rightarrow> u64 \<Rightarrow> u64 \<Rightarrow> Progress \<times> bool" where
  "Progress_MaybeDecrTo pr rejected matchHint =
     (if pr_state pr = StateReplicate
      then if rejected \<le> pr_match pr then (pr, False)
           else (pr\<lparr>pr_next := add64 (pr_match pr) 1\<rparr>, True)
      else if sub64 (pr_next pr) 1 \<noteq> rejected then (pr, False)
      else (pr\<lparr>pr_next := max (min rejected (add64 matchHint 1)) 1, pr_msgAppFlowPaused := False\<rparr>,
            True))"

fun ProgressStateType_paused :: "ProgressStateType \<Rightarrow> bool \<Rightarrow> bool" where
  "ProgressStateType_paused StateProbe flow = flow"
| "ProgressStateType_paused StateReplicate flow = flow"
| "ProgressStateType_paused StateSnapshot flow = True"

definition Progress_IsPaused :: "Progress \<Rightarrow> bool" where
  "Progress_IsPaused pr = ProgressStateType_paused (pr_state pr) (pr_msgAppFlowPaused pr)"

section \<open>The invariant\<close>

text \<open>
  \<open>match < next\<close> (the leader never plans to send an entry it knows to be replicated), both
  in range, the window represents a queue, and a replicating follower's in-flight messages
  end before \<open>next\<close>, in increasing order.
\<close>

definition progress_wf :: "Progress \<Rightarrow> bool" where
  "progress_wf pr \<longleftrightarrow>
     pr_match pr < pr_next pr \<and> pr_next pr < W64 \<and> inflights_wf (pr_inflights pr) \<and>
     sorted (map il_index (inflights_items (pr_inflights pr))) \<and>
     (\<forall>e \<in> set (inflights_items (pr_inflights pr)). il_index e < pr_next pr)"

lemma ResetState_fields [simp]:
  "pr_match (Progress_ResetState pr s) = pr_match pr"
  "pr_next (Progress_ResetState pr s) = pr_next pr"
  "pr_state (Progress_ResetState pr s) = s"
  "pr_pendingSnapshot (Progress_ResetState pr s) = 0"
  "pr_recentActive (Progress_ResetState pr s) = pr_recentActive pr"
  "pr_msgAppFlowPaused (Progress_ResetState pr s) = False"
  "pr_inflights (Progress_ResetState pr s) = Inflights_reset (pr_inflights pr)"
  "pr_isLearner (Progress_ResetState pr s) = pr_isLearner pr"
  by (simp_all add: Progress_ResetState_def)

lemma BecomeProbe_fields [simp]:
  "pr_match (Progress_BecomeProbe pr) = pr_match pr"
  "pr_state (Progress_BecomeProbe pr) = StateProbe"
  "pr_isLearner (Progress_BecomeProbe pr) = pr_isLearner pr"
  "pr_recentActive (Progress_BecomeProbe pr) = pr_recentActive pr"
  by (simp_all add: Progress_BecomeProbe_def Let_def)

lemma BecomeReplicate_fields [simp]:
  "pr_match (Progress_BecomeReplicate pr) = pr_match pr"
  "pr_state (Progress_BecomeReplicate pr) = StateReplicate"
  "pr_isLearner (Progress_BecomeReplicate pr) = pr_isLearner pr"
  "pr_recentActive (Progress_BecomeReplicate pr) = pr_recentActive pr"
  by (simp_all add: Progress_BecomeReplicate_def Let_def)

lemma BecomeSnapshot_fields [simp]:
  "pr_match (Progress_BecomeSnapshot pr i) = pr_match pr"
  "pr_next (Progress_BecomeSnapshot pr i) = pr_next pr"
  "pr_state (Progress_BecomeSnapshot pr i) = StateSnapshot"
  "pr_isLearner (Progress_BecomeSnapshot pr i) = pr_isLearner pr"
  by (simp_all add: Progress_BecomeSnapshot_def)

lemma MaybeUpdate_fields [simp]:
  "pr_isLearner (fst (Progress_MaybeUpdate pr n)) = pr_isLearner pr"
  "pr_state (fst (Progress_MaybeUpdate pr n)) = pr_state pr"
  "pr_match (fst (Progress_MaybeUpdate pr n)) = max (pr_match pr) n"
  by (auto simp: Progress_MaybeUpdate_def Let_def)

lemma MaybeDecrTo_fields [simp]:
  "pr_isLearner (fst (Progress_MaybeDecrTo pr a b)) = pr_isLearner pr"
  "pr_state (fst (Progress_MaybeDecrTo pr a b)) = pr_state pr"
  "pr_match (fst (Progress_MaybeDecrTo pr a b)) = pr_match pr"
  by (auto simp: Progress_MaybeDecrTo_def)

lemma UpdateOnEntriesSend_fields:
  "Progress_UpdateOnEntriesSend pr k b ni = Inr (pr', e) \<Longrightarrow>
   pr_isLearner pr' = pr_isLearner pr \<and> pr_match pr' = pr_match pr \<and> pr_state pr' = pr_state pr
   \<and> pr_recentActive pr' = pr_recentActive pr"
  by (auto simp: Progress_UpdateOnEntriesSend_def Progress_OptimisticUpdate_def Let_def
      split: ProgressStateType.splits if_splits)

lemma ResetState_wf: "progress_wf pr \<Longrightarrow> progress_wf (Progress_ResetState pr s)"
  by (simp add: progress_wf_def reset_wf)

lemma BecomeProbe_wf:
  "progress_wf pr \<Longrightarrow> pr_pendingSnapshot pr < W64 - 1 \<Longrightarrow> progress_wf (Progress_BecomeProbe pr)"
  by (auto simp: progress_wf_def Progress_BecomeProbe_def Let_def reset_wf)

lemma BecomeReplicate_wf: "progress_wf pr \<Longrightarrow> progress_wf (Progress_BecomeReplicate pr)"
  by (auto simp: progress_wf_def Progress_BecomeReplicate_def Let_def reset_wf)

lemma BecomeSnapshot_wf: "progress_wf pr \<Longrightarrow> progress_wf (Progress_BecomeSnapshot pr i)"
  by (simp add: progress_wf_def Progress_BecomeSnapshot_def reset_wf)

lemma MaybeUpdate_wf:
  "progress_wf pr \<Longrightarrow> n < W64 - 1 \<Longrightarrow> progress_wf (fst (Progress_MaybeUpdate pr n))"
  by (auto simp: progress_wf_def Progress_MaybeUpdate_def Let_def less_max_iff_disj)

text \<open>Sending entries at \<open>next\<close> to a replicating follower whose window has room keeps the
  invariant, and moves \<open>next\<close> behind the last entry sent.\<close>

lemma UpdateOnEntriesSend_wf:
  assumes "progress_wf pr" "pr_state pr = StateReplicate" "\<not> Inflights_Full (pr_inflights pr)"
    and "0 < k" "pr_next pr + nat k < W64"
  shows "returns (Progress_UpdateOnEntriesSend pr k bytes (pr_next pr))
    (\<lambda>(pr', err). err = Ok \<and> progress_wf pr' \<and> pr_next pr' = pr_next pr + nat k \<and> pr_state pr' = StateReplicate)"
proof -
  let ?last = "pr_next pr + nat k - 1"
  have k: "1 \<le> nat k" using assms(4) by linarith
  have last: "sub64 (add64 (pr_next pr) (nat k)) 1 = ?last" using assms(5) k by simp
  have lt: "\<forall>e \<in> set (inflights_items (pr_inflights pr)). il_index e \<le> ?last"
    using assms(1) k by (fastforce simp: progress_wf_def)
  have ordered: "ring.ordered (pr_inflights pr)" and wf: "inflights_wf (pr_inflights pr)"
    using assms(1) by (simp_all add: progress_wf_def ring.ordered_def)
  from ring.add_ordered [OF wf assms(3) ordered, of "\<lparr>il_index = ?last, il_bytes = bytes\<rparr>"] lt
  obtain f where f: "Inflights_Add (pr_inflights pr) ?last bytes = Inr f" "inflights_wf f"
    "ring.ordered f" "inflights_items f = inflights_items (pr_inflights pr) @ [\<lparr>il_index = ?last, il_bytes = bytes\<rparr>]"
    by (auto elim: returnsE)
  have "\<forall>e \<in> set (inflights_items f). il_index e < pr_next pr + nat k"
    using lt k by (fastforce simp: f(4))
  then show ?thesis
    using assms k last f lt
    by (auto simp: Progress_UpdateOnEntriesSend_def Progress_OptimisticUpdate_def progress_wf_def
        ring.ordered_def Let_def)
qed

end
