(* ===== verification/Tracker.thy ===== *)
theory Tracker
  imports Quorum Progress Raftpb
begin

text \<open>
  \<open>src/etcd_raft/tracker/tracker.h\<close>: the active configuration, the progress of every
  tracked peer and the votes of the current election. A \<open>ProgressMap\<close> is a map from peer
  ids (the pointers it holds are not shared with other maps); \<open>operator[]\<close> is \<open>.at()\<close>,
  which throws when the id is missing. \<open>Visit\<close> runs a closure over the peers in
  increasing order of their ids, so its model is the list of these ids.
\<close>

section \<open>Definitions\<close>

record Config =
  cfg_voters :: JointConfig
  cfg_autoLeave :: bool
  cfg_learners :: "u64 set"
  cfg_learnersNext :: "u64 set"

definition Config0 :: Config where
  "Config0 = \<lparr>cfg_voters = ({}, {}), cfg_autoLeave = False, cfg_learners = {}, cfg_learnersNext = {}\<rparr>"

type_synonym ProgressMap = "u64 \<Rightarrow> Progress option"

definition ProgressMap_at :: "ProgressMap \<Rightarrow> u64 \<Rightarrow> Progress res" where
  "ProgressMap_at m i = (case m i of None \<Rightarrow> Inl (OutOfRange ''ProgressMap'') | Some p \<Rightarrow> Inr p)"

record ProgressTracker =
  trk_config :: Config
  trk_progress :: ProgressMap
  trk_votes :: "u64 \<Rightarrow> bool option"
  trk_maxInflight :: nat
  trk_maxInflightBytes :: u64

definition matchAckIndexer :: "ProgressMap \<Rightarrow> AckedIndexer" where
  "matchAckIndexer m v = (case m v of None \<Rightarrow> (0, False) | Some p \<Rightarrow> (pr_match p, True))"

definition ProgressTracker_ConfState :: "ProgressTracker \<Rightarrow> ConfState" where
  "ProgressTracker_ConfState t =
     (let c = trk_config t in
      \<lparr>cs_voters = MajorityConfig_Slice (fst (cfg_voters c)),
       cs_learners = MajorityConfig_Slice (cfg_learners c),
       cs_voters_outgoing = MajorityConfig_Slice (snd (cfg_voters c)),
       cs_learners_next = MajorityConfig_Slice (cfg_learnersNext c),
       cs_auto_leave = cfg_autoLeave c\<rparr>)"

definition ProgressTracker_IsSingleton :: "ProgressTracker \<Rightarrow> bool" where
  "ProgressTracker_IsSingleton t =
     (card (fst (cfg_voters (trk_config t))) = 1 \<and> snd (cfg_voters (trk_config t)) = {})"

definition ProgressTracker_Committed :: "ProgressTracker \<Rightarrow> u64" where
  "ProgressTracker_Committed t =
     JointConfig_CommittedIndex (cfg_voters (trk_config t)) (matchAckIndexer (trk_progress t))"

definition ProgressTracker_Visit :: "ProgressTracker \<Rightarrow> u64 list" where
  "ProgressTracker_Visit t = sorted_list_of_set (dom (trk_progress t))"

text \<open>The closure of \<open>QuorumActive\<close>: a learner does not vote, a voter votes its
  \<open>recentActive_\<close> flag.\<close>

fun activity_votes :: "ProgressMap \<Rightarrow> u64 list \<Rightarrow> (u64 \<Rightarrow> bool option) \<Rightarrow> (u64 \<Rightarrow> bool option)" where
  "activity_votes m [] votes = votes"
| "activity_votes m (i # ids) votes =
     (case m i of
        None \<Rightarrow> activity_votes m ids votes
      | Some p \<Rightarrow> if pr_isLearner p then activity_votes m ids votes
                  else activity_votes m ids (votes(i \<mapsto> pr_recentActive p)))"

definition ProgressTracker_QuorumActive :: "ProgressTracker \<Rightarrow> bool" where
  "ProgressTracker_QuorumActive t =
     (JointConfig_GetVoteResult (cfg_voters (trk_config t))
        (activity_votes (trk_progress t) (ProgressTracker_Visit t) (\<lambda>_. None)) = VoteWon)"

definition ProgressTracker_VoterNodes :: "ProgressTracker \<Rightarrow> u64 list" where
  "ProgressTracker_VoterNodes t = sorted_list_of_set (JointConfig_IDs (cfg_voters (trk_config t)))"

definition ProgressTracker_LearnerNodes :: "ProgressTracker \<Rightarrow> u64 list" where
  "ProgressTracker_LearnerNodes t =
     (if cfg_learners (trk_config t) = {} then [] else sorted_list_of_set (cfg_learners (trk_config t)))"

definition ProgressTracker_ResetVotes :: "ProgressTracker \<Rightarrow> ProgressTracker" where
  "ProgressTracker_ResetVotes t = t\<lparr>trk_votes := (\<lambda>_. None)\<rparr>"

definition ProgressTracker_RecordVote :: "ProgressTracker \<Rightarrow> u64 \<Rightarrow> bool \<Rightarrow> ProgressTracker" where
  "ProgressTracker_RecordVote t i v =
     (if trk_votes t i = None then t\<lparr>trk_votes := (trk_votes t)(i \<mapsto> v)\<rparr> else t)"

text \<open>The informational counters of \<open>TallyVotes\<close>.\<close>

fun tally_loop :: "ProgressTracker \<Rightarrow> u64 list \<Rightarrow> nat \<times> nat \<Rightarrow> nat \<times> nat" where
  "tally_loop t [] acc = acc"
| "tally_loop t (i # ids) (granted, rejected) =
     (case trk_progress t i of
        None \<Rightarrow> tally_loop t ids (granted, rejected)
      | Some p \<Rightarrow>
          if pr_isLearner p then tally_loop t ids (granted, rejected)
          else case trk_votes t i of
              None \<Rightarrow> tally_loop t ids (granted, rejected)
            | Some v \<Rightarrow> tally_loop t ids (if v then (granted + 1, rejected) else (granted, rejected + 1)))"

definition ProgressTracker_TallyVotes :: "ProgressTracker \<Rightarrow> nat \<times> nat \<times> VoteResult" where
  "ProgressTracker_TallyVotes t =
     (case tally_loop t (ProgressTracker_Visit t) (0, 0) of (granted, rejected) \<Rightarrow>
        (granted, rejected, JointConfig_GetVoteResult (cfg_voters (trk_config t)) (trk_votes t)))"

definition MakeProgressTracker :: "nat \<Rightarrow> u64 \<Rightarrow> ProgressTracker" where
  "MakeProgressTracker maxInflight maxBytes =
     \<lparr>trk_config = Config0, trk_progress = (\<lambda>_. None), trk_votes = (\<lambda>_. None),
      trk_maxInflight = maxInflight, trk_maxInflightBytes = maxBytes\<rparr>"

section \<open>Lemmas\<close>

lemma ProgressMap_at_Inr [simp]: "ProgressMap_at m i = Inr p \<longleftrightarrow> m i = Some p"
  by (auto simp: ProgressMap_at_def split: option.splits)

lemma ProgressMap_at_Some [simp]: "m i = Some p \<Longrightarrow> ProgressMap_at m i = Inr p"
  by simp

lemma RecordVote_fields [simp]:
  "trk_config (ProgressTracker_RecordVote t i v) = trk_config t"
  "trk_progress (ProgressTracker_RecordVote t i v) = trk_progress t"
  "trk_maxInflight (ProgressTracker_RecordVote t i v) = trk_maxInflight t"
  "trk_maxInflightBytes (ProgressTracker_RecordVote t i v) = trk_maxInflightBytes t"
  by (simp_all add: ProgressTracker_RecordVote_def)

lemma ResetVotes_fields [simp]:
  "trk_config (ProgressTracker_ResetVotes t) = trk_config t"
  "trk_progress (ProgressTracker_ResetVotes t) = trk_progress t"
  "trk_votes (ProgressTracker_ResetVotes t) = (\<lambda>_. None)"
  "trk_maxInflight (ProgressTracker_ResetVotes t) = trk_maxInflight t"
  "trk_maxInflightBytes (ProgressTracker_ResetVotes t) = trk_maxInflightBytes t"
  by (simp_all add: ProgressTracker_ResetVotes_def)

text \<open>The first vote of a peer is the one that counts.\<close>

lemma RecordVote_first: "trk_votes t \<subseteq>\<^sub>m trk_votes (ProgressTracker_RecordVote t i v)"
  by (auto simp: ProgressTracker_RecordVote_def map_le_def)

lemma RecordVote_votes:
  "trk_votes (ProgressTracker_RecordVote t i v) x =
     (if x = i \<and> trk_votes t i = None then Some v else trk_votes t x)"
  by (simp add: ProgressTracker_RecordVote_def)

lemma activity_votes_eq:
  "distinct ids \<Longrightarrow> activity_votes m ids votes x =
     (case m x of None \<Rightarrow> votes x
      | Some p \<Rightarrow> if x \<in> set ids \<and> \<not> pr_isLearner p then Some (pr_recentActive p) else votes x)"
  by (induction ids arbitrary: votes) (auto split: option.splits)

lemma acked_match: "acked (matchAckIndexer m) v = (case m v of None \<Rightarrow> 0 | Some p \<Rightarrow> pr_match p)"
  by (simp add: acked_def matchAckIndexer_def split: option.splits)

lemma QuorumActive_iff:
  assumes "finite (dom (trk_progress t))"
    and "finite (fst (cfg_voters (trk_config t)))" "finite (snd (cfg_voters (trk_config t)))"
  shows "ProgressTracker_QuorumActive t \<longleftrightarrow>
    joint_quorum (cfg_voters (trk_config t))
      {v. \<exists>p. trk_progress t v = Some p \<and> \<not> pr_isLearner p \<and> pr_recentActive p}"
proof -
  let ?a = "activity_votes (trk_progress t) (ProgressTracker_Visit t) (\<lambda>_. None)"
  have "yes_votes ?a = {v. \<exists>p. trk_progress t v = Some p \<and> \<not> pr_isLearner p \<and> pr_recentActive p}"
    using assms(1)
    by (auto simp: activity_votes_eq ProgressTracker_Visit_def split: option.splits if_splits)
  then show ?thesis
    using joint_won_iff [OF assms(2,3), of ?a] by (simp add: ProgressTracker_QuorumActive_def)
qed

end
