(* ===== verification/ConfChange.thy ===== *)
theory ConfChange
  imports Tracker
begin

text \<open>
  \<open>src/etcd_raft/confchange/confchange.h\<close>: the validation and application of
  configuration changes (\<open>Changer\<close>). An operation returns the new configuration, the new progress map and an
  error, as in the code; \<open>checkAndCopy\<close> copies, so values suffice. The formatted arguments
  of the error texts are left out.
\<close>

section \<open>Definitions\<close>

type_synonym conf_result = "Config \<times> ProgressMap \<times> error"

abbreviation incoming :: "Config \<Rightarrow> u64 set" where
  "incoming c \<equiv> fst (cfg_voters c)"

abbreviation outgoing :: "Config \<Rightarrow> u64 set" where
  "outgoing c \<equiv> snd (cfg_voters c)"

definition joint_config :: "Config \<Rightarrow> bool" where
  "joint_config cfg = (outgoing cfg \<noteq> {})"

text \<open>The two counting loops of \<open>symdiff\<close>.\<close>

definition symdiff :: "u64 set \<Rightarrow> u64 set \<Rightarrow> nat" where
  "symdiff l r = length (filter (\<lambda>i. i \<notin> r) (sorted_list_of_set l))
               + length (filter (\<lambda>i. i \<notin> l) (sorted_list_of_set r))"

text \<open>A loop that returns the first error of its body.\<close>

fun first_error :: "('a \<Rightarrow> error res) \<Rightarrow> 'a list \<Rightarrow> error res" where
  "first_error f [] = Inr Ok"
| "first_error f (x # xs) = bindR (f x) (\<lambda>e. if e \<noteq> Ok then Inr e else first_error f xs)"

definition unless_error :: "error res \<Rightarrow> error res \<Rightarrow> error res" where
  "unless_error m k = bindR m (\<lambda>e. if e \<noteq> Ok then Inr e else k)"

definition check_learnersNext :: "Config \<Rightarrow> ProgressMap \<Rightarrow> u64 \<Rightarrow> error res" where
  "check_learnersNext cfg trk i =
     (if i \<notin> outgoing cfg then Inr (UnknownErr ''in LearnersNext, but not Voters[1]'')
      else bindR (ProgressMap_at trk i) (\<lambda>p.
        if pr_isLearner p then Inr (UnknownErr ''in LearnersNext, but is already marked as learner'')
        else Inr Ok))"

definition check_learners :: "Config \<Rightarrow> ProgressMap \<Rightarrow> u64 \<Rightarrow> error res" where
  "check_learners cfg trk i =
     (if i \<in> outgoing cfg then Inr (UnknownErr ''in Learners and Voters[1]'')
      else if i \<in> incoming cfg then Inr (UnknownErr ''in Learners and Voters[0]'')
      else bindR (ProgressMap_at trk i) (\<lambda>p.
        if \<not> pr_isLearner p then Inr (UnknownErr ''in Learners, but is not marked as learner'')
        else Inr Ok))"

definition checkInvariants :: "Config \<Rightarrow> ProgressMap \<Rightarrow> error res" where
  "checkInvariants cfg trk =
     unless_error
       (first_error (\<lambda>i. Inr (if trk i = None then UnknownErr ''no progress'' else Ok))
          (sorted_list_of_set (JointConfig_IDs (cfg_voters cfg)) @
           sorted_list_of_set (cfg_learners cfg) @ sorted_list_of_set (cfg_learnersNext cfg)))
     (unless_error
       (first_error (check_learnersNext cfg trk) (sorted_list_of_set (cfg_learnersNext cfg)))
     (unless_error
       (first_error (check_learners cfg trk) (sorted_list_of_set (cfg_learners cfg)))
     (if \<not> joint_config cfg then
        if outgoing cfg \<noteq> {} then Inr (UnknownErr ''cfg.Voters[1] must be nil when not joint'')
        else if cfg_learnersNext cfg \<noteq> {} then Inr (UnknownErr ''cfg.LearnersNext must be nil when not joint'')
        else if cfg_autoLeave cfg then Inr (UnknownErr ''AutoLeave must be false when not joint'')
        else Inr Ok
      else Inr Ok)))"

definition conf_err :: "error \<Rightarrow> conf_result" where
  "conf_err e = (Config0, (\<lambda>_. None), e)"

definition checkAndReturn :: "Config \<Rightarrow> ProgressMap \<Rightarrow> conf_result res" where
  "checkAndReturn cfg trk =
     bindR (checkInvariants cfg trk) (\<lambda>e. Inr (if e \<noteq> Ok then conf_err e else (cfg, trk, Ok)))"

record Changer =
  chg_tracker :: ProgressTracker
  chg_lastIndex :: u64

definition checkAndCopy :: "Changer \<Rightarrow> conf_result res" where
  "checkAndCopy c = checkAndReturn (trk_config (chg_tracker c)) (trk_progress (chg_tracker c))"

definition new_progress :: "Changer \<Rightarrow> bool \<Rightarrow> Progress" where
  "new_progress c isLearner =
     \<lparr>pr_match = 0, pr_next = chg_lastIndex c, pr_state = StateProbe, pr_pendingSnapshot = 0,
      pr_recentActive = True, pr_msgAppFlowPaused = False,
      pr_inflights = NewInflights (trk_maxInflight (chg_tracker c)) (trk_maxInflightBytes (chg_tracker c)),
      pr_isLearner = isLearner\<rparr>"

definition initProgress :: "Changer \<Rightarrow> Config \<times> ProgressMap \<Rightarrow> u64 \<Rightarrow> bool \<Rightarrow> Config \<times> ProgressMap" where
  "initProgress c = (\<lambda>(cfg, trk) i isLearner.
     (if \<not> isLearner then cfg\<lparr>cfg_voters := (insert i (incoming cfg), outgoing cfg)\<rparr>
      else cfg\<lparr>cfg_learners := insert i (cfg_learners cfg)\<rparr>,
      trk(i \<mapsto> new_progress c isLearner)))"

definition makeVoter :: "Changer \<Rightarrow> Config \<times> ProgressMap \<Rightarrow> u64 \<Rightarrow> Config \<times> ProgressMap" where
  "makeVoter c = (\<lambda>(cfg, trk) i.
     case trk i of
       None \<Rightarrow> initProgress c (cfg, trk) i False
     | Some pr \<Rightarrow>
         (cfg\<lparr>cfg_learners := cfg_learners cfg - {i}, cfg_learnersNext := cfg_learnersNext cfg - {i},
              cfg_voters := (insert i (incoming cfg), outgoing cfg)\<rparr>,
          trk(i \<mapsto> pr\<lparr>pr_isLearner := False\<rparr>)))"

definition Changer_remove :: "Config \<times> ProgressMap \<Rightarrow> u64 \<Rightarrow> Config \<times> ProgressMap" where
  "Changer_remove = (\<lambda>(cfg, trk) i.
     case trk i of
       None \<Rightarrow> (cfg, trk)
     | Some pr \<Rightarrow>
         (cfg\<lparr>cfg_voters := (incoming cfg - {i}, outgoing cfg), cfg_learners := cfg_learners cfg - {i},
              cfg_learnersNext := cfg_learnersNext cfg - {i}\<rparr>,
          if i \<notin> outgoing cfg then trk(i := None) else trk))"

definition makeLearner :: "Changer \<Rightarrow> Config \<times> ProgressMap \<Rightarrow> u64 \<Rightarrow> Config \<times> ProgressMap" where
  "makeLearner c = (\<lambda>(cfg, trk) i.
     case trk i of
       None \<Rightarrow> initProgress c (cfg, trk) i True
     | Some pr \<Rightarrow>
         if pr_isLearner pr then (cfg, trk)
         else (case Changer_remove (cfg, trk) i of (cfg', trk') \<Rightarrow>
           if i \<in> outgoing cfg'
           then (cfg'\<lparr>cfg_learnersNext := insert i (cfg_learnersNext cfg')\<rparr>, trk'(i \<mapsto> pr))
           else (cfg'\<lparr>cfg_learners := insert i (cfg_learners cfg')\<rparr>,
                 trk'(i \<mapsto> pr\<lparr>pr_isLearner := True\<rparr>))))"

fun apply_loop :: "Changer \<Rightarrow> Config \<times> ProgressMap \<Rightarrow> ConfChangeSingle list \<Rightarrow> conf_result" where
  "apply_loop c (cfg, trk) [] = (cfg, trk, Ok)"
| "apply_loop c (cfg, trk) (cc # ccs) =
     (if ccs_node_id cc = 0 then apply_loop c (cfg, trk) ccs
      else case ccs_type cc of
          ConfChangeAddNode \<Rightarrow> apply_loop c (makeVoter c (cfg, trk) (ccs_node_id cc)) ccs
        | ConfChangeAddLearnerNode \<Rightarrow> apply_loop c (makeLearner c (cfg, trk) (ccs_node_id cc)) ccs
        | ConfChangeRemoveNode \<Rightarrow> apply_loop c (Changer_remove (cfg, trk) (ccs_node_id cc)) ccs
        | ConfChangeUpdateNode \<Rightarrow> apply_loop c (cfg, trk) ccs
        | ConfChangeOther n \<Rightarrow> (cfg, trk, UnknownErr ''unexpected conf type''))"

definition Changer_apply :: "Changer \<Rightarrow> Config \<times> ProgressMap \<Rightarrow> ConfChangeSingle list \<Rightarrow> conf_result" where
  "Changer_apply c ct ccs =
     (case apply_loop c ct ccs of (cfg, trk, err) \<Rightarrow>
        if err \<noteq> Ok then (cfg, trk, err)
        else if incoming cfg = {} then (cfg, trk, UnknownErr ''removed all voters'')
        else (cfg, trk, Ok))"

definition Changer_EnterJoint :: "Changer \<Rightarrow> bool \<Rightarrow> ConfChangeSingle list \<Rightarrow> conf_result res" where
  "Changer_EnterJoint c autoLeave ccs =
     bindR (checkAndCopy c) (\<lambda>(cfg, trk, err).
       if err \<noteq> Ok then Inr (conf_err err)
       else if joint_config cfg then Inr (conf_err (UnknownErr ''config is already joint''))
       else if incoming cfg = {} then Inr (conf_err (UnknownErr ''can't make a zero-voter config joint''))
       else (case Changer_apply c (cfg\<lparr>cfg_voters := (incoming cfg, incoming cfg)\<rparr>, trk) ccs of
               (cfg', trk', err') \<Rightarrow>
                 if err' \<noteq> Ok then Inr (conf_err err')
                 else checkAndReturn (cfg'\<lparr>cfg_autoLeave := autoLeave\<rparr>) trk'))"

text \<open>The two loops of \<open>LeaveJoint\<close>: mark the staged learners, then drop the progress of
  the outgoing voters that have no role left.\<close>

definition mark_learners :: "u64 list \<Rightarrow> ProgressMap \<Rightarrow> ProgressMap res" where
  "mark_learners ids trk =
     foldR (\<lambda>i trk. bindR (ProgressMap_at trk i) (\<lambda>p. Inr (trk(i \<mapsto> p\<lparr>pr_isLearner := True\<rparr>)))) ids trk"

definition drop_outgoing :: "Config \<Rightarrow> ProgressMap \<Rightarrow> ProgressMap" where
  "drop_outgoing cfg trk =
     fold (\<lambda>i trk. if i \<notin> incoming cfg \<and> i \<notin> cfg_learners cfg then trk(i := None) else trk)
       (sorted_list_of_set (outgoing cfg)) trk"

definition Changer_LeaveJoint :: "Changer \<Rightarrow> conf_result res" where
  "Changer_LeaveJoint c =
     bindR (checkAndCopy c) (\<lambda>(cfg, trk, err).
       if err \<noteq> Ok then Inr (conf_err err)
       else if \<not> joint_config cfg then Inr (conf_err (UnknownErr ''can't leave a non-joint config''))
       else bindR (mark_learners (sorted_list_of_set (cfg_learnersNext cfg)) trk) (\<lambda>trk1.
         let cfg1 = cfg\<lparr>cfg_learners := cfg_learners cfg \<union> cfg_learnersNext cfg, cfg_learnersNext := {}\<rparr>;
             trk2 = drop_outgoing cfg1 trk1
         in checkAndReturn (cfg1\<lparr>cfg_voters := (incoming cfg1, {}), cfg_autoLeave := False\<rparr>) trk2))"

definition Changer_Simple :: "Changer \<Rightarrow> ConfChangeSingle list \<Rightarrow> conf_result res" where
  "Changer_Simple c ccs =
     bindR (checkAndCopy c) (\<lambda>(cfg, trk, err).
       if err \<noteq> Ok then Inr (conf_err err)
       else if joint_config cfg
       then Inr (conf_err (UnknownErr ''can't apply simple config change in joint config''))
       else (case Changer_apply c (cfg, trk) ccs of (cfg', trk', err') \<Rightarrow>
         if err' \<noteq> Ok then Inr (conf_err err')
         else if 1 < symdiff (incoming (trk_config (chg_tracker c))) (incoming cfg')
         then Inr (conf_err (UnknownErr ''more than one voter changed without entering joint config''))
         else checkAndReturn cfg' trk'))"

text \<open>The change of one peer, as \<open>restore.h\<close> builds them.\<close>

definition single :: "ConfChangeType \<Rightarrow> u64 \<Rightarrow> ConfChangeSingle" where
  "single t i = \<lparr>ccs_type = t, ccs_node_id = i\<rparr>"

section \<open>The invariant\<close>

text \<open>
  What \<open>checkInvariants\<close> checks (\<open>conf_inv\<close>), and the tighter relation between a
  configuration and its progress map that all operations keep (\<open>conf_wf\<close>): every tracked
  peer has a role, and the learner flag of its progress agrees with that role.
\<close>

definition conf_finite :: "Config \<Rightarrow> bool" where
  "conf_finite cfg \<longleftrightarrow> finite (incoming cfg) \<and> finite (outgoing cfg) \<and>
     finite (cfg_learners cfg) \<and> finite (cfg_learnersNext cfg)"

definition conf_inv :: "Config \<Rightarrow> ProgressMap \<Rightarrow> bool" where
  "conf_inv cfg trk \<longleftrightarrow>
     incoming cfg \<union> outgoing cfg \<union> cfg_learners cfg \<union> cfg_learnersNext cfg \<subseteq> dom trk \<and>
     (\<forall>i \<in> cfg_learnersNext cfg. i \<in> outgoing cfg \<and> \<not> pr_isLearner (the (trk i))) \<and>
     (\<forall>i \<in> cfg_learners cfg. i \<notin> outgoing cfg \<and> i \<notin> incoming cfg \<and> pr_isLearner (the (trk i))) \<and>
     (outgoing cfg = {} \<longrightarrow> cfg_learnersNext cfg = {} \<and> \<not> cfg_autoLeave cfg)"

definition conf_wf :: "Config \<Rightarrow> ProgressMap \<Rightarrow> bool" where
  "conf_wf cfg trk \<longleftrightarrow> conf_finite cfg \<and>
     dom trk = incoming cfg \<union> outgoing cfg \<union> cfg_learners cfg \<and>
     cfg_learnersNext cfg \<subseteq> outgoing cfg - incoming cfg \<and>
     cfg_learners cfg \<inter> (incoming cfg \<union> outgoing cfg) = {} \<and>
     (\<forall>i p. trk i = Some p \<longrightarrow> (pr_isLearner p \<longleftrightarrow> i \<in> cfg_learners cfg)) \<and>
     (outgoing cfg = {} \<longrightarrow> \<not> cfg_autoLeave cfg)"

lemma first_error_Ok:
  "(\<And>x. x \<in> set xs \<Longrightarrow> f x = Inr Ok \<longleftrightarrow> P x) \<Longrightarrow> first_error f xs = Inr Ok \<longleftrightarrow> (\<forall>x \<in> set xs. P x)"
proof (induction xs)
  case (Cons x xs)
  have "f x = Inr Ok \<longleftrightarrow> P x" "first_error f xs = Inr Ok \<longleftrightarrow> (\<forall>x \<in> set xs. P x)"
    using Cons by auto
  then show ?case by (cases "f x") auto
qed simp

lemma first_error_returns:
  "(\<And>x. x \<in> set xs \<Longrightarrow> returns (f x) (\<lambda>_. True)) \<Longrightarrow> returns (first_error f xs) (\<lambda>_. True)"
proof (induction xs)
  case (Cons x xs)
  then have "returns (f x) (\<lambda>_. True)" "returns (first_error f xs) (\<lambda>_. True)" by auto
  then show ?case by (auto simp: returns_def)
qed simp

lemma unless_error_Ok: "unless_error m k = Inr Ok \<longleftrightarrow> m = Inr Ok \<and> k = Inr Ok"
  by (cases m) (auto simp: unless_error_def)

lemma unless_error_returns:
  "returns m (\<lambda>_. True) \<Longrightarrow> (m = Inr Ok \<Longrightarrow> returns k (\<lambda>_. True)) \<Longrightarrow> returns (unless_error m k) (\<lambda>_. True)"
  by (cases m) (auto simp: unless_error_def)

lemma progress_check_Ok:
  assumes "conf_finite cfg"
  shows "first_error (\<lambda>i. Inr (if trk i = None then UnknownErr ''no progress'' else Ok))
      (sorted_list_of_set (JointConfig_IDs (cfg_voters cfg)) @
       sorted_list_of_set (cfg_learners cfg) @ sorted_list_of_set (cfg_learnersNext cfg)) = Inr Ok \<longleftrightarrow>
    incoming cfg \<union> outgoing cfg \<union> cfg_learners cfg \<union> cfg_learnersNext cfg \<subseteq> dom trk"
proof -
  have "(\<lambda>i. Inr (if trk i = None then UnknownErr ''no progress'' else Ok)) i = (Inr Ok :: error res) \<longleftrightarrow> i \<in> dom trk" for i
    by auto
  then show ?thesis
    using assms by (subst first_error_Ok) (auto simp: conf_finite_def JointConfig_IDs_def)
qed

lemma checkInvariants_Ok_iff:
  assumes "conf_finite cfg"
  shows "checkInvariants cfg trk = Inr Ok \<longleftrightarrow> conf_inv cfg trk"
proof -
  have nxt: "check_learnersNext cfg trk i = Inr Ok \<longleftrightarrow> i \<in> outgoing cfg \<and> \<not> pr_isLearner (the (trk i))"
    if "i \<in> dom trk" for i
    using that by (auto simp: check_learnersNext_def)
  have learn: "check_learners cfg trk i = Inr Ok \<longleftrightarrow>
      i \<notin> outgoing cfg \<and> i \<notin> incoming cfg \<and> pr_isLearner (the (trk i))" if "i \<in> dom trk" for i
    using that by (auto simp: check_learners_def split: if_splits)
  have "first_error (check_learnersNext cfg trk) (sorted_list_of_set (cfg_learnersNext cfg)) = Inr Ok \<longleftrightarrow>
      (\<forall>i \<in> cfg_learnersNext cfg. i \<in> outgoing cfg \<and> \<not> pr_isLearner (the (trk i)))"
    if "cfg_learnersNext cfg \<subseteq> dom trk"
    using assms nxt subsetD [OF that]
    by (subst first_error_Ok [where P = "\<lambda>i. i \<in> outgoing cfg \<and> \<not> pr_isLearner (the (trk i))"])
       (simp_all add: conf_finite_def)
  moreover have "first_error (check_learners cfg trk) (sorted_list_of_set (cfg_learners cfg)) = Inr Ok \<longleftrightarrow>
      (\<forall>i \<in> cfg_learners cfg. i \<notin> outgoing cfg \<and> i \<notin> incoming cfg \<and> pr_isLearner (the (trk i)))"
    if "cfg_learners cfg \<subseteq> dom trk"
    using assms learn subsetD [OF that]
    by (subst first_error_Ok [where P = "\<lambda>i. i \<notin> outgoing cfg \<and> i \<notin> incoming cfg \<and> pr_isLearner (the (trk i))"])
       (simp_all add: conf_finite_def)
  ultimately show ?thesis
    unfolding checkInvariants_def unless_error_Ok progress_check_Ok [OF assms] conf_inv_def joint_config_def
    by auto
qed

lemma check_loops_return:
  assumes "finite ids" "ids \<subseteq> dom trk"
  shows "returns (first_error (check_learnersNext cfg trk) (sorted_list_of_set ids)) (\<lambda>_. True)"
    and "returns (first_error (check_learners cfg trk) (sorted_list_of_set ids)) (\<lambda>_. True)"
  using assms
  by (auto intro!: first_error_returns simp: check_learnersNext_def check_learners_def)

lemma checkInvariants_returns:
  assumes "conf_finite cfg"
  shows "returns (checkInvariants cfg trk) (\<lambda>_. True)"
  unfolding checkInvariants_def
  apply (rule unless_error_returns)
   apply (rule first_error_returns, simp)
  unfolding progress_check_Ok [OF assms]
  apply (rule unless_error_returns)
   apply (rule check_loops_return(1); use assms in \<open>simp add: conf_finite_def\<close>)
  apply (rule unless_error_returns)
   apply (rule check_loops_return(2); use assms in \<open>simp add: conf_finite_def\<close>)
  apply simp
  done

lemma conf_wf_finite: "conf_wf cfg trk \<Longrightarrow> finite (incoming cfg) \<and> finite (outgoing cfg)"
  by (simp add: conf_wf_def conf_finite_def)

lemma conf_wf_flag:
  "conf_wf cfg trk \<Longrightarrow> i \<in> dom trk \<Longrightarrow> pr_isLearner (the (trk i)) \<longleftrightarrow> i \<in> cfg_learners cfg"
  by (cases "trk i") (auto simp: conf_wf_def)

lemma conf_wf_inv:
  assumes "conf_wf cfg trk"
  shows "conf_inv cfg trk"
proof -
  have sets: "dom trk = incoming cfg \<union> outgoing cfg \<union> cfg_learners cfg"
      "cfg_learnersNext cfg \<subseteq> outgoing cfg - incoming cfg"
      "cfg_learners cfg \<inter> (incoming cfg \<union> outgoing cfg) = {}"
      "outgoing cfg = {} \<longrightarrow> \<not> cfg_autoLeave cfg"
    using assms by (simp_all add: conf_wf_def)
  have "incoming cfg \<union> outgoing cfg \<union> cfg_learners cfg \<union> cfg_learnersNext cfg \<subseteq> dom trk"
    using sets by blast
  moreover have "i \<in> outgoing cfg \<and> \<not> pr_isLearner (the (trk i))" if "i \<in> cfg_learnersNext cfg" for i
  proof -
    have "i \<in> dom trk" "i \<notin> cfg_learners cfg" "i \<in> outgoing cfg" using that sets by blast+
    then show ?thesis using conf_wf_flag [OF assms] by simp
  qed
  moreover have "i \<notin> outgoing cfg \<and> i \<notin> incoming cfg \<and> pr_isLearner (the (trk i))"
    if "i \<in> cfg_learners cfg" for i
  proof -
    have "i \<in> dom trk" "i \<notin> incoming cfg" "i \<notin> outgoing cfg" using that sets by blast+
    then show ?thesis using conf_wf_flag [OF assms] that by simp
  qed
  ultimately show ?thesis
    using sets(2,4) unfolding conf_inv_def by auto
qed

lemma checkAndReturn_wf: "conf_wf cfg trk \<Longrightarrow> checkAndReturn cfg trk = Inr (cfg, trk, Ok)"
  using checkInvariants_Ok_iff [of cfg trk] conf_wf_inv [of cfg trk]
  by (simp add: checkAndReturn_def conf_wf_def)

lemma checkAndCopy_wf:
  "conf_wf (trk_config (chg_tracker c)) (trk_progress (chg_tracker c)) \<Longrightarrow>
   checkAndCopy c = Inr (trk_config (chg_tracker c), trk_progress (chg_tracker c), Ok)"
  by (simp add: checkAndCopy_def checkAndReturn_wf)

section \<open>Changes as operations on sets\<close>

text \<open>
  The specification of a single change: it moves one peer between the sets of the
  configuration, and does not mention the progress map. A peer that is demoted while it is
  an outgoing voter is staged.
\<close>

definition spec_change :: "ConfChangeSingle \<Rightarrow> Config \<Rightarrow> Config" where
  "spec_change cc cfg =
     (let i = ccs_node_id cc in
      if i = 0 then cfg
      else case ccs_type cc of
          ConfChangeAddNode \<Rightarrow>
            cfg\<lparr>cfg_voters := (insert i (incoming cfg), outgoing cfg),
                cfg_learners := cfg_learners cfg - {i}, cfg_learnersNext := cfg_learnersNext cfg - {i}\<rparr>
        | ConfChangeRemoveNode \<Rightarrow>
            cfg\<lparr>cfg_voters := (incoming cfg - {i}, outgoing cfg),
                cfg_learners := cfg_learners cfg - {i}, cfg_learnersNext := cfg_learnersNext cfg - {i}\<rparr>
        | ConfChangeAddLearnerNode \<Rightarrow>
            if i \<in> outgoing cfg
            then cfg\<lparr>cfg_voters := (incoming cfg - {i}, outgoing cfg),
                     cfg_learnersNext := insert i (cfg_learnersNext cfg)\<rparr>
            else cfg\<lparr>cfg_voters := (incoming cfg - {i}, outgoing cfg),
                     cfg_learners := insert i (cfg_learners cfg)\<rparr>
        | _ \<Rightarrow> cfg)"

fun known_change :: "ConfChangeSingle \<Rightarrow> bool" where
  "known_change cc = (ccs_node_id cc = 0 \<or> (case ccs_type cc of ConfChangeOther _ \<Rightarrow> False | _ \<Rightarrow> True))"

lemma Config_eqI:
  "cfg_voters (a :: Config) = cfg_voters b \<Longrightarrow> cfg_autoLeave a = cfg_autoLeave b \<Longrightarrow>
   cfg_learners a = cfg_learners b \<Longrightarrow> cfg_learnersNext a = cfg_learnersNext b \<Longrightarrow> a = b"
  by simp

text \<open>An update of the map that gives peer \<open>i\<close> the role the new configuration has for it.\<close>

lemma conf_wf_move:
  assumes "conf_wf cfg trk" "cfg_autoLeave cfg' = cfg_autoLeave cfg" "outgoing cfg' = outgoing cfg"
    and "incoming cfg' - {i} = incoming cfg - {i}" "cfg_learners cfg' - {i} = cfg_learners cfg - {i}"
    and "cfg_learnersNext cfg' - {i} = cfg_learnersNext cfg - {i}"
    and "i \<in> cfg_learnersNext cfg' \<Longrightarrow> i \<in> outgoing cfg \<and> i \<notin> incoming cfg'"
    and "i \<in> cfg_learners cfg' \<Longrightarrow> i \<notin> incoming cfg' \<and> i \<notin> outgoing cfg"
    and "i \<in> incoming cfg' \<union> outgoing cfg \<union> cfg_learners cfg' \<longleftrightarrow> x \<noteq> None"
    and "\<And>p. x = Some p \<Longrightarrow> pr_isLearner p \<longleftrightarrow> i \<in> cfg_learners cfg'"
  shows "conf_wf cfg' (trk(i := x))"
proof -
  have other: "(j \<in> incoming cfg' \<longleftrightarrow> j \<in> incoming cfg) \<and> (j \<in> cfg_learners cfg' \<longleftrightarrow> j \<in> cfg_learners cfg) \<and>
      (j \<in> cfg_learnersNext cfg' \<longleftrightarrow> j \<in> cfg_learnersNext cfg)" if "j \<noteq> i" for j
    using assms(4-6) that by blast
  have fin: "conf_finite cfg'"
    using assms(1,3-6) unfolding conf_wf_def conf_finite_def by (metis finite_Diff_insert finite_Diff2 finite.emptyI)
  have wf: "dom trk = incoming cfg \<union> outgoing cfg \<union> cfg_learners cfg"
      "cfg_learnersNext cfg \<subseteq> outgoing cfg - incoming cfg"
      "cfg_learners cfg \<inter> (incoming cfg \<union> outgoing cfg) = {}"
      "outgoing cfg = {} \<longrightarrow> \<not> cfg_autoLeave cfg"
    using assms(1) by (simp_all add: conf_wf_def)
  have "dom (trk(i := x)) = incoming cfg' \<union> outgoing cfg' \<union> cfg_learners cfg'"
  proof (rule set_eqI)
    fix j
    show "j \<in> dom (trk(i := x)) \<longleftrightarrow> j \<in> incoming cfg' \<union> outgoing cfg' \<union> cfg_learners cfg'"
    proof (cases "j = i")
      case True
      then show ?thesis using assms(3,9) by (auto simp: dom_def)
    next
      case False
      then have "j \<in> dom (trk(i := x)) \<longleftrightarrow> j \<in> dom trk" by (simp add: dom_def)
      then show ?thesis using other [OF False] wf(1) assms(3) by simp
    qed
  qed
  moreover have "cfg_learnersNext cfg' \<subseteq> outgoing cfg' - incoming cfg'"
  proof
    fix j
    assume "j \<in> cfg_learnersNext cfg'"
    then show "j \<in> outgoing cfg' - incoming cfg'"
      unfolding assms(3) using other [of j] wf(2) assms(7) by (cases "j = i") auto
  qed
  moreover have "cfg_learners cfg' \<inter> (incoming cfg' \<union> outgoing cfg') = {}"
  proof -
    have "j \<notin> incoming cfg' \<union> outgoing cfg'" if "j \<in> cfg_learners cfg'" for j
      unfolding assms(3) using other [of j] wf(3) assms(8) that by (cases "j = i") auto
    then show ?thesis by blast
  qed
  moreover have "pr_isLearner p \<longleftrightarrow> j \<in> cfg_learners cfg'" if "(trk(i := x)) j = Some p" for j p
    using assms(1,10) other [of j] that by (cases "j = i") (auto simp: conf_wf_def)
  ultimately show ?thesis
    using fin wf(4) assms(2,3) by (simp add: conf_wf_def)
qed

lemma conf_wf_cases:
  assumes "conf_wf cfg trk"
  shows "trk i = None \<Longrightarrow> i \<notin> incoming cfg \<and> i \<notin> outgoing cfg \<and> i \<notin> cfg_learners cfg \<and> i \<notin> cfg_learnersNext cfg"
    and "trk i = Some p \<Longrightarrow> pr_isLearner p \<Longrightarrow>
         i \<in> cfg_learners cfg \<and> i \<notin> incoming cfg \<and> i \<notin> outgoing cfg \<and> i \<notin> cfg_learnersNext cfg"
    and "trk i = Some p \<Longrightarrow> \<not> pr_isLearner p \<Longrightarrow> i \<notin> cfg_learners cfg \<and> i \<in> incoming cfg \<union> outgoing cfg"
proof -
  have wf: "dom trk = incoming cfg \<union> outgoing cfg \<union> cfg_learners cfg"
      "cfg_learnersNext cfg \<subseteq> outgoing cfg - incoming cfg"
      "cfg_learners cfg \<inter> (incoming cfg \<union> outgoing cfg) = {}"
    using assms by (simp_all add: conf_wf_def)
  show "trk i = None \<Longrightarrow> i \<notin> incoming cfg \<and> i \<notin> outgoing cfg \<and> i \<notin> cfg_learners cfg \<and> i \<notin> cfg_learnersNext cfg"
    using wf by blast
  show "i \<in> cfg_learners cfg \<and> i \<notin> incoming cfg \<and> i \<notin> outgoing cfg \<and> i \<notin> cfg_learnersNext cfg"
    if "trk i = Some p" "pr_isLearner p"
  proof -
    have "i \<in> cfg_learners cfg" using assms that by (simp add: conf_wf_def)
    then show ?thesis using wf by blast
  qed
  show "i \<notin> cfg_learners cfg \<and> i \<in> incoming cfg \<union> outgoing cfg" if "trk i = Some p" "\<not> pr_isLearner p"
  proof -
    have "i \<notin> cfg_learners cfg" using assms that by (simp add: conf_wf_def)
    then show ?thesis using wf(1) that(1) by blast
  qed
qed

lemma makeVoter_refines:
  assumes "conf_wf cfg trk" "i \<noteq> 0"
  shows "case makeVoter c (cfg, trk) i of (cfg', trk') \<Rightarrow>
    cfg' = spec_change (single ConfChangeAddNode i) cfg \<and> conf_wf cfg' trk'"
proof (cases "trk i")
  case None
  note not = conf_wf_cases(1) [OF assms(1) None]
  have "conf_wf (cfg\<lparr>cfg_voters := (insert i (incoming cfg), outgoing cfg)\<rparr>) (trk(i := Some (new_progress c False)))"
    using not by (intro conf_wf_move [OF assms(1)]) (auto simp: new_progress_def)
  then show ?thesis
    using None not assms(2)
    by (auto simp: makeVoter_def initProgress_def spec_change_def single_def intro!: Config_eqI)
next
  case (Some p)
  have "conf_wf (cfg\<lparr>cfg_learners := cfg_learners cfg - {i}, cfg_learnersNext := cfg_learnersNext cfg - {i},
              cfg_voters := (insert i (incoming cfg), outgoing cfg)\<rparr>) (trk(i := Some (p\<lparr>pr_isLearner := False\<rparr>)))"
    by (intro conf_wf_move [OF assms(1)]) auto
  then show ?thesis
    using Some assms(2) by (auto simp: makeVoter_def spec_change_def single_def intro!: Config_eqI)
qed

lemma remove_refines:
  assumes "conf_wf cfg trk" "i \<noteq> 0"
  shows "case Changer_remove (cfg, trk) i of (cfg', trk') \<Rightarrow>
    cfg' = spec_change (single ConfChangeRemoveNode i) cfg \<and> conf_wf cfg' trk'"
proof (cases "trk i")
  case None
  then show ?thesis
    using conf_wf_cases(1) [OF assms(1) None] assms
    by (auto simp: Changer_remove_def spec_change_def single_def intro!: Config_eqI)
next
  case (Some p)
  let ?cfg = "cfg\<lparr>cfg_voters := (incoming cfg - {i}, outgoing cfg), cfg_learners := cfg_learners cfg - {i},
              cfg_learnersNext := cfg_learnersNext cfg - {i}\<rparr>"
  have fl: "i \<in> outgoing cfg \<Longrightarrow> \<not> pr_isLearner p" using conf_wf_cases(2) [OF assms(1) Some] by blast
  have "conf_wf ?cfg (trk(i := (if i \<in> outgoing cfg then Some p else None)))"
    using fl by (intro conf_wf_move [OF assms(1)]) (auto split: if_splits)
  moreover have "trk(i := (if i \<in> outgoing cfg then Some p else None)) = (if i \<notin> outgoing cfg then trk(i := None) else trk)"
    using Some by auto
  ultimately show ?thesis
    using Some assms(2) by (simp add: Changer_remove_def spec_change_def single_def)
qed

lemma makeLearner_refines:
  assumes "conf_wf cfg trk" "i \<noteq> 0"
  shows "case makeLearner c (cfg, trk) i of (cfg', trk') \<Rightarrow>
    cfg' = spec_change (single ConfChangeAddLearnerNode i) cfg \<and> conf_wf cfg' trk'"
proof (cases "trk i")
  case None
  note not = conf_wf_cases(1) [OF assms(1) None]
  have "conf_wf (cfg\<lparr>cfg_learners := insert i (cfg_learners cfg)\<rparr>) (trk(i := Some (new_progress c True)))"
    using not by (intro conf_wf_move [OF assms(1)]) (auto simp: new_progress_def)
  then show ?thesis
    using None not assms(2)
    by (auto simp: makeLearner_def initProgress_def spec_change_def single_def intro!: Config_eqI)
next
  case (Some p)
  show ?thesis
  proof (cases "pr_isLearner p")
    case True
    then show ?thesis
      using Some assms conf_wf_cases(2) [OF assms(1) Some True]
      by (auto simp: makeLearner_def spec_change_def single_def insert_absorb intro!: Config_eqI)
  next
    case False
    note role = conf_wf_cases(3) [OF assms(1) Some False]
    have next_out: "i \<in> cfg_learnersNext cfg \<Longrightarrow> i \<in> outgoing cfg" using assms(1) by (auto simp: conf_wf_def)
    let ?cfg = "spec_change (single ConfChangeAddLearnerNode i) cfg"
    let ?p = "if i \<in> outgoing cfg then p else p\<lparr>pr_isLearner := True\<rparr>"
    have "conf_wf ?cfg (trk(i := Some ?p))"
      using role False next_out assms(2)
      by (intro conf_wf_move [OF assms(1)]) (auto simp: spec_change_def single_def split: if_splits)
    moreover have "makeLearner c (cfg, trk) i = (?cfg, trk(i := Some ?p))"
      using Some False role next_out assms(2)
      by (auto simp: makeLearner_def Changer_remove_def spec_change_def single_def intro!: Config_eqI)
    ultimately show ?thesis by simp
  qed
qed

lemma spec_change_fields [simp]:
  "outgoing (spec_change cc cfg) = outgoing cfg" "cfg_autoLeave (spec_change cc cfg) = cfg_autoLeave cfg"
  by (simp_all add: spec_change_def Let_def split: ConfChangeType.split)

lemma fold_spec_change_fields [simp]:
  "outgoing (fold spec_change ccs cfg) = outgoing cfg"
  "cfg_autoLeave (fold spec_change ccs cfg) = cfg_autoLeave cfg"
  by (induction ccs arbitrary: cfg) simp_all

lemma spec_change_zero: "ccs_node_id cc = 0 \<Longrightarrow> spec_change cc cfg = cfg"
  by (simp add: spec_change_def Let_def)

lemma single_fields [simp]: "ccs_type (single t i) = t" "ccs_node_id (single t i) = i"
  by (simp_all add: single_def)

lemma single_eta: "single (ccs_type cc) (ccs_node_id cc) = cc"
  by (simp add: single_def)

text \<open>The loop of \<open>apply\<close> refines the fold of the set operations and keeps the invariant; its
  only error is an unknown change type.\<close>

lemma apply_loop_refines:
  assumes "conf_wf cfg trk"
  shows "if list_all known_change ccs
    then \<exists>trk'. apply_loop c (cfg, trk) ccs = (fold spec_change ccs cfg, trk', Ok) \<and>
                conf_wf (fold spec_change ccs cfg) trk'
    else \<exists>cfg' trk'. apply_loop c (cfg, trk) ccs = (cfg', trk', UnknownErr ''unexpected conf type'')"
  using assms
proof (induction ccs arbitrary: cfg trk)
  case Nil
  then show ?case by simp
next
  case (Cons cc ccs)
  let ?i = "ccs_node_id cc"
  show ?case
  proof (cases "?i = 0")
    case True
    then show ?thesis using Cons by (simp add: spec_change_zero)
  next
    case i: False
    show ?thesis
    proof (cases "ccs_type cc")
      case ConfChangeAddNode
      then have s: "single ConfChangeAddNode ?i = cc" by (simp add: single_def)
      show ?thesis
        using makeVoter_refines [OF Cons.prems i, of c] Cons.IH ConfChangeAddNode i
        by (cases "makeVoter c (cfg, trk) ?i") (simp add: s)
    next
      case ConfChangeAddLearnerNode
      then have s: "single ConfChangeAddLearnerNode ?i = cc" by (simp add: single_def)
      show ?thesis
        using makeLearner_refines [OF Cons.prems i, of c] Cons.IH ConfChangeAddLearnerNode i
        by (cases "makeLearner c (cfg, trk) ?i") (simp add: s)
    next
      case ConfChangeRemoveNode
      then have s: "single ConfChangeRemoveNode ?i = cc" by (simp add: single_def)
      show ?thesis
        using remove_refines [OF Cons.prems i] Cons.IH ConfChangeRemoveNode i
        by (cases "Changer_remove (cfg, trk) ?i") (simp add: s)
    next
      case ConfChangeUpdateNode
      then have "spec_change cc cfg = cfg" by (simp add: spec_change_def Let_def)
      then show ?thesis using Cons i ConfChangeUpdateNode by simp
    next
      case (ConfChangeOther n)
      then show ?thesis using i by simp
    qed
  qed
qed

lemma apply_refines:
  assumes "conf_wf cfg trk" "list_all known_change ccs"
  shows "\<exists>trk'. Changer_apply c (cfg, trk) ccs =
      (fold spec_change ccs cfg, trk',
       if incoming (fold spec_change ccs cfg) = {} then UnknownErr ''removed all voters'' else Ok)
      \<and> conf_wf (fold spec_change ccs cfg) trk'"
proof -
  obtain trk' where "apply_loop c (cfg, trk) ccs = (fold spec_change ccs cfg, trk', Ok)"
    "conf_wf (fold spec_change ccs cfg) trk'"
    using apply_loop_refines [OF assms(1), of ccs c] assms(2) by auto
  then show ?thesis by (intro exI [of _ trk']) (simp add: Changer_apply_def)
qed

lemma apply_unknown:
  assumes "conf_wf cfg trk" "\<not> list_all known_change ccs"
  shows "\<exists>cfg' trk'. Changer_apply c (cfg, trk) ccs = (cfg', trk', UnknownErr ''unexpected conf type'')"
  using apply_loop_refines [OF assms(1), of ccs c] assms(2) by (auto simp: Changer_apply_def)

section \<open>The three transitions\<close>

abbreviation chg_config :: "Changer \<Rightarrow> Config" where
  "chg_config c \<equiv> trk_config (chg_tracker c)"

abbreviation changer_wf :: "Changer \<Rightarrow> bool" where
  "changer_wf c \<equiv> conf_wf (trk_config (chg_tracker c)) (trk_progress (chg_tracker c))"

lemma symdiff_card: "finite l \<Longrightarrow> finite r \<Longrightarrow> symdiff l r = card (l - r) + card (r - l)"
  by (simp add: symdiff_def length_filter_set set_diff_eq)

lemma Simple_result:
  assumes "changer_wf c" "\<not> joint_config (chg_config c)" "list_all known_change ccs"
  defines "cfg' \<equiv> fold spec_change ccs (chg_config c)"
  shows "\<exists>trk'. conf_wf cfg' trk' \<and> Changer_Simple c ccs =
    Inr (if incoming cfg' = {} then conf_err (UnknownErr ''removed all voters'')
         else if 1 < symdiff (incoming (chg_config c)) (incoming cfg')
         then conf_err (UnknownErr ''more than one voter changed without entering joint config'')
         else (cfg', trk', Ok))"
proof -
  obtain trk' where t: "Changer_apply c (chg_config c, trk_progress (chg_tracker c)) ccs =
      (cfg', trk', if incoming cfg' = {} then UnknownErr ''removed all voters'' else Ok)" "conf_wf cfg' trk'"
    using apply_refines [OF assms(1,3), of c] by (auto simp: cfg'_def)
  then show ?thesis
    using assms(1,2)
    by (intro exI [of _ trk']) (simp add: Changer_Simple_def checkAndCopy_wf checkAndReturn_wf)
qed

lemma conf_wf_enter:
  assumes "conf_wf cfg trk" "outgoing cfg = {}"
  shows "conf_wf (cfg\<lparr>cfg_voters := (incoming cfg, incoming cfg)\<rparr>) trk"
  using assms by (auto simp: conf_wf_def conf_finite_def)

lemma conf_wf_autoLeave:
  "conf_wf cfg trk \<Longrightarrow> outgoing cfg \<noteq> {} \<Longrightarrow> conf_wf (cfg\<lparr>cfg_autoLeave := b\<rparr>) trk"
  by (auto simp: conf_wf_def conf_finite_def)

lemma EnterJoint_result:
  assumes "changer_wf c" "\<not> joint_config (chg_config c)" "incoming (chg_config c) \<noteq> {}" "list_all known_change ccs"
  defines "cfg' \<equiv> fold spec_change ccs
      ((chg_config c)\<lparr>cfg_voters := (incoming (chg_config c), incoming (chg_config c))\<rparr>)"
  shows "\<exists>trk'. conf_wf (cfg'\<lparr>cfg_autoLeave := b\<rparr>) trk' \<and> Changer_EnterJoint c b ccs =
    Inr (if incoming cfg' = {} then conf_err (UnknownErr ''removed all voters'')
         else (cfg'\<lparr>cfg_autoLeave := b\<rparr>, trk', Ok))"
proof -
  let ?cfg = "(chg_config c)\<lparr>cfg_voters := (incoming (chg_config c), incoming (chg_config c))\<rparr>"
  have wf: "conf_wf ?cfg (trk_progress (chg_tracker c))"
    using conf_wf_enter [OF assms(1)] assms(2) by (simp add: joint_config_def)
  obtain trk' where t: "Changer_apply c (?cfg, trk_progress (chg_tracker c)) ccs =
      (cfg', trk', if incoming cfg' = {} then UnknownErr ''removed all voters'' else Ok)" "conf_wf cfg' trk'"
    using apply_refines [OF wf assms(4), of c] by (auto simp: cfg'_def)
  have out: "outgoing cfg' \<noteq> {}" using assms(3) by (simp add: cfg'_def)
  show ?thesis
    using assms(1-3) t checkAndReturn_wf [OF conf_wf_autoLeave [OF t(2) out]] conf_wf_autoLeave [OF t(2) out]
    by (intro exI [of _ trk']) (simp add: Changer_EnterJoint_def checkAndCopy_wf)
qed

lemma mark_learners_eq:
  "set ids \<subseteq> dom trk \<Longrightarrow> mark_learners ids trk =
     Inr (\<lambda>j. if j \<in> set ids then map_option (\<lambda>p. p\<lparr>pr_isLearner := True\<rparr>) (trk j) else trk j)"
proof (induction ids arbitrary: trk)
  case Nil
  then show ?case by (simp add: mark_learners_def)
next
  case (Cons i ids)
  then obtain p where p: "trk i = Some p" by auto
  have "mark_learners (i # ids) trk = mark_learners ids (trk(i \<mapsto> p\<lparr>pr_isLearner := True\<rparr>))"
    using p by (simp add: mark_learners_def)
  also have "\<dots> = Inr (\<lambda>j. if j \<in> set ids then map_option (\<lambda>p. p\<lparr>pr_isLearner := True\<rparr>)
      ((trk(i \<mapsto> p\<lparr>pr_isLearner := True\<rparr>)) j) else (trk(i \<mapsto> p\<lparr>pr_isLearner := True\<rparr>)) j)"
    using Cons by (intro Cons.IH) auto
  finally show ?case using p by (auto simp: fun_eq_iff)
qed

lemma drop_fold_eq:
  "fold (\<lambda>i trk. if P i then trk(i := None) else trk) ids trk =
     (\<lambda>j. if j \<in> set ids \<and> P j then None else trk j)"
  by (induction ids arbitrary: trk) auto

lemma LeaveJoint_result:
  assumes "changer_wf c" "joint_config (chg_config c)"
  defines "cfg' \<equiv> (chg_config c)\<lparr>cfg_learners := cfg_learners (chg_config c) \<union> cfg_learnersNext (chg_config c),
      cfg_learnersNext := {}, cfg_voters := (incoming (chg_config c), {}), cfg_autoLeave := False\<rparr>"
  shows "\<exists>trk'. conf_wf cfg' trk' \<and> Changer_LeaveJoint c = Inr (cfg', trk', Ok)"
proof -
  let ?cfg = "chg_config c" and ?trk = "trk_progress (chg_tracker c)"
  have wf: "dom ?trk = incoming ?cfg \<union> outgoing ?cfg \<union> cfg_learners ?cfg"
      "cfg_learnersNext ?cfg \<subseteq> outgoing ?cfg - incoming ?cfg"
      "cfg_learners ?cfg \<inter> (incoming ?cfg \<union> outgoing ?cfg) = {}" "conf_finite ?cfg"
      "\<And>i p. ?trk i = Some p \<Longrightarrow> pr_isLearner p \<longleftrightarrow> i \<in> cfg_learners ?cfg"
    using assms(1) by (simp_all add: conf_wf_def)
  have fin: "finite (cfg_learnersNext ?cfg)" "finite (outgoing ?cfg)" using wf(4) by (simp_all add: conf_finite_def)
  define trk1 where "trk1 = (\<lambda>j. if j \<in> cfg_learnersNext ?cfg
      then map_option (\<lambda>p. p\<lparr>pr_isLearner := True\<rparr>) (?trk j) else ?trk j)"
  define trk2 where "trk2 = (\<lambda>j. if j \<in> outgoing ?cfg \<and> j \<notin> incoming ?cfg \<and>
      j \<notin> cfg_learners ?cfg \<union> cfg_learnersNext ?cfg then None else trk1 j)"
  have "set (sorted_list_of_set (cfg_learnersNext ?cfg)) \<subseteq> dom ?trk"
    using wf(1,2) fin(1) by auto
  from mark_learners_eq [OF this]
  have mark: "mark_learners (sorted_list_of_set (cfg_learnersNext ?cfg)) ?trk = Inr trk1"
    using fin(1) by (simp add: trk1_def)
  have "conf_wf cfg' trk2"
  proof -
    have "dom trk2 = incoming cfg' \<union> outgoing cfg' \<union> cfg_learners cfg'"
    proof (rule set_eqI)
      fix j
      have "j \<in> dom trk1 \<longleftrightarrow> j \<in> dom ?trk" by (auto simp: trk1_def dom_def)
      then have "j \<in> dom trk2 \<longleftrightarrow> j \<in> dom ?trk \<and> \<not> (j \<in> outgoing ?cfg \<and> j \<notin> incoming ?cfg \<and>
          j \<notin> cfg_learners ?cfg \<union> cfg_learnersNext ?cfg)"
        by (auto simp: trk2_def dom_def)
      then show "j \<in> dom trk2 \<longleftrightarrow> j \<in> incoming cfg' \<union> outgoing cfg' \<union> cfg_learners cfg'"
        using wf(2) by (auto simp: cfg'_def wf(1))
    qed
    moreover have "pr_isLearner p \<longleftrightarrow> j \<in> cfg_learners cfg'" if "trk2 j = Some p" for j p
      using that wf(5) by (auto simp: trk2_def trk1_def cfg'_def split: if_splits)
    ultimately show ?thesis
      using wf(2-4) by (auto simp: conf_wf_def conf_finite_def cfg'_def)
  qed
  moreover have "Changer_LeaveJoint c = checkAndReturn cfg' trk2"
    using assms(1,2) fin mark
    by (simp add: Changer_LeaveJoint_def checkAndCopy_wf drop_outgoing_def drop_fold_eq trk2_def cfg'_def Let_def)
  ultimately show ?thesis using checkAndReturn_wf by auto
qed

section \<open>Successful transitions\<close>

lemma Simple_success:
  assumes "changer_wf c" "Changer_Simple c ccs = Inr (cfg', trk', Ok)"
  shows "cfg' = fold spec_change ccs (chg_config c) \<and> conf_wf cfg' trk' \<and> incoming cfg' \<noteq> {} \<and>
    outgoing (chg_config c) = {} \<and> symdiff (incoming (chg_config c)) (incoming cfg') \<le> 1"
proof -
  have nj: "\<not> joint_config (chg_config c)"
    using assms by (auto simp: Changer_Simple_def checkAndCopy_wf conf_err_def)
  have known: "list_all known_change ccs"
  proof (rule ccontr)
    assume "\<not> list_all known_change ccs"
    then show False
      using apply_unknown [OF assms(1), of ccs c] assms nj
      by (auto simp: Changer_Simple_def checkAndCopy_wf conf_err_def)
  qed
  show ?thesis
    using Simple_result [OF assms(1) nj known] assms(2) nj
    by (auto simp: conf_err_def joint_config_def not_less split: if_splits)
qed

lemma EnterJoint_success:
  assumes "changer_wf c" "Changer_EnterJoint c b ccs = Inr (cfg', trk', Ok)"
  shows "conf_wf cfg' trk' \<and> incoming cfg' \<noteq> {} \<and> outgoing (chg_config c) = {} \<and>
    incoming (chg_config c) \<noteq> {} \<and> outgoing cfg' = incoming (chg_config c) \<and> cfg_autoLeave cfg' = b \<and>
    cfg' = (fold spec_change ccs
      ((chg_config c)\<lparr>cfg_voters := (incoming (chg_config c), incoming (chg_config c))\<rparr>))\<lparr>cfg_autoLeave := b\<rparr>"
proof -
  have nj: "\<not> joint_config (chg_config c)" and ne: "incoming (chg_config c) \<noteq> {}"
    using assms by (auto simp: Changer_EnterJoint_def checkAndCopy_wf conf_err_def split: if_splits)
  have "outgoing (chg_config c) = {}" using nj by (simp add: joint_config_def)
  note wf = conf_wf_enter [OF assms(1) this]
  have known: "list_all known_change ccs"
  proof (rule ccontr)
    assume "\<not> list_all known_change ccs"
    then show False
      using apply_unknown [OF wf, of ccs c] assms nj ne
      by (auto simp: Changer_EnterJoint_def checkAndCopy_wf conf_err_def)
  qed
  show ?thesis
    using EnterJoint_result [OF assms(1) nj ne known, of b] assms(2) nj ne
    by (auto simp: conf_err_def joint_config_def split: if_splits)
qed

lemma LeaveJoint_success:
  assumes "changer_wf c" "Changer_LeaveJoint c = Inr (cfg', trk', Ok)"
  shows "conf_wf cfg' trk' \<and> outgoing (chg_config c) \<noteq> {} \<and> incoming cfg' = incoming (chg_config c) \<and>
    outgoing cfg' = {} \<and> cfg_learners cfg' = cfg_learners (chg_config c) \<union> cfg_learnersNext (chg_config c)"
proof -
  have j: "joint_config (chg_config c)"
    using assms by (auto simp: Changer_LeaveJoint_def checkAndCopy_wf conf_err_def split: if_splits)
  show ?thesis
    using LeaveJoint_result [OF assms(1) j] assms(2) j by (auto simp: joint_config_def)
qed

text \<open>Majorities of two configurations that differ in one voter meet.\<close>

lemma adjacent_majorities_meet:
  assumes "finite V'" "V \<subseteq> V'" "card V' \<le> card V + 1"
    and "card V div 2 + 1 \<le> card (V \<inter> A)" "card V' div 2 + 1 \<le> card (V' \<inter> B)"
  shows "A \<inter> B \<noteq> {}"
proof
  assume empty: "A \<inter> B = {}"
  have "finite V" using assms(1,2) finite_subset by blast
  then have "card (V \<inter> A) + card (V' \<inter> B) = card ((V \<inter> A) \<union> (V' \<inter> B))"
    using assms(1) empty by (subst card_Un_disjoint) auto
  also have "\<dots> \<le> card V'"
    using assms(1,2) by (intro card_mono) auto
  finally show False using assms(3-5) by linarith
qed

lemma symdiff_one_cases:
  assumes "finite V" "finite V'" "symdiff V V' \<le> 1"
  shows "V \<subseteq> V' \<and> card V' \<le> card V + 1 \<or> V' \<subseteq> V \<and> card V \<le> card V' + 1"
proof -
  have le: "card (V - V') + card (V' - V) \<le> 1" using assms symdiff_card by metis
  have "card (V - V') = 0 \<or> card (V' - V) = 0" using le by linarith
  then show ?thesis
  proof
    assume "card (V - V') = 0"
    then have "V \<subseteq> V'" using assms(1) by simp
    then show ?thesis using card_Diff_subset [OF assms(1), of V'] le by linarith
  next
    assume "card (V' - V) = 0"
    then have "V' \<subseteq> V" using assms(2) by simp
    then show ?thesis using card_Diff_subset [OF assms(2), of V] le by linarith
  qed
qed

lemma simple_quorums_meet:
  assumes "finite V" "finite V'" "symdiff V V' \<le> 1" "V \<noteq> {}" "V' \<noteq> {}"
    and "majority_quorum V A" "majority_quorum V' B"
  shows "A \<inter> B \<noteq> {}"
  using symdiff_one_cases [OF assms(1-3)]
proof
  assume "V \<subseteq> V' \<and> card V' \<le> card V + 1"
  then show ?thesis
    using adjacent_majorities_meet [of V' V A B] assms by (simp add: majority_quorum_def)
next
  assume "V' \<subseteq> V \<and> card V \<le> card V' + 1"
  then show ?thesis
    using adjacent_majorities_meet [of V V' B A] assms by (simp add: majority_quorum_def Int_commute)
qed

section \<open>Properties\<close>

text \<open>A tracker with the three voters 1, 2 and 3, for the examples.\<close>

definition progress_example :: Progress where
  "progress_example = \<lparr>pr_match = 0, pr_next = 1, pr_state = StateProbe, pr_pendingSnapshot = 0,
     pr_recentActive = True, pr_msgAppFlowPaused = False, pr_inflights = NewInflights 4 0, pr_isLearner = False\<rparr>"

definition tracker_example :: ProgressTracker where
  "tracker_example = (MakeProgressTracker 4 0)\<lparr>trk_config := Config0\<lparr>cfg_voters := ({1, 2, 3}, {})\<rparr>,
     trk_progress := [1 \<mapsto> progress_example, 2 \<mapsto> progress_example, 3 \<mapsto> progress_example]\<rparr>"

definition changer_example :: Changer where
  "changer_example = \<lparr>chg_tracker = tracker_example, chg_lastIndex = 1\<rparr>"

lemma tracker_example_wf: "conf_wf (trk_config tracker_example) (trk_progress tracker_example)"
  by (auto simp: tracker_example_def conf_wf_def conf_finite_def Config0_def progress_example_def
      MakeProgressTracker_def split: if_splits)

lemma changer_example_wf: "changer_wf changer_example"
  using tracker_example_wf by (simp add: changer_example_def)

lemma changer_example_config [simp]: "chg_config changer_example = Config0\<lparr>cfg_voters := ({1, 2, 3}, {})\<rparr>"
  by (simp add: changer_example_def tracker_example_def)

text \<open>Demoting voter 3 through a joint configuration.\<close>

lemma enter_example:
  "\<exists>trk. Changer_EnterJoint changer_example True [single ConfChangeAddLearnerNode 3] =
     Inr (\<lparr>cfg_voters = ({1, 2}, {1, 2, 3}), cfg_autoLeave = True, cfg_learners = {}, cfg_learnersNext = {3}\<rparr>, trk, Ok)"
  using EnterJoint_result [OF changer_example_wf, of "[single ConfChangeAddLearnerNode 3]" True]
  by (auto simp: joint_config_def Config0_def spec_change_def insert_Diff_if)

text \<open>
  C6: consecutive configurations have intersecting quorums. Let the changer hold a
  well-formed configuration with at least one incoming voter. Whichever of the three
  transitions \<open>Simple\<close>, \<open>EnterJoint\<close> and \<open>LeaveJoint\<close> succeeds on it, a quorum of the
  configuration before it and a quorum of the configuration after it share a peer; so no
  two leaders can be elected, and no two conflicting entries committed, by the two sides of
  a membership change. The condition on the voters leaves out the first configuration
  only: \<open>Simple\<close> also leads out of the empty configuration a node is created with, of which
  every set of peers is a quorum, the empty set included, so nothing needs to be shared there.
\<close>

theorem reconfiguration_quorums_meet:
  assumes "changer_wf c" "incoming (chg_config c) \<noteq> {}"
    and "Changer_Simple c ccs = Inr (cfg', trk', Ok) \<or>
         Changer_EnterJoint c b ccs = Inr (cfg', trk', Ok) \<or>
         Changer_LeaveJoint c = Inr (cfg', trk', Ok)"
    and "joint_quorum (cfg_voters (chg_config c)) A" "joint_quorum (cfg_voters cfg') B"
  shows "A \<inter> B \<noteq> {}"
proof -
  have fin: "finite (incoming (chg_config c))"
    using assms(1) by (simp add: conf_wf_def conf_finite_def)
  have q: "majority_quorum (incoming (chg_config c)) A" "majority_quorum (incoming cfg') B"
      "majority_quorum (outgoing cfg') B"
    using assms(4,5) by (simp_all add: joint_quorum_def)
  from assms(3) show ?thesis
  proof (elim disjE)
    assume "Changer_Simple c ccs = Inr (cfg', trk', Ok)"
    note S = Simple_success [OF assms(1) this]
    have "finite (incoming cfg')" using S conf_wf_finite by blast
    then show ?thesis using simple_quorums_meet [OF fin] S assms(2) q by blast
  next
    assume "Changer_EnterJoint c b ccs = Inr (cfg', trk', Ok)"
    then have "outgoing cfg' = incoming (chg_config c)" using EnterJoint_success [OF assms(1)] by blast
    then show ?thesis
      using majority.quorum_meet [of "incoming (chg_config c)" A B] fin assms(2) q(1,3) by simp
  next
    assume "Changer_LeaveJoint c = Inr (cfg', trk', Ok)"
    then have "incoming cfg' = incoming (chg_config c)" using LeaveJoint_success [OF assms(1)] by blast
    then show ?thesis
      using majority.quorum_meet [of "incoming (chg_config c)" A B] fin assms(2) q(1,2) by simp
  qed
qed

theorem reconfiguration_quorums_meet_witness:
  "\<exists>trk. Changer_EnterJoint changer_example True [single ConfChangeAddLearnerNode 3] =
     Inr (\<lparr>cfg_voters = ({1, 2}, {1, 2, 3}), cfg_autoLeave = True, cfg_learners = {}, cfg_learnersNext = {3}\<rparr>, trk, Ok)
   \<and> joint_quorum (cfg_voters (chg_config changer_example)) {2, 3} \<and> joint_quorum ({1, 2}, {1, 2, 3}) {1, 2}
   \<and> {2, 3} \<inter> {1, 2} \<noteq> ({} :: u64 set)"
proof -
  obtain trk where e: "Changer_EnterJoint changer_example True [single ConfChangeAddLearnerNode 3] =
     Inr (\<lparr>cfg_voters = ({1, 2}, {1, 2, 3}), cfg_autoLeave = True, cfg_learners = {}, cfg_learnersNext = {3}\<rparr>, trk, Ok)"
    using enter_example by blast
  have q: "joint_quorum (cfg_voters (chg_config changer_example)) {2, 3}" "joint_quorum ({1, 2}, {1, 2, 3}) {1, 2}"
    by (simp_all add: joint_quorum_def majority_quorum_def)
  have "{2, 3} \<inter> {1, 2} \<noteq> ({} :: u64 set)"
    by (rule reconfiguration_quorums_meet [OF changer_example_wf _ disjI2 [OF disjI1 [OF e]] q(1)]) (use q(2) in simp_all)
  then show ?thesis using e q by blast
qed

text \<open>The configuration a joint one leads to.\<close>

definition settled :: "Config \<Rightarrow> Config \<Rightarrow> bool" where
  "settled j d \<longleftrightarrow> incoming d = incoming j \<and> outgoing d = {} \<and> cfg_learnersNext d = {} \<and>
     cfg_learners d = cfg_learners j \<union> cfg_learnersNext j"

lemma settled_change: "settled j d \<Longrightarrow> settled (spec_change cc j) (spec_change cc d)"
  by (auto simp: settled_def spec_change_def Let_def split: ConfChangeType.split)

lemma settled_fold: "settled j d \<Longrightarrow> settled (fold spec_change ccs j) (fold spec_change ccs d)"
  by (induction ccs arbitrary: j d) (auto intro: settled_change)

abbreviation changer_to :: "Changer \<Rightarrow> Config \<Rightarrow> ProgressMap \<Rightarrow> Changer" where
  "changer_to c cfg trk \<equiv> c\<lparr>chg_tracker := (chg_tracker c)\<lparr>trk_config := cfg, trk_progress := trk\<rparr>\<rparr>"

text \<open>
  C17: entering and leaving a joint configuration has the effect of the changes. If
  \<open>EnterJoint\<close> accepts a list of changes, then a following \<open>LeaveJoint\<close> succeeds and ends
  in the configuration that the changes, read as plain set operations, produce from the
  original one: the demotions staged in \<open>learnersNext_\<close> are all carried out, and the
  invariant between configuration and progress map holds again.
\<close>

theorem joint_change_completes:
  assumes "changer_wf c" "Changer_EnterJoint c b ccs = Inr (cfg1, trk1, Ok)"
  shows "\<exists>trk2. Changer_LeaveJoint (changer_to c cfg1 trk1) = Inr (fold spec_change ccs (chg_config c), trk2, Ok) \<and>
     conf_wf (fold spec_change ccs (chg_config c)) trk2"
proof -
  note E = EnterJoint_success [OF assms]
  let ?d = "fold spec_change ccs (chg_config c)"
  let ?j = "fold spec_change ccs ((chg_config c)\<lparr>cfg_voters := (incoming (chg_config c), incoming (chg_config c))\<rparr>)"
  have next0: "cfg_learnersNext (chg_config c) = {}" and al: "\<not> cfg_autoLeave (chg_config c)"
    using assms(1) E by (auto simp: conf_wf_def)
  have "settled ?j ?d"
    using E next0 by (intro settled_fold) (simp add: settled_def)
  moreover have "cfg1 = ?j\<lparr>cfg_autoLeave := b\<rparr>" using E by blast
  ultimately have "?d = cfg1\<lparr>cfg_learners := cfg_learners cfg1 \<union> cfg_learnersNext cfg1,
      cfg_learnersNext := {}, cfg_voters := (incoming cfg1, {}), cfg_autoLeave := False\<rparr>"
    using al by (intro Config_eqI) (auto simp: settled_def prod_eq_iff)
  moreover have "joint_config cfg1" "conf_wf cfg1 trk1" using E unfolding joint_config_def by blast+
  ultimately show ?thesis
    using LeaveJoint_result [of "changer_to c cfg1 trk1"] by auto
qed

theorem joint_change_completes_witness:
  "\<exists>trk1 trk2. Changer_LeaveJoint (changer_to changer_example
       \<lparr>cfg_voters = ({1, 2}, {1, 2, 3}), cfg_autoLeave = True, cfg_learners = {}, cfg_learnersNext = {3}\<rparr> trk1) =
     Inr (\<lparr>cfg_voters = ({1, 2}, {}), cfg_autoLeave = False, cfg_learners = {3}, cfg_learnersNext = {}\<rparr>, trk2, Ok)"
proof -
  obtain trk1 where "Changer_EnterJoint changer_example True [single ConfChangeAddLearnerNode 3] =
     Inr (\<lparr>cfg_voters = ({1, 2}, {1, 2, 3}), cfg_autoLeave = True, cfg_learners = {}, cfg_learnersNext = {3}\<rparr>, trk1, Ok)"
    using enter_example by blast
  from joint_change_completes [OF changer_example_wf this] show ?thesis
    by (auto simp: spec_change_def Config0_def insert_Diff_if)
qed

end
