(* ===== verification/ConfRestore.thy ===== *)
theory ConfRestore
  imports ConfChange
begin

text \<open>
  \<open>src/etcd_raft/confchange/restore.h\<close>: \<open>Restore\<close> rebuilds a configuration from a
  \<open>ConfState\<close> by replaying changes on an empty tracker. The main result is that it
  inverts \<open>ProgressTracker::ConfState\<close>.
\<close>

section \<open>Definitions\<close>

definition toConfChangeSingle :: "ConfState \<Rightarrow> ConfChangeSingle list \<times> ConfChangeSingle list" where
  "toConfChangeSingle cs =
     (map (single ConfChangeAddNode) (cs_voters_outgoing cs),
      map (single ConfChangeRemoveNode) (cs_voters_outgoing cs) @
      map (single ConfChangeAddNode) (cs_voters cs) @
      map (single ConfChangeAddLearnerNode) (cs_learners cs) @
      map (single ConfChangeAddLearnerNode) (cs_learners_next cs))"

fun chain :: "Changer \<Rightarrow> (Changer \<Rightarrow> conf_result res) list \<Rightarrow> conf_result res" where
  "chain chg [] = Inr (trk_config (chg_tracker chg), trk_progress (chg_tracker chg), Ok)"
| "chain chg (f # fs) =
     bindR (f chg) (\<lambda>(cfg, trk, err).
       if err \<noteq> Ok then Inr (conf_err err)
       else chain (chg\<lparr>chg_tracker := (chg_tracker chg)\<lparr>trk_config := cfg, trk_progress := trk\<rparr>\<rparr>) fs)"

definition Restore :: "Changer \<Rightarrow> ConfState \<Rightarrow> conf_result res" where
  "Restore chg cs =
     (case toConfChangeSingle cs of (outs, ins) \<Rightarrow>
        chain chg
          (if outs = [] then map (\<lambda>cc c. Changer_Simple c [cc]) ins
           else map (\<lambda>cc c. Changer_Simple c [cc]) outs @
                [\<lambda>c. Changer_EnterJoint c (cs_auto_leave cs) ins]))"

section \<open>Replaying changes\<close>

fun never_empty :: "Config \<Rightarrow> ConfChangeSingle list \<Rightarrow> bool" where
  "never_empty cfg [] = True"
| "never_empty cfg (cc # ccs) =
     (incoming (spec_change cc cfg) \<noteq> {} \<and> never_empty (spec_change cc cfg) ccs)"

lemma spec_change_one_voter:
  "incoming (spec_change cc cfg) - {ccs_node_id cc} = incoming cfg - {ccs_node_id cc}"
  by (auto simp: spec_change_def Let_def split: ConfChangeType.split)

lemma symdiff_one:
  assumes "finite l" "finite r" "l - {i} = r - {i}"
  shows "symdiff l r \<le> 1"
proof -
  have mem: "j \<in> l \<longleftrightarrow> j \<in> r" if "j \<noteq> i" for j
    using assms(3) that by (metis Diff_iff singletonD)
  have "l - r \<subseteq> {i}" "r - l \<subseteq> {i}" using mem by auto
  then have "card (l - r) \<le> 1" "card (r - l) \<le> 1"
    using card_mono [of "{i}" "l - r"] card_mono [of "{i}" "r - l"] by simp_all
  moreover have "card (l - r) = 0 \<or> card (r - l) = 0"
  proof (cases "i \<in> l")
    case True
    then have "r - l = {}" using mem by (metis Diff_eq_empty_iff subsetI)
    then show ?thesis by (metis card.empty)
  next
    case False
    then have "l - r = {}" using mem by (metis Diff_eq_empty_iff subsetI)
    then show ?thesis by (metis card.empty)
  qed
  ultimately show ?thesis using symdiff_card [OF assms(1,2)] by linarith
qed

lemma Simple_single:
  assumes "changer_wf c" "outgoing (chg_config c) = {}" "known_change cc"
    and "incoming (spec_change cc (chg_config c)) \<noteq> {}"
  shows "\<exists>trk'. conf_wf (spec_change cc (chg_config c)) trk' \<and>
    Changer_Simple c [cc] = Inr (spec_change cc (chg_config c), trk', Ok)"
proof -
  have "\<not> joint_config (chg_config c)" "list_all known_change [cc]"
    using assms(2,3) by (simp_all add: joint_config_def)
  from Simple_result [OF assms(1) this] obtain trk' where t: "conf_wf (spec_change cc (chg_config c)) trk'"
      "Changer_Simple c [cc] = Inr (if 1 < symdiff (incoming (chg_config c)) (incoming (spec_change cc (chg_config c)))
        then conf_err (UnknownErr ''more than one voter changed without entering joint config'')
        else (spec_change cc (chg_config c), trk', Ok))"
    unfolding fold_simps if_not_P [OF assms(4)] by blast
  have "finite (incoming (chg_config c))" "finite (incoming (spec_change cc (chg_config c)))"
    using assms(1) t(1) by (simp_all add: conf_wf_def conf_finite_def)
  from symdiff_one [OF this spec_change_one_voter [symmetric]] show ?thesis using t by auto
qed

lemma chain_Simple:
  assumes "changer_wf c" "outgoing (chg_config c) = {}" "list_all known_change ccs"
    and "never_empty (chg_config c) ccs"
  shows "\<exists>trk'. conf_wf (fold spec_change ccs (chg_config c)) trk' \<and>
    chain c (map (\<lambda>cc c. Changer_Simple c [cc]) ccs @ fs) =
    chain (changer_to c (fold spec_change ccs (chg_config c)) trk') fs"
  using assms
proof (induction ccs arbitrary: c)
  case Nil
  then show ?case by (intro exI [of _ "trk_progress (chg_tracker c)"]) simp
next
  case (Cons cc ccs)
  obtain trk1 where t1: "conf_wf (spec_change cc (chg_config c)) trk1"
      "Changer_Simple c [cc] = Inr (spec_change cc (chg_config c), trk1, Ok)"
    using Simple_single [OF Cons.prems(1,2), of cc] Cons.prems(3,4) by auto
  have "\<exists>trk'. conf_wf (fold spec_change ccs (spec_change cc (chg_config c))) trk' \<and>
      chain (changer_to c (spec_change cc (chg_config c)) trk1) (map (\<lambda>cc c. Changer_Simple c [cc]) ccs @ fs) =
      chain (changer_to (changer_to c (spec_change cc (chg_config c)) trk1)
        (fold spec_change ccs (spec_change cc (chg_config c))) trk') fs"
    using Cons.IH [of "changer_to c (spec_change cc (chg_config c)) trk1"] Cons.prems t1 by simp
  then show ?case using t1 by simp
qed

lemma fold_AddNode:
  "0 \<notin> set ids \<Longrightarrow> fold spec_change (map (single ConfChangeAddNode) ids) cfg =
     cfg\<lparr>cfg_voters := (incoming cfg \<union> set ids, outgoing cfg), cfg_learners := cfg_learners cfg - set ids,
         cfg_learnersNext := cfg_learnersNext cfg - set ids\<rparr>"
  by (induction ids arbitrary: cfg) (auto simp: spec_change_def intro!: Config_eqI)

lemma fold_RemoveNode:
  "0 \<notin> set ids \<Longrightarrow> fold spec_change (map (single ConfChangeRemoveNode) ids) cfg =
     cfg\<lparr>cfg_voters := (incoming cfg - set ids, outgoing cfg), cfg_learners := cfg_learners cfg - set ids,
         cfg_learnersNext := cfg_learnersNext cfg - set ids\<rparr>"
  by (induction ids arbitrary: cfg) (auto simp: spec_change_def intro!: Config_eqI)

lemma fold_AddLearner:
  "0 \<notin> set ids \<Longrightarrow> set ids \<inter> outgoing cfg = {} \<Longrightarrow>
   fold spec_change (map (single ConfChangeAddLearnerNode) ids) cfg =
     cfg\<lparr>cfg_voters := (incoming cfg - set ids, outgoing cfg), cfg_learners := cfg_learners cfg \<union> set ids\<rparr>"
  by (induction ids arbitrary: cfg) (auto simp: spec_change_def intro!: Config_eqI)

lemma fold_StageLearner:
  "0 \<notin> set ids \<Longrightarrow> set ids \<subseteq> outgoing cfg \<Longrightarrow>
   fold spec_change (map (single ConfChangeAddLearnerNode) ids) cfg =
     cfg\<lparr>cfg_voters := (incoming cfg - set ids, outgoing cfg),
         cfg_learnersNext := cfg_learnersNext cfg \<union> set ids\<rparr>"
  by (induction ids arbitrary: cfg) (auto simp: spec_change_def intro!: Config_eqI)

lemma never_empty_AddNode:
  "0 \<notin> set ids \<Longrightarrow> never_empty cfg (map (single ConfChangeAddNode) ids @ ccs) \<longleftrightarrow>
   never_empty (fold spec_change (map (single ConfChangeAddNode) ids) cfg) ccs"
  by (induction ids arbitrary: cfg) (auto simp: spec_change_def)

lemma never_empty_AddLearner:
  "0 \<notin> set ids \<Longrightarrow> incoming cfg - set ids \<noteq> {} \<Longrightarrow>
   never_empty cfg (map (single ConfChangeAddLearnerNode) ids)"
proof (induction ids arbitrary: cfg)
  case (Cons i ids)
  have "incoming (spec_change (single ConfChangeAddLearnerNode i) cfg) = incoming cfg - {i}"
    using Cons.prems(1) by (simp add: spec_change_def)
  moreover have "incoming cfg - {i} - set ids \<noteq> {}" "incoming cfg - {i} \<noteq> {}"
    using Cons.prems(2) by auto
  ultimately show ?case using Cons by simp
qed simp

lemma known_single:
  "list_all known_change (map (single ConfChangeAddNode) ids)"
  "list_all known_change (map (single ConfChangeRemoveNode) ids)"
  "list_all known_change (map (single ConfChangeAddLearnerNode) ids)"
  by (simp_all add: list_all_iff)

section \<open>The configuration a ConfState describes\<close>

definition conf_of :: "ConfState \<Rightarrow> Config" where
  "conf_of cs = \<lparr>cfg_voters = (set (cs_voters cs), set (cs_voters_outgoing cs)),
     cfg_autoLeave = cs_auto_leave cs, cfg_learners = set (cs_learners cs),
     cfg_learnersNext = set (cs_learners_next cs)\<rparr>"

text \<open>A \<open>ConfState\<close> that describes a legal configuration.\<close>

definition cs_legal :: "ConfState \<Rightarrow> bool" where
  "cs_legal cs \<longleftrightarrow>
     cs_voters cs \<noteq> [] \<and>
     0 \<notin> set (cs_voters cs) \<union> set (cs_voters_outgoing cs) \<union> set (cs_learners cs) \<and>
     set (cs_learners cs) \<inter> (set (cs_voters cs) \<union> set (cs_voters_outgoing cs)) = {} \<and>
     set (cs_learners_next cs) \<subseteq> set (cs_voters_outgoing cs) - set (cs_voters cs) \<and>
     (cs_voters_outgoing cs = [] \<longrightarrow> \<not> cs_auto_leave cs)"

definition empty_changer :: "Changer \<Rightarrow> bool" where
  "empty_changer c \<longleftrightarrow> chg_config c = Config0 \<and> trk_progress (chg_tracker c) = (\<lambda>_. None)"

lemma empty_changer_wf: "empty_changer c \<Longrightarrow> changer_wf c"
  by (simp add: empty_changer_def conf_wf_def conf_finite_def Config0_def)

lemma Restore_simple:
  assumes "empty_changer c" "cs_legal cs" "cs_voters_outgoing cs = []"
  shows "\<exists>trk'. Restore c cs = Inr (conf_of cs, trk', Ok) \<and> conf_wf (conf_of cs) trk'"
proof -
  let ?vs = "map (single ConfChangeAddNode) (cs_voters cs)"
  let ?ls = "map (single ConfChangeAddLearnerNode) (cs_learners cs)"
  have nx: "cs_learners_next cs = []" using assms(2,3) by (simp add: cs_legal_def)
  have z: "0 \<notin> set (cs_voters cs)" "0 \<notin> set (cs_learners cs)" using assms(2) by (simp_all add: cs_legal_def)
  have dis: "set (cs_voters cs) - set (cs_learners cs) = set (cs_voters cs)" and ne: "set (cs_voters cs) \<noteq> {}"
    using assms(2) by (auto simp: cs_legal_def)
  have cfg: "chg_config c = Config0" using assms(1) by (simp add: empty_changer_def)
  have v: "fold spec_change ?vs Config0 = Config0\<lparr>cfg_voters := (set (cs_voters cs), {})\<rparr>"
    by (simp add: fold_AddNode [OF z(1)] Config0_def)
  have "never_empty (Config0\<lparr>cfg_voters := (set (cs_voters cs), {})\<rparr>) ?ls"
    using never_empty_AddLearner [OF z(2), of "Config0\<lparr>cfg_voters := (set (cs_voters cs), {})\<rparr>"] ne
    by (simp add: dis)
  then have never: "never_empty (chg_config c) (?vs @ ?ls)"
    by (simp add: never_empty_AddNode [OF z(1)] v cfg)
  have "fold spec_change (?vs @ ?ls) (chg_config c) = conf_of cs"
    using assms(2,3) nx dis
    by (simp add: cfg fold_AddNode [OF z(1)] fold_AddLearner [OF z(2)] Config0_def conf_of_def cs_legal_def)
  then obtain trk' where "conf_wf (conf_of cs) trk'"
      "chain c (map (\<lambda>cc c. Changer_Simple c [cc]) (?vs @ ?ls) @ []) = chain (changer_to c (conf_of cs) trk') []"
    using chain_Simple [OF empty_changer_wf [OF assms(1)], of "?vs @ ?ls" "[]"] never known_single
    by (auto simp: cfg Config0_def)
  then show ?thesis
    using assms(3) nx by (auto simp: Restore_def toConfChangeSingle_def comp_def)
qed

lemma Restore_joint:
  assumes "empty_changer c" "cs_legal cs" "cs_voters_outgoing cs \<noteq> []"
  shows "\<exists>trk'. Restore c cs = Inr (conf_of cs, trk', Ok) \<and> conf_wf (conf_of cs) trk'"
proof -
  let ?os = "map (single ConfChangeAddNode) (cs_voters_outgoing cs)"
  let ?ins = "snd (toConfChangeSingle cs)"
  let ?O = "set (cs_voters_outgoing cs)"
  have z: "0 \<notin> ?O" "0 \<notin> set (cs_voters cs)" "0 \<notin> set (cs_learners cs)" "0 \<notin> set (cs_learners_next cs)"
    using assms(2) by (auto simp: cs_legal_def)
  have dis: "set (cs_voters cs) - set (cs_learners cs) - set (cs_learners_next cs) = set (cs_voters cs)"
      "set (cs_learners cs) \<inter> ?O = {}" "set (cs_learners_next cs) \<subseteq> ?O" "set (cs_voters cs) \<noteq> {}"
    using assms(2) by (auto simp: cs_legal_def)
  have cfg: "chg_config c = Config0" using assms(1) by (simp add: empty_changer_def)
  let ?c1 = "Config0\<lparr>cfg_voters := (?O, {})\<rparr>"
  have o: "fold spec_change ?os (chg_config c) = ?c1"
    by (simp add: cfg fold_AddNode [OF z(1)] Config0_def)
  have out0: "outgoing (chg_config c) = {}" by (simp add: cfg Config0_def)
  have "never_empty (chg_config c) ?os"
    using never_empty_AddNode [OF z(1), of "chg_config c" "[]"] by simp
  from chain_Simple [OF empty_changer_wf [OF assms(1)] out0 known_single(1) this,
      of "[\<lambda>c. Changer_EnterJoint c (cs_auto_leave cs) ?ins]"]
  obtain trk1 where t1: "conf_wf ?c1 trk1"
      "chain c (map (\<lambda>cc c. Changer_Simple c [cc]) ?os @ [\<lambda>c. Changer_EnterJoint c (cs_auto_leave cs) ?ins]) =
       chain (changer_to c ?c1 trk1) [\<lambda>c. Changer_EnterJoint c (cs_auto_leave cs) ?ins]"
    unfolding o by blast
  have ins: "(fold spec_change ?ins (?c1\<lparr>cfg_voters := (?O, ?O)\<rparr>))\<lparr>cfg_autoLeave := cs_auto_leave cs\<rparr> = conf_of cs"
    using dis
    by (simp add: toConfChangeSingle_def fold_RemoveNode [OF z(1)] fold_AddNode [OF z(2)]
        fold_AddLearner [OF z(3)] fold_StageLearner [OF z(4)] Config0_def conf_of_def)
  have inc: "incoming (fold spec_change ?ins (?c1\<lparr>cfg_voters := (?O, ?O)\<rparr>)) \<noteq> {}"
    using arg_cong [OF ins, of incoming] dis(4) by (simp add: conf_of_def)
  have "list_all known_change ?ins"
    using known_single by (simp add: toConfChangeSingle_def)
  then have "\<exists>trk'. conf_wf (conf_of cs) trk' \<and>
      Changer_EnterJoint (changer_to c ?c1 trk1) (cs_auto_leave cs) ?ins = Inr (conf_of cs, trk', Ok)"
    using EnterJoint_result [of "changer_to c ?c1 trk1" ?ins "cs_auto_leave cs"] t1(1) assms(3) ins inc
    by (auto simp: joint_config_def)
  then show ?thesis
    using t1(2) assms(3) by (auto simp: Restore_def toConfChangeSingle_def comp_def)
qed

section \<open>Properties\<close>

text \<open>
  C16: \<open>Restore\<close> inverts \<open>ProgressTracker::ConfState\<close>. From an empty tracker, replaying
  the \<open>ConfState\<close> of any well-formed configuration with a voter succeeds, without fault
  or error, and gives that configuration back: both voter sets, the learners, the staged
  learners and the auto-leave flag. The replayed progress map tracks the same peers, and
  \<open>Equivalent\<close> accepts the result, so the checks in \<open>newRaft\<close> and in
  \<open>raft::restore\<close> never fail on a state the code has produced.
\<close>

theorem restore_inverts_ConfState:
  assumes "conf_wf (trk_config t) (trk_progress t)" "incoming (trk_config t) \<noteq> {}"
    and "0 \<notin> dom (trk_progress t)" "empty_changer c"
  shows "\<exists>trk'. Restore c (ProgressTracker_ConfState t) = Inr (trk_config t, trk', Ok) \<and>
     dom trk' = dom (trk_progress t) \<and> conf_wf (trk_config t) trk' \<and>
     Equivalent (ProgressTracker_ConfState t)
       (ProgressTracker_ConfState (t\<lparr>trk_config := trk_config t, trk_progress := trk'\<rparr>)) = Ok"
proof -
  let ?cs = "ProgressTracker_ConfState t" and ?cfg = "trk_config t"
  have fin: "finite (incoming ?cfg)" "finite (outgoing ?cfg)" "finite (cfg_learners ?cfg)" "finite (cfg_learnersNext ?cfg)"
    using assms(1) by (simp_all add: conf_wf_def conf_finite_def)
  have conf: "conf_of ?cs = ?cfg"
    using fin by (intro Config_eqI) (simp_all add: conf_of_def ProgressTracker_ConfState_def MajorityConfig_Slice_def Let_def)
  have dom: "dom (trk_progress t) = incoming ?cfg \<union> outgoing ?cfg \<union> cfg_learners ?cfg"
    using assms(1) by (simp add: conf_wf_def)
  have "0 \<notin> incoming ?cfg" "0 \<notin> outgoing ?cfg" "0 \<notin> cfg_learners ?cfg" using assms(3) dom by blast+
  then have "cs_legal ?cs"
    using assms(1,2) fin
    by (simp add: cs_legal_def ProgressTracker_ConfState_def MajorityConfig_Slice_def conf_wf_def Let_def)
  then obtain trk' where "Restore c ?cs = Inr (?cfg, trk', Ok)" "conf_wf ?cfg trk'"
    using Restore_simple [OF assms(4)] Restore_joint [OF assms(4)] conf by metis
  moreover from this(2) have "dom trk' = dom (trk_progress t)" using dom by (simp add: conf_wf_def)
  ultimately show ?thesis by (auto simp: Equivalent_def ProgressTracker_ConfState_def)
qed

theorem restore_inverts_ConfState_witness:
  "\<exists>trk'. Restore \<lparr>chg_tracker = MakeProgressTracker 4 0, chg_lastIndex = 1\<rparr>
       \<lparr>cs_voters = [1, 2, 3], cs_learners = [], cs_voters_outgoing = [], cs_learners_next = [], cs_auto_leave = False\<rparr>
     = Inr (Config0\<lparr>cfg_voters := ({1, 2, 3}, {})\<rparr>, trk', Ok) \<and> dom trk' = {1, 2, 3}"
proof -
  have "sorted_list_of_set {1, 2, 3 :: nat} = [1, 2, 3]"
    by (simp add: insort_key.simps)
  then have "ProgressTracker_ConfState tracker_example =
      \<lparr>cs_voters = [1, 2, 3], cs_learners = [], cs_voters_outgoing = [], cs_learners_next = [], cs_auto_leave = False\<rparr>"
    by (simp add: ProgressTracker_ConfState_def MajorityConfig_Slice_def tracker_example_def Config0_def Let_def)
  moreover have "empty_changer \<lparr>chg_tracker = MakeProgressTracker 4 0, chg_lastIndex = 1\<rparr>"
    by (simp add: empty_changer_def MakeProgressTracker_def)
  moreover have "dom (trk_progress tracker_example) = {1, 2, 3}" "trk_config tracker_example = Config0\<lparr>cfg_voters := ({1, 2, 3}, {})\<rparr>"
    by (auto simp: tracker_example_def)
  ultimately show ?thesis
    using restore_inverts_ConfState [OF tracker_example_wf] by fastforce
qed

end
