(* ===== verification/ReadOnly.thy ===== *)
theory ReadOnly
  imports Raftpb
begin

text \<open>
  \<open>src/etcd_raft/read_only.h\<close>: the queue of read-only requests a leader is confirming. A
  request is known by the context string in its first entry; \<open>pendingReadIndex_\<close> maps it
  to its status and \<open>readIndexQueue_\<close> keeps the order of arrival.
\<close>

section \<open>Definitions\<close>

datatype ReadOnlyOption = ReadOnlySafe | ReadOnlyLeaseBased

record ReadState =
  rs_index :: u64
  rs_requestCtx :: string

record readIndexStatus =
  ris_req :: message
  ris_index :: u64
  ris_acks :: "u64 \<Rightarrow> bool option"

record ReadOnly =
  ro_option :: ReadOnlyOption
  ro_pendingReadIndex :: "string \<Rightarrow> readIndexStatus option"
  ro_readIndexQueue :: "string list"

definition newReadOnly :: "ReadOnlyOption \<Rightarrow> ReadOnly" where
  "newReadOnly opt = \<lparr>ro_option = opt, ro_pendingReadIndex = (\<lambda>_. None), ro_readIndexQueue = []\<rparr>"

definition ReadOnly_addRequest :: "ReadOnly \<Rightarrow> u64 \<Rightarrow> message \<Rightarrow> ReadOnly res" where
  "ReadOnly_addRequest ro index m =
     bindR (at_ix (m_entries m) 0) (\<lambda>e.
       let s = e_data e in
       if ro_pendingReadIndex ro s \<noteq> None then Inr ro
       else Inr (ro\<lparr>ro_readIndexQueue := ro_readIndexQueue ro @ [s],
                    ro_pendingReadIndex := (ro_pendingReadIndex ro)
                      (s \<mapsto> \<lparr>ris_req = m, ris_index = index, ris_acks = (\<lambda>_. None)\<rparr>)\<rparr>))"

definition ReadOnly_recvAck :: "ReadOnly \<Rightarrow> u64 \<Rightarrow> string \<Rightarrow> ReadOnly \<times> (u64 \<Rightarrow> bool option)" where
  "ReadOnly_recvAck ro i ctx =
     (case ro_pendingReadIndex ro ctx of
        None \<Rightarrow> (ro, \<lambda>_. None)
      | Some rs \<Rightarrow>
          let acks = (ris_acks rs)(i \<mapsto> True)
          in (ro\<lparr>ro_pendingReadIndex := (ro_pendingReadIndex ro)(ctx \<mapsto> rs\<lparr>ris_acks := acks\<rparr>)\<rparr>, acks))"

text \<open>The search loop of \<open>advance\<close>: the statuses up to the context, and whether it was
  found.\<close>

fun advance_loop :: "(string \<Rightarrow> readIndexStatus option) \<Rightarrow> string \<Rightarrow> string list \<Rightarrow> (readIndexStatus list \<times> bool) res" where
  "advance_loop pending ctx [] = Inr ([], False)"
| "advance_loop pending ctx (okctx # q) =
     (case pending okctx of
        None \<Rightarrow> Inl (Panic ''cannot find corresponding read state from pending map'')
      | Some rs \<Rightarrow>
          if okctx = ctx then Inr ([rs], True)
          else bindR (advance_loop pending ctx q) (\<lambda>(rss, found). Inr (rs # rss, found)))"

definition erase_requests :: "readIndexStatus list \<Rightarrow> (string \<Rightarrow> readIndexStatus option) \<Rightarrow> (string \<Rightarrow> readIndexStatus option) res" where
  "erase_requests rss pending =
     foldR (\<lambda>rs p. bindR (at_ix (m_entries (ris_req rs)) 0) (\<lambda>e. Inr (p(e_data e := None)))) rss pending"

definition ReadOnly_advance :: "ReadOnly \<Rightarrow> message \<Rightarrow> (ReadOnly \<times> readIndexStatus list) res" where
  "ReadOnly_advance ro m =
     bindR (advance_loop (ro_pendingReadIndex ro) (m_context m) (ro_readIndexQueue ro)) (\<lambda>(rss, found).
       if found
       then bindR (erase_requests rss (ro_pendingReadIndex ro)) (\<lambda>p.
              Inr (ro\<lparr>ro_readIndexQueue := drop (length rss) (ro_readIndexQueue ro), ro_pendingReadIndex := p\<rparr>, rss))
       else Inr (ro, []))"

definition ReadOnly_lastPendingRequestCtx :: "ReadOnly \<Rightarrow> string" where
  "ReadOnly_lastPendingRequestCtx ro =
     (if ro_readIndexQueue ro = [] then '''' else last (ro_readIndexQueue ro))"

section \<open>The invariant\<close>

text \<open>
  The queue lists every pending context exactly once, and each status records the request
  it is filed under.
\<close>

definition readonly_wf :: "ReadOnly \<Rightarrow> bool" where
  "readonly_wf ro \<longleftrightarrow>
     distinct (ro_readIndexQueue ro) \<and> dom (ro_pendingReadIndex ro) = set (ro_readIndexQueue ro) \<and>
     (\<forall>s rs. ro_pendingReadIndex ro s = Some rs \<longrightarrow>
        m_entries (ris_req rs) \<noteq> [] \<and> e_data (m_entries (ris_req rs) ! 0) = s)"

lemma newReadOnly_wf [simp]: "readonly_wf (newReadOnly opt)"
  by (simp add: readonly_wf_def newReadOnly_def)

lemma addRequest_wf:
  assumes "readonly_wf ro" "m_entries m \<noteq> []"
  shows "returns (ReadOnly_addRequest ro index m) (\<lambda>ro'. readonly_wf ro' \<and>
    (\<exists>rs. ro_pendingReadIndex ro' (e_data (m_entries m ! 0)) = Some rs))"
proof -
  let ?s = "e_data (m_entries m ! 0)"
  show ?thesis
  proof (cases "ro_pendingReadIndex ro ?s")
    case None
    then have "?s \<notin> set (ro_readIndexQueue ro)" using assms(1) by (auto simp: readonly_wf_def)
    then show ?thesis
      using None assms by (auto simp: ReadOnly_addRequest_def readonly_wf_def Let_def)
  next
    case (Some rs)
    then show ?thesis using assms by (simp add: ReadOnly_addRequest_def Let_def)
  qed
qed

lemma recvAck_wf: "readonly_wf ro \<Longrightarrow> readonly_wf (fst (ReadOnly_recvAck ro i ctx))"
  by (auto simp: ReadOnly_recvAck_def readonly_wf_def Let_def split: option.splits)

lemma advance_loop_eq:
  assumes "set q \<subseteq> dom pending" "distinct q"
  shows "advance_loop pending ctx q =
    Inr (if ctx \<in> set q then map (the \<circ> pending) (takeWhile (\<lambda>s. s \<noteq> ctx) q @ [ctx])
         else map (the \<circ> pending) q, ctx \<in> set q)"
  using assms by (induction q) (auto split: option.splits)

lemma erase_requests_eq:
  assumes "\<And>rs. rs \<in> set rss \<Longrightarrow> m_entries (ris_req rs) \<noteq> []"
  shows "erase_requests rss pending =
    Inr (\<lambda>s. if s \<in> (\<lambda>rs. e_data (m_entries (ris_req rs) ! 0)) ` set rss then None else pending s)"
  using assms
proof (induction rss arbitrary: pending)
  case Nil
  then show ?case by (simp add: erase_requests_def)
next
  case (Cons rs rss)
  let ?p = "pending(e_data (m_entries (ris_req rs) ! 0) := None)"
  have "erase_requests (rs # rss) pending = erase_requests rss ?p"
    using Cons.prems by (simp add: erase_requests_def)
  also have "\<dots> = Inr (\<lambda>s. if s \<in> (\<lambda>rs. e_data (m_entries (ris_req rs) ! 0)) ` set rss then None else ?p s)"
    using Cons by simp
  finally show ?case by (auto simp: fun_eq_iff)
qed

section \<open>Properties\<close>

text \<open>
  C19: \<open>advance\<close> serves the requests in order of arrival. If the context of the message is
  pending, the requests up to and including it are returned, oldest first, and exactly they
  leave the queue and the map; otherwise nothing changes. The invariant that queue and map
  describe the same requests is kept, and the fatal branch is never taken.
\<close>

theorem advance_fifo:
  fixes ro :: ReadOnly and m :: message
  assumes "readonly_wf ro"
  defines "served \<equiv> (if m_context m \<in> set (ro_readIndexQueue ro)
      then takeWhile (\<lambda>s. s \<noteq> m_context m) (ro_readIndexQueue ro) @ [m_context m] else [])"
  shows "returns (ReadOnly_advance ro m) (\<lambda>(ro', rss). readonly_wf ro' \<and>
    rss = map (the \<circ> ro_pendingReadIndex ro) served \<and>
    ro_readIndexQueue ro = served @ ro_readIndexQueue ro' \<and>
    ro_pendingReadIndex ro' = ro_pendingReadIndex ro |` (- set served) \<and> ro_option ro' = ro_option ro)"
proof (cases "m_context m \<in> set (ro_readIndexQueue ro)")
  case False
  then show ?thesis
    using assms(1) by (auto simp: ReadOnly_advance_def advance_loop_eq readonly_wf_def served_def)
next
  case True
  let ?q = "ro_readIndexQueue ro" and ?p = "ro_pendingReadIndex ro"
  obtain ys rest where q: "?q = ys @ m_context m # rest" "m_context m \<notin> set ys"
    using split_list_first [OF True] by blast
  then have "takeWhile (\<lambda>s. s \<noteq> m_context m) ?q = ys"
    by (metis (mono_tags, lifting) append_Nil2 takeWhile.simps(2) takeWhile_append2)
  then have served: "served = ys @ [m_context m]" "served = takeWhile (\<lambda>s. s \<noteq> m_context m) ?q @ [m_context m]"
    using True by (simp_all add: served_def)
  have wf: "distinct ?q" "dom ?p = set ?q"
      "\<And>s rs. ?p s = Some rs \<Longrightarrow> m_entries (ris_req rs) \<noteq> [] \<and> e_data (m_entries (ris_req rs) ! 0) = s"
    using assms(1) by (auto simp: readonly_wf_def)
  have split: "?q = served @ rest" by (simp add: q served(1))
  then have sub: "set served \<subseteq> set ?q" by simp
  have key: "(\<lambda>rs. e_data (m_entries (ris_req rs) ! 0)) ((the \<circ> ?p) s) = s \<and> m_entries (ris_req ((the \<circ> ?p) s)) \<noteq> []"
    if "s \<in> set ?q" for s
    using that wf(2,3) by (metis (no_types, lifting) comp_apply domIff option.collapse)
  then have img: "(\<lambda>rs. e_data (m_entries (ris_req rs) ! 0)) ` set (map (the \<circ> ?p) served) = set served"
    using sub by (force simp: image_image)
  have loop: "advance_loop ?p (m_context m) ?q = Inr (map (the \<circ> ?p) served, True)"
    using advance_loop_eq [of ?q ?p "m_context m"] wf(1,2) True by (simp add: served(2))
  have "\<And>rs. rs \<in> set (map (the \<circ> ?p) served) \<Longrightarrow> m_entries (ris_req rs) \<noteq> []"
    using key sub by auto
  from erase_requests_eq [of "map (the \<circ> ?p) served" ?p, OF this]
  have "erase_requests (map (the \<circ> ?p) served) ?p = Inr (\<lambda>s. if s \<in> set served then None else ?p s)"
    unfolding img by simp
  moreover have "(\<lambda>s. if s \<in> set served then None else ?p s) = ?p |` (- set served)"
    by (auto simp: restrict_map_def)
  ultimately have "erase_requests (map (the \<circ> ?p) served) ?p = Inr (?p |` (- set served))" by simp
  then have R: "ReadOnly_advance ro m = Inr (ro\<lparr>ro_readIndexQueue := rest,
      ro_pendingReadIndex := ?p |` (- set served)\<rparr>, map (the \<circ> ?p) served)"
    using loop by (simp add: ReadOnly_advance_def split)
  have "distinct rest" "set rest = set ?q - set served"
    using wf(1) unfolding split by auto
  then have "readonly_wf (ro\<lparr>ro_readIndexQueue := rest, ro_pendingReadIndex := ?p |` (- set served)\<rparr>)"
    using wf(2,3) by (simp add: readonly_wf_def Diff_eq) (simp add: restrict_map_def)
  then show ?thesis using R split by simp
qed

definition read_example :: "string \<Rightarrow> message" where
  "read_example ctx = Message0\<lparr>m_type := MsgReadIndex, m_context := ctx, m_entries := [Entry0\<lparr>e_data := ctx\<rparr>]\<rparr>"

definition readonly_example :: ReadOnly where
  "readonly_example = \<lparr>ro_option = ReadOnlySafe,
     ro_pendingReadIndex = [''a'' \<mapsto> \<lparr>ris_req = read_example ''a'', ris_index = 3, ris_acks = (\<lambda>_. None)\<rparr>,
       ''b'' \<mapsto> \<lparr>ris_req = read_example ''b'', ris_index = 4, ris_acks = (\<lambda>_. None)\<rparr>],
     ro_readIndexQueue = [''a'', ''b'']\<rparr>"

lemma readonly_example_wf: "readonly_wf readonly_example"
  by (auto simp: readonly_wf_def readonly_example_def read_example_def)

theorem advance_fifo_witness:
  "returns (ReadOnly_advance readonly_example (read_example ''b'')) (\<lambda>(ro', rss).
     map ris_index rss = [3, 4] \<and> ro_readIndexQueue ro' = [])"
  using advance_fifo [OF readonly_example_wf, of "read_example ''b''"]
  by (auto simp: readonly_example_def read_example_def returns_def split: sum.splits)

end
