(* ===== verification/Raft.thy ===== *)
theory Raft
  imports LogProps ConfRestore ReadOnly
begin

text \<open>
  The node of \<open>src/etcd_raft/raft.h\<close>, first half: the state, sending of messages, the log
  and configuration helpers and the state transitions. The message handlers and \<open>Step\<close> are
  in the theory \<open>RaftStep\<close>.

  The function pointers \<open>step_\<close> and \<open>tick_\<close> are set together with \<open>state_\<close> in the four
  \<open>become\<close> operations and nowhere else, so the model reads them off \<open>r_state\<close>. A reference
  into the progress map (\<open>auto& pr\<close>) is a lookup at each use. The \<open>k\<close>-th call of \<open>random\<close>
  is \<open>env_random E k\<close>; \<open>r_draws\<close> counts the calls. Tick counters are \<open>int\<close>: their 64-bit
  overflow needs \<open>2 ^ 63\<close> ticks without an election and is not modelled. The arguments of
  log messages (\<open>lastTerm()\<close> in several of them) are not evaluated; they read the log only,
  and fail only when the storage breaks its contract.
\<close>

section \<open>The state\<close>

datatype StateType = StateFollower | StateCandidate | StateLeader | StatePreCandidate

record SoftState =
  ss_lead :: u64
  ss_raftState :: StateType

definition campaignPreElection :: string where
  "campaignPreElection = ''CampaignPreElection''"

definition campaignElection :: string where
  "campaignElection = ''CampaignElection''"

definition campaignTransfer :: string where
  "campaignTransfer = ''CampaignTransfer''"

definition ErrProposalDropped :: error where
  "ErrProposalDropped = UnknownErr ''raft proposal dropped''"

record RaftConfig =
  rc_id :: u64
  rc_electionTick :: int
  rc_heartbeatTick :: int
  rc_storage :: "storage option"
  rc_applied :: u64
  rc_AsyncStorageWrites :: bool
  rc_maxSizePerMsg :: u64
  rc_maxCommittedSizePerReady :: u64
  rc_maxUncommittedEntriesSize :: u64
  rc_maxInflightMsgs :: int
  rc_maxInflightBytes :: u64
  rc_checkQuorum :: bool
  rc_preVote :: bool
  rc_readOnlyOption :: ReadOnlyOption
  rc_disableProposalForwarding :: bool
  rc_disableConfChangeValidation :: bool
  rc_stepDownOnRemoval :: bool

definition RaftConfig_validate :: "RaftConfig \<Rightarrow> RaftConfig \<times> error" where
  "RaftConfig_validate c =
     (if rc_id c = NoneId then (c, UnknownErr ''cannot use none as id'')
      else if IsLocalMsgTarget (rc_id c) then (c, UnknownErr ''cannot use local target as id'')
      else if rc_heartbeatTick c \<le> 0 then (c, UnknownErr ''heartbeat tick must be greater than 0'')
      else if rc_electionTick c \<le> rc_heartbeatTick c
        then (c, UnknownErr ''election tick must be greater than heartbeat tick'')
      else if rc_storage c = None then (c, UnknownErr ''storage cannot be nil'')
      else
        let c1 = (if rc_maxUncommittedEntriesSize c = 0 then c\<lparr>rc_maxUncommittedEntriesSize := noLimit\<rparr> else c);
            c2 = (if rc_maxCommittedSizePerReady c1 = 0
                  then c1\<lparr>rc_maxCommittedSizePerReady := rc_maxSizePerMsg c1\<rparr> else c1)
        in if rc_maxInflightMsgs c2 \<le> 0 then (c2, UnknownErr ''max inflight messages must be greater than 0'')
           else if rc_maxInflightBytes c2 \<noteq> 0 \<and> rc_maxInflightBytes c2 < rc_maxSizePerMsg c2
             then (c2, UnknownErr ''max inflight bytes must be >= max message size'')
           else
             let c3 = (if rc_maxInflightBytes c2 = 0 then c2\<lparr>rc_maxInflightBytes := noLimit\<rparr> else c2)
             in if rc_readOnlyOption c3 = ReadOnlyLeaseBased \<and> \<not> rc_checkQuorum c3
                then (c3, UnknownErr ''CheckQuorum must be enabled when ReadOnlyOption is ReadOnlyLeaseBased'')
                else (c3, Ok))"

record raft =
  r_id :: u64
  r_term :: u64
  r_vote :: u64
  r_readStates :: "ReadState list"
  r_raftLog :: RaftLog
  r_maxMsgSize :: u64
  r_maxUncommittedSize :: u64
  r_trk :: ProgressTracker
  r_state :: StateType
  r_isLearner :: bool
  r_msgs :: "message list"
  r_msgsAfterAppend :: "message list"
  r_lead :: u64
  r_leadTransferee :: u64
  r_pendingConfIndex :: u64
  r_disableConfChangeValidation :: bool
  r_uncommittedSize :: u64
  r_readOnly :: ReadOnly
  r_electionElapsed :: int
  r_heartbeatElapsed :: int
  r_checkQuorum :: bool
  r_preVote :: bool
  r_heartbeatTimeout :: int
  r_electionTimeout :: int
  r_randomizedElectionTimeout :: int
  r_disableProposalForwarding :: bool
  r_stepDownOnRemoval :: bool
  r_pendingReadIndexMessages :: "message list"
  r_draws :: nat

definition raft_hasLeader :: "raft \<Rightarrow> bool" where
  "raft_hasLeader r = (r_lead r \<noteq> NoneId)"

definition raft_softState :: "raft \<Rightarrow> SoftState" where
  "raft_softState r = \<lparr>ss_lead = r_lead r, ss_raftState = r_state r\<rparr>"

definition raft_hardState :: "raft \<Rightarrow> HardState" where
  "raft_hardState r = \<lparr>hs_term = r_term r, hs_vote = r_vote r, hs_commit = l_committed (r_raftLog r)\<rparr>"

text \<open>\<open>trk_.progress_[id]\<close> and the write through the reference it returns.\<close>

definition raft_pr :: "raft \<Rightarrow> u64 \<Rightarrow> Progress res" where
  "raft_pr r i = ProgressMap_at (trk_progress (r_trk r)) i"

definition set_pr :: "raft \<Rightarrow> u64 \<Rightarrow> Progress \<Rightarrow> raft" where
  "set_pr r i p = r\<lparr>r_trk := (r_trk r)\<lparr>trk_progress := (trk_progress (r_trk r))(i \<mapsto> p)\<rparr>\<rparr>"

text \<open>\<open>trk_.Visit(f)\<close> for a callback that works on the node.\<close>

definition raft_visit :: "(u64 \<Rightarrow> raft \<Rightarrow> raft res) \<Rightarrow> raft \<Rightarrow> raft res" where
  "raft_visit f r = foldR f (ProgressTracker_Visit (r_trk r)) r"

section \<open>Sending\<close>

definition is_vote_msg :: "MessageType \<Rightarrow> bool" where
  "is_vote_msg t = (t = MsgVote \<or> t = MsgVoteResp \<or> t = MsgPreVote \<or> t = MsgPreVoteResp)"

definition raft_send :: "raft \<Rightarrow> message \<Rightarrow> raft res" where
  "raft_send r m0 =
     (let m1 = (if m_from m0 = NoneId then m0\<lparr>m_from := r_id r\<rparr> else m0) in
      bindR (if is_vote_msg (m_type m1)
             then if m_term m1 = 0 then Inl (Panic ''term should be set'') else Inr m1
             else if m_term m1 \<noteq> 0 then Inl (Panic ''term should not be set'')
             else Inr (if m_type m1 \<noteq> MsgProp \<and> m_type m1 \<noteq> MsgReadIndex
                       then m1\<lparr>m_term := r_term r\<rparr> else m1)) (\<lambda>m.
        if m_type m = MsgAppResp \<or> m_type m = MsgVoteResp \<or> m_type m = MsgPreVoteResp
        then Inr (r\<lparr>r_msgsAfterAppend := r_msgsAfterAppend r @ [m]\<rparr>)
        else if m_to m = r_id r then Inl (Panic ''message should not be self-addressed'')
        else Inr (r\<lparr>r_msgs := r_msgs r @ [m]\<rparr>)))"

text \<open>The branch of \<open>maybeSendAppend\<close> that falls back to a snapshot.\<close>

definition raft_sendSnapshot :: "raft \<Rightarrow> u64 \<Rightarrow> Progress \<Rightarrow> (raft \<times> bool) res" where
  "raft_sendSnapshot r dest pr =
     (if \<not> pr_recentActive pr then Inr (r, False)
      else bindR (RaftLog_snapshot (r_raftLog r)) (\<lambda>(sn, err).
        if err \<noteq> Ok
        then if error_eq err ErrSnapshotTemporarilyUnavailable then Inr (r, False)
             else Inl (Panic (error_msg err))
        else if IsEmptySnap sn then Inl (Panic ''need non-empty snapshot'')
        else bindR (raft_send (set_pr r dest (Progress_BecomeSnapshot pr (sn_index sn)))
                      (Message0\<lparr>m_to := dest, m_type := MsgSnap, m_snapshot := sn\<rparr>)) (\<lambda>r'. Inr (r', True))))"

definition raft_maybeSendAppend :: "env \<Rightarrow> raft \<Rightarrow> u64 \<Rightarrow> bool \<Rightarrow> (raft \<times> bool) res" where
  "raft_maybeSendAppend E r dest sendIfEmpty =
     bindR (raft_pr r dest) (\<lambda>pr.
       if Progress_IsPaused pr then Inr (r, False)
       else let lastIndex = sub64 (pr_next pr) 1; nextIndex = pr_next pr in
         bindR (RaftLog_term (r_raftLog r) lastIndex) (\<lambda>(lastTerm, errt).
         bindR (if pr_state pr \<noteq> StateReplicate \<or> \<not> Inflights_Full (pr_inflights pr)
                then RaftLog_entries E (r_raftLog r) nextIndex (r_maxMsgSize r)
                else Inr ([], Ok)) (\<lambda>(ents, erre).
           if ents = [] \<and> \<not> sendIfEmpty then Inr (r, False)
           else if errt \<noteq> Ok \<or> erre \<noteq> Ok then raft_sendSnapshot r dest pr
           else bindR (Progress_UpdateOnEntriesSend pr (to_int32 (length ents)) (payloadsSize ents) nextIndex)
             (\<lambda>(pr', err).
               if err \<noteq> Ok then Inl (Panic (error_msg err))
               else bindR (raft_send (set_pr r dest pr')
                      (Message0\<lparr>m_to := dest, m_type := MsgApp, m_index := lastIndex, m_logterm := lastTerm,
                        m_entries := ents, m_commit := l_committed (r_raftLog r)\<rparr>)) (\<lambda>r'.
                 Inr (r', True))))))"

definition raft_sendAppend :: "env \<Rightarrow> raft \<Rightarrow> u64 \<Rightarrow> raft res" where
  "raft_sendAppend E r dest = bindR (raft_maybeSendAppend E r dest True) (\<lambda>(r', _). Inr r')"

definition raft_sendHeartbeat :: "raft \<Rightarrow> u64 \<Rightarrow> string \<Rightarrow> raft res" where
  "raft_sendHeartbeat r dest ctx =
     bindR (raft_pr r dest) (\<lambda>pr.
       raft_send r (Message0\<lparr>m_to := dest, m_type := MsgHeartbeat,
         m_commit := min (pr_match pr) (l_committed (r_raftLog r)), m_context := ctx\<rparr>))"

definition raft_bcastAppend :: "env \<Rightarrow> raft \<Rightarrow> raft res" where
  "raft_bcastAppend E r = raft_visit (\<lambda>i r. if i = r_id r then Inr r else raft_sendAppend E r i) r"

definition raft_bcastHeartbeatWithCtx :: "raft \<Rightarrow> string \<Rightarrow> raft res" where
  "raft_bcastHeartbeatWithCtx r ctx =
     raft_visit (\<lambda>i r. if i = r_id r then Inr r else raft_sendHeartbeat r i ctx) r"

definition raft_bcastHeartbeat :: "raft \<Rightarrow> raft res" where
  "raft_bcastHeartbeat r = raft_bcastHeartbeatWithCtx r (ReadOnly_lastPendingRequestCtx (r_readOnly r))"

definition raft_sendTimeoutNow :: "raft \<Rightarrow> u64 \<Rightarrow> raft res" where
  "raft_sendTimeoutNow r dest = raft_send r (Message0\<lparr>m_to := dest, m_type := MsgTimeoutNow\<rparr>)"

section \<open>The log and the election timer\<close>

definition raft_maybeCommit :: "raft \<Rightarrow> (raft \<times> bool) res" where
  "raft_maybeCommit r =
     bindR (RaftLog_maybeCommit (r_raftLog r) (ProgressTracker_Committed (r_trk r)) (r_term r)) (\<lambda>(l, b).
       Inr (r\<lparr>r_raftLog := l\<rparr>, b))"

definition raft_resetRandomizedElectionTimeout :: "env \<Rightarrow> raft \<Rightarrow> raft" where
  "raft_resetRandomizedElectionTimeout E r =
     r\<lparr>r_randomizedElectionTimeout := r_electionTimeout r + env_random E (r_draws r) (r_electionTimeout r),
       r_draws := Suc (r_draws r)\<rparr>"

definition raft_pastElectionTimeout :: "raft \<Rightarrow> bool" where
  "raft_pastElectionTimeout r = (r_randomizedElectionTimeout r \<le> r_electionElapsed r)"

definition raft_abortLeaderTransfer :: "raft \<Rightarrow> raft" where
  "raft_abortLeaderTransfer r = r\<lparr>r_leadTransferee := NoneId\<rparr>"

text \<open>The callback of \<open>reset\<close>: a fresh progress for every peer.\<close>

definition reset_progress :: "u64 \<Rightarrow> raft \<Rightarrow> raft res" where
  "reset_progress i r =
     bindR (raft_pr r i) (\<lambda>pr.
     bindR (RaftLog_lastIndex (r_raftLog r)) (\<lambda>li.
       Inr (set_pr r i
         \<lparr>pr_match = (if i = r_id r then li else 0), pr_next = add64 li 1, pr_state = StateProbe,
          pr_pendingSnapshot = 0, pr_recentActive = False, pr_msgAppFlowPaused = False,
          pr_inflights = NewInflights (trk_maxInflight (r_trk r)) (trk_maxInflightBytes (r_trk r)),
          pr_isLearner = pr_isLearner pr\<rparr>)))"

definition raft_reset :: "env \<Rightarrow> raft \<Rightarrow> u64 \<Rightarrow> raft res" where
  "raft_reset E r te =
     (let r1 = (if r_term r \<noteq> te then r\<lparr>r_term := te, r_vote := NoneId\<rparr> else r);
          r2 = raft_abortLeaderTransfer (raft_resetRandomizedElectionTimeout E
                 (r1\<lparr>r_lead := NoneId, r_electionElapsed := 0, r_heartbeatElapsed := 0\<rparr>));
          r3 = r2\<lparr>r_trk := ProgressTracker_ResetVotes (r_trk r2)\<rparr>
      in bindR (raft_visit reset_progress r3) (\<lambda>r4.
           Inr (r4\<lparr>r_pendingConfIndex := 0, r_uncommittedSize := 0,
                   r_readOnly := newReadOnly (ro_option (r_readOnly r4))\<rparr>)))"

definition raft_increaseUncommittedSize :: "raft \<Rightarrow> entry list \<Rightarrow> raft \<times> bool" where
  "raft_increaseUncommittedSize r ents =
     (let s = payloadsSize ents in
      if 0 < r_uncommittedSize r \<and> 0 < s \<and> r_maxUncommittedSize r < add64 (r_uncommittedSize r) s
      then (r, False)
      else (r\<lparr>r_uncommittedSize := add64 (r_uncommittedSize r) s\<rparr>, True))"

definition raft_reduceUncommittedSize :: "raft \<Rightarrow> u64 \<Rightarrow> raft" where
  "raft_reduceUncommittedSize r s =
     (if r_uncommittedSize r < s then r\<lparr>r_uncommittedSize := 0\<rparr>
      else r\<lparr>r_uncommittedSize := r_uncommittedSize r - s\<rparr>)"

text \<open>The loop of \<open>appendEntry\<close> that stamps the proposed entries.\<close>

fun stamp_entries :: "u64 \<Rightarrow> u64 \<Rightarrow> entry list \<Rightarrow> entry list" where
  "stamp_entries te i [] = []"
| "stamp_entries te i (e # es) = e\<lparr>e_term := te, e_index := i\<rparr> # stamp_entries te (add64 i 1) es"

definition raft_appendEntry :: "raft \<Rightarrow> entry list \<Rightarrow> (raft \<times> bool) res" where
  "raft_appendEntry r es0 =
     bindR (RaftLog_lastIndex (r_raftLog r)) (\<lambda>li.
       let es = stamp_entries (r_term r) (add64 li 1) es0 in
       case raft_increaseUncommittedSize r es of (r1, ok) \<Rightarrow>
         if \<not> ok then Inr (r1, False)
         else bindR (RaftLog_append (r_raftLog r1) es) (\<lambda>(l, li').
           bindR (raft_send (r1\<lparr>r_raftLog := l\<rparr>)
                    (Message0\<lparr>m_to := r_id r, m_type := MsgAppResp, m_index := li'\<rparr>)) (\<lambda>r2.
             Inr (r2, True))))"

definition raft_promotable :: "raft \<Rightarrow> bool" where
  "raft_promotable r =
     (case trk_progress (r_trk r) (r_id r) of
        None \<Rightarrow> False
      | Some pr \<Rightarrow> \<not> pr_isLearner pr \<and> \<not> RaftLog_hasNextOrInProgressSnapshot (r_raftLog r))"

definition raft_committedEntryInCurrentTerm :: "raft \<Rightarrow> bool res" where
  "raft_committedEntryInCurrentTerm r =
     bindR (RaftLog_term (r_raftLog r) (l_committed (r_raftLog r))) (\<lambda>tt.
     bindR (RaftLog_zeroTermOnOutOfBounds tt) (\<lambda>t. Inr (t = r_term r)))"

definition raft_loadState :: "raft \<Rightarrow> HardState \<Rightarrow> raft res" where
  "raft_loadState r hs =
     (if hs_commit hs < l_committed (r_raftLog r) then Inl (Panic ''state.commit is out of range'')
      else bindR (RaftLog_lastIndex (r_raftLog r)) (\<lambda>li.
        if li < hs_commit hs then Inl (Panic ''state.commit is out of range'')
        else Inr (r\<lparr>r_raftLog := (r_raftLog r)\<lparr>l_committed := hs_commit hs\<rparr>,
                    r_term := hs_term hs, r_vote := hs_vote hs\<rparr>)))"

section \<open>State transitions\<close>

definition raft_becomeFollower :: "env \<Rightarrow> raft \<Rightarrow> u64 \<Rightarrow> u64 \<Rightarrow> raft res" where
  "raft_becomeFollower E r te lead =
     bindR (raft_reset E r te) (\<lambda>r'. Inr (r'\<lparr>r_lead := lead, r_state := StateFollower\<rparr>))"

definition raft_becomeCandidate :: "env \<Rightarrow> raft \<Rightarrow> raft res" where
  "raft_becomeCandidate E r =
     (if r_state r = StateLeader then Inl (Panic ''invalid transition [leader -> candidate]'')
      else bindR (raft_reset E r (add64 (r_term r) 1)) (\<lambda>r'.
        Inr (r'\<lparr>r_vote := r_id r', r_state := StateCandidate\<rparr>)))"

definition raft_becomePreCandidate :: "raft \<Rightarrow> raft res" where
  "raft_becomePreCandidate r =
     (if r_state r = StateLeader then Inl (Panic ''invalid transition [leader -> pre-candidate]'')
      else Inr (r\<lparr>r_trk := ProgressTracker_ResetVotes (r_trk r), r_lead := NoneId, r_state := StatePreCandidate\<rparr>))"

definition raft_becomeLeader :: "env \<Rightarrow> raft \<Rightarrow> raft res" where
  "raft_becomeLeader E r =
     (if r_state r = StateFollower then Inl (Panic ''invalid transition [follower -> leader]'')
      else bindR (raft_reset E r (r_term r)) (\<lambda>r0.
        let r1 = r0\<lparr>r_lead := r_id r0, r_state := StateLeader\<rparr> in
        bindR (raft_pr r1 (r_id r1)) (\<lambda>pr.
        let r2 = set_pr r1 (r_id r1) ((Progress_BecomeReplicate pr)\<lparr>pr_recentActive := True\<rparr>) in
        bindR (RaftLog_lastIndex (r_raftLog r2)) (\<lambda>li.
        bindR (raft_appendEntry (r2\<lparr>r_pendingConfIndex := li\<rparr>) [Entry0]) (\<lambda>(r3, ok).
          if \<not> ok then Inl (Panic ''empty entry was dropped'') else Inr r3)))))"

end
