(* ===== verification/RaftStep.thy ===== *)
theory RaftStep
  imports Raft
begin

text \<open>
  The node of \<open>src/etcd_raft/raft.h\<close>, second half: configuration switches, read requests,
  campaigns, the message handlers of the three roles, \<open>Step\<close>, the ticks and \<open>newRaft\<close>.
  Each handler of \<open>stepLeader\<close> is a definition of its own, and \<open>stepLeader\<close> dispatches as
  the two \<open>switch\<close> statements do.

  \<open>appliedTo\<close> proposes the entry that leaves a joint configuration by calling \<open>Step\<close> from
  within \<open>Step\<close>. The proposal is a \<open>MsgProp\<close> without a term and the node is the leader, so
  the inner call is the \<open>MsgProp\<close> handler; the definition calls that handler, and
  \<open>appliedTo_proposes_by_Step\<close> shows that this is \<open>Step\<close>.

  The loop \<open>while (r.maybeSendAppend(...))\<close> has fuel; the theory \<open>SendLoop\<close> shows that it is
  never used up.
\<close>

section \<open>Configuration switches\<close>

definition raft_visitMaybeSendAppend :: "env \<Rightarrow> raft \<Rightarrow> raft res" where
  "raft_visitMaybeSendAppend E r =
     raft_visit (\<lambda>i r. if i = r_id r then Inr r
                       else bindR (raft_maybeSendAppend E r i False) (\<lambda>(r', _). Inr r')) r"

definition raft_switchToConfig :: "env \<Rightarrow> raft \<Rightarrow> Config \<Rightarrow> ProgressMap \<Rightarrow> (raft \<times> ConfState) res" where
  "raft_switchToConfig E r0 cfg prs =
     (let r1 = r0\<lparr>r_trk := (r_trk r0)\<lparr>trk_config := cfg, trk_progress := prs\<rparr>\<rparr>;
          cs = ProgressTracker_ConfState (r_trk r1);
          own = trk_progress (r_trk r1) (r_id r1);
          r = r1\<lparr>r_isLearner := (case own of None \<Rightarrow> False | Some pr \<Rightarrow> pr_isLearner pr)\<rparr>
      in if (own = None \<or> r_isLearner r) \<and> r_state r = StateLeader
         then if r_stepDownOnRemoval r
              then bindR (raft_becomeFollower E r (r_term r) NoneId) (\<lambda>r'. Inr (r', cs))
              else Inr (r, cs)
         else if r_state r \<noteq> StateLeader \<or> cs_voters cs = [] then Inr (r, cs)
         else bindR (raft_maybeCommit r) (\<lambda>(r2, advanced).
           bindR (if advanced then raft_bcastAppend E r2 else raft_visitMaybeSendAppend E r2) (\<lambda>r3.
             Inr (if r_leadTransferee r3 \<notin> JointConfig_IDs (cfg_voters (trk_config (r_trk r3))) \<and>
                     r_leadTransferee r3 \<noteq> 0
                  then raft_abortLeaderTransfer r3 else r3, cs))))"

definition raft_applyConfChange :: "env \<Rightarrow> raft \<Rightarrow> ConfChangeV2 \<Rightarrow> (raft \<times> ConfState) res" where
  "raft_applyConfChange E r cc =
     bindR (RaftLog_lastIndex (r_raftLog r)) (\<lambda>li.
       let changer = \<lparr>chg_tracker = r_trk r, chg_lastIndex = li\<rparr> in
       bindR (if ConfChangeV2_LeaveJoint cc then Changer_LeaveJoint changer
              else bindR (ConfChangeV2_EnterJoint cc) (\<lambda>(autoLeave, ok).
                     if ok then Changer_EnterJoint changer autoLeave (v2_changes cc)
                     else Changer_Simple changer (v2_changes cc))) (\<lambda>(cfg, prs, err).
         if err \<noteq> Ok then Inl (Panic (error_msg err)) else raft_switchToConfig E r cfg prs))"

text \<open>\<open>raft::restore\<close>: the part that replaces the log, and the checks before it.\<close>

definition raft_installSnapshot :: "env \<Rightarrow> raft \<Rightarrow> snapshot \<Rightarrow> raft res" where
  "raft_installSnapshot E r s =
     (let cs = sm_conf_state (sn_metadata s);
          r1 = r\<lparr>r_raftLog := RaftLog_restore (r_raftLog r) s,
                 r_trk := MakeProgressTracker (trk_maxInflight (r_trk r)) (trk_maxInflightBytes (r_trk r))\<rparr>
      in bindR (RaftLog_lastIndex (r_raftLog r1)) (\<lambda>li.
         bindR (Restore \<lparr>chg_tracker = r_trk r1, chg_lastIndex = li\<rparr> cs) (\<lambda>(cfg, prs, err).
           if err \<noteq> Ok then Inl (Panic ''unable to restore config'')
           else bindR (raft_switchToConfig E r1 cfg prs) (\<lambda>(r2, cs2).
             if Equivalent cs cs2 \<noteq> Ok then Inl (Panic (error_msg (Equivalent cs cs2)))
             else bindR (raft_pr r2 (r_id r2)) (\<lambda>pr.
               Inr (set_pr r2 (r_id r2) (fst (Progress_MaybeUpdate pr (sub64 (pr_next pr) 1)))))))))"

definition raft_restore :: "env \<Rightarrow> raft \<Rightarrow> snapshot \<Rightarrow> (raft \<times> bool) res" where
  "raft_restore E r s =
     (let cs = sm_conf_state (sn_metadata s) in
      if sn_index s \<le> l_committed (r_raftLog r) then Inr (r, False)
      else if r_state r \<noteq> StateFollower
        then bindR (raft_becomeFollower E r (add64 (r_term r) 1) NoneId) (\<lambda>r'. Inr (r', False))
      else if r_id r \<notin> set (cs_voters cs) \<union> set (cs_learners cs) \<union> set (cs_voters_outgoing cs)
        then Inr (r, False)
      else bindR (RaftLog_matchTerm (r_raftLog r) (sn_index s) (sn_term s)) (\<lambda>matched.
        if matched
        then bindR (RaftLog_commitTo (r_raftLog r) (sn_index s)) (\<lambda>l. Inr (r\<lparr>r_raftLog := l\<rparr>, False))
        else bindR (raft_installSnapshot E r s) (\<lambda>r'. Inr (r', True))))"

section \<open>Read requests\<close>

definition raft_responseToReadIndexReq :: "raft \<Rightarrow> message \<Rightarrow> u64 \<Rightarrow> (raft \<times> message) res" where
  "raft_responseToReadIndexReq r req readIndex =
     (if m_from req = NoneId \<or> m_from req = r_id r
      then bindR (at_ix (m_entries req) 0) (\<lambda>e.
        Inr (r\<lparr>r_readStates := r_readStates r @ [\<lparr>rs_index = readIndex, rs_requestCtx = e_data e\<rparr>]\<rparr>, Message0))
      else Inr (r, Message0\<lparr>m_type := MsgReadIndexResp, m_to := m_from req, m_index := readIndex,
                            m_entries := m_entries req\<rparr>))"

text \<open>\<open>auto resp = responseToReadIndexReq(...); if (resp.to() != None) send(resp)\<close>.\<close>

definition raft_answerReadIndex :: "raft \<Rightarrow> message \<Rightarrow> u64 \<Rightarrow> raft res" where
  "raft_answerReadIndex r req readIndex =
     bindR (raft_responseToReadIndexReq r req readIndex) (\<lambda>(r', resp).
       if m_to resp \<noteq> NoneId then raft_send r' resp else Inr r')"

definition sendMsgReadIndexResponse :: "raft \<Rightarrow> message \<Rightarrow> raft res" where
  "sendMsgReadIndexResponse r m =
     (case ro_option (r_readOnly r) of
        ReadOnlySafe \<Rightarrow>
          bindR (at_ix (m_entries m) 0) (\<lambda>e.
          bindR (ReadOnly_addRequest (r_readOnly r) (l_committed (r_raftLog r)) m) (\<lambda>ro.
            raft_bcastHeartbeatWithCtx
              (r\<lparr>r_readOnly := fst (ReadOnly_recvAck ro (r_id r) (e_data e))\<rparr>) (e_data e)))
      | ReadOnlyLeaseBased \<Rightarrow> raft_answerReadIndex r m (l_committed (r_raftLog r)))"

definition releasePendingReadIndexMessages :: "raft \<Rightarrow> raft res" where
  "releasePendingReadIndexMessages r =
     (if r_pendingReadIndexMessages r = [] then Inr r
      else bindR (raft_committedEntryInCurrentTerm r) (\<lambda>cur.
        if \<not> cur then Inr r
        else foldR (\<lambda>m r. sendMsgReadIndexResponse r m) (r_pendingReadIndexMessages r)
               (r\<lparr>r_pendingReadIndexMessages := []\<rparr>)))"

section \<open>Campaigns\<close>

definition raft_poll :: "raft \<Rightarrow> u64 \<Rightarrow> MessageType \<Rightarrow> bool \<Rightarrow> raft \<times> nat \<times> nat \<times> VoteResult" where
  "raft_poll r i t v =
     (let trk = ProgressTracker_RecordVote (r_trk r) i v
      in (r\<lparr>r_trk := trk\<rparr>, ProgressTracker_TallyVotes trk))"

definition errBreak :: error where
  "errBreak = UnknownErr ''break''"

definition is_conf_change :: "entry \<Rightarrow> bool" where
  "is_conf_change e = (e_type e = EntryConfChange \<or> e_type e = EntryConfChangeV2)"

definition raft_hasUnappliedConfChanges :: "env \<Rightarrow> raft \<Rightarrow> bool res" where
  "raft_hasUnappliedConfChanges E r =
     (let l = r_raftLog r in
      if l_committed l \<le> l_applied l then Inr False
      else bindR (RaftLog_scan E l (add64 (l_applied l) 1) (add64 (l_committed l) 1)
                    (to_int32 (l_maxApplyingEntsSize l))
                    (\<lambda>ents found. if \<exists>e \<in> set ents. is_conf_change e then (True, errBreak) else (found, Ok))
                    False) (\<lambda>(found, err).
        if err \<noteq> Ok \<and> error_neq err errBreak then Inl (Panic ''error scanning unapplied entries'')
        else Inr found))"

text \<open>The loop of \<open>campaign\<close> over the voters.\<close>

definition raft_requestVote :: "u64 \<Rightarrow> MessageType \<Rightarrow> string \<Rightarrow> u64 \<Rightarrow> raft \<Rightarrow> raft res" where
  "raft_requestVote te voteMsg t i r =
     (if i = r_id r
      then bindR (voteRespMsgType voteMsg) (\<lambda>resp.
             raft_send r (Message0\<lparr>m_to := i, m_term := te, m_type := resp\<rparr>))
      else bindR (RaftLog_lastIndex (r_raftLog r)) (\<lambda>li.
           bindR (RaftLog_lastTerm (r_raftLog r)) (\<lambda>lt.
             raft_send r (Message0\<lparr>m_term := te, m_to := i, m_type := voteMsg, m_index := li, m_logterm := lt,
               m_context := (if t = campaignTransfer then t else '''')\<rparr>))))"

definition raft_campaign :: "env \<Rightarrow> raft \<Rightarrow> string \<Rightarrow> raft res" where
  "raft_campaign E r t =
     bindR (if t = campaignPreElection
            then bindR (raft_becomePreCandidate r) (\<lambda>r1. Inr (r1, MsgPreVote, add64 (r_term r1) 1))
            else bindR (raft_becomeCandidate E r) (\<lambda>r1. Inr (r1, MsgVote, r_term r1))) (\<lambda>(r1, voteMsg, te).
       foldR (raft_requestVote te voteMsg t)
         (sorted_list_of_set (JointConfig_IDs (cfg_voters (trk_config (r_trk r1))))) r1)"

definition raft_hup :: "env \<Rightarrow> raft \<Rightarrow> string \<Rightarrow> raft res" where
  "raft_hup E r t =
     (if r_state r = StateLeader then Inr r
      else if \<not> raft_promotable r then Inr r
      else bindR (raft_hasUnappliedConfChanges E r) (\<lambda>pending.
        if pending then Inr r else raft_campaign E r t))"

section \<open>Handlers of a follower\<close>

definition raft_handleAppendEntries :: "raft \<Rightarrow> message \<Rightarrow> raft res" where
  "raft_handleAppendEntries r m =
     (if m_index m < l_committed (r_raftLog r)
      then raft_send r (Message0\<lparr>m_to := m_from m, m_type := MsgAppResp, m_index := l_committed (r_raftLog r)\<rparr>)
      else bindR (RaftLog_maybeAppend (r_raftLog r) (m_index m) (m_logterm m) (m_commit m) (m_entries m))
        (\<lambda>(l, mlastIndex, ok).
          let r1 = r\<lparr>r_raftLog := l\<rparr> in
          if ok
          then raft_send r1 (Message0\<lparr>m_to := m_from m, m_type := MsgAppResp, m_index := mlastIndex\<rparr>)
          else bindR (RaftLog_lastIndex l) (\<lambda>li.
               bindR (RaftLog_findConflictByTerm l (min (m_index m) li) (m_logterm m)) (\<lambda>(hintIndex, hintTerm).
                 raft_send r1 (Message0\<lparr>m_to := m_from m, m_type := MsgAppResp, m_index := m_index m,
                   m_reject := True, m_rejecthint := hintIndex, m_logterm := hintTerm\<rparr>)))))"

definition raft_handleHeartbeat :: "raft \<Rightarrow> message \<Rightarrow> raft res" where
  "raft_handleHeartbeat r m =
     bindR (RaftLog_commitTo (r_raftLog r) (m_commit m)) (\<lambda>l.
       raft_send (r\<lparr>r_raftLog := l\<rparr>)
         (Message0\<lparr>m_to := m_from m, m_type := MsgHeartbeatResp, m_context := m_context m\<rparr>))"

definition raft_handleSnapshot :: "env \<Rightarrow> raft \<Rightarrow> message \<Rightarrow> raft res" where
  "raft_handleSnapshot E r m =
     (let s = (if IsEmptySnap (m_snapshot m) then Snapshot0 else m_snapshot m) in
      bindR (raft_restore E r s) (\<lambda>(r1, ok).
        if ok
        then bindR (RaftLog_lastIndex (r_raftLog r1)) (\<lambda>li.
          raft_send r1 (Message0\<lparr>m_to := m_from m, m_type := MsgAppResp, m_index := li\<rparr>))
        else raft_send r1 (Message0\<lparr>m_to := m_from m, m_type := MsgAppResp,
                                    m_index := l_committed (r_raftLog r1)\<rparr>)))"

text \<open>A handler that reports no error.\<close>

definition ok_step :: "raft res \<Rightarrow> (raft \<times> error) res" where
  "ok_step m = bindR m (\<lambda>r. Inr (r, Ok))"

definition stepFollower :: "env \<Rightarrow> raft \<Rightarrow> message \<Rightarrow> (raft \<times> error) res" where
  "stepFollower E r m =
     (case m_type m of
        MsgProp \<Rightarrow>
          if r_lead r = NoneId then Inr (r, ErrProposalDropped)
          else if r_disableProposalForwarding r then Inr (r, ErrProposalDropped)
          else ok_step (raft_send r (m\<lparr>m_to := r_lead r\<rparr>))
      | MsgApp \<Rightarrow> ok_step (raft_handleAppendEntries (r\<lparr>r_electionElapsed := 0, r_lead := m_from m\<rparr>) m)
      | MsgHeartbeat \<Rightarrow> ok_step (raft_handleHeartbeat (r\<lparr>r_electionElapsed := 0, r_lead := m_from m\<rparr>) m)
      | MsgSnap \<Rightarrow> ok_step (raft_handleSnapshot E (r\<lparr>r_electionElapsed := 0, r_lead := m_from m\<rparr>) m)
      | MsgTransferLeader \<Rightarrow>
          if r_lead r = NoneId then Inr (r, Ok) else ok_step (raft_send r (m\<lparr>m_to := r_lead r\<rparr>))
      | MsgForgetLeader \<Rightarrow>
          Inr (if ro_option (r_readOnly r) = ReadOnlyLeaseBased then r
               else if r_lead r \<noteq> NoneId then r\<lparr>r_lead := NoneId\<rparr> else r, Ok)
      | MsgTimeoutNow \<Rightarrow> ok_step (raft_hup E r campaignTransfer)
      | MsgReadIndex \<Rightarrow>
          if r_lead r = NoneId then Inr (r, Ok) else ok_step (raft_send r (m\<lparr>m_to := r_lead r\<rparr>))
      | MsgReadIndexResp \<Rightarrow>
          (case m_entries m of
             [e] \<Rightarrow> Inr (r\<lparr>r_readStates := r_readStates r @ [\<lparr>rs_index = m_index m, rs_requestCtx = e_data e\<rparr>]\<rparr>, Ok)
           | _ \<Rightarrow> Inr (r, Ok))
      | _ \<Rightarrow> Inr (r, Ok))"

section \<open>Handlers of a candidate\<close>

definition stepCandidate_vote :: "env \<Rightarrow> raft \<Rightarrow> message \<Rightarrow> raft res" where
  "stepCandidate_vote E r m =
     (if r_state r = StatePreCandidate \<and> m_type m = MsgPreVoteResp \<or>
         r_state r \<noteq> StatePreCandidate \<and> m_type m = MsgVoteResp
      then case raft_poll r (m_from m) (m_type m) (\<not> m_reject m) of (r1, _, _, res) \<Rightarrow>
        (case res of
           VoteWon \<Rightarrow>
             if r_state r1 = StatePreCandidate then raft_campaign E r1 campaignElection
             else bindR (raft_becomeLeader E r1) (raft_bcastAppend E)
         | VoteLost \<Rightarrow> raft_becomeFollower E r1 (r_term r1) NoneId
         | VotePending \<Rightarrow> Inr r1)
      else Inr r)"

definition stepCandidate :: "env \<Rightarrow> raft \<Rightarrow> message \<Rightarrow> (raft \<times> error) res" where
  "stepCandidate E r m =
     (case m_type m of
        MsgProp \<Rightarrow> Inr (r, ErrProposalDropped)
      | MsgApp \<Rightarrow> ok_step (bindR (raft_becomeFollower E r (m_term m) (m_from m)) (\<lambda>r1. raft_handleAppendEntries r1 m))
      | MsgHeartbeat \<Rightarrow> ok_step (bindR (raft_becomeFollower E r (m_term m) (m_from m)) (\<lambda>r1. raft_handleHeartbeat r1 m))
      | MsgSnap \<Rightarrow> ok_step (bindR (raft_becomeFollower E r (m_term m) (m_from m)) (\<lambda>r1. raft_handleSnapshot E r1 m))
      | MsgPreVoteResp \<Rightarrow> ok_step (stepCandidate_vote E r m)
      | MsgVoteResp \<Rightarrow> ok_step (stepCandidate_vote E r m)
      | _ \<Rightarrow> Inr (r, Ok))"

section \<open>Handlers of a leader\<close>

definition stepLeader_MsgCheckQuorum :: "env \<Rightarrow> raft \<Rightarrow> raft res" where
  "stepLeader_MsgCheckQuorum E r =
     bindR (if ProgressTracker_QuorumActive (r_trk r) then Inr r
            else raft_becomeFollower E r (r_term r) NoneId) (\<lambda>r1.
       raft_visit (\<lambda>i r. if i \<noteq> r_id r
                         then bindR (raft_pr r i) (\<lambda>pr. Inr (set_pr r i (pr\<lparr>pr_recentActive := False\<rparr>)))
                         else Inr r) r1)"

text \<open>The change an entry proposes, if any.\<close>

definition entry_conf_change :: "env \<Rightarrow> entry \<Rightarrow> ConfChangeI option res" where
  "entry_conf_change E e =
     (case e_type e of
        EntryConfChange \<Rightarrow>
          (case pb_parse_ConfChange E (e_data e) of
             None \<Rightarrow> Inl (Panic ''ConfChange ParseFromString error'')
           | Some c \<Rightarrow> Inr (Some (ConfChangeWrap c)))
      | EntryConfChangeV2 \<Rightarrow>
          (case pb_parse_ConfChangeV2 E (e_data e) of
             None \<Rightarrow> Inl (Panic ''ConfChangeV2 ParseFromString error'')
           | Some c \<Rightarrow> Inr (Some (ConfChangeV2Wrap c)))
      | EntryNormal \<Rightarrow> Inr None)"

text \<open>The condition under which a proposed change is refused.\<close>

definition conf_change_refused :: "raft \<Rightarrow> ConfChangeI \<Rightarrow> bool" where
  "conf_change_refused r cc =
     (let alreadyPending = l_applied (r_raftLog r) < r_pendingConfIndex r;
          alreadyJoint = (outgoing (trk_config (r_trk r)) \<noteq> {});
          wantsLeaveJoint = (v2_changes (AsV2 cc) = [])
      in (alreadyPending \<or> alreadyJoint \<and> \<not> wantsLeaveJoint \<or> \<not> alreadyJoint \<and> wantsLeaveJoint) \<and>
         \<not> r_disableConfChangeValidation r)"

text \<open>The loop over the proposed entries: it replaces refused changes by empty entries.\<close>

fun check_proposals :: "env \<Rightarrow> raft \<Rightarrow> nat \<Rightarrow> entry list \<Rightarrow> (raft \<times> entry list) res" where
  "check_proposals E r i [] = Inr (r, [])"
| "check_proposals E r i (e # es) =
     bindR (entry_conf_change E e) (\<lambda>cc.
     bindR (case cc of
              None \<Rightarrow> Inr (r, e)
            | Some c \<Rightarrow>
                if conf_change_refused r c then Inr (r, Entry0\<lparr>e_type := EntryNormal\<rparr>)
                else bindR (RaftLog_lastIndex (r_raftLog r)) (\<lambda>li.
                  Inr (r\<lparr>r_pendingConfIndex := add64 (add64 li i) 1\<rparr>, e))) (\<lambda>(r1, e1).
     bindR (check_proposals E r1 (Suc i) es) (\<lambda>(r2, es2). Inr (r2, e1 # es2))))"

definition stepLeader_MsgProp :: "env \<Rightarrow> raft \<Rightarrow> message \<Rightarrow> (raft \<times> error) res" where
  "stepLeader_MsgProp E r m =
     (if m_entries m = [] then Inl (Panic ''stepped empty MsgProp'')
      else if trk_progress (r_trk r) (r_id r) = None then Inr (r, ErrProposalDropped)
      else if r_leadTransferee r \<noteq> NoneId then Inr (r, ErrProposalDropped)
      else bindR (check_proposals E r 0 (m_entries m)) (\<lambda>(r1, es).
           bindR (raft_appendEntry r1 es) (\<lambda>(r2, ok).
             if \<not> ok then Inr (r2, ErrProposalDropped) else ok_step (raft_bcastAppend E r2))))"

definition stepLeader_MsgReadIndex :: "raft \<Rightarrow> message \<Rightarrow> raft res" where
  "stepLeader_MsgReadIndex r m =
     (if ProgressTracker_IsSingleton (r_trk r) then raft_answerReadIndex r m (l_committed (r_raftLog r))
      else bindR (raft_committedEntryInCurrentTerm r) (\<lambda>cur.
        if \<not> cur then Inr (r\<lparr>r_pendingReadIndexMessages := r_pendingReadIndexMessages r @ [m]\<rparr>)
        else sendMsgReadIndexResponse r m))"

text \<open>\<open>while (r.maybeSendAppend(to, false)) {}\<close>. Every message sent to a replicating peer
  advances its \<open>next_\<close>, every other message pauses the peer.\<close>

fun send_all :: "nat \<Rightarrow> env \<Rightarrow> raft \<Rightarrow> u64 \<Rightarrow> raft res" where
  "send_all 0 E r dest = Inl NoFuel"
| "send_all (Suc fuel) E r dest =
     bindR (raft_maybeSendAppend E r dest False) (\<lambda>(r', sent).
       if sent then send_all fuel E r' dest else Inr r')"

definition send_fuel :: "raft \<Rightarrow> nat" where
  "send_fuel r = (case RaftLog_lastIndex (r_raftLog r) of Inl _ \<Rightarrow> 1 | Inr li \<Rightarrow> Suc (Suc li))"

text \<open>The progress of a peer that rejected an append, and of one that accepted it.\<close>

definition append_rejected :: "env \<Rightarrow> raft \<Rightarrow> message \<Rightarrow> Progress \<Rightarrow> raft res" where
  "append_rejected E r m pr =
     bindR (if 0 < m_logterm m
            then bindR (RaftLog_findConflictByTerm (r_raftLog r) (m_rejecthint m) (m_logterm m)) (\<lambda>(i, _). Inr i)
            else Inr (m_rejecthint m)) (\<lambda>nextProbeIdx.
       case Progress_MaybeDecrTo pr (m_index m) nextProbeIdx of (pr1, decreased) \<Rightarrow>
         if decreased
         then raft_sendAppend E
                (set_pr r (m_from m) (if pr_state pr1 = StateReplicate then Progress_BecomeProbe pr1 else pr1))
                (m_from m)
         else Inr (set_pr r (m_from m) pr1))"

definition progress_accepted :: "raft \<Rightarrow> message \<Rightarrow> Progress \<Rightarrow> Progress res" where
  "progress_accepted r m pr =
     (case pr_state pr of
        StateProbe \<Rightarrow> Inr (Progress_BecomeReplicate pr)
      | StateSnapshot \<Rightarrow>
          bindR (RaftLog_firstIndex (r_raftLog r)) (\<lambda>fi.
            Inr (if fi \<le> add64 (pr_match pr) 1 then Progress_BecomeReplicate (Progress_BecomeProbe pr) else pr))
      | StateReplicate \<Rightarrow>
          bindR (Inflights_FreeLE (pr_inflights pr) (m_index m)) (\<lambda>ins. Inr (pr\<lparr>pr_inflights := ins\<rparr>)))"

definition append_accepted :: "env \<Rightarrow> raft \<Rightarrow> message \<Rightarrow> Progress \<Rightarrow> bool \<Rightarrow> raft res" where
  "append_accepted E r m pr oldPaused =
     bindR (progress_accepted r m pr) (\<lambda>pr1.
     bindR (raft_maybeCommit (set_pr r (m_from m) pr1)) (\<lambda>(r1, advanced).
     bindR (if advanced then bindR (releasePendingReadIndexMessages r1) (raft_bcastAppend E)
            else if oldPaused then raft_sendAppend E r1 (m_from m)
            else Inr r1) (\<lambda>r2.
     bindR (if r_id r2 \<noteq> m_from m then send_all (send_fuel r2) E r2 (m_from m) else Inr r2) (\<lambda>r3.
       if m_from m = r_leadTransferee r3
       then bindR (raft_pr r3 (m_from m)) (\<lambda>pr3.
            bindR (RaftLog_lastIndex (r_raftLog r3)) (\<lambda>li.
              if pr_match pr3 = li then raft_sendTimeoutNow r3 (m_from m) else Inr r3))
       else Inr r3))))"

definition stepLeader_MsgAppResp :: "env \<Rightarrow> raft \<Rightarrow> message \<Rightarrow> Progress \<Rightarrow> raft res" where
  "stepLeader_MsgAppResp E r m pr0 =
     (let pr = pr0\<lparr>pr_recentActive := True\<rparr> in
      if m_reject m then append_rejected E r m pr
      else case Progress_MaybeUpdate pr (m_index m) of (pr1, updated) \<Rightarrow>
        if updated \<or> pr_match pr1 = m_index m \<and> pr_state pr1 = StateProbe
        then append_accepted E r m pr1 (Progress_IsPaused pr)
        else Inr (set_pr r (m_from m) pr1))"

definition stepLeader_MsgHeartbeatResp :: "env \<Rightarrow> raft \<Rightarrow> message \<Rightarrow> Progress \<Rightarrow> raft res" where
  "stepLeader_MsgHeartbeatResp E r m pr =
     (let r1 = set_pr r (m_from m) (pr\<lparr>pr_recentActive := True, pr_msgAppFlowPaused := False\<rparr>) in
      bindR (RaftLog_lastIndex (r_raftLog r1)) (\<lambda>li.
      bindR (if pr_match pr < li \<or> pr_state pr = StateProbe then raft_sendAppend E r1 (m_from m) else Inr r1) (\<lambda>r2.
        if ro_option (r_readOnly r2) \<noteq> ReadOnlySafe \<or> m_context m = '''' then Inr r2
        else case ReadOnly_recvAck (r_readOnly r2) (m_from m) (m_context m) of (ro, acks) \<Rightarrow>
          let r3 = r2\<lparr>r_readOnly := ro\<rparr> in
          if JointConfig_GetVoteResult (cfg_voters (trk_config (r_trk r3))) acks \<noteq> VoteWon then Inr r3
          else bindR (ReadOnly_advance ro m) (\<lambda>(ro', rss).
            foldR (\<lambda>rs r. raft_answerReadIndex r (ris_req rs) (ris_index rs)) rss (r3\<lparr>r_readOnly := ro'\<rparr>)))))"

definition stepLeader_MsgSnapStatus :: "raft \<Rightarrow> message \<Rightarrow> Progress \<Rightarrow> raft" where
  "stepLeader_MsgSnapStatus r m pr =
     (if pr_state pr \<noteq> StateSnapshot then r
      else let pr1 = (if m_reject m then Progress_BecomeProbe (pr\<lparr>pr_pendingSnapshot := 0\<rparr>)
                      else Progress_BecomeProbe pr)
           in set_pr r (m_from m) (pr1\<lparr>pr_msgAppFlowPaused := True\<rparr>))"

definition stepLeader_MsgUnreachable :: "raft \<Rightarrow> message \<Rightarrow> Progress \<Rightarrow> raft" where
  "stepLeader_MsgUnreachable r m pr =
     (if pr_state pr = StateReplicate then set_pr r (m_from m) (Progress_BecomeProbe pr) else r)"

definition stepLeader_MsgTransferLeader :: "env \<Rightarrow> raft \<Rightarrow> message \<Rightarrow> Progress \<Rightarrow> raft res" where
  "stepLeader_MsgTransferLeader E r m pr =
     (if pr_isLearner pr then Inr r
      else if r_leadTransferee r \<noteq> NoneId \<and> r_leadTransferee r = m_from m then Inr r
      else let r1 = (if r_leadTransferee r \<noteq> NoneId then raft_abortLeaderTransfer r else r) in
        if m_from m = r_id r1 then Inr r1
        else let r2 = r1\<lparr>r_electionElapsed := 0, r_leadTransferee := m_from m\<rparr> in
          bindR (RaftLog_lastIndex (r_raftLog r2)) (\<lambda>li.
            if pr_match pr = li then raft_sendTimeoutNow r2 (m_from m) else raft_sendAppend E r2 (m_from m)))"

text \<open>The second \<open>switch\<close> of \<open>stepLeader\<close>: messages that need the sender's progress.\<close>

definition stepLeader_progress :: "env \<Rightarrow> raft \<Rightarrow> message \<Rightarrow> (raft \<times> error) res" where
  "stepLeader_progress E r m =
     (case trk_progress (r_trk r) (m_from m) of
        None \<Rightarrow> Inr (r, Ok)
      | Some pr \<Rightarrow>
          (case m_type m of
             MsgAppResp \<Rightarrow> ok_step (stepLeader_MsgAppResp E r m pr)
           | MsgHeartbeatResp \<Rightarrow> ok_step (stepLeader_MsgHeartbeatResp E r m pr)
           | MsgSnapStatus \<Rightarrow> Inr (stepLeader_MsgSnapStatus r m pr, Ok)
           | MsgUnreachable \<Rightarrow> Inr (stepLeader_MsgUnreachable r m pr, Ok)
           | MsgTransferLeader \<Rightarrow> ok_step (stepLeader_MsgTransferLeader E r m pr)
           | _ \<Rightarrow> Inr (r, Ok)))"

definition stepLeader :: "env \<Rightarrow> raft \<Rightarrow> message \<Rightarrow> (raft \<times> error) res" where
  "stepLeader E r m =
     (case m_type m of
        MsgBeat \<Rightarrow> ok_step (raft_bcastHeartbeat r)
      | MsgCheckQuorum \<Rightarrow> ok_step (stepLeader_MsgCheckQuorum E r)
      | MsgProp \<Rightarrow> stepLeader_MsgProp E r m
      | MsgReadIndex \<Rightarrow> ok_step (stepLeader_MsgReadIndex r m)
      | MsgForgetLeader \<Rightarrow> Inr (r, Ok)
      | _ \<Rightarrow> stepLeader_progress E r m)"

section \<open>Step\<close>

definition raft_appliedTo :: "env \<Rightarrow> raft \<Rightarrow> u64 \<Rightarrow> u64 \<Rightarrow> raft res" where
  "raft_appliedTo E r index sz =
     (let newApplied = max index (l_applied (r_raftLog r)) in
      bindR (RaftLog_appliedTo (r_raftLog r) newApplied sz) (\<lambda>l.
        let r1 = r\<lparr>r_raftLog := l\<rparr> in
        if cfg_autoLeave (trk_config (r_trk r1)) \<and> r_pendingConfIndex r1 \<le> newApplied \<and> r_state r1 = StateLeader
        then case confChangeToMsg E None of (m, err) \<Rightarrow>
          if err \<noteq> Ok then Inl (Panic (error_msg err))
          else bindR (stepLeader_MsgProp E r1 m) (\<lambda>(r2, _). Inr r2)
        else Inr r1))"

definition raft_appliedSnap :: "env \<Rightarrow> raft \<Rightarrow> snapshot \<Rightarrow> raft res" where
  "raft_appliedSnap E r sn =
     raft_appliedTo E (r\<lparr>r_raftLog := RaftLog_stableSnapTo (r_raftLog r) (sn_index sn)\<rparr>) (sn_index sn) 0"

text \<open>Step, first part: the term of the message. The result says whether the message is
  still to be handled.\<close>

definition step_higher_term :: "env \<Rightarrow> raft \<Rightarrow> message \<Rightarrow> (raft \<times> bool) res" where
  "step_higher_term E r m =
     (let force = (m_context m = campaignTransfer);
          inLease = (r_checkQuorum r \<and> r_lead r \<noteq> NoneId \<and> r_electionElapsed r < r_electionTimeout r)
      in if (m_type m = MsgVote \<or> m_type m = MsgPreVote) \<and> \<not> force \<and> inLease then Inr (r, False)
         else if m_type m = MsgPreVote then Inr (r, True)
         else if m_type m = MsgPreVoteResp \<and> \<not> m_reject m then Inr (r, True)
         else bindR (raft_becomeFollower E r (m_term m)
                (if m_type m = MsgApp \<or> m_type m = MsgHeartbeat \<or> m_type m = MsgSnap then m_from m else NoneId))
                (\<lambda>r'. Inr (r', True)))"

definition step_lower_term :: "env \<Rightarrow> raft \<Rightarrow> message \<Rightarrow> raft res" where
  "step_lower_term E r m =
     (if (r_checkQuorum r \<or> r_preVote r) \<and> (m_type m = MsgHeartbeat \<or> m_type m = MsgApp)
      then raft_send r (Message0\<lparr>m_to := m_from m, m_type := MsgAppResp\<rparr>)
      else if m_type m = MsgPreVote
      then raft_send r (Message0\<lparr>m_to := m_from m, m_term := r_term r, m_type := MsgPreVoteResp, m_reject := True\<rparr>)
      else if m_type m = MsgStorageAppendResp
      then if IsEmptySnap (m_snapshot m) then Inr r else raft_appliedSnap E r (m_snapshot m)
      else Inr r)"

definition step_storageAppendResp :: "env \<Rightarrow> raft \<Rightarrow> message \<Rightarrow> raft res" where
  "step_storageAppendResp E r m =
     bindR (if m_index m \<noteq> 0
            then bindR (RaftLog_stableTo (r_raftLog r) (m_index m) (m_logterm m)) (\<lambda>l. Inr (r\<lparr>r_raftLog := l\<rparr>))
            else Inr r) (\<lambda>r1.
       if IsEmptySnap (m_snapshot m) then Inr r1 else raft_appliedSnap E r1 (m_snapshot m))"

definition step_storageApplyResp :: "env \<Rightarrow> raft \<Rightarrow> message \<Rightarrow> raft res" where
  "step_storageApplyResp E r m =
     (if m_entries m = [] then Inr r
      else bindR (raft_appliedTo E r (e_index (last (m_entries m))) (entsSize E (m_entries m))) (\<lambda>r1.
        Inr (raft_reduceUncommittedSize r1 (payloadsSize (m_entries m)))))"

definition can_vote :: "raft \<Rightarrow> message \<Rightarrow> bool" where
  "can_vote r m =
     (r_vote r = m_from m \<or> r_vote r = NoneId \<and> r_lead r = NoneId \<or>
      m_type m = MsgPreVote \<and> r_term r < m_term m)"

definition step_vote :: "raft \<Rightarrow> message \<Rightarrow> raft res" where
  "step_vote r m =
     bindR (if can_vote r m then RaftLog_isUpToDate (r_raftLog r) (m_index m) (m_logterm m) else Inr False) (\<lambda>grant.
     bindR (voteRespMsgType (m_type m)) (\<lambda>resp.
       if grant
       then bindR (raft_send r (Message0\<lparr>m_to := m_from m, m_term := m_term m, m_type := resp\<rparr>)) (\<lambda>r1.
              Inr (if m_type m = MsgVote then r1\<lparr>r_electionElapsed := 0, r_vote := m_from m\<rparr> else r1))
       else raft_send r (Message0\<lparr>m_to := m_from m, m_term := r_term r, m_type := resp, m_reject := True\<rparr>)))"

text \<open>The function \<open>step_\<close> points to, by role.\<close>

definition step_by_state :: "env \<Rightarrow> raft \<Rightarrow> message \<Rightarrow> (raft \<times> error) res" where
  "step_by_state E r m =
     (case r_state r of
        StateFollower \<Rightarrow> stepFollower E r m
      | StateCandidate \<Rightarrow> stepCandidate E r m
      | StatePreCandidate \<Rightarrow> stepCandidate E r m
      | StateLeader \<Rightarrow> stepLeader E r m)"

definition step_by_type :: "env \<Rightarrow> raft \<Rightarrow> message \<Rightarrow> (raft \<times> error) res" where
  "step_by_type E r m =
     (case m_type m of
        MsgHup \<Rightarrow> ok_step (raft_hup E r (if r_preVote r then campaignPreElection else campaignElection))
      | MsgStorageAppendResp \<Rightarrow> ok_step (step_storageAppendResp E r m)
      | MsgStorageApplyResp \<Rightarrow> ok_step (step_storageApplyResp E r m)
      | MsgVote \<Rightarrow> ok_step (step_vote r m)
      | MsgPreVote \<Rightarrow> ok_step (step_vote r m)
      | _ \<Rightarrow> step_by_state E r m)"

definition Step :: "env \<Rightarrow> raft \<Rightarrow> message \<Rightarrow> (raft \<times> error) res" where
  "Step E r m =
     (if m_term m = 0 then step_by_type E r m
      else if r_term r < m_term m
      then bindR (step_higher_term E r m) (\<lambda>(r1, handle). if handle then step_by_type E r1 m else Inr (r1, Ok))
      else if m_term m < r_term r then ok_step (step_lower_term E r m)
      else step_by_type E r m)"

section \<open>Ticks\<close>

definition raft_tickElection :: "env \<Rightarrow> raft \<Rightarrow> raft res" where
  "raft_tickElection E r =
     (let r1 = r\<lparr>r_electionElapsed := r_electionElapsed r + 1\<rparr> in
      if raft_promotable r1 \<and> raft_pastElectionTimeout r1
      then bindR (Step E (r1\<lparr>r_electionElapsed := 0\<rparr>) (Message0\<lparr>m_from := r_id r1, m_type := MsgHup\<rparr>)) (\<lambda>(r2, _).
             Inr r2)
      else Inr r1)"

text \<open>The part of \<open>tickHeartbeat\<close> that runs when the election timeout has passed.\<close>

definition tick_checkQuorum :: "env \<Rightarrow> raft \<Rightarrow> raft res" where
  "tick_checkQuorum E r =
     (if r_electionTimeout r \<le> r_electionElapsed r
      then let r1 = r\<lparr>r_electionElapsed := 0\<rparr> in
        bindR (if r_checkQuorum r1
               then bindR (Step E r1 (Message0\<lparr>m_from := r_id r1, m_type := MsgCheckQuorum\<rparr>)) (\<lambda>(r2, _). Inr r2)
               else Inr r1) (\<lambda>r2.
          Inr (if r_state r2 = StateLeader \<and> r_leadTransferee r2 \<noteq> NoneId
               then raft_abortLeaderTransfer r2 else r2))
      else Inr r)"

definition raft_tickHeartbeat :: "env \<Rightarrow> raft \<Rightarrow> raft res" where
  "raft_tickHeartbeat E r =
     bindR (tick_checkQuorum E (r\<lparr>r_heartbeatElapsed := r_heartbeatElapsed r + 1,
                                  r_electionElapsed := r_electionElapsed r + 1\<rparr>)) (\<lambda>r1.
       if r_state r1 \<noteq> StateLeader then Inr r1
       else if r_heartbeatTimeout r1 \<le> r_heartbeatElapsed r1
       then bindR (Step E (r1\<lparr>r_heartbeatElapsed := 0\<rparr>) (Message0\<lparr>m_from := r_id r1, m_type := MsgBeat\<rparr>)) (\<lambda>(r2, _).
              Inr r2)
       else Inr r1)"

text \<open>The function \<open>tick_\<close> points to, by role.\<close>

definition raft_tick :: "env \<Rightarrow> raft \<Rightarrow> raft res" where
  "raft_tick E r = (if r_state r = StateLeader then raft_tickHeartbeat E r else raft_tickElection E r)"

section \<open>Start\<close>

text \<open>The fields \<open>newRaft\<close> sets from the configuration, the others with their defaults.\<close>

definition raft_init :: "RaftConfig \<Rightarrow> RaftLog \<Rightarrow> raft" where
  "raft_init c l =
     \<lparr>r_id = rc_id c, r_term = 0, r_vote = 0, r_readStates = [], r_raftLog = l,
      r_maxMsgSize = rc_maxSizePerMsg c, r_maxUncommittedSize = rc_maxUncommittedEntriesSize c,
      r_trk = MakeProgressTracker (nat (rc_maxInflightMsgs c)) (rc_maxInflightBytes c),
      r_state = StateFollower, r_isLearner = False, r_msgs = [], r_msgsAfterAppend = [], r_lead = NoneId,
      r_leadTransferee = 0, r_pendingConfIndex = 0,
      r_disableConfChangeValidation = rc_disableConfChangeValidation c, r_uncommittedSize = 0,
      r_readOnly = newReadOnly (rc_readOnlyOption c), r_electionElapsed = 0, r_heartbeatElapsed = 0,
      r_checkQuorum = rc_checkQuorum c, r_preVote = rc_preVote c, r_heartbeatTimeout = rc_heartbeatTick c,
      r_electionTimeout = rc_electionTick c, r_randomizedElectionTimeout = 0,
      r_disableProposalForwarding = rc_disableProposalForwarding c,
      r_stepDownOnRemoval = rc_stepDownOnRemoval c, r_pendingReadIndexMessages = [], r_draws = 0\<rparr>"

text \<open>The part of \<open>newRaft\<close> after the configuration has been replayed.\<close>

definition newRaft_load :: "env \<Rightarrow> RaftConfig \<Rightarrow> HardState \<Rightarrow> ConfState \<Rightarrow> raft \<Rightarrow> Config \<Rightarrow> ProgressMap \<Rightarrow> raft res" where
  "newRaft_load E c hs cs r cfg prs =
     bindR (raft_switchToConfig E r cfg prs) (\<lambda>(r1, cs1).
       if Equivalent cs cs1 \<noteq> Ok then Inl (Panic (error_msg (Equivalent cs cs1)))
       else
       bindR (if IsEmptyHardState hs then Inr r1 else raft_loadState r1 hs) (\<lambda>r2.
       bindR (if 0 < rc_applied c
              then bindR (RaftLog_appliedTo (r_raftLog r2) (rc_applied c) 0) (\<lambda>l. Inr (r2\<lparr>r_raftLog := l\<rparr>))
              else Inr r2) (\<lambda>r3.
         raft_becomeFollower E r3 (r_term r3) NoneId)))"

definition newRaft_storage :: "env \<Rightarrow> RaftConfig \<Rightarrow> storage \<Rightarrow> raft res" where
  "newRaft_storage E c st =
     bindR (newLogWithSize st (rc_maxCommittedSizePerReady c)) (\<lambda>raftlog.
     bindR (st_InitialState st) (\<lambda>(hs, cs, err).
       if err \<noteq> Ok then Inl (Panic (error_msg err))
       else
       bindR (RaftLog_lastIndex raftlog) (\<lambda>li.
       bindR (Restore \<lparr>chg_tracker = r_trk (raft_init c raftlog), chg_lastIndex = li\<rparr> cs) (\<lambda>(cfg, prs, err).
         if err \<noteq> Ok then Inl (Panic (error_msg err))
         else newRaft_load E c hs cs (raft_init c raftlog) cfg prs))))"

definition newRaft :: "env \<Rightarrow> RaftConfig \<Rightarrow> raft res" where
  "newRaft E c0 =
     (case RaftConfig_validate c0 of (c, err) \<Rightarrow>
        if err \<noteq> Ok then Inl (Panic (error_msg err))
        else case rc_storage c of
            None \<Rightarrow> Inl (Undefined ''null storage'')
          | Some st \<Rightarrow> newRaft_storage E c st)"

section \<open>Self-messages\<close>

text \<open>The inner call of \<open>appliedTo\<close> is a \<open>Step\<close>.\<close>

lemma confChangeToMsg_None: "confChangeToMsg E None =
    (Message0\<lparr>m_type := MsgProp, m_entries := [Entry0\<lparr>e_type := EntryConfChangeV2, e_data := ''''\<rparr>]\<rparr>, Ok)"
  by (simp add: confChangeToMsg_def MarshalConfChange_def)

lemma appliedTo_proposes_by_Step:
  assumes "r_state r = StateLeader"
  shows "stepLeader_MsgProp E r (fst (confChangeToMsg E None)) = Step E r (fst (confChangeToMsg E None))"
  using assms by (simp add: confChangeToMsg_None Step_def step_by_type_def step_by_state_def stepLeader_def Message0_def)

end
