(* ===== verification/RaftInv.thy ===== *)
theory RaftInv
  imports RaftStep
begin

text \<open>
  How an operation of the node may change its state, as a proof interface. The locale
  \<open>raft_invariant\<close> lists the primitive changes: bookkeeping that leaves the persistent
  state, role, log, votes and messages alone (\<open>quiet\<close>), sending, the role transitions,
  recording a vote, casting one, the operations on the log, and a new configuration. A
  predicate that each of them keeps is kept by every handler and by \<open>Step\<close>, the ticks and
  the configuration switch; the proofs inside the locale follow the code once for all
  such predicates.
\<close>

named_theorems okay_intros \<open>rules that decompose a goal \<open>okay (...) Q\<close> along the program\<close>

section \<open>What the primitive operations change\<close>

text \<open>The part of the state that is fixed when the node is created.\<close>

definition settings :: "raft \<Rightarrow> u64 \<times> u64 \<times> u64 \<times> bool \<times> bool \<times> bool \<times> int \<times> int \<times> bool \<times> bool" where
  "settings r = (r_id r, r_maxMsgSize r, r_maxUncommittedSize r, r_disableConfChangeValidation r, r_checkQuorum r,
     r_preVote r, r_heartbeatTimeout r, r_electionTimeout r, r_disableProposalForwarding r, r_stepDownOnRemoval r)"

lemma settings_id: "settings r' = settings r \<Longrightarrow> r_id r' = r_id r"
  by (simp add: settings_def)

text \<open>A change of bookkeeping only.\<close>

definition quiet :: "raft \<Rightarrow> raft \<Rightarrow> bool" where
  "quiet r r' \<longleftrightarrow> settings r' = settings r \<and> r_term r' = r_term r \<and> r_vote r' = r_vote r \<and>
     r_state r' = r_state r \<and> r_lead r' = r_lead r \<and> r_raftLog r' = r_raftLog r \<and> r_msgs r' = r_msgs r \<and>
     r_msgsAfterAppend r' = r_msgsAfterAppend r \<and> trk_config (r_trk r') = trk_config (r_trk r) \<and>
     trk_votes (r_trk r') = trk_votes (r_trk r)"

text \<open>A fresh start in a term: what \<open>reset\<close> leaves of the state.\<close>

definition restarted :: "u64 \<Rightarrow> raft \<Rightarrow> raft \<Rightarrow> bool" where
  "restarted te r r' \<longleftrightarrow> settings r' = settings r \<and> r_term r' = te \<and>
     r_vote r' = (if r_term r = te then r_vote r else NoneId) \<and>
     r_raftLog r' = r_raftLog r \<and> r_msgs r' = r_msgs r \<and> r_msgsAfterAppend r' = r_msgsAfterAppend r \<and>
     trk_config (r_trk r') = trk_config (r_trk r) \<and> trk_votes (r_trk r') = (\<lambda>_. None)"

lemma quiet_refl [simp]: "quiet r r"
  by (simp add: quiet_def)

lemma quiet_sym: "quiet r s \<Longrightarrow> quiet s r"
  by (simp add: quiet_def)

lemma quiet_trans: "quiet r s \<Longrightarrow> quiet s t \<Longrightarrow> quiet r t"
  by (simp add: quiet_def)

lemma quiet_set_pr [simp]: "quiet r (set_pr s i p) \<longleftrightarrow> quiet r s"
  by (simp add: quiet_def set_pr_def settings_def)

lemma quiet_updates [simp]:
  "quiet r (s\<lparr>r_readStates := rs\<rparr>) \<longleftrightarrow> quiet r s"
  "quiet r (s\<lparr>r_isLearner := b\<rparr>) \<longleftrightarrow> quiet r s"
  "quiet r (s\<lparr>r_leadTransferee := n\<rparr>) \<longleftrightarrow> quiet r s"
  "quiet r (s\<lparr>r_pendingConfIndex := n\<rparr>) \<longleftrightarrow> quiet r s"
  "quiet r (s\<lparr>r_uncommittedSize := n\<rparr>) \<longleftrightarrow> quiet r s"
  "quiet r (s\<lparr>r_readOnly := ro\<rparr>) \<longleftrightarrow> quiet r s"
  "quiet r (s\<lparr>r_electionElapsed := z\<rparr>) \<longleftrightarrow> quiet r s"
  "quiet r (s\<lparr>r_heartbeatElapsed := z\<rparr>) \<longleftrightarrow> quiet r s"
  "quiet r (s\<lparr>r_randomizedElectionTimeout := z\<rparr>) \<longleftrightarrow> quiet r s"
  "quiet r (s\<lparr>r_pendingReadIndexMessages := ms\<rparr>) \<longleftrightarrow> quiet r s"
  "quiet r (s\<lparr>r_draws := n\<rparr>) \<longleftrightarrow> quiet r s"
  by (simp_all add: quiet_def settings_def)

lemma reset_progress_quiet: "quiet r0 r \<Longrightarrow> okay (reset_progress i r) (quiet r0)"
  by (auto simp: reset_progress_def okay_def)

lemma visit_quiet:
  assumes "\<And>i r. quiet r0 r \<Longrightarrow> okay (f i r) (quiet r0)"
  shows "okay (raft_visit f r0) (quiet r0)"
  unfolding raft_visit_def using assms by (intro okay_foldR) simp_all

lemma reset_effect: "okay (raft_reset E r te) (\<lambda>r'. restarted te r r' \<and> r_lead r' = NoneId)"
proof (rule okayI)
  fix r' assume R: "raft_reset E r te = Inr r'"
  let ?r1 = "if r_term r \<noteq> te then r\<lparr>r_term := te, r_vote := NoneId\<rparr> else r"
  let ?r2 = "raft_abortLeaderTransfer (raft_resetRandomizedElectionTimeout E
      (?r1\<lparr>r_lead := NoneId, r_electionElapsed := 0, r_heartbeatElapsed := 0\<rparr>))"
  let ?r3 = "?r2\<lparr>r_trk := ProgressTracker_ResetVotes (r_trk ?r2)\<rparr>"
  obtain r4 where v: "raft_visit reset_progress ?r3 = Inr r4"
    and r': "r' = r4\<lparr>r_pendingConfIndex := 0, r_uncommittedSize := 0, r_readOnly := newReadOnly (ro_option (r_readOnly r4))\<rparr>"
    using R unfolding raft_reset_def Let_def by auto
  have "quiet ?r3 r4"
    using visit_quiet [OF reset_progress_quiet, of ?r3] v by (auto simp: okay_def)
  then have "quiet ?r3 r'" by (simp add: r')
  then show "restarted te r r' \<and> r_lead r' = NoneId"
    by (auto simp: quiet_def restarted_def settings_def raft_abortLeaderTransfer_def
        raft_resetRandomizedElectionTimeout_def ProgressTracker_ResetVotes_def split: if_splits)
qed

text \<open>The messages the code puts into its queues, as they stand there. A granted vote is the
  one the node has recorded, for itself or for the sender of a request.\<close>

definition sendable :: "(message \<Rightarrow> bool) \<Rightarrow> raft \<Rightarrow> message \<Rightarrow> bool" where
  "sendable good r m \<longleftrightarrow>
     (if is_vote_msg (m_type m) then m_term m \<noteq> 0
      else m_type m \<noteq> MsgProp \<and> m_type m \<noteq> MsgReadIndex \<longrightarrow> m_term m = r_term r) \<and>
     (m_type m = MsgVoteResp \<and> \<not> m_reject m \<longrightarrow>
        m_from m = r_id r \<and> m_term m = r_term r \<and> m_to m = r_vote r \<and>
        (m_to m = r_id r \<or> (\<exists>q. good q \<and> m_type q = MsgVote \<and> m_to m = m_from q)))"

definition after_append :: "MessageType \<Rightarrow> bool" where
  "after_append t \<longleftrightarrow> t = MsgAppResp \<or> t = MsgVoteResp \<or> t = MsgPreVoteResp"

text \<open>A message whose term is the node's, or that needs none.\<close>

definition term_fits :: "raft \<Rightarrow> message \<Rightarrow> bool" where
  "term_fits r m \<longleftrightarrow> m_term m = 0 \<or> m_term m = r_term r \<or>
     r_term r < m_term m \<and> (m_type m = MsgPreVote \<or> m_type m = MsgPreVoteResp)"

text \<open>The message as \<open>send\<close> completes it.\<close>

definition stamped :: "raft \<Rightarrow> message \<Rightarrow> message" where
  "stamped r m0 =
     (let m1 = (if m_from m0 = NoneId then m0\<lparr>m_from := r_id r\<rparr> else m0)
      in if is_vote_msg (m_type m0) \<or> m_type m0 = MsgProp \<or> m_type m0 = MsgReadIndex then m1
         else m1\<lparr>m_term := r_term r\<rparr>)"

lemma stamped_fields [simp]:
  "m_type (stamped r m) = m_type m" "m_to (stamped r m) = m_to m" "m_reject (stamped r m) = m_reject m"
  "m_from (stamped r m) = (if m_from m = NoneId then r_id r else m_from m)"
  "m_term (stamped r m) = (if is_vote_msg (m_type m) \<or> m_type m = MsgProp \<or> m_type m = MsgReadIndex then m_term m
     else r_term r)"
  "m_index (stamped r m) = m_index m" "m_logterm (stamped r m) = m_logterm m"
  "m_commit (stamped r m) = m_commit m" "m_entries (stamped r m) = m_entries m"
  by (simp_all add: stamped_def Let_def)

lemma send_eq:
  "raft_send r m =
     (if is_vote_msg (m_type m) \<and> m_term m = 0 then Inl (Panic ''term should be set'')
      else if \<not> is_vote_msg (m_type m) \<and> m_term m \<noteq> 0 then Inl (Panic ''term should not be set'')
      else if after_append (m_type m) then Inr (r\<lparr>r_msgsAfterAppend := r_msgsAfterAppend r @ [stamped r m]\<rparr>)
      else if m_to m = r_id r then Inl (Panic ''message should not be self-addressed'')
      else Inr (r\<lparr>r_msgs := r_msgs r @ [stamped r m]\<rparr>))"
  by (simp add: raft_send_def stamped_def Let_def after_append_def)

text \<open>A change of bookkeeping, of the log and of the message queues.\<close>

definition keeps :: "raft \<Rightarrow> raft \<Rightarrow> bool" where
  "keeps r r' \<longleftrightarrow> settings r' = settings r \<and> r_term r' = r_term r \<and> r_vote r' = r_vote r \<and>
     r_state r' = r_state r \<and> r_lead r' = r_lead r \<and>
     trk_config (r_trk r') = trk_config (r_trk r) \<and> trk_votes (r_trk r') = trk_votes (r_trk r)"

lemma keeps_refl [simp]: "keeps r r"
  by (simp add: keeps_def)

lemma keeps_set_pr [simp]: "keeps r (set_pr s i p) \<longleftrightarrow> keeps r s"
  by (simp add: keeps_def set_pr_def settings_def)

lemma keeps_updates [simp]:
  "keeps r (s\<lparr>r_raftLog := l\<rparr>) \<longleftrightarrow> keeps r s"
  "keeps r (s\<lparr>r_readStates := rs\<rparr>) \<longleftrightarrow> keeps r s"
  "keeps r (s\<lparr>r_isLearner := b\<rparr>) \<longleftrightarrow> keeps r s"
  "keeps r (s\<lparr>r_leadTransferee := n\<rparr>) \<longleftrightarrow> keeps r s"
  "keeps r (s\<lparr>r_pendingConfIndex := n\<rparr>) \<longleftrightarrow> keeps r s"
  "keeps r (s\<lparr>r_uncommittedSize := n\<rparr>) \<longleftrightarrow> keeps r s"
  "keeps r (s\<lparr>r_readOnly := ro\<rparr>) \<longleftrightarrow> keeps r s"
  "keeps r (s\<lparr>r_electionElapsed := z\<rparr>) \<longleftrightarrow> keeps r s"
  "keeps r (s\<lparr>r_heartbeatElapsed := z\<rparr>) \<longleftrightarrow> keeps r s"
  "keeps r (s\<lparr>r_pendingReadIndexMessages := ms\<rparr>) \<longleftrightarrow> keeps r s"
  by (simp_all add: keeps_def settings_def)

lemma keeps_trans: "keeps r s \<Longrightarrow> keeps s t \<Longrightarrow> keeps r t"
  by (simp add: keeps_def)

lemma keeps_quiet: "keeps r s \<Longrightarrow> quiet s t \<Longrightarrow> keeps r t"
  by (simp add: keeps_def quiet_def)

lemma keepsD:
  assumes "keeps r s"
  shows "r_id s = r_id r" "r_term s = r_term r" "r_vote s = r_vote r" "r_state s = r_state r" "r_lead s = r_lead r"
    "trk_config (r_trk s) = trk_config (r_trk r)" "trk_votes (r_trk s) = trk_votes (r_trk r)"
    "settings s = settings r"
  using assms settings_id [of s r] by (auto simp: keeps_def)

lemma poll_result:
  "\<exists>a b. raft_poll r i t v = (r\<lparr>r_trk := ProgressTracker_RecordVote (r_trk r) i v\<rparr>, a, b,
     JointConfig_GetVoteResult (cfg_voters (trk_config (ProgressTracker_RecordVote (r_trk r) i v)))
       (trk_votes (ProgressTracker_RecordVote (r_trk r) i v)))"
  by (simp add: raft_poll_def Let_def ProgressTracker_TallyVotes_def case_prod_beta)

text \<open>The messages a node steps to itself on a tick.\<close>

lemma Step_hup: "Step E r (Message0\<lparr>m_from := x, m_type := MsgHup\<rparr>) =
    ok_step (raft_hup E r (if r_preVote r then campaignPreElection else campaignElection))"
  by (simp add: Step_def step_by_type_def Message0_def)

lemma Step_checkQuorum: "r_state r = StateLeader \<Longrightarrow>
    Step E r (Message0\<lparr>m_from := x, m_type := MsgCheckQuorum\<rparr>) = ok_step (stepLeader_MsgCheckQuorum E r)"
  by (simp add: Step_def step_by_type_def step_by_state_def stepLeader_def Message0_def)

lemma Step_beat: "r_state r = StateLeader \<Longrightarrow>
    Step E r (Message0\<lparr>m_from := x, m_type := MsgBeat\<rparr>) = ok_step (raft_bcastHeartbeat r)"
  by (simp add: Step_def step_by_type_def step_by_state_def stepLeader_def Message0_def)

section \<open>The interface\<close>

locale raft_invariant =
  fixes E :: env
    and I :: "raft \<Rightarrow> bool"
    and good :: "message \<Rightarrow> bool"
    and cfg_ok :: "Config \<Rightarrow> bool"
    and fits :: "raft \<Rightarrow> nat \<Rightarrow> bool"
  assumes I_quiet: "\<And>r r'. I r \<Longrightarrow> quiet r r' \<Longrightarrow> I r'"
    and I_follow: "\<And>r x. I r \<Longrightarrow> r_state r = StateFollower \<Longrightarrow> I (r\<lparr>r_lead := x\<rparr>)"
    and I_emit: "\<And>r m. I r \<Longrightarrow> sendable good r m \<Longrightarrow> \<not> after_append (m_type m) \<Longrightarrow> m_to m \<noteq> r_id r \<Longrightarrow>
      I (r\<lparr>r_msgs := r_msgs r @ [m]\<rparr>)"
    and I_emit_after: "\<And>r m. I r \<Longrightarrow> sendable good r m \<Longrightarrow> after_append (m_type m) \<Longrightarrow>
      I (r\<lparr>r_msgsAfterAppend := r_msgsAfterAppend r @ [m]\<rparr>)"
    and I_follower: "\<And>r s te. I r \<Longrightarrow> r_term r \<le> te \<Longrightarrow> restarted te r s \<Longrightarrow> r_state s = StateFollower \<Longrightarrow> I s"
    and I_candidate: "\<And>r s. I r \<Longrightarrow> r_state r \<noteq> StateLeader \<Longrightarrow> r_term r + 1 < W64 \<Longrightarrow>
      restarted (r_term r + 1) r s \<Longrightarrow> r_lead s = NoneId \<Longrightarrow> I (s\<lparr>r_vote := r_id s, r_state := StateCandidate\<rparr>)"
    and I_preCandidate: "\<And>r. I r \<Longrightarrow> r_state r \<noteq> StateLeader \<Longrightarrow>
      I (r\<lparr>r_trk := ProgressTracker_ResetVotes (r_trk r), r_lead := NoneId, r_state := StatePreCandidate\<rparr>)"
    and I_leader: "\<And>r s. I r \<Longrightarrow> r_state r = StateCandidate \<Longrightarrow>
      JointConfig_GetVoteResult (cfg_voters (trk_config (r_trk r))) (trk_votes (r_trk r)) = VoteWon \<Longrightarrow>
      restarted (r_term r) r s \<Longrightarrow> r_lead s = NoneId \<Longrightarrow> I (s\<lparr>r_lead := r_id s, r_state := StateLeader\<rparr>)"
    and I_record: "\<And>r m. I r \<Longrightarrow> good m \<Longrightarrow> term_fits r m \<Longrightarrow>
      r_state r = StatePreCandidate \<and> m_type m = MsgPreVoteResp \<or> r_state r = StateCandidate \<and> m_type m = MsgVoteResp \<Longrightarrow>
      I (r\<lparr>r_trk := ProgressTracker_RecordVote (r_trk r) (m_from m) (\<not> m_reject m)\<rparr>)"
    and I_cast: "\<And>r m. I r \<Longrightarrow> good m \<Longrightarrow> m_type m = MsgVote \<Longrightarrow>
      r_vote r = m_from m \<or> r_vote r = NoneId \<and> r_lead r = NoneId \<Longrightarrow> I (r\<lparr>r_vote := m_from m\<rparr>)"
    and I_append: "\<And>r es l i li. I r \<Longrightarrow> r_state r = StateLeader \<Longrightarrow> fits r (length es) \<Longrightarrow>
      RaftLog_lastIndex (r_raftLog r) = Inr li \<Longrightarrow>
      RaftLog_append (r_raftLog r) (stamp_entries (r_term r) (add64 li 1) es) = Inr (l, i) \<Longrightarrow> I (r\<lparr>r_raftLog := l\<rparr>)"
    and I_maybeAppend: "\<And>r m l i ok. I r \<Longrightarrow> good m \<Longrightarrow> r_state r = StateFollower \<Longrightarrow> m_type m = MsgApp \<Longrightarrow>
      RaftLog_maybeAppend (r_raftLog r) (m_index m) (m_logterm m) (m_commit m) (m_entries m) = Inr (l, i, ok) \<Longrightarrow>
      I (r\<lparr>r_raftLog := l\<rparr>)"
    and I_commitTo: "\<And>r c l. I r \<Longrightarrow> RaftLog_commitTo (r_raftLog r) c = Inr l \<Longrightarrow> I (r\<lparr>r_raftLog := l\<rparr>)"
    and I_appliedTo: "\<And>r i sz l. I r \<Longrightarrow> RaftLog_appliedTo (r_raftLog r) i sz = Inr l \<Longrightarrow> I (r\<lparr>r_raftLog := l\<rparr>)"
    and I_stableTo: "\<And>r m l. I r \<Longrightarrow> good m \<Longrightarrow> m_type m = MsgStorageAppendResp \<Longrightarrow> m_term m = 0 \<or> m_term m = r_term r \<Longrightarrow>
      RaftLog_stableTo (r_raftLog r) (m_index m) (m_logterm m) = Inr l \<Longrightarrow> I (r\<lparr>r_raftLog := l\<rparr>)"
    and I_stableSnapTo: "\<And>r m. I r \<Longrightarrow> good m \<Longrightarrow> m_type m = MsgStorageAppendResp \<Longrightarrow>
      I (r\<lparr>r_raftLog := RaftLog_stableSnapTo (r_raftLog r) (sn_index (m_snapshot m))\<rparr>)"
    and I_restore: "\<And>r m. I r \<Longrightarrow> good m \<Longrightarrow> r_state r = StateFollower \<Longrightarrow> m_type m = MsgSnap \<Longrightarrow>
      l_committed (r_raftLog r) < sn_index (m_snapshot m) \<Longrightarrow>
      I (r\<lparr>r_raftLog := RaftLog_restore (r_raftLog r) (m_snapshot m)\<rparr>)"
    and I_config: "\<And>r t. I r \<Longrightarrow> cfg_ok (trk_config t) \<Longrightarrow> trk_votes t = trk_votes (r_trk r) \<or> trk_votes t = (\<lambda>_. None) \<Longrightarrow>
      I (r\<lparr>r_trk := t\<rparr>)"
    and good_term: "\<And>m. good m \<Longrightarrow> m_type m = MsgApp \<or> m_type m = MsgHeartbeat \<or> m_type m = MsgSnap \<Longrightarrow> m_term m \<noteq> 0"
    and fits_log: "\<And>r r' n. fits r n \<Longrightarrow> r_raftLog r' = r_raftLog r \<Longrightarrow> fits r' n"
    and fits_appliedTo: "\<And>r i sz l n. fits r n \<Longrightarrow> RaftLog_appliedTo (r_raftLog r) i sz = Inr l \<Longrightarrow> fits (r\<lparr>r_raftLog := l\<rparr>) n"
    and fits_stableTo: "\<And>r m l n. fits r n \<Longrightarrow> I r \<Longrightarrow> good m \<Longrightarrow> m_type m = MsgStorageAppendResp \<Longrightarrow>
      RaftLog_stableTo (r_raftLog r) (m_index m) (m_logterm m) = Inr l \<Longrightarrow> fits (r\<lparr>r_raftLog := l\<rparr>) n"
    and fits_stableSnapTo: "\<And>r m n. fits r n \<Longrightarrow> I r \<Longrightarrow> good m \<Longrightarrow> m_type m = MsgStorageAppendResp \<Longrightarrow>
      fits (r\<lparr>r_raftLog := RaftLog_stableSnapTo (r_raftLog r) (sn_index (m_snapshot m))\<rparr>) n"

context raft_invariant
begin

definition J :: "raft \<Rightarrow> raft \<Rightarrow> bool" where
  "J r0 r \<longleftrightarrow> I r \<and> keeps r0 r"

lemma I_cong: "quiet r r' \<Longrightarrow> I r' \<longleftrightarrow> I r"
  using I_quiet quiet_sym by blast

lemma I_updates:
  "I (set_pr r i p) \<longleftrightarrow> I r"
  "I (r\<lparr>r_readStates := rs\<rparr>) \<longleftrightarrow> I r"
  "I (r\<lparr>r_isLearner := b\<rparr>) \<longleftrightarrow> I r"
  "I (r\<lparr>r_leadTransferee := n\<rparr>) \<longleftrightarrow> I r"
  "I (r\<lparr>r_pendingConfIndex := n\<rparr>) \<longleftrightarrow> I r"
  "I (r\<lparr>r_uncommittedSize := n\<rparr>) \<longleftrightarrow> I r"
  "I (r\<lparr>r_readOnly := ro\<rparr>) \<longleftrightarrow> I r"
  "I (r\<lparr>r_electionElapsed := z\<rparr>) \<longleftrightarrow> I r"
  "I (r\<lparr>r_heartbeatElapsed := z\<rparr>) \<longleftrightarrow> I r"
  "I (r\<lparr>r_pendingReadIndexMessages := ms\<rparr>) \<longleftrightarrow> I r"
  by (rule I_cong, simp)+

lemma J_updates [simp]:
  "J r0 (set_pr r i p) \<longleftrightarrow> J r0 r"
  "J r0 (r\<lparr>r_readStates := rs\<rparr>) \<longleftrightarrow> J r0 r"
  "J r0 (r\<lparr>r_isLearner := b\<rparr>) \<longleftrightarrow> J r0 r"
  "J r0 (r\<lparr>r_leadTransferee := n\<rparr>) \<longleftrightarrow> J r0 r"
  "J r0 (r\<lparr>r_pendingConfIndex := n\<rparr>) \<longleftrightarrow> J r0 r"
  "J r0 (r\<lparr>r_uncommittedSize := n\<rparr>) \<longleftrightarrow> J r0 r"
  "J r0 (r\<lparr>r_readOnly := ro\<rparr>) \<longleftrightarrow> J r0 r"
  "J r0 (r\<lparr>r_electionElapsed := z\<rparr>) \<longleftrightarrow> J r0 r"
  "J r0 (r\<lparr>r_heartbeatElapsed := z\<rparr>) \<longleftrightarrow> J r0 r"
  "J r0 (r\<lparr>r_pendingReadIndexMessages := ms\<rparr>) \<longleftrightarrow> J r0 r"
  by (simp_all add: J_def I_updates)

lemma J_start: "I r \<Longrightarrow> J r r"
  by (simp add: J_def)

text \<open>Sending.\<close>

lemma send_J:
  assumes "J r0 r" and "m_type m = MsgVoteResp \<Longrightarrow> \<not> m_reject m \<Longrightarrow>
      m_from m = NoneId \<and> m_term m = r_term r \<and> m_to m = r_vote r \<and> r_vote r = r_id r"
  shows "okay (raft_send r m) (J r0)"
proof (rule okayI)
  fix r' assume R: "raft_send r m = Inr r'"
  have vt: "is_vote_msg (m_type m) \<longrightarrow> m_term m \<noteq> 0" using R by (auto simp: send_eq split: if_splits)
  have s: "sendable good r (stamped r m)"
    unfolding sendable_def using vt assms(2) by (auto simp: is_vote_msg_def)
  have I: "I r" and k: "keeps r0 r" using assms(1) by (simp_all add: J_def)
  show "J r0 r'"
  proof (cases "after_append (m_type m)")
    case True
    then have "r' = r\<lparr>r_msgsAfterAppend := r_msgsAfterAppend r @ [stamped r m]\<rparr>"
      using R by (simp add: send_eq split: if_splits)
    then show ?thesis
      using I_emit_after [OF I s] True k by (simp add: J_def keeps_def settings_def)
  next
    case False
    then have "r' = r\<lparr>r_msgs := r_msgs r @ [stamped r m]\<rparr>" "m_to m \<noteq> r_id r"
      using R by (simp_all add: send_eq split: if_splits)
    then show ?thesis
      using I_emit [OF I s] False k by (simp add: J_def keeps_def settings_def)
  qed
qed

lemma send_plain: "raft_send r m = Inr r' \<Longrightarrow> J r0 r \<Longrightarrow> m_type m \<noteq> MsgVoteResp \<Longrightarrow> J r0 r'"
  using send_J [of r0 r m] by (simp add: okay_def)

lemma sendSnapshot_J: "raft_sendSnapshot r dest pr = Inr (r', b) \<Longrightarrow> J r0 r \<Longrightarrow> J r0 r'"
  unfolding raft_sendSnapshot_def by (auto split: if_splits) (erule send_plain; simp)+

lemma maybeSendAppend_J: "raft_maybeSendAppend E r dest b = Inr (r', sent) \<Longrightarrow> J r0 r \<Longrightarrow> J r0 r'"
  unfolding raft_maybeSendAppend_def Let_def by (auto split: if_splits) (erule send_plain sendSnapshot_J; simp)+

lemma sendAppend_J: "raft_sendAppend E r dest = Inr r' \<Longrightarrow> J r0 r \<Longrightarrow> J r0 r'"
  unfolding raft_sendAppend_def by auto (erule maybeSendAppend_J; simp)+

lemma sendHeartbeat_J: "raft_sendHeartbeat r dest ctx = Inr r' \<Longrightarrow> J r0 r \<Longrightarrow> J r0 r'"
  unfolding raft_sendHeartbeat_def by auto (erule send_plain; simp)+

lemma sendTimeoutNow_J: "raft_sendTimeoutNow r dest = Inr r' \<Longrightarrow> J r0 r \<Longrightarrow> J r0 r'"
  unfolding raft_sendTimeoutNow_def by (erule send_plain) simp_all

lemma visit_J:
  assumes "raft_visit f r = Inr r'" "J r0 r" "\<And>i s s'. f i s = Inr s' \<Longrightarrow> J r0 s \<Longrightarrow> J r0 s'"
  shows "J r0 r'"
  using okay_foldR [of "J r0" r "ProgressTracker_Visit (r_trk r)" f] assms by (auto simp: raft_visit_def okay_def)

lemma bcastAppend_J: "raft_bcastAppend E r = Inr r' \<Longrightarrow> J r0 r \<Longrightarrow> J r0 r'"
  unfolding raft_bcastAppend_def by (erule (1) visit_J) (auto split: if_splits elim: sendAppend_J)

lemma bcastHeartbeatWithCtx_J: "raft_bcastHeartbeatWithCtx r ctx = Inr r' \<Longrightarrow> J r0 r \<Longrightarrow> J r0 r'"
  unfolding raft_bcastHeartbeatWithCtx_def by (erule (1) visit_J) (auto split: if_splits elim: sendHeartbeat_J)

lemma bcastHeartbeat_J: "raft_bcastHeartbeat r = Inr r' \<Longrightarrow> J r0 r \<Longrightarrow> J r0 r'"
  unfolding raft_bcastHeartbeat_def by (rule bcastHeartbeatWithCtx_J)

lemma visitMaybeSendAppend_J: "raft_visitMaybeSendAppend E r = Inr r' \<Longrightarrow> J r0 r \<Longrightarrow> J r0 r'"
  unfolding raft_visitMaybeSendAppend_def by (erule (1) visit_J) (auto split: if_splits elim: maybeSendAppend_J)

lemma send_all_J: "send_all n E r dest = Inr r' \<Longrightarrow> J r0 r \<Longrightarrow> J r0 r'"
  by (induction n arbitrary: r) (auto split: if_splits dest: maybeSendAppend_J)

text \<open>Read requests.\<close>

lemma answerReadIndex_J: "raft_answerReadIndex r req i = Inr r' \<Longrightarrow> J r0 r \<Longrightarrow> J r0 r'"
  unfolding raft_answerReadIndex_def raft_responseToReadIndexReq_def
  by (auto split: if_splits) (erule send_plain; simp add: Message0_def)+

lemma sendMsgReadIndexResponse_J: "sendMsgReadIndexResponse r m = Inr r' \<Longrightarrow> J r0 r \<Longrightarrow> J r0 r'"
  unfolding sendMsgReadIndexResponse_def
  by (auto split: ReadOnlyOption.splits) (erule bcastHeartbeatWithCtx_J answerReadIndex_J; simp)+

lemma fold_J:
  assumes "foldR f xs r = Inr r'" "J r0 r" "\<And>i s s'. f i s = Inr s' \<Longrightarrow> J r0 s \<Longrightarrow> J r0 s'"
  shows "J r0 r'"
  using okay_foldR [of "J r0" r xs f] assms by (auto simp: okay_def)

lemma releasePendingReadIndexMessages_J: "releasePendingReadIndexMessages r = Inr r' \<Longrightarrow> J r0 r \<Longrightarrow> J r0 r'"
  unfolding releasePendingReadIndexMessages_def
  by (auto split: if_splits) (erule fold_J; simp add: sendMsgReadIndexResponse_J)

lemma stepLeader_MsgReadIndex_J: "stepLeader_MsgReadIndex r m = Inr r' \<Longrightarrow> J r0 r \<Longrightarrow> J r0 r'"
  unfolding stepLeader_MsgReadIndex_def
  by (auto split: if_splits) (erule answerReadIndex_J sendMsgReadIndexResponse_J; simp)+

text \<open>Handlers of a leader that only send.\<close>

lemma append_rejected_J: "append_rejected E r m pr = Inr r' \<Longrightarrow> J r0 r \<Longrightarrow> J r0 r'"
  unfolding append_rejected_def by (auto split: if_splits prod.splits) (erule sendAppend_J; simp)+

lemma stepLeader_MsgHeartbeatResp_J:
  assumes "stepLeader_MsgHeartbeatResp E r m pr = Inr r'" "J r0 r"
  shows "J r0 r'"
proof -
  let ?r1 = "set_pr r (m_from m) (pr\<lparr>pr_recentActive := True, pr_msgAppFlowPaused := False\<rparr>)"
  obtain li r2 where r2: "(if pr_match pr < li \<or> pr_state pr = StateProbe then raft_sendAppend E ?r1 (m_from m) else Inr ?r1) = Inr r2"
    and rest: "(if ro_option (r_readOnly r2) \<noteq> ReadOnlySafe \<or> m_context m = '''' then Inr r2
        else case ReadOnly_recvAck (r_readOnly r2) (m_from m) (m_context m) of (ro, acks) \<Rightarrow>
          let r3 = r2\<lparr>r_readOnly := ro\<rparr> in
          if JointConfig_GetVoteResult (cfg_voters (trk_config (r_trk r3))) acks \<noteq> VoteWon then Inr r3
          else bindR (ReadOnly_advance ro m) (\<lambda>(ro', rss).
            foldR (\<lambda>rs r. raft_answerReadIndex r (ris_req rs) (ris_index rs)) rss (r3\<lparr>r_readOnly := ro'\<rparr>))) = Inr r'"
    using assms(1) unfolding stepLeader_MsgHeartbeatResp_def Let_def by auto
  have "J r0 r2" using r2 assms(2) by (auto split: if_splits elim: sendAppend_J)
  then show ?thesis
    using rest by (auto simp: Let_def split: if_splits prod.splits) (erule fold_J; simp add: answerReadIndex_J)
qed

lemma stepLeader_MsgTransferLeader_J: "stepLeader_MsgTransferLeader E r m pr = Inr r' \<Longrightarrow> J r0 r \<Longrightarrow> J r0 r'"
  unfolding stepLeader_MsgTransferLeader_def raft_abortLeaderTransfer_def Let_def
  by (auto split: if_splits) (erule sendTimeoutNow_J sendAppend_J; simp)+

text \<open>The log of a leader.\<close>

lemma maybeCommit_J:
  assumes "raft_maybeCommit r = Inr (r', b)" "J r0 r"
  shows "J r0 r'"
proof -
  obtain l where r': "r' = r\<lparr>r_raftLog := l\<rparr>"
    and l: "RaftLog_maybeCommit (r_raftLog r) (ProgressTracker_Committed (r_trk r)) (r_term r) = Inr (l, b)"
    using assms(1) by (auto simp: raft_maybeCommit_def)
  have "l = r_raftLog r \<or> RaftLog_commitTo (r_raftLog r) (ProgressTracker_Committed (r_trk r)) = Inr l"
    using l by (auto simp: RaftLog_maybeCommit_def split: if_splits)
  then show ?thesis
    using assms(2) I_commitTo [of r _ l] by (auto simp: r' J_def)
qed

lemma increaseUncommittedSize_J: "raft_increaseUncommittedSize r es = (r', b) \<Longrightarrow> J r0 r' \<longleftrightarrow> J r0 r"
  by (auto simp: raft_increaseUncommittedSize_def Let_def split: if_splits)

lemma increaseUncommittedSize_fields:
  "raft_increaseUncommittedSize r es = (r', b) \<Longrightarrow> r_raftLog r' = r_raftLog r \<and> r_term r' = r_term r \<and> r_state r' = r_state r"
  by (auto simp: raft_increaseUncommittedSize_def Let_def split: if_splits)

lemma appendEntry_J:
  assumes "raft_appendEntry r es = Inr (r', b)" "J r0 r" "r_state r = StateLeader" "fits r (length es)"
  shows "J r0 r'"
proof -
  obtain li r1 ok where li: "RaftLog_lastIndex (r_raftLog r) = Inr li"
    and r1: "raft_increaseUncommittedSize r (stamp_entries (r_term r) (add64 li 1) es) = (r1, ok)"
    and rest: "(if \<not> ok then Inr (r1, False)
         else bindR (RaftLog_append (r_raftLog r1) (stamp_entries (r_term r) (add64 li 1) es)) (\<lambda>(l, li').
           bindR (raft_send (r1\<lparr>r_raftLog := l\<rparr>)
                    (Message0\<lparr>m_to := r_id r, m_type := MsgAppResp, m_index := li'\<rparr>)) (\<lambda>r2.
             Inr (r2, True)))) = Inr (r', b)"
    using assms(1) unfolding raft_appendEntry_def Let_def by (auto split: prod.splits)
  note f = increaseUncommittedSize_fields [OF r1]
  have J1: "J r0 r1" using increaseUncommittedSize_J [OF r1] assms(2) by simp
  show ?thesis
  proof (cases ok)
    case False
    then show ?thesis using rest J1 by simp
  next
    case True
    then obtain l li' where l: "RaftLog_append (r_raftLog r1) (stamp_entries (r_term r1) (add64 li 1) es) = Inr (l, li')"
      and s: "raft_send (r1\<lparr>r_raftLog := l\<rparr>) (Message0\<lparr>m_to := r_id r, m_type := MsgAppResp, m_index := li'\<rparr>) = Inr r'"
      using rest f by auto
    have "I (r1\<lparr>r_raftLog := l\<rparr>)"
      using J1 f assms(3) li l fits_log [OF assms(4), of r1] by (intro I_append [of r1 es li l li']) (simp_all add: J_def)
    then have "J r0 (r1\<lparr>r_raftLog := l\<rparr>)" using J1 by (simp add: J_def)
    with s show ?thesis by (rule send_plain) simp
  qed
qed

lemma check_proposals_J: "check_proposals E r i es = Inr (r', es') \<Longrightarrow> J r0 r \<Longrightarrow> J r0 r'"
  by (induction es arbitrary: r i es') (auto split: option.splits if_splits)

lemma check_proposals_log: "check_proposals E r i es = Inr (r', es') \<Longrightarrow> r_raftLog r' = r_raftLog r \<and> length es' = length es"
  by (induction es arbitrary: r i es') (fastforce split: option.splits if_splits)+

lemma J_state: "J r0 r \<Longrightarrow> r_state r = r_state r0"
  by (simp add: J_def keepsD)

lemma stepLeader_MsgProp_J:
  assumes "stepLeader_MsgProp E r m = Inr (r', err)" "J r0 r" "r_state r0 = StateLeader" "fits r (length (m_entries m))"
  shows "J r0 r'"
proof -
  have P: "J r0 r3" if "check_proposals E r 0 (m_entries m) = Inr (r1, es)" "raft_appendEntry r1 es = Inr (r3, b)" for r1 es r3 b
    using that check_proposals_J [OF that(1) assms(2)] check_proposals_log [OF that(1)] J_state assms(3) fits_log [OF assms(4), of r1]
    by (intro appendEntry_J [OF that(2)]) simp_all
  show ?thesis
    using assms(1,2) unfolding stepLeader_MsgProp_def ok_step_def
    by (auto split: if_splits dest!: bcastAppend_J intro: P)
qed

lemma append_accepted_J:
  assumes "append_accepted E r m pr p = Inr r'" "J r0 r"
  shows "J r0 r'"
proof -
  obtain pr1 r1 adv r2 r3 where c: "raft_maybeCommit (set_pr r (m_from m) pr1) = Inr (r1, adv)"
    and r2: "(if adv then bindR (releasePendingReadIndexMessages r1) (raft_bcastAppend E)
            else if p then raft_sendAppend E r1 (m_from m) else Inr r1) = Inr r2"
    and r3: "(if r_id r2 \<noteq> m_from m then send_all (send_fuel r2) E r2 (m_from m) else Inr r2) = Inr r3"
    and r': "(if m_from m = r_leadTransferee r3
       then bindR (raft_pr r3 (m_from m)) (\<lambda>pr3.
            bindR (RaftLog_lastIndex (r_raftLog r3)) (\<lambda>li.
              if pr_match pr3 = li then raft_sendTimeoutNow r3 (m_from m) else Inr r3))
       else Inr r3) = Inr r'"
    using assms(1) unfolding append_accepted_def by auto
  have "J r0 r1" using maybeCommit_J [OF c] assms(2) by simp
  then have "J r0 r2"
    using r2 by (auto split: if_splits dest: releasePendingReadIndexMessages_J bcastAppend_J sendAppend_J)
  then have "J r0 r3" using r3 by (auto split: if_splits dest: send_all_J)
  then show ?thesis using r' by (auto split: if_splits dest: sendTimeoutNow_J)
qed

lemma stepLeader_MsgAppResp_J: "stepLeader_MsgAppResp E r m pr = Inr r' \<Longrightarrow> J r0 r \<Longrightarrow> J r0 r'"
  unfolding stepLeader_MsgAppResp_def Let_def
  by (auto split: if_splits prod.splits dest: append_rejected_J append_accepted_J)

text \<open>Role transitions.\<close>

lemma becomeFollower_I:
  assumes "raft_becomeFollower E r te x = Inr r'" "I r" "r_term r \<le> te"
  shows "I r'" "r_state r' = StateFollower" "r_term r' = te" "trk_config (r_trk r') = trk_config (r_trk r)"
proof -
  obtain s where s: "raft_reset E r te = Inr s" and r': "r' = s\<lparr>r_lead := x, r_state := StateFollower\<rparr>"
    using assms(1) by (auto simp: raft_becomeFollower_def)
  have "restarted te r s" using okayD [OF reset_effect s] by simp
  then have "restarted te r r'" by (simp add: r' restarted_def settings_def)
  then show "I r'" "r_state r' = StateFollower" "r_term r' = te" "trk_config (r_trk r') = trk_config (r_trk r)"
    using I_follower [OF assms(2,3)] by (simp_all add: r' restarted_def)
qed

lemma becomeFollower_log: "raft_becomeFollower E r te x = Inr r' \<Longrightarrow> r_raftLog r' = r_raftLog r"
  using okayD [OF reset_effect] by (fastforce simp: raft_becomeFollower_def restarted_def)

lemma becomeCandidate_I:
  assumes "raft_becomeCandidate E r = Inr r'" "I r" "r_term r + 1 < W64"
  shows "I r'" "r_state r' = StateCandidate" "r_vote r' = r_id r'" "r_term r' = r_term r + 1"
proof -
  obtain s where s: "raft_reset E r (add64 (r_term r) 1) = Inr s" and l: "r_state r \<noteq> StateLeader"
    and r': "r' = s\<lparr>r_vote := r_id s, r_state := StateCandidate\<rparr>"
    using assms(1) by (auto simp: raft_becomeCandidate_def split: if_splits)
  have e: "add64 (r_term r) 1 = r_term r + 1" using assms(3) by simp
  have "restarted (r_term r + 1) r s" "r_lead s = NoneId"
    using okayD [OF reset_effect s] unfolding e by simp_all
  then show "I r'" "r_state r' = StateCandidate" "r_vote r' = r_id r'" "r_term r' = r_term r + 1"
    using I_candidate [OF assms(2) l assms(3)] by (simp_all add: r' restarted_def)
qed

lemma becomePreCandidate_I:
  "raft_becomePreCandidate r = Inr r' \<Longrightarrow> I r \<Longrightarrow> I r' \<and> r_term r' = r_term r"
  using I_preCandidate [of r] by (auto simp: raft_becomePreCandidate_def split: if_splits)

lemma becomeLeader_I:
  assumes "raft_becomeLeader E r = Inr r'" "I r" "r_state r = StateCandidate"
    and "JointConfig_GetVoteResult (cfg_voters (trk_config (r_trk r))) (trk_votes (r_trk r)) = VoteWon" "fits r 1"
  shows "I r'"
proof -
  obtain s pr li ok where s: "raft_reset E r (r_term r) = Inr s"
    and a: "raft_appendEntry ((set_pr (s\<lparr>r_lead := r_id s, r_state := StateLeader\<rparr>) (r_id s)
        ((Progress_BecomeReplicate pr)\<lparr>pr_recentActive := True\<rparr>))\<lparr>r_pendingConfIndex := li\<rparr>) [Entry0] = Inr (r', ok)"
    using assms(1) by (auto simp: raft_becomeLeader_def Let_def split: if_splits)
  let ?t = "s\<lparr>r_lead := r_id s, r_state := StateLeader\<rparr>"
  have "I ?t" using I_leader [OF assms(2-4)] okayD [OF reset_effect s] by simp
  then have "J ?t ((set_pr ?t (r_id s) ((Progress_BecomeReplicate pr)\<lparr>pr_recentActive := True\<rparr>))\<lparr>r_pendingConfIndex := li\<rparr>)"
    by (simp add: J_def I_updates)
  with a have "J ?t r'"
    by (rule appendEntry_J) (use fits_log [OF assms(5)] okayD [OF reset_effect s] in \<open>simp_all add: set_pr_def restarted_def\<close>)
  then show ?thesis by (simp add: J_def)
qed

text \<open>Campaigns.\<close>

lemma requestVote_J:
  assumes "raft_requestVote te voteMsg t i r = Inr r'" "J r0 r"
    and "voteMsg = MsgPreVote \<or> voteMsg = MsgVote \<and> te = r_term r0 \<and> r_vote r0 = r_id r0"
  shows "J r0 r'"
proof -
  have k: "r_id r = r_id r0" "r_term r = r_term r0" "r_vote r = r_vote r0"
    using assms(2) by (simp_all add: J_def keepsD)
  show ?thesis
  proof (cases "i = r_id r")
    case True
    obtain resp where resp: "voteRespMsgType voteMsg = Inr resp"
      and s: "raft_send r (Message0\<lparr>m_to := i, m_term := te, m_type := resp\<rparr>) = Inr r'"
      using assms(1) True by (auto simp: raft_requestVote_def)
    have "okay (raft_send r (Message0\<lparr>m_to := i, m_term := te, m_type := resp\<rparr>)) (J r0)"
      using resp assms(3) k True by (intro send_J [OF assms(2)]) (auto simp: Message0_def NoneId_def)
    then show ?thesis using s by (simp add: okay_def)
  next
    case False
    then show ?thesis
      using assms by (auto simp: raft_requestVote_def) (erule send_plain; simp)+
  qed
qed

lemma campaign_I:
  assumes "raft_campaign E r t = Inr r'" "I r" "r_term r + 1 < W64"
  shows "I r'"
proof -
  obtain r1 voteMsg te where r1: "(if t = campaignPreElection
        then bindR (raft_becomePreCandidate r) (\<lambda>r1. Inr (r1, MsgPreVote, add64 (r_term r1) 1))
        else bindR (raft_becomeCandidate E r) (\<lambda>r1. Inr (r1, MsgVote, r_term r1))) = Inr (r1, voteMsg, te)"
    and f: "foldR (raft_requestVote te voteMsg t)
         (sorted_list_of_set (JointConfig_IDs (cfg_voters (trk_config (r_trk r1))))) r1 = Inr r'"
    using assms(1) unfolding raft_campaign_def by auto
  have "I r1" and v: "voteMsg = MsgPreVote \<or> voteMsg = MsgVote \<and> te = r_term r1 \<and> r_vote r1 = r_id r1"
    using r1 assms(2,3) becomePreCandidate_I [of r r1] becomeCandidate_I [of r r1] by (auto split: if_splits)
  from f have "J r1 r'"
  proof (rule fold_J)
    show "J r1 r1" using \<open>I r1\<close> by (rule J_start)
  qed (rule requestVote_J [OF _ _ v])
  then show ?thesis by (simp add: J_def)
qed

lemma hup_I:
  assumes "raft_hup E r t = Inr r'" "I r" "r_term r + 1 < W64"
  shows "I r'"
  using assms campaign_I [of r t r'] by (auto simp: raft_hup_def split: if_splits)

lemma stepCandidate_vote_I:
  assumes "stepCandidate_vote E r m = Inr r'" "I r" "good m" "term_fits r m"
    and "r_state r = StateCandidate \<or> r_state r = StatePreCandidate" "r_term r + 1 < W64" "fits r 1"
  shows "I r'"
proof (cases "r_state r = StatePreCandidate \<and> m_type m = MsgPreVoteResp \<or>
    r_state r \<noteq> StatePreCandidate \<and> m_type m = MsgVoteResp")
  case False
  then show ?thesis using assms(1,2) by (auto simp: stepCandidate_vote_def split: if_splits)
next
  case True
  obtain r1 a b where r1: "r1 = r\<lparr>r_trk := ProgressTracker_RecordVote (r_trk r) (m_from m) (\<not> m_reject m)\<rparr>"
    and p: "raft_poll r (m_from m) (m_type m) (\<not> m_reject m) =
      (r1, a, b, JointConfig_GetVoteResult (cfg_voters (trk_config (r_trk r1))) (trk_votes (r_trk r1)))"
    using poll_result [of r "m_from m" "m_type m" "\<not> m_reject m"] by auto
  have I1: "I r1" unfolding r1 using I_record [OF assms(2-4)] True assms(5) by auto
  have f: "r_state r1 = r_state r" "r_term r1 = r_term r" by (simp_all add: r1)
  have "(case JointConfig_GetVoteResult (cfg_voters (trk_config (r_trk r1))) (trk_votes (r_trk r1)) of
           VoteWon \<Rightarrow> if r_state r1 = StatePreCandidate then raft_campaign E r1 campaignElection
             else bindR (raft_becomeLeader E r1) (raft_bcastAppend E)
         | VoteLost \<Rightarrow> raft_becomeFollower E r1 (r_term r1) NoneId
         | VotePending \<Rightarrow> Inr r1) = Inr r'"
    using assms(1) True unfolding stepCandidate_vote_def p by auto
  then show ?thesis
    using I1 f assms(5,6) fits_log [OF assms(7), of r1] r1 campaign_I [of r1 campaignElection r'] becomeLeader_I [of r1]
      becomeFollower_I [of r1 "r_term r1" NoneId r']
    by (auto split: VoteResult.splits if_splits dest: bcastAppend_J [OF _ J_start] simp: J_def)
qed

text \<open>Handlers of a follower.\<close>

lemma handleAppendEntries_I:
  assumes "raft_handleAppendEntries r m = Inr r'" "I r" "good m" "m_type m = MsgApp" "r_state r = StateFollower"
  shows "I r'"
proof (cases "m_index m < l_committed (r_raftLog r)")
  case True
  then have s: "raft_send r (Message0\<lparr>m_to := m_from m, m_type := MsgAppResp, m_index := l_committed (r_raftLog r)\<rparr>) = Inr r'"
    using assms(1) by (simp add: raft_handleAppendEntries_def)
  then show ?thesis using send_plain [OF s J_start [OF assms(2)]] by (simp add: J_def)
next
  case False
  then obtain l i ok m' where
    l: "RaftLog_maybeAppend (r_raftLog r) (m_index m) (m_logterm m) (m_commit m) (m_entries m) = Inr (l, i, ok)"
    and s: "raft_send (r\<lparr>r_raftLog := l\<rparr>) m' = Inr r'" "m_type m' = MsgAppResp"
    using assms(1) by (fastforce simp: raft_handleAppendEntries_def Let_def split: if_splits)
  have "I (r\<lparr>r_raftLog := l\<rparr>)" using I_maybeAppend [OF assms(2,3,5,4) l] .
  then show ?thesis using send_plain [OF s(1) J_start] s(2) by (simp add: J_def)
qed

lemma handleHeartbeat_I:
  assumes "raft_handleHeartbeat r m = Inr r'" "I r"
  shows "I r'"
proof -
  obtain l where l: "RaftLog_commitTo (r_raftLog r) (m_commit m) = Inr l"
    and s: "raft_send (r\<lparr>r_raftLog := l\<rparr>)
         (Message0\<lparr>m_to := m_from m, m_type := MsgHeartbeatResp, m_context := m_context m\<rparr>) = Inr r'"
    using assms(1) by (auto simp: raft_handleHeartbeat_def)
  show ?thesis using send_plain [OF s J_start [OF I_commitTo [OF assms(2) l]]] by (simp add: J_def)
qed

text \<open>A new configuration.\<close>

lemma switchToConfig_I:
  assumes "raft_switchToConfig E r cfg prs = Inr (r', cs)" "I r" "cfg_ok cfg"
  shows "I r'" "trk_config (r_trk r') = cfg"
proof -
  let ?r1 = "r\<lparr>r_trk := (r_trk r)\<lparr>trk_config := cfg, trk_progress := prs\<rparr>,
      r_isLearner := (case prs (r_id r) of None \<Rightarrow> False | Some pr \<Rightarrow> pr_isLearner pr)\<rparr>"
  have "I (r\<lparr>r_trk := (r_trk r)\<lparr>trk_config := cfg, trk_progress := prs\<rparr>\<rparr>)"
    using I_config [OF assms(2), of "(r_trk r)\<lparr>trk_config := cfg, trk_progress := prs\<rparr>"] assms(3) by simp
  then have I1: "I ?r1" by (simp add: I_updates)
  consider "r' = ?r1" | "raft_becomeFollower E ?r1 (r_term r) NoneId = Inr r'"
    | r2 adv r3 where "raft_maybeCommit ?r1 = Inr (r2, adv)"
        "(if adv then raft_bcastAppend E r2 else raft_visitMaybeSendAppend E r2) = Inr r3"
        "r' = r3 \<or> r' = raft_abortLeaderTransfer r3"
    using assms(1) by (auto simp: raft_switchToConfig_def Let_def split: if_splits)
  then have "I r' \<and> trk_config (r_trk r') = cfg"
  proof (cases)
    case 1
    then show ?thesis using I1 by simp
  next
    case 2
    then show ?thesis using becomeFollower_I [OF 2 I1] by simp
  next
    case 3
    have "J ?r1 r2" using maybeCommit_J [OF 3(1)] J_start [OF I1] by simp
    then have "J ?r1 r3" using 3(2) by (auto split: if_splits dest: bcastAppend_J visitMaybeSendAppend_J)
    then have "J ?r1 r'" using 3(3) by (auto simp: raft_abortLeaderTransfer_def)
    then show ?thesis by (simp add: J_def keeps_def)
  qed
  then show "I r'" "trk_config (r_trk r') = cfg" by simp_all
qed

end

text \<open>With the trivial predicate the interface says what the code leaves alone.\<close>

definition has_term :: "message \<Rightarrow> bool" where
  "has_term m \<longleftrightarrow> (m_type m = MsgApp \<or> m_type m = MsgHeartbeat \<or> m_type m = MsgSnap \<longrightarrow> m_term m \<noteq> 0)"

interpretation any_node: raft_invariant E "\<lambda>_. True" has_term "\<lambda>_. True" "\<lambda>_ _. True" for E
  by unfold_locales (simp_all add: has_term_def)

context raft_invariant
begin

lemma applyConfChange_I:
  assumes "raft_applyConfChange E r cc = Inr (r', cs)" "I r" "cfg_ok (trk_config (r_trk r'))"
  shows "I r'"
proof -
  obtain x where "(case x of (cfg, prs, err) \<Rightarrow>
      if err \<noteq> Ok then Inl (Panic (error_msg err)) else raft_switchToConfig E r cfg prs) = Inr (r', cs)"
    using assms(1) unfolding raft_applyConfChange_def Let_def by (elim bindR_InrE)
  then obtain cfg prs where s: "raft_switchToConfig E r cfg prs = Inr (r', cs)"
    by (cases x) (auto split: if_splits)
  then show ?thesis
    using switchToConfig_I(1) [OF s assms(2)] any_node.switchToConfig_I(2) [OF s] assms(3) by simp
qed

lemma switchToConfig_follower:
  "r_state r = StateFollower \<Longrightarrow> raft_switchToConfig E r cfg prs = Inr (r', cs) \<Longrightarrow>
   r' = r\<lparr>r_trk := (r_trk r)\<lparr>trk_config := cfg, trk_progress := prs\<rparr>,
      r_isLearner := (case prs (r_id r) of None \<Rightarrow> False | Some pr \<Rightarrow> pr_isLearner pr)\<rparr>"
  by (simp add: raft_switchToConfig_def Let_def)

lemma installSnapshot_I:
  assumes "raft_installSnapshot E r (m_snapshot m) = Inr r'" "I r" "good m" "m_type m = MsgSnap"
    and "r_state r = StateFollower" "l_committed (r_raftLog r) < sn_index (m_snapshot m)"
    and "cfg_ok (trk_config (r_trk r'))"
  shows "I r'"
proof -
  let ?l = "RaftLog_restore (r_raftLog r) (m_snapshot m)"
    and ?t = "MakeProgressTracker (trk_maxInflight (r_trk r)) (trk_maxInflightBytes (r_trk r))"
  obtain x where x: "(case x of (cfg, prs, err) \<Rightarrow>
      if err \<noteq> Ok then Inl (Panic ''unable to restore config'')
      else bindR (raft_switchToConfig E (r\<lparr>r_raftLog := ?l, r_trk := ?t\<rparr>) cfg prs) (\<lambda>(r2, cs2).
        if Equivalent (sm_conf_state (sn_metadata (m_snapshot m))) cs2 \<noteq> Ok
        then Inl (Panic (error_msg (Equivalent (sm_conf_state (sn_metadata (m_snapshot m))) cs2)))
        else bindR (raft_pr r2 (r_id r2)) (\<lambda>pr.
          Inr (set_pr r2 (r_id r2) (fst (Progress_MaybeUpdate pr (sub64 (pr_next pr) 1))))))) = Inr r'"
    using assms(1) unfolding raft_installSnapshot_def Let_def by (elim bindR_InrE)
  then obtain cfg prs r2 cs i p where sw: "raft_switchToConfig E (r\<lparr>r_raftLog := ?l, r_trk := ?t\<rparr>) cfg prs = Inr (r2, cs)"
    and r': "r' = set_pr r2 i p"
    by (cases x) (force split: if_splits)
  have r2: "r2 = r\<lparr>r_raftLog := ?l, r_trk := ?t\<lparr>trk_config := cfg, trk_progress := prs\<rparr>,
      r_isLearner := (case prs (r_id r) of None \<Rightarrow> False | Some pr \<Rightarrow> pr_isLearner pr)\<rparr>"
    using switchToConfig_follower [OF _ sw] assms(5) by simp
  have "I (r\<lparr>r_raftLog := ?l\<rparr>)" using I_restore [OF assms(2,3,5,4,6)] .
  moreover have "cfg_ok cfg" using assms(7) r' r2 by (simp add: set_pr_def)
  ultimately have "I (r\<lparr>r_raftLog := ?l, r_trk := ?t\<lparr>trk_config := cfg, trk_progress := prs\<rparr>\<rparr>)"
    using I_config [of "r\<lparr>r_raftLog := ?l\<rparr>" "?t\<lparr>trk_config := cfg, trk_progress := prs\<rparr>"]
    by (simp add: MakeProgressTracker_def)
  then show ?thesis by (simp add: r' r2 I_updates)
qed

lemma restore_I:
  assumes "raft_restore E r (m_snapshot m) = Inr (r', b)" "I r" "good m" "m_type m = MsgSnap"
    and "r_state r = StateFollower" "cfg_ok (trk_config (r_trk r'))"
  shows "I r'"
proof -
  let ?s = "m_snapshot m"
  consider "r' = r" | l where "RaftLog_commitTo (r_raftLog r) (sn_index ?s) = Inr l" "r' = r\<lparr>r_raftLog := l\<rparr>"
    | "l_committed (r_raftLog r) < sn_index ?s" "raft_installSnapshot E r ?s = Inr r'"
  proof (cases "sn_index ?s \<le> l_committed (r_raftLog r) \<or> r_id r \<notin> set (cs_voters (sm_conf_state (sn_metadata ?s))) \<union>
      set (cs_learners (sm_conf_state (sn_metadata ?s))) \<union> set (cs_voters_outgoing (sm_conf_state (sn_metadata ?s)))")
    case True
    then show thesis
      using assms(1,5) that(1) unfolding raft_restore_def Let_def by (simp split: if_splits)
  next
    case False
    then have "bindR (RaftLog_matchTerm (r_raftLog r) (sn_index ?s) (sn_term ?s)) (\<lambda>matched.
        if matched
        then bindR (RaftLog_commitTo (r_raftLog r) (sn_index ?s)) (\<lambda>l. Inr (r\<lparr>r_raftLog := l\<rparr>, False))
        else bindR (raft_installSnapshot E r ?s) (\<lambda>r'. Inr (r', True))) = Inr (r', b)"
      using assms(1,5) unfolding raft_restore_def Let_def by simp
    then show thesis using that(2,3) False by (elim bindR_InrE) (auto split: if_splits)
  qed
  then show ?thesis
  proof (cases)
    case 1
    then show ?thesis using assms(2) by simp
  next
    case 2
    then show ?thesis using I_commitTo [OF assms(2) 2(1)] by simp
  next
    case 3
    then show ?thesis using installSnapshot_I [OF 3(2) assms(2-5) 3(1) assms(6)] by simp
  qed
qed

lemma handleSnapshot_I:
  assumes "raft_handleSnapshot E r m = Inr r'" "I r" "good m" "m_type m = MsgSnap"
    and "r_state r = StateFollower" "cfg_ok (trk_config (r_trk r'))"
  shows "I r'"
proof -
  let ?s = "if IsEmptySnap (m_snapshot m) then Snapshot0 else m_snapshot m"
  obtain r1 b m' where r1: "raft_restore E r ?s = Inr (r1, b)"
    and s: "raft_send r1 m' = Inr r'" "m_type m' = MsgAppResp"
    using assms(1) unfolding raft_handleSnapshot_def Let_def by (fastforce split: if_splits)
  have "trk_config (r_trk r') = trk_config (r_trk r1)"
    using any_node.send_plain [OF s(1) any_node.J_start] s(2) by (simp add: any_node.J_def keepsD)
  then have cfg: "cfg_ok (trk_config (r_trk r1))" using assms(6) by simp
  have "I r1"
  proof (cases "IsEmptySnap (m_snapshot m)")
    case True
    then have "r1 = r" using r1 by (simp add: raft_restore_def Snapshot0_def)
    then show ?thesis using assms(2) by simp
  next
    case False
    then show ?thesis using restore_I [OF _ assms(2-5) cfg] r1 by simp
  qed
  then show ?thesis using send_plain [OF s(1) J_start] s(2) by (simp add: J_def)
qed

text \<open>The three roles.\<close>

lemma stepFollower_I:
  assumes "stepFollower E r m = Inr (r', err)" "I r" "good m" "r_state r = StateFollower" "r_term r + 1 < W64"
    and "cfg_ok (trk_config (r_trk r'))"
  shows "I r'"
proof -
  let ?f = "r\<lparr>r_electionElapsed := 0, r_lead := m_from m\<rparr>"
  have "?f = (r\<lparr>r_lead := m_from m\<rparr>)\<lparr>r_electionElapsed := 0\<rparr>" by simp
  then have f: "I ?f" using I_follow [OF assms(2,4)] by (simp only: I_updates)
  have fwd: "I r'" if "r' = r \<or> raft_send r (m\<lparr>m_to := r_lead r\<rparr>) = Inr r'" "m_type m \<noteq> MsgVoteResp"
    using that assms(2) send_plain [OF _ J_start [OF assms(2)], of "m\<lparr>m_to := r_lead r\<rparr>" r'] by (auto simp: J_def)
  note D = assms(1) [unfolded stepFollower_def ok_step_def]
  show ?thesis
  proof (cases "m_type m")
    case MsgProp
    then show ?thesis using D by (intro fwd) (auto split: if_splits)
  next
    case MsgApp
    then show ?thesis using D handleAppendEntries_I [OF _ f assms(3)] assms(4) by auto
  next
    case MsgHeartbeat
    then show ?thesis using D handleHeartbeat_I [OF _ f] by auto
  next
    case MsgSnap
    then show ?thesis using D handleSnapshot_I [OF _ f assms(3)] assms(4,6) by auto
  next
    case MsgTransferLeader
    then show ?thesis using D by (intro fwd) (auto split: if_splits)
  next
    case MsgForgetLeader
    then show ?thesis using D assms(2) I_follow [OF assms(2,4)] by (auto split: if_splits)
  next
    case MsgTimeoutNow
    then show ?thesis using D hup_I [OF _ assms(2,5)] by auto
  next
    case MsgReadIndex
    then show ?thesis using D by (intro fwd) (auto split: if_splits)
  next
    case MsgReadIndexResp
    then show ?thesis using D assms(2) by (auto simp: I_updates split: list.splits)
  qed (use D assms(2) in simp_all)
qed

lemma stepCandidate_I:
  assumes "stepCandidate E r m = Inr (r', err)" "I r" "good m" "term_fits r m"
    and "r_state r = StateCandidate \<or> r_state r = StatePreCandidate" "r_term r + 1 < W64"
    and "cfg_ok (trk_config (r_trk r'))" "fits r 1"
  shows "I r'"
proof -
  have te: "m_term m = r_term r" if "m_type m = MsgApp \<or> m_type m = MsgHeartbeat \<or> m_type m = MsgSnap"
    using that good_term [OF assms(3)] assms(4) by (auto simp: term_fits_def)
  consider r1 where "m_type m = MsgApp" "raft_becomeFollower E r (m_term m) (m_from m) = Inr r1"
        "raft_handleAppendEntries r1 m = Inr r'"
    | r1 where "m_type m = MsgHeartbeat" "raft_becomeFollower E r (m_term m) (m_from m) = Inr r1"
        "raft_handleHeartbeat r1 m = Inr r'"
    | r1 where "m_type m = MsgSnap" "raft_becomeFollower E r (m_term m) (m_from m) = Inr r1"
        "raft_handleSnapshot E r1 m = Inr r'"
    | "stepCandidate_vote E r m = Inr r'"
    | "r' = r"
    using assms(1) by (cases "m_type m") (auto simp: stepCandidate_def ok_step_def)
  then show ?thesis
  proof (cases)
    case 1
    note F = becomeFollower_I [OF 1(2) assms(2)]
    show ?thesis using handleAppendEntries_I [OF 1(3) _ assms(3) 1(1)] F te 1(1) by simp
  next
    case 2
    note F = becomeFollower_I [OF 2(2) assms(2)]
    show ?thesis using handleHeartbeat_I [OF 2(3)] F te 2(1) by simp
  next
    case 3
    note F = becomeFollower_I [OF 3(2) assms(2)]
    show ?thesis using handleSnapshot_I [OF 3(3) _ assms(3) 3(1)] F te 3(1) assms(7) by simp
  next
    case 4
    then show ?thesis using stepCandidate_vote_I [OF 4 assms(2-6,8)] by simp
  next
    case 5
    then show ?thesis using assms(2) by simp
  qed
qed

lemma stepLeader_MsgCheckQuorum_I:
  assumes "stepLeader_MsgCheckQuorum E r = Inr r'" "I r"
  shows "I r'"
proof -
  let ?f = "\<lambda>i r. if i \<noteq> r_id r then bindR (raft_pr r i) (\<lambda>pr. Inr (set_pr r i (pr\<lparr>pr_recentActive := False\<rparr>))) else Inr r"
  obtain r1 where r1: "(if ProgressTracker_QuorumActive (r_trk r) then Inr r
        else raft_becomeFollower E r (r_term r) NoneId) = Inr r1"
    and v: "raft_visit ?f r1 = Inr r'"
    using assms(1) unfolding stepLeader_MsgCheckQuorum_def by (elim bindR_InrE)
  have "I r1" using r1 assms(2) becomeFollower_I(1) [of r "r_term r" NoneId r1] by (auto split: if_splits)
  with v have "J r1 r'" by (rule visit_J [OF _ J_start]) (auto split: if_splits)
  then show ?thesis by (simp add: J_def)
qed

lemma stepLeader_progress_J:
  assumes "stepLeader_progress E r m = Inr (r', err)" "J r0 r"
  shows "J r0 r'"
proof (cases "trk_progress (r_trk r) (m_from m)")
  case None
  then show ?thesis using assms by (simp add: stepLeader_progress_def)
next
  case (Some pr)
  consider "stepLeader_MsgAppResp E r m pr = Inr r'" | "stepLeader_MsgHeartbeatResp E r m pr = Inr r'"
    | "r' = stepLeader_MsgSnapStatus r m pr" | "r' = stepLeader_MsgUnreachable r m pr"
    | "stepLeader_MsgTransferLeader E r m pr = Inr r'" | "r' = r"
    using assms(1) Some by (cases "m_type m") (auto simp: stepLeader_progress_def ok_step_def)
  then show ?thesis
    using assms(2)
    by cases (auto simp: stepLeader_MsgSnapStatus_def stepLeader_MsgUnreachable_def Let_def
        dest: stepLeader_MsgAppResp_J stepLeader_MsgHeartbeatResp_J stepLeader_MsgTransferLeader_J)
qed

lemma stepLeader_I:
  assumes "stepLeader E r m = Inr (r', err)" "I r" "r_state r = StateLeader" "fits r (length (m_entries m))"
  shows "I r'"
proof -
  note J0 = J_start [OF assms(2)]
  consider "raft_bcastHeartbeat r = Inr r'" | "stepLeader_MsgCheckQuorum E r = Inr r'"
    | "stepLeader_MsgProp E r m = Inr (r', err)" | "stepLeader_MsgReadIndex r m = Inr r'" | "r' = r"
    | "stepLeader_progress E r m = Inr (r', err)"
    using assms(1) by (cases "m_type m") (auto simp: stepLeader_def ok_step_def)
  then show ?thesis
  proof (cases)
    case 2
    then show ?thesis using stepLeader_MsgCheckQuorum_I [OF 2 assms(2)] by simp
  next
    case 3
    then show ?thesis using stepLeader_MsgProp_J [OF 3 J0 assms(3,4)] by (simp add: J_def)
  qed (use assms(2) bcastHeartbeat_J [OF _ J0] stepLeader_MsgReadIndex_J [OF _ J0] stepLeader_progress_J [OF _ J0]
       in \<open>auto simp: J_def\<close>)
qed

text \<open>Step.\<close>

lemma appliedTo_J:
  assumes "raft_appliedTo E r i sz = Inr r'" "J r0 r" "fits r 1"
  shows "J r0 r'"
proof -
  let ?i = "max i (l_applied (r_raftLog r))"
  obtain l where l: "RaftLog_appliedTo (r_raftLog r) ?i sz = Inr l"
    and r': "(if cfg_autoLeave (trk_config (r_trk (r\<lparr>r_raftLog := l\<rparr>))) \<and> r_pendingConfIndex (r\<lparr>r_raftLog := l\<rparr>) \<le> ?i \<and>
          r_state (r\<lparr>r_raftLog := l\<rparr>) = StateLeader
        then case confChangeToMsg E None of (m, err) \<Rightarrow>
          if err \<noteq> Ok then Inl (Panic (error_msg err))
          else bindR (stepLeader_MsgProp E (r\<lparr>r_raftLog := l\<rparr>) m) (\<lambda>(r2, _). Inr r2)
        else Inr (r\<lparr>r_raftLog := l\<rparr>)) = Inr r'"
    using assms(1) unfolding raft_appliedTo_def Let_def by (elim bindR_InrE)
  have J1: "J r0 (r\<lparr>r_raftLog := l\<rparr>)" using I_appliedTo [OF _ l] assms(2) by (simp add: J_def)
  show ?thesis
    using r' J1 J_state [OF J1] fits_appliedTo [OF assms(3) l]
    by (auto simp: confChangeToMsg_None Message0_def split: if_splits elim!: stepLeader_MsgProp_J)
qed

lemma appliedSnap_J:
  assumes "raft_appliedSnap E r (m_snapshot m) = Inr r'" "J r0 r" "good m" "m_type m = MsgStorageAppendResp" "fits r 1"
  shows "J r0 r'"
proof -
  have "I (r\<lparr>r_raftLog := RaftLog_stableSnapTo (r_raftLog r) (sn_index (m_snapshot m))\<rparr>)"
    using I_stableSnapTo [OF _ assms(3,4)] assms(2) by (simp add: J_def)
  then show ?thesis
    using appliedTo_J [OF assms(1) [unfolded raft_appliedSnap_def], of r0] assms(2) fits_stableSnapTo [OF assms(5) _ assms(3,4)]
    by (simp add: J_def)
qed

lemma step_storageAppendResp_J:
  assumes "step_storageAppendResp E r m = Inr r'" "J r0 r" "good m" "m_type m = MsgStorageAppendResp"
    and "m_term m = 0 \<or> m_term m = r_term r" "fits r 1"
  shows "J r0 r'"
proof -
  obtain r1 where r1: "(if m_index m \<noteq> 0
            then bindR (RaftLog_stableTo (r_raftLog r) (m_index m) (m_logterm m)) (\<lambda>l. Inr (r\<lparr>r_raftLog := l\<rparr>))
            else Inr r) = Inr r1"
    and r': "(if IsEmptySnap (m_snapshot m) then Inr r1 else raft_appliedSnap E r1 (m_snapshot m)) = Inr r'"
    using assms(1) unfolding step_storageAppendResp_def by (elim bindR_InrE)
  have "J r0 r1"
    using r1 assms(2) I_stableTo [OF _ assms(3-5)] by (auto simp: J_def split: if_splits)
  moreover have "fits r1 1"
    using r1 assms(2,6) fits_stableTo [OF assms(6) _ assms(3,4)] by (auto simp: J_def split: if_splits)
  ultimately show ?thesis using r' appliedSnap_J [OF _ _ assms(3,4)] by (auto split: if_splits)
qed

lemma step_storageApplyResp_J: "step_storageApplyResp E r m = Inr r' \<Longrightarrow> J r0 r \<Longrightarrow> fits r 1 \<Longrightarrow> J r0 r'"
  unfolding step_storageApplyResp_def
  by (auto simp: raft_reduceUncommittedSize_def split: if_splits dest: appliedTo_J)

lemma step_vote_I:
  assumes "step_vote r m = Inr r'" "I r" "good m" "m_type m = MsgVote \<or> m_type m = MsgPreVote" "term_fits r m"
  shows "I r'"
proof -
  obtain g resp where g: "(if can_vote r m then RaftLog_isUpToDate (r_raftLog r) (m_index m) (m_logterm m) else Inr False) = Inr g"
    and resp: "voteRespMsgType (m_type m) = Inr resp"
    and r': "(if g
       then bindR (raft_send r (Message0\<lparr>m_to := m_from m, m_term := m_term m, m_type := resp\<rparr>)) (\<lambda>r1.
              Inr (if m_type m = MsgVote then r1\<lparr>r_electionElapsed := 0, r_vote := m_from m\<rparr> else r1))
       else raft_send r (Message0\<lparr>m_to := m_from m, m_term := r_term r, m_type := resp, m_reject := True\<rparr>)) = Inr r'"
    using assms(1) unfolding step_vote_def by (elim bindR_InrE)
  let ?m = "Message0\<lparr>m_to := m_from m, m_term := m_term m, m_type := resp\<rparr>"
  consider (reject) "\<not> g" | (pre) "g" "m_type m = MsgPreVote" | (vote) "g" "m_type m = MsgVote" using assms(4) by blast
  then show ?thesis
  proof (cases)
    case reject
    then have s: "raft_send r (Message0\<lparr>m_to := m_from m, m_term := r_term r, m_type := resp, m_reject := True\<rparr>) = Inr r'"
      using r' by simp
    show ?thesis using okayD [OF send_J [OF J_start [OF assms(2)]] s] by (simp add: J_def)
  next
    case pre
    then have s: "raft_send r ?m = Inr r'" "resp = MsgPreVoteResp" using r' resp by auto
    show ?thesis using send_plain [OF s(1) J_start [OF assms(2)]] s(2) by (simp add: J_def)
  next
    case vote
    then obtain r1 where s: "raft_send r ?m = Inr r1" and r1: "r' = r1\<lparr>r_electionElapsed := 0, r_vote := m_from m\<rparr>"
      using r' by auto
    have resp': "resp = MsgVoteResp" using vote resp by simp
    then have r1': "r1 = r\<lparr>r_msgsAfterAppend := r_msgsAfterAppend r @ [stamped r ?m]\<rparr>" and t: "m_term m \<noteq> 0"
      using s by (auto simp: send_eq after_append_def is_vote_msg_def split: if_splits)
    have te: "m_term m = r_term r" using t assms(5) vote(2) by (auto simp: term_fits_def)
    have "can_vote r m" using g vote(1) by (auto split: if_splits)
    then have "I (r\<lparr>r_vote := m_from m\<rparr>)" using I_cast [OF assms(2,3)] vote(2) by (auto simp: can_vote_def)
    then have "I (r\<lparr>r_vote := m_from m\<rparr>\<lparr>r_msgsAfterAppend := r_msgsAfterAppend (r\<lparr>r_vote := m_from m\<rparr>) @ [stamped r ?m]\<rparr>)"
      by (rule I_emit_after) (use resp' te t assms(3) vote(2) in \<open>auto simp: sendable_def after_append_def is_vote_msg_def Message0_def NoneId_def\<close>)
    then show ?thesis by (rule I_quiet) (simp add: r1 r1' quiet_def settings_def)
  qed
qed

lemma step_by_state_I:
  assumes "step_by_state E r m = Inr (r', err)" "I r" "good m" "term_fits r m" "r_term r + 1 < W64"
    and "cfg_ok (trk_config (r_trk r'))" "fits r 1" "fits r (length (m_entries m))"
  shows "I r'"
  using assms(1) stepFollower_I [OF _ assms(2,3) _ assms(5,6)] stepCandidate_I [OF _ assms(2-4) _ assms(5,6,7)]
    stepLeader_I [OF _ assms(2) _ assms(8)]
  by (cases "r_state r") (simp_all add: step_by_state_def)

lemma step_by_type_I:
  assumes "step_by_type E r m = Inr (r', err)" "I r" "good m" "term_fits r m" "r_term r + 1 < W64"
    and "cfg_ok (trk_config (r_trk r'))" "fits r 1" "fits r (length (m_entries m))"
  shows "I r'"
proof -
  note D = assms(1) [unfolded step_by_type_def ok_step_def] and J0 = J_start [OF assms(2)]
  show ?thesis
  proof (cases "m_type m")
    case MsgHup
    then show ?thesis using D hup_I [OF _ assms(2,5)] by auto
  next
    case MsgStorageAppendResp
    then have "m_term m = 0 \<or> m_term m = r_term r" using assms(4) by (auto simp: term_fits_def)
    then show ?thesis
      using D MsgStorageAppendResp step_storageAppendResp_J [OF _ J0 assms(3)] assms(7) by (auto simp: J_def)
  next
    case MsgStorageApplyResp
    then show ?thesis using D step_storageApplyResp_J [OF _ J0 assms(7)] by (auto simp: J_def)
  next
    case MsgVote
    then show ?thesis using D step_vote_I [OF _ assms(2,3) _ assms(4)] by auto
  next
    case MsgPreVote
    then show ?thesis using D step_vote_I [OF _ assms(2,3) _ assms(4)] by auto
  qed (use D step_by_state_I [OF _ assms(2-8)] in simp_all)
qed

lemma step_higher_term_I:
  assumes "step_higher_term E r m = Inr (r', b)" "I r" "r_term r < m_term m"
  shows "I r'" "b \<Longrightarrow> term_fits r' m" "r_term r' = r_term r \<or> r_term r' = m_term m" "r_raftLog r' = r_raftLog r"
proof -
  let ?x = "if m_type m = MsgApp \<or> m_type m = MsgHeartbeat \<or> m_type m = MsgSnap then m_from m else NoneId"
  have "r' = r \<and> (b \<longrightarrow> m_type m = MsgPreVote \<or> m_type m = MsgPreVoteResp) \<or>
      raft_becomeFollower E r (m_term m) ?x = Inr r'"
    using assms(1) unfolding step_higher_term_def Let_def by (auto split: if_splits)
  then show "I r'" "b \<Longrightarrow> term_fits r' m" "r_term r' = r_term r \<or> r_term r' = m_term m" "r_raftLog r' = r_raftLog r"
    using assms(2,3) becomeFollower_I [of r "m_term m" ?x r'] becomeFollower_log [of r "m_term m" ?x r'] by (auto simp: term_fits_def)
qed

lemma Step_I:
  assumes "Step E r m = Inr (r', err)" "I r" "good m" "r_term r + 1 < W64" "m_term m + 1 < W64"
    and "cfg_ok (trk_config (r_trk r'))" "fits r 1" "fits r (length (m_entries m))"
  shows "I r'"
proof -
  consider "step_by_type E r m = Inr (r', err)" "m_term m = 0 \<or> m_term m = r_term r"
    | "m_term m < r_term r" "step_lower_term E r m = Inr r'"
    | r1 b where "r_term r < m_term m" "step_higher_term E r m = Inr (r1, b)"
        "(if b then step_by_type E r1 m else Inr (r1, Ok)) = Inr (r', err)"
    using assms(1) unfolding Step_def ok_step_def by (auto split: if_splits)
  then show ?thesis
  proof (cases)
    case 1
    then show ?thesis using step_by_type_I [OF 1(1) assms(2,3) _ assms(4,6,7,8)] by (auto simp: term_fits_def)
  next
    case 2
    have "J r r'" using 2(2) J_start [OF assms(2)] unfolding step_lower_term_def
      by (auto split: if_splits intro: appliedSnap_J [OF _ _ assms(3) _ assms(7)]) (erule send_plain; simp)+
    then show ?thesis by (simp add: J_def)
  next
    case 3
    note H = step_higher_term_I [OF 3(2) assms(2) 3(1)]
    have "r_term r1 + 1 < W64" using H(3) assms(4,5) by auto
    then show ?thesis
      using 3(3) H step_by_type_I [OF _ H(1) assms(3) H(2) _ assms(6) fits_log [OF assms(7) H(4)] fits_log [OF assms(8) H(4)]]
      by (auto split: if_splits)
  qed
qed

text \<open>Ticks.\<close>

lemma tickElection_I:
  assumes "raft_tickElection E r = Inr r'" "I r" "r_term r + 1 < W64"
  shows "I r'"
proof -
  let ?r = "r\<lparr>r_electionElapsed := r_electionElapsed r + 1\<rparr>"
  have "r' = ?r \<or> (\<exists>t. raft_hup E (?r\<lparr>r_electionElapsed := 0\<rparr>) t = Inr r')"
    using assms(1) by (auto simp: raft_tickElection_def Let_def Step_hup ok_step_def split: if_splits)
  then show ?thesis
    using hup_I [of "?r\<lparr>r_electionElapsed := 0\<rparr>" _ r'] assms(2,3) by (auto simp: I_updates)
qed

lemma tick_checkQuorum_I:
  assumes "tick_checkQuorum E r = Inr r'" "I r" "r_state r = StateLeader"
  shows "I r'"
proof -
  have "r' = r \<or> (\<exists>r2. (r2 = r\<lparr>r_electionElapsed := 0\<rparr> \<or> stepLeader_MsgCheckQuorum E (r\<lparr>r_electionElapsed := 0\<rparr>) = Inr r2) \<and>
      (r' = r2 \<or> r' = raft_abortLeaderTransfer r2))"
    using assms(1,3) by (auto simp: tick_checkQuorum_def Let_def Step_checkQuorum ok_step_def split: if_splits)
  then show ?thesis
    using stepLeader_MsgCheckQuorum_I [of "r\<lparr>r_electionElapsed := 0\<rparr>"] assms(2)
    by (auto simp: I_updates raft_abortLeaderTransfer_def)
qed

lemma tick_I:
  assumes "raft_tick E r = Inr r'" "I r" "r_term r + 1 < W64"
  shows "I r'"
proof (cases "r_state r = StateLeader")
  case False
  then show ?thesis using assms tickElection_I by (simp add: raft_tick_def)
next
  case True
  let ?r = "r\<lparr>r_heartbeatElapsed := r_heartbeatElapsed r + 1, r_electionElapsed := r_electionElapsed r + 1\<rparr>"
  obtain r1 where c: "tick_checkQuorum E ?r = Inr r1"
    and d: "r' = r1 \<or> raft_bcastHeartbeat (r1\<lparr>r_heartbeatElapsed := 0\<rparr>) = Inr r'"
    using assms(1) True by (auto simp: raft_tick_def raft_tickHeartbeat_def Step_beat ok_step_def split: if_splits)
  have "I r1" using tick_checkQuorum_I [OF c] assms(2) True by (simp add: I_updates)
  then have "J r1 (r1\<lparr>r_heartbeatElapsed := 0\<rparr>)" by (simp add: J_start)
  then show ?thesis using d \<open>I r1\<close> bcastHeartbeat_J [of "r1\<lparr>r_heartbeatElapsed := 0\<rparr>" r' r1] by (auto simp: J_def)
qed

end

end
