(* ===== verification/RaftProps.thy ===== *)
theory RaftProps
  imports RaftInv
begin

text \<open>
  Properties of a single node of \<open>src/etcd_raft/raft.h\<close>, for every message, every
  storage and every environment: the persistent state never regresses.
\<close>

section \<open>The persistent state\<close>

text \<open>
  \<open>hard_le r r'\<close>: the term has not gone back, within a term a vote once cast has not
  changed, commit and apply index have not gone back, and the settings are the same.
\<close>

definition hard_le :: "raft \<Rightarrow> raft \<Rightarrow> bool" where
  "hard_le r r' \<longleftrightarrow> settings r' = settings r \<and>
     (r_term r < r_term r' \<or> r_term r' = r_term r \<and> (r_vote r \<noteq> NoneId \<longrightarrow> r_vote r' = r_vote r)) \<and>
     l_committed (r_raftLog r) \<le> l_committed (r_raftLog r') \<and> l_applied (r_raftLog r) \<le> l_applied (r_raftLog r')"

lemma hard_le_refl [simp]: "hard_le r r"
  by (simp add: hard_le_def)

lemma hard_le_trans: "hard_le r s \<Longrightarrow> hard_le s t \<Longrightarrow> hard_le r t"
  by (auto simp: hard_le_def)

text \<open>The cursors of the log under its operations.\<close>

lemma commitTo_cursors:
  "RaftLog_commitTo l c = Inr l' \<Longrightarrow> l_committed l \<le> l_committed l' \<and> l_applied l' = l_applied l"
  by (auto simp: RaftLog_commitTo_def split: if_splits)

lemma append_cursors: "RaftLog_append l es = Inr (l', i) \<Longrightarrow> l_committed l' = l_committed l \<and> l_applied l' = l_applied l"
  by (auto simp: RaftLog_append_def Let_def split: if_splits)

lemma maybeAppend_cursors:
  "RaftLog_maybeAppend l i t c es = Inr (l', n, ok) \<Longrightarrow> l_committed l \<le> l_committed l' \<and> l_applied l' = l_applied l"
  by (auto simp: RaftLog_maybeAppend_def Let_def split: if_splits dest!: commitTo_cursors append_cursors)

lemma appliedTo_cursors:
  "RaftLog_appliedTo l i sz = Inr l' \<Longrightarrow> l_committed l' = l_committed l \<and> l_applied l \<le> l_applied l'"
  by (auto simp: RaftLog_appliedTo_def Let_def split: if_splits)

lemma stableTo_cursors: "RaftLog_stableTo l i t = Inr l' \<Longrightarrow> l_committed l' = l_committed l \<and> l_applied l' = l_applied l"
  by (auto simp: RaftLog_stableTo_def)

lemma hard_le_same:
  assumes "hard_le r0 r" "settings r' = settings r" "r_term r' = r_term r" "r_vote r' = r_vote r"
    and "l_committed (r_raftLog r) \<le> l_committed (r_raftLog r')" "l_applied (r_raftLog r) \<le> l_applied (r_raftLog r')"
  shows "hard_le r0 r'"
  using assms by (auto simp: hard_le_def)

lemma hard_le_restarted:
  assumes "hard_le r0 r" "restarted te r s" "r_term r \<le> te" "settings s' = settings s" "r_term s' = te"
    and "r_vote s' = r_vote s \<or> r_term r < te" "r_raftLog s' = r_raftLog s"
  shows "hard_le r0 s'"
  using assms by (auto simp: hard_le_def restarted_def split: if_splits)

interpretation hard: raft_invariant E "hard_le r0" has_term "\<lambda>_. True" "\<lambda>_ _. True" for E r0
proof (unfold_locales, goal_cases)
  case (1 r r')
  from 1(1) show ?case by (rule hard_le_same) (use 1(2) in \<open>simp_all add: quiet_def\<close>)
next
  case (5 r s te)
  from 5(1,3,2) show ?case by (rule hard_le_restarted) (use 5(3) in \<open>simp_all add: restarted_def\<close>)
next
  case (6 r s)
  show ?case using 6(1,4) by (rule hard_le_restarted) (use 6(4) in \<open>simp_all add: restarted_def settings_def\<close>)
next
  case (8 r s)
  show ?case using 8(1,4) by (rule hard_le_restarted) (use 8(4) in \<open>simp_all add: restarted_def settings_def\<close>)
next
  case (10 r m)
  then show ?case by (auto simp: hard_le_def settings_def)
next
  case (11 r es l i li)
  from 11(1) show ?case by (rule hard_le_same) (use append_cursors [OF 11(5)] in \<open>simp_all add: settings_def\<close>)
next
  case (12 r m l i ok)
  from 12(1) show ?case by (rule hard_le_same) (use maybeAppend_cursors [OF 12(5)] in \<open>simp_all add: settings_def\<close>)
next
  case (13 r c l)
  from 13(1) show ?case by (rule hard_le_same) (use commitTo_cursors [OF 13(2)] in \<open>simp_all add: settings_def\<close>)
next
  case (14 r i sz l)
  from 14(1) show ?case by (rule hard_le_same) (use appliedTo_cursors [OF 14(2)] in \<open>simp_all add: settings_def\<close>)
next
  case (15 r m l)
  from 15(1) show ?case by (rule hard_le_same) (use stableTo_cursors [OF 15(5)] in \<open>simp_all add: settings_def\<close>)
next
  case (16 r m)
  from 16(1) show ?case by (rule hard_le_same) (simp_all add: settings_def RaftLog_stableSnapTo_def)
next
  case (17 r m)
  from 17(1) show ?case by (rule hard_le_same) (use 17(5) in \<open>simp_all add: settings_def RaftLog_restore_def\<close>)
next
  case (19 m)
  then show ?case by (simp add: has_term_def)
qed (erule hard_le_same; simp add: settings_def)+

text \<open>
  What can happen to a node: a message is stepped, the clock ticks, the application
  applies a configuration change or takes the outgoing messages. Terms stay below \<open>2 ^ 64 - 1\<close>, and
  a message from a leader has a term, as \<open>send\<close> guarantees.
\<close>

inductive node_step :: "env \<Rightarrow> raft \<Rightarrow> raft \<Rightarrow> bool" for E where
  message: "Step E r m = Inr (r', err) \<Longrightarrow> has_term m \<Longrightarrow> r_term r + 1 < W64 \<Longrightarrow> m_term m + 1 < W64 \<Longrightarrow> node_step E r r'"
| tick: "raft_tick E r = Inr r' \<Longrightarrow> r_term r + 1 < W64 \<Longrightarrow> node_step E r r'"
| conf_change: "raft_applyConfChange E r cc = Inr (r', cs) \<Longrightarrow> node_step E r r'"
| take_messages: "node_step E r (r\<lparr>r_msgs := [], r_msgsAfterAppend := [], r_readStates := []\<rparr>)"

lemma node_step_hard_le: "node_step E r r' \<Longrightarrow> hard_le r r'"
proof (induction rule: node_step.induct)
  case (message r m r' err)
  then show ?case using hard.Step_I [OF message(1), of r] by simp
next
  case (tick r r')
  then show ?case using hard.tick_I [OF tick(1), of r] by simp
next
  case (conf_change r cc r' cs)
  then show ?case using hard.applyConfChange_I [OF conf_change, of r] by simp
next
  case (take_messages r)
  show ?case by (simp add: hard_le_def settings_def)
qed

section \<open>An example\<close>

text \<open>Node 1 of a group of three, in term 2, with the log of \<open>LogProps\<close>, and a request for
  its vote.\<close>

definition config_example :: RaftConfig where
  "config_example = \<lparr>rc_id = 1, rc_electionTick = 10, rc_heartbeatTick = 1, rc_storage = Some (as_Storage env_example ms_example),
     rc_applied = 0, rc_AsyncStorageWrites = False, rc_maxSizePerMsg = 1024, rc_maxCommittedSizePerReady = 1024,
     rc_maxUncommittedEntriesSize = 0, rc_maxInflightMsgs = 4, rc_maxInflightBytes = 0, rc_checkQuorum = False,
     rc_preVote = False, rc_readOnlyOption = ReadOnlySafe, rc_disableProposalForwarding = False,
     rc_disableConfChangeValidation = False, rc_stepDownOnRemoval = False\<rparr>"

definition node_example :: raft where
  "node_example = (raft_init config_example (log_example env_example))\<lparr>r_term := 2, r_trk := tracker_example\<rparr>"

definition vote_request :: "u64 \<Rightarrow> u64 \<Rightarrow> u64 \<Rightarrow> u64 \<Rightarrow> message" where
  "vote_request from te li lt = Message0\<lparr>m_type := MsgVote, m_from := from, m_to := 1, m_term := te, m_index := li, m_logterm := lt\<rparr>"

lemma node_example_fields [simp]:
  "r_id node_example = 1" "r_term node_example = 2" "r_vote node_example = 0" "r_lead node_example = 0"
  "r_state node_example = StateFollower" "r_raftLog node_example = log_example env_example"
  "r_msgs node_example = []" "r_msgsAfterAppend node_example = []" "r_trk node_example = tracker_example"
  by (simp_all add: node_example_def raft_init_def config_example_def NoneId_def)

lemma node_example_grants:
  "Step env_example node_example (vote_request 2 2 3 2) =
     Inr (node_example\<lparr>r_msgsAfterAppend := [Message0\<lparr>m_type := MsgVoteResp, m_from := 1, m_to := 2, m_term := 2\<rparr>],
       r_electionElapsed := 0, r_vote := 2\<rparr>, Ok)"
proof -
  have "RaftLog_isUpToDate (log_example env_example) 3 2 = Inr True"
    using isUpToDate_abs [OF log_example_abs, of env_example 3 2] by (simp add: alog_example_terms)
  then show ?thesis
    by (simp add: Step_def step_by_type_def step_vote_def vote_request_def can_vote_def ok_step_def send_eq
        stamped_def Message0_def NoneId_def is_vote_msg_def after_append_def)
qed

section \<open>Properties\<close>

text \<open>
  C3: the persistent state of a node never regresses. Along every run of messages, ticks
  and configuration changes the term does not decrease, a vote once cast in a term is not
  changed within that term, and the commit and apply indexes do not decrease.
\<close>

theorem hard_state_never_regresses:
  assumes "(node_step E)\<^sup>*\<^sup>* r r'"
  shows "r_term r \<le> r_term r' \<and> (r_term r' = r_term r \<and> r_vote r \<noteq> NoneId \<longrightarrow> r_vote r' = r_vote r) \<and>
    l_committed (r_raftLog r) \<le> l_committed (r_raftLog r') \<and> l_applied (r_raftLog r) \<le> l_applied (r_raftLog r')"
proof -
  from assms have "hard_le r r'"
    by (induction rule: rtranclp_induct) (auto intro: hard_le_trans node_step_hard_le)
  then show ?thesis by (auto simp: hard_le_def)
qed

theorem hard_state_never_regresses_witness:
  "\<exists>r'. (node_step env_example)\<^sup>*\<^sup>* node_example r' \<and> r_vote r' = 2 \<and> 2 \<le> r_term r' \<and> 2 \<le> l_committed (r_raftLog r')"
proof -
  let ?r = "node_example\<lparr>r_msgsAfterAppend := [Message0\<lparr>m_type := MsgVoteResp, m_from := 1, m_to := 2, m_term := 2\<rparr>],
       r_electionElapsed := 0, r_vote := 2\<rparr>"
  have "node_step env_example node_example ?r"
    by (rule node_step.message [OF node_example_grants]) (simp_all add: has_term_def vote_request_def W64_def)
  then have run: "(node_step env_example)\<^sup>*\<^sup>* node_example ?r" by (rule r_into_rtranclp)
  show ?thesis
    using hard_state_never_regresses [OF run] run by (intro exI [of _ ?r]) (simp add: log_example_fields)
qed

end
