(* ===== verification/Election.thy ===== *)
theory Election
  imports RaftProps
begin

text \<open>
  Election safety of a group of nodes running \<open>src/etcd_raft/raft.h\<close>: at most one leader
  per term. Nodes step arbitrary messages (only granted votes have to be genuine: sent by
  the node they name, to the node that receives them), tick, apply configuration changes,
  write their hard state, send what they have queued, and crash and restart from the hard
  state they last wrote, by \<open>newRaft\<close>. The configurations the nodes use come from a set any
  two of which have intersecting quorums; \<open>reconfiguration_quorums_meet\<close> gives such sets.
\<close>

section \<open>Granted votes\<close>

definition granted :: "message \<Rightarrow> bool" where
  "granted m \<longleftrightarrow> m_type m = MsgVoteResp \<and> \<not> m_reject m"

text \<open>The votes node \<open>n\<close> has granted: sent ones and those still in its queue.\<close>

definition grants :: "message set \<Rightarrow> u64 \<Rightarrow> raft \<Rightarrow> message set" where
  "grants S n r = {m \<in> S. granted m \<and> m_from m = n} \<union> {m \<in> set (r_msgsAfterAppend r). granted m}"

text \<open>The peers known to have voted for \<open>n\<close> in term \<open>t\<close>.\<close>

definition voters_for :: "message set \<Rightarrow> u64 \<Rightarrow> u64 \<Rightarrow> u64 set" where
  "voters_for S n t = {v. \<exists>m \<in> S. granted m \<and> m_from m = v \<and> m_to m = n \<and> m_term m = t}"

definition known :: "JointConfig set \<Rightarrow> JointConfig \<Rightarrow> bool" where
  "known Cs C \<longleftrightarrow> C \<in> Cs \<and> finite (fst C) \<and> finite (snd C)"

text \<open>Granted votes are not from the future, agree with the recorded vote in the current
  term, and with each other in every term.\<close>

definition one_per_term :: "message set \<Rightarrow> bool" where
  "one_per_term G \<longleftrightarrow> (\<forall>m \<in> G. \<forall>m' \<in> G. m_term m = m_term m' \<longrightarrow> m_to m = m_to m')"

definition grants_ok :: "message set \<Rightarrow> u64 \<Rightarrow> u64 \<Rightarrow> u64 \<Rightarrow> bool" where
  "grants_ok G n te vote \<longleftrightarrow>
     (\<forall>m \<in> G. m_from m = n \<and> m_to m \<noteq> NoneId \<and> m_term m \<noteq> 0 \<and> m_term m \<le> te \<and> (m_term m = te \<longrightarrow> m_to m = vote)) \<and>
     one_per_term G"

text \<open>The votes a candidate has counted were sent; a leader has the votes of a quorum.\<close>

definition tally_ok :: "JointConfig set \<Rightarrow> message set \<Rightarrow> u64 \<Rightarrow> raft \<Rightarrow> bool" where
  "tally_ok Cs S n r \<longleftrightarrow>
     (r_state r = StateCandidate \<longrightarrow> (\<forall>v. trk_votes (r_trk r) v = Some True \<longrightarrow> v \<in> voters_for S n (r_term r))) \<and>
     (r_state r = StateLeader \<longrightarrow> (\<exists>C. known Cs C \<and> joint_quorum C (voters_for S n (r_term r))))"

text \<open>What holds of node \<open>n\<close> when the messages in \<open>S\<close> have been sent. Whoever is a candidate
  or leader has voted for itself.\<close>

definition elect_inv :: "JointConfig set \<Rightarrow> message set \<Rightarrow> u64 \<Rightarrow> raft \<Rightarrow> bool" where
  "elect_inv Cs S n r \<longleftrightarrow>
     r_id r = n \<and> n \<noteq> NoneId \<and> known Cs (cfg_voters (trk_config (r_trk r))) \<and>
     (r_state r = StateCandidate \<or> r_state r = StateLeader \<longrightarrow> r_vote r = n) \<and>
     (\<forall>m \<in> set (r_msgs r). \<not> granted m) \<and> grants_ok (grants S n r) n (r_term r) (r_vote r) \<and> tally_ok Cs S n r"

definition elect_good :: "message set \<Rightarrow> u64 \<Rightarrow> message \<Rightarrow> bool" where
  "elect_good S n m \<longleftrightarrow> has_term m \<and> (m_type m = MsgVote \<longrightarrow> m_from m \<noteq> NoneId) \<and>
     (granted m \<longrightarrow> m \<in> S \<and> m_to m = n \<and> m_term m \<noteq> 0)"

lemma grants_updates [simp]:
  "grants S n (r\<lparr>r_vote := x\<rparr>) = grants S n r"
  "grants S n (r\<lparr>r_raftLog := l\<rparr>) = grants S n r"
  "grants S n (r\<lparr>r_trk := t\<rparr>) = grants S n r"
  "grants S n (r\<lparr>r_lead := x\<rparr>) = grants S n r"
  "grants S n (r\<lparr>r_state := s\<rparr>) = grants S n r"
  "grants S n (r\<lparr>r_msgs := ms\<rparr>) = grants S n r"
  by (simp_all add: grants_def)

lemma grants_cong: "r_msgsAfterAppend r' = r_msgsAfterAppend r \<Longrightarrow> grants S n r' = grants S n r"
  by (simp add: grants_def)

lemma elect_inv_cong:
  assumes "r_id r' = r_id r" "r_term r' = r_term r" "r_vote r' = r_vote r" "r_state r' = r_state r" "r_msgs r' = r_msgs r"
    and "r_msgsAfterAppend r' = r_msgsAfterAppend r" "trk_config (r_trk r') = trk_config (r_trk r)"
    and "trk_votes (r_trk r') = trk_votes (r_trk r)"
  shows "elect_inv Cs S n r' \<longleftrightarrow> elect_inv Cs S n r"
  unfolding elect_inv_def tally_ok_def assms grants_cong [OF assms(6)] by (rule refl)

lemma elect_inv_log [simp]: "elect_inv Cs S n (r\<lparr>r_raftLog := l\<rparr>) \<longleftrightarrow> elect_inv Cs S n r"
  by (rule elect_inv_cong) simp_all

lemma elect_inv_lead [simp]: "elect_inv Cs S n (r\<lparr>r_lead := x\<rparr>) \<longleftrightarrow> elect_inv Cs S n r"
  by (rule elect_inv_cong) simp_all

lemma elect_inv_quiet: "elect_inv Cs S n r \<Longrightarrow> quiet r r' \<Longrightarrow> elect_inv Cs S n r'"
  using elect_inv_cong [of r' r Cs S n] settings_id [of r' r] by (simp add: quiet_def)

text \<open>A later term, and a new grant.\<close>

lemma grants_ok_later:
  assumes "grants_ok G n t v" "t < te"
  shows "grants_ok G n te x"
proof -
  have "m_term m < te" if "m \<in> G" for m
    using assms that unfolding grants_ok_def by (meson le_less_trans)
  then show ?thesis using assms(1) unfolding grants_ok_def by (simp add: less_imp_le less_imp_neq)
qed

lemma grants_ok_restart:
  "grants_ok G n t v \<Longrightarrow> t \<le> te \<Longrightarrow> grants_ok G n te (if t = te then v else x)"
  using grants_ok_later [of G n t v te x] by (cases "t = te") simp_all

lemma grants_ok_insert:
  assumes "grants_ok G n t v" "m_from m = n" "m_to m = v" "m_term m = t" "v \<noteq> NoneId" "t \<noteq> 0"
  shows "grants_ok (insert m G) n t v"
proof -
  have "one_per_term (insert m G)"
    using assms unfolding grants_ok_def one_per_term_def by (metis insert_iff)
  then show ?thesis using assms unfolding grants_ok_def by simp
qed

lemma grants_ok_cast: "grants_ok G n t NoneId \<Longrightarrow> grants_ok G n t x"
  unfolding grants_ok_def by auto

lemma restartedD:
  assumes "restarted te r s"
  shows "r_id s = r_id r" "r_term s = te" "r_vote s = (if r_term r = te then r_vote r else NoneId)" "r_msgs s = r_msgs r"
    "r_msgsAfterAppend s = r_msgsAfterAppend r" "trk_config (r_trk s) = trk_config (r_trk r)"
    "trk_votes (r_trk s) = (\<lambda>_. None)"
  using assms settings_id [of s r] by (auto simp: restarted_def)

lemma elect_inv_restarted:
  assumes "elect_inv Cs S n r" "restarted te r s" "r_term r \<le> te"
  shows "r_id s = n" "n \<noteq> NoneId" "known Cs (cfg_voters (trk_config (r_trk s)))" "\<forall>m \<in> set (r_msgs s). \<not> granted m"
    "grants_ok (grants S n s) n te (r_vote s)" "r_term r < te \<Longrightarrow> grants_ok (grants S n s) n te x"
proof -
  note f = restartedD [OF assms(2)]
  have g: "grants S n s = grants S n r" using f(5) by (rule grants_cong)
  have G: "grants_ok (grants S n r) n (r_term r) (r_vote r)" using assms(1) by (simp add: elect_inv_def)
  show "grants_ok (grants S n s) n te (r_vote s)"
    unfolding g f(3) by (rule grants_ok_restart [OF G assms(3)])
  show "r_term r < te \<Longrightarrow> grants_ok (grants S n s) n te x"
    unfolding g by (rule grants_ok_later [OF G])
  show "r_id s = n" "n \<noteq> NoneId" "known Cs (cfg_voters (trk_config (r_trk s)))" "\<forall>m \<in> set (r_msgs s). \<not> granted m"
    using assms(1) by (simp_all add: elect_inv_def f)
qed

lemma elect_inv_emit_after:
  assumes "elect_inv Cs S n r" "sendable (elect_good S n) r m" "after_append (m_type m)"
  shows "elect_inv Cs S n (r\<lparr>r_msgsAfterAppend := r_msgsAfterAppend r @ [m]\<rparr>)"
proof -
  let ?r = "r\<lparr>r_msgsAfterAppend := r_msgsAfterAppend r @ [m]\<rparr>"
  have G: "grants_ok (grants S n r) n (r_term r) (r_vote r)" "r_id r = n" "n \<noteq> NoneId"
    using assms(1) by (simp_all add: elect_inv_def)
  have "grants_ok (grants S n ?r) n (r_term r) (r_vote r)"
  proof (cases "granted m")
    case False
    then have "grants S n ?r = grants S n r" by (auto simp: grants_def)
    then show ?thesis using G by simp
  next
    case True
    then have ins: "grants S n ?r = insert m (grants S n r)" by (auto simp: grants_def)
    have "m_from m = n" "m_to m = r_vote r" "m_term m = r_term r" "r_vote r \<noteq> NoneId" "r_term r \<noteq> 0"
      using True assms(2) G(2,3) by (auto simp: sendable_def granted_def is_vote_msg_def elect_good_def)
    then show ?thesis unfolding ins by (rule grants_ok_insert [OF G(1)])
  qed
  then show ?thesis using assms(1) by (simp add: elect_inv_def tally_ok_def)
qed

lemma elect_inv_leader:
  assumes "elect_inv Cs S n r" "r_state r = StateCandidate"
    and "JointConfig_GetVoteResult (cfg_voters (trk_config (r_trk r))) (trk_votes (r_trk r)) = VoteWon"
    and "restarted (r_term r) r s"
  shows "elect_inv Cs S n (s\<lparr>r_lead := r_id s, r_state := StateLeader\<rparr>)"
proof -
  note f = restartedD [OF assms(4)] and e = elect_inv_restarted [OF assms(1,4) order_refl]
  have k: "known Cs (cfg_voters (trk_config (r_trk r)))" and v: "r_vote r = n"
    and t: "yes_votes (trk_votes (r_trk r)) \<subseteq> voters_for S n (r_term r)"
    using assms(1,2) by (auto simp: elect_inv_def tally_ok_def)
  have "joint_quorum (cfg_voters (trk_config (r_trk r))) (yes_votes (trk_votes (r_trk r)))"
    using assms(3) k by (simp add: joint_won_iff known_def)
  then have "joint_quorum (cfg_voters (trk_config (r_trk r))) (voters_for S n (r_term r))"
    using t k by (auto simp: known_def intro: joint_quorum_mono)
  then have "\<exists>C. known Cs C \<and> joint_quorum C (voters_for S n (r_term r))" using k by blast
  then show ?thesis
    using e f k v by (simp add: elect_inv_def tally_ok_def)
qed

lemma elect_inv_record:
  assumes "elect_inv Cs S n r" "elect_good S n m" "term_fits r m"
    and "r_state r = StatePreCandidate \<and> m_type m = MsgPreVoteResp \<or> r_state r = StateCandidate \<and> m_type m = MsgVoteResp"
  shows "elect_inv Cs S n (r\<lparr>r_trk := ProgressTracker_RecordVote (r_trk r) (m_from m) (\<not> m_reject m)\<rparr>)"
proof -
  have "m_from m \<in> voters_for S n (r_term r)" if "r_state r = StateCandidate" "\<not> m_reject m"
    using that assms(2-4) by (auto simp: voters_for_def granted_def elect_good_def term_fits_def)
  then show ?thesis
    using assms(1) by (auto simp: elect_inv_def tally_ok_def ProgressTracker_RecordVote_def split: if_splits)
qed

interpretation elect: raft_invariant E "elect_inv Cs S n" "elect_good S n" "\<lambda>cfg. known Cs (cfg_voters cfg)" "\<lambda>_ _. True" for E Cs S n
proof (unfold_locales, goal_cases)
  case (1 r r')
  then show ?case by (rule elect_inv_quiet)
next
  case (3 r m)
  then show ?case by (auto simp: elect_inv_def tally_ok_def granted_def after_append_def)
next
  case (4 r m)
  then show ?case by (rule elect_inv_emit_after)
next
  case (5 r s te)
  then show ?case
    using elect_inv_restarted [OF 5(1,3,2)] restartedD [OF 5(3)] by (simp add: elect_inv_def tally_ok_def)
next
  case (6 r s)
  then show ?case
    using elect_inv_restarted [OF 6(1,4)] restartedD [OF 6(4)] by (simp add: elect_inv_def tally_ok_def)
next
  case (7 r)
  then show ?case by (simp add: elect_inv_def tally_ok_def ProgressTracker_ResetVotes_def)
next
  case (8 r s)
  then show ?case by (intro elect_inv_leader)
next
  case (9 r m)
  then show ?case by (rule elect_inv_record)
next
  case (10 r m)
  then show ?case
    using grants_ok_cast [of "grants S n r" n "r_term r" "m_from m"] by (auto simp: elect_inv_def tally_ok_def)
next
  case (18 r t)
  then show ?case by (auto simp: elect_inv_def tally_ok_def)
next
  case (19 m)
  then show ?case by (auto simp: elect_good_def has_term_def)
qed simp_all

section \<open>Restart\<close>

lemma validate_fields: "RaftConfig_validate c = (c', err) \<Longrightarrow> rc_id c' = rc_id c \<and> rc_storage c' = rc_storage c"
  by (auto simp: RaftConfig_validate_def Let_def split: if_splits)

lemma becomeFollower_effect:
  assumes "raft_becomeFollower E r te x = Inr r'"
  shows "restarted te r r'" "r_state r' = StateFollower" "r_lead r' = x"
proof -
  obtain s where s: "raft_reset E r te = Inr s" and r': "r' = s\<lparr>r_lead := x, r_state := StateFollower\<rparr>"
    using assms by (auto simp: raft_becomeFollower_def)
  have "restarted te r s" using okayD [OF reset_effect s] by simp
  then show "restarted te r r'" "r_state r' = StateFollower" "r_lead r' = x" by (simp_all add: r' restarted_def settings_def)
qed

text \<open>A new node is a follower that takes its term and vote from the storage and has
  nothing to send.\<close>

lemma newRaft_load_start:
  assumes "newRaft_load E c hs cs r0 cfg prs = Inr r" "r_state r0 = StateFollower" "r_term r0 = 0" "r_vote r0 = 0"
  shows "r_id r = r_id r0 \<and> r_term r = hs_term hs \<and> r_vote r = hs_vote hs \<and> r_state r = StateFollower \<and>
    r_msgs r = r_msgs r0 \<and> r_msgsAfterAppend r = r_msgsAfterAppend r0"
proof -
  obtain r1 cs1 where r1: "raft_switchToConfig E r0 cfg prs = Inr (r1, cs1)"
    and rest: "bindR (if IsEmptyHardState hs then Inr r1 else raft_loadState r1 hs) (\<lambda>r2.
       bindR (if 0 < rc_applied c
              then bindR (RaftLog_appliedTo (r_raftLog r2) (rc_applied c) 0) (\<lambda>l. Inr (r2\<lparr>r_raftLog := l\<rparr>))
              else Inr r2) (\<lambda>r3. raft_becomeFollower E r3 (r_term r3) NoneId)) = Inr r"
    using assms(1) unfolding newRaft_load_def by (simp only: bindR_eq_Inr [of "raft_switchToConfig E r0 cfg prs"])
      (auto simp only: prod.case split: if_splits)
  obtain r2 r3 where r2: "(if IsEmptyHardState hs then Inr r1 else raft_loadState r1 hs) = Inr r2"
    and r3: "r3 = r2 \<or> (\<exists>l. r3 = r2\<lparr>r_raftLog := l\<rparr>)" and b: "raft_becomeFollower E r3 (r_term r3) NoneId = Inr r"
  proof -
    obtain r2 r3 where "(if IsEmptyHardState hs then Inr r1 else raft_loadState r1 hs) = Inr r2"
      "(if 0 < rc_applied c
        then bindR (RaftLog_appliedTo (r_raftLog r2) (rc_applied c) 0) (\<lambda>l. Inr (r2\<lparr>r_raftLog := l\<rparr>))
        else Inr r2) = Inr r3" "raft_becomeFollower E r3 (r_term r3) NoneId = Inr r"
      using rest by (elim bindR_InrE) blast
    then show thesis by (intro that) (auto split: if_splits)
  qed
  note s1 = any_node.switchToConfig_follower [OF assms(2) r1] and B = becomeFollower_effect [OF b]
  have "r_term r2 = hs_term hs \<and> r_vote r2 = hs_vote hs \<and> r_id r2 = r_id r0 \<and> r_msgs r2 = r_msgs r0 \<and>
      r_msgsAfterAppend r2 = r_msgsAfterAppend r0"
    using r2 s1 assms(3,4)
    by (auto simp: raft_loadState_def IsEmptyHardState_def isHardStateEqual_def HardState0_def split: if_splits)
  then have "r_term r3 = hs_term hs \<and> r_vote r3 = hs_vote hs \<and> r_id r3 = r_id r0 \<and> r_msgs r3 = r_msgs r0 \<and>
      r_msgsAfterAppend r3 = r_msgsAfterAppend r0"
    using r3 by auto
  then show ?thesis using restartedD [OF B(1)] B(2) by simp
qed

lemma newRaft_storage_start:
  assumes "newRaft_storage E c st = Inr r"
  shows "\<exists>hs cs. st_InitialState st = Inr (hs, cs, Ok) \<and> r_id r = rc_id c \<and> r_term r = hs_term hs \<and>
    r_vote r = hs_vote hs \<and> r_state r = StateFollower \<and> r_msgs r = [] \<and> r_msgsAfterAppend r = []"
proof -
  obtain raftlog hs cs cfg prs where st: "st_InitialState st = Inr (hs, cs, Ok)"
    and l: "newRaft_load E c hs cs (raft_init c raftlog) cfg prs = Inr r"
    using assms unfolding newRaft_storage_def by (fastforce split: if_splits)
  then show ?thesis using newRaft_load_start [OF l] by (simp add: raft_init_def)
qed

lemma newRaft_start:
  assumes "newRaft E c = Inr r"
  shows "\<exists>st hs cs. rc_storage c = Some st \<and> st_InitialState st = Inr (hs, cs, Ok) \<and> r_id r = rc_id c \<and>
    r_term r = hs_term hs \<and> r_vote r = hs_vote hs \<and> r_state r = StateFollower \<and> r_msgs r = [] \<and> r_msgsAfterAppend r = []"
proof -
  obtain c' st where c: "RaftConfig_validate c = (c', Ok)" "rc_storage c' = Some st" "newRaft_storage E c' st = Inr r"
    using assms by (auto simp: newRaft_def split: prod.splits if_splits option.splits)
  then show ?thesis using validate_fields [OF c(1)] newRaft_storage_start [OF c(3)] by auto
qed

section \<open>A group of nodes\<close>

record cluster =
  cl_node :: "u64 \<Rightarrow> raft"
  cl_hard :: "u64 \<Rightarrow> HardState"    \<comment> \<open>the hard state each node last wrote\<close>
  cl_sent :: "message set"

definition genuine :: "message set \<Rightarrow> u64 \<Rightarrow> message \<Rightarrow> bool" where
  "genuine S n m \<longleftrightarrow> has_term m \<and> (m_type m = MsgVote \<longrightarrow> m_from m \<noteq> NoneId) \<and> (granted m \<longrightarrow> m \<in> S \<and> m_to m = n)"

text \<open>\<open>flush\<close> is the order the application keeps for a \<open>Ready\<close>: write the hard state, then
  send.\<close>

inductive cluster_step :: "JointConfig set \<Rightarrow> cluster \<Rightarrow> cluster \<Rightarrow> bool" for Cs where
  receive: "n \<noteq> NoneId \<Longrightarrow> Step E (cl_node c n) m = Inr (r', err) \<Longrightarrow> genuine (cl_sent c) n m \<Longrightarrow>
     r_term (cl_node c n) + 1 < W64 \<Longrightarrow> m_term m + 1 < W64 \<Longrightarrow> known Cs (cfg_voters (trk_config (r_trk r'))) \<Longrightarrow>
     cluster_step Cs c (c\<lparr>cl_node := (cl_node c)(n := r')\<rparr>)"
| tick: "n \<noteq> NoneId \<Longrightarrow> raft_tick E (cl_node c n) = Inr r' \<Longrightarrow> r_term (cl_node c n) + 1 < W64 \<Longrightarrow>
     cluster_step Cs c (c\<lparr>cl_node := (cl_node c)(n := r')\<rparr>)"
| conf_change: "n \<noteq> NoneId \<Longrightarrow> raft_applyConfChange E (cl_node c n) cc = Inr (r', cs) \<Longrightarrow>
     known Cs (cfg_voters (trk_config (r_trk r'))) \<Longrightarrow> cluster_step Cs c (c\<lparr>cl_node := (cl_node c)(n := r')\<rparr>)"
| persist: "n \<noteq> NoneId \<Longrightarrow> cluster_step Cs c (c\<lparr>cl_hard := (cl_hard c)(n := raft_hardState (cl_node c n))\<rparr>)"
| flush: "n \<noteq> NoneId \<Longrightarrow> r = cl_node c n \<Longrightarrow>
     cluster_step Cs c (c\<lparr>cl_hard := (cl_hard c)(n := raft_hardState r),
       cl_sent := cl_sent c \<union> set (r_msgs r) \<union> set (r_msgsAfterAppend r),
       cl_node := (cl_node c)(n := r\<lparr>r_msgs := [], r_msgsAfterAppend := []\<rparr>)\<rparr>)"
| restart: "n \<noteq> NoneId \<Longrightarrow> rc_id cfg = n \<Longrightarrow> rc_storage cfg = Some st \<Longrightarrow>
     st_InitialState st = Inr (cl_hard c n, cs, Ok) \<Longrightarrow> newRaft E cfg = Inr r' \<Longrightarrow>
     known Cs (cfg_voters (trk_config (r_trk r'))) \<Longrightarrow> cluster_step Cs c (c\<lparr>cl_node := (cl_node c)(n := r')\<rparr>)"

definition sent_grants :: "message set \<Rightarrow> u64 \<Rightarrow> message set" where
  "sent_grants S n = {m \<in> S. granted m \<and> m_from m = n}"

definition cluster_inv :: "JointConfig set \<Rightarrow> cluster \<Rightarrow> bool" where
  "cluster_inv Cs c \<longleftrightarrow>
     (\<forall>n. n \<noteq> NoneId \<longrightarrow> elect_inv Cs (cl_sent c) n (cl_node c n) \<and>
        grants_ok (sent_grants (cl_sent c) n) n (hs_term (cl_hard c n)) (hs_vote (cl_hard c n))) \<and>
     (\<forall>m \<in> cl_sent c. granted m \<longrightarrow> m_from m \<noteq> NoneId)"

lemma grants_ok_subset: "grants_ok G n t v \<Longrightarrow> G' \<subseteq> G \<Longrightarrow> grants_ok G' n t v"
  unfolding grants_ok_def one_per_term_def by blast

lemma cluster_invD:
  assumes "cluster_inv Cs c" "n \<noteq> NoneId"
  shows "elect_inv Cs (cl_sent c) n (cl_node c n)"
    "grants_ok (sent_grants (cl_sent c) n) n (hs_term (cl_hard c n)) (hs_vote (cl_hard c n))"
  using assms unfolding cluster_inv_def by blast+

lemma cluster_invI:
  assumes "\<And>n. n \<noteq> NoneId \<Longrightarrow> elect_inv Cs (cl_sent c) n (cl_node c n)"
    and "\<And>n. n \<noteq> NoneId \<Longrightarrow> grants_ok (sent_grants (cl_sent c) n) n (hs_term (cl_hard c n)) (hs_vote (cl_hard c n))"
    and "\<And>m. m \<in> cl_sent c \<Longrightarrow> granted m \<Longrightarrow> m_from m \<noteq> NoneId"
  shows "cluster_inv Cs c"
  using assms unfolding cluster_inv_def by blast

lemma cluster_inv_from: "cluster_inv Cs c \<Longrightarrow> m \<in> cl_sent c \<Longrightarrow> granted m \<Longrightarrow> m_from m \<noteq> NoneId"
  unfolding cluster_inv_def by blast

lemma cluster_inv_node:
  assumes "cluster_inv Cs c" "elect_inv Cs (cl_sent c) n r'"
  shows "cluster_inv Cs (c\<lparr>cl_node := (cl_node c)(n := r')\<rparr>)"
proof (rule cluster_invI)
  fix k :: u64 assume "k \<noteq> NoneId"
  then show "elect_inv Cs (cl_sent (c\<lparr>cl_node := (cl_node c)(n := r')\<rparr>)) k (cl_node (c\<lparr>cl_node := (cl_node c)(n := r')\<rparr>) k)"
    using cluster_invD(1) [OF assms(1)] assms(2) by simp
next
  fix k :: u64 assume "k \<noteq> NoneId"
  then show "grants_ok (sent_grants (cl_sent (c\<lparr>cl_node := (cl_node c)(n := r')\<rparr>)) k) k
      (hs_term (cl_hard (c\<lparr>cl_node := (cl_node c)(n := r')\<rparr>) k)) (hs_vote (cl_hard (c\<lparr>cl_node := (cl_node c)(n := r')\<rparr>) k))"
    using cluster_invD(2) [OF assms(1)] by simp
next
  fix m assume "m \<in> cl_sent (c\<lparr>cl_node := (cl_node c)(n := r')\<rparr>)" "granted m"
  then show "m_from m \<noteq> NoneId" using cluster_inv_from [OF assms(1)] by simp
qed

lemma elect_invD:
  assumes "elect_inv Cs S n r"
  shows "r_id r = n" "known Cs (cfg_voters (trk_config (r_trk r)))" "\<And>m. m \<in> set (r_msgs r) \<Longrightarrow> \<not> granted m"
    "grants_ok (grants S n r) n (r_term r) (r_vote r)" "tally_ok Cs S n r"
  using assms unfolding elect_inv_def by blast+

lemma grants_okD:
  assumes "grants_ok G n t v" "m \<in> G"
  shows "m_from m = n" "m_term m \<noteq> 0" "m_to m \<noteq> NoneId"
  using assms unfolding grants_ok_def by blast+

lemma genuine_good:
  assumes "cluster_inv Cs c" "genuine (cl_sent c) n m"
  shows "elect_good (cl_sent c) n m"
proof -
  have "m_term m \<noteq> 0" if g: "granted m"
  proof -
    have m: "m \<in> cl_sent c" using g assms(2) by (simp add: genuine_def)
    note sender = cluster_inv_from [OF assms(1) m g]
    have "m \<in> grants (cl_sent c) (m_from m) (cl_node c (m_from m))" using m g by (simp add: grants_def)
    then show ?thesis by (rule grants_okD(2) [OF elect_invD(4) [OF cluster_invD(1) [OF assms(1) sender]]])
  qed
  then show ?thesis using assms(2) by (simp add: genuine_def elect_good_def)
qed

lemma voters_for_mono: "S \<subseteq> T \<Longrightarrow> voters_for S n t \<subseteq> voters_for T n t"
  by (auto simp: voters_for_def)

lemma tally_ok_mono:
  assumes "tally_ok Cs S n r" "S \<subseteq> T"
  shows "tally_ok Cs T n r"
proof -
  have "joint_quorum C (voters_for T n (r_term r))" if "known Cs C" "joint_quorum C (voters_for S n (r_term r))" for C
    using that voters_for_mono [OF assms(2), of n "r_term r"] by (auto simp: known_def intro: joint_quorum_mono)
  then show ?thesis
    using assms(1) voters_for_mono [OF assms(2), of n "r_term r"] unfolding tally_ok_def by blast
qed

lemma send_all_inv:
  assumes "cluster_inv Cs c" "n \<noteq> NoneId" "r = cl_node c n"
    and "grants_ok (grants (cl_sent c) n r) n (hs_term hs) (hs_vote hs)"
  shows "cluster_inv Cs (c\<lparr>cl_hard := (cl_hard c)(n := hs),
       cl_sent := cl_sent c \<union> set (r_msgs r) \<union> set (r_msgsAfterAppend r),
       cl_node := (cl_node c)(n := r\<lparr>r_msgs := [], r_msgsAfterAppend := []\<rparr>)\<rparr>)"
proof -
  let ?S = "cl_sent c" and ?T = "cl_sent c \<union> set (r_msgs r) \<union> set (r_msgsAfterAppend r)"
    and ?r = "r\<lparr>r_msgs := [], r_msgsAfterAppend := []\<rparr>"
  note inv = cluster_invD(1) [OF assms(1)]
  have r: "elect_inv Cs ?S n r" using inv assms(2,3) by simp
  note G = elect_invD(4) [OF r] and none = elect_invD(3) [OF r]
  have new: "m_from m = n" if "m \<in> set (r_msgs r) \<union> set (r_msgsAfterAppend r)" "granted m" for m
    using that none grants_okD(1) [OF G, of m] by (auto simp: grants_def)
  have own: "sent_grants ?T n = grants ?S n r"
    using new none by (auto simp: sent_grants_def grants_def)
  have other: "sent_grants ?T k = sent_grants ?S k" if "k \<noteq> n" for k
    using new that by (auto simp: sent_grants_def)
  have g: "grants ?T n ?r = grants ?S n r" using own by (simp add: grants_def sent_grants_def)
  have sub: "?S \<subseteq> ?T" by blast
  have t: "tally_ok Cs ?T n ?r" using tally_ok_mono [OF elect_invD(5) [OF r] sub] by (simp add: tally_ok_def)
  have n': "elect_inv Cs ?T n ?r" using r t unfolding elect_inv_def g by simp
  have k': "elect_inv Cs ?T k (cl_node c k)" if "k \<noteq> NoneId" "k \<noteq> n" for k
  proof -
    have g: "grants ?T k (cl_node c k) = grants ?S k (cl_node c k)"
      using other [OF that(2)] by (simp add: grants_def sent_grants_def)
    show ?thesis
      using inv [OF that(1)] tally_ok_mono [OF elect_invD(5) [OF inv [OF that(1)]] sub] unfolding elect_inv_def g by blast
  qed
  show ?thesis
  proof (rule cluster_invI, goal_cases)
    case (1 k)
    then show ?case using n' k' by simp
  next
    case (2 k)
    then show ?case using own other assms(4) cluster_invD(2) [OF assms(1) 2] by simp
  next
    case (3 m)
    then show ?case using cluster_inv_from [OF assms(1), of m] new [of m] assms(2) by auto
  qed
qed

lemma flush_inv:
  assumes "cluster_inv Cs c" "n \<noteq> NoneId" "r = cl_node c n"
  shows "cluster_inv Cs (c\<lparr>cl_hard := (cl_hard c)(n := raft_hardState r),
       cl_sent := cl_sent c \<union> set (r_msgs r) \<union> set (r_msgsAfterAppend r),
       cl_node := (cl_node c)(n := r\<lparr>r_msgs := [], r_msgsAfterAppend := []\<rparr>)\<rparr>)"
  using send_all_inv [OF assms, of "raft_hardState r"] elect_invD(4) [OF cluster_invD(1) [OF assms(1,2)]] assms(3)
  by (simp add: raft_hardState_def)


text \<open>A node that restarts forgets the grants it had not sent; those it sent agree with the
  hard state it wrote.\<close>

lemma restart_elect_inv:
  assumes "cluster_inv Cs c" "n \<noteq> NoneId" "newRaft E cfg = Inr r'" "rc_id cfg = n" "rc_storage cfg = Some st"
    and "st_InitialState st = Inr (cl_hard c n, cs, Ok)" "known Cs (cfg_voters (trk_config (r_trk r')))"
  shows "elect_inv Cs (cl_sent c) n r'"
proof -
  have r': "r_id r' = n" "r_term r' = hs_term (cl_hard c n)" "r_vote r' = hs_vote (cl_hard c n)"
    "r_state r' = StateFollower" "r_msgs r' = []" "r_msgsAfterAppend r' = []"
    using newRaft_start [OF assms(3)] assms(4-6) by auto
  have "grants (cl_sent c) n r' = sent_grants (cl_sent c) n" using r' by (simp add: grants_def sent_grants_def)
  then show ?thesis
    using r' assms(2,7) cluster_invD(2) [OF assms(1,2)] unfolding elect_inv_def tally_ok_def by simp
qed

lemma persist_inv:
  assumes "cluster_inv Cs c" "n \<noteq> NoneId"
  shows "cluster_inv Cs (c\<lparr>cl_hard := (cl_hard c)(n := raft_hardState (cl_node c n))\<rparr>)"
proof (rule cluster_invI, goal_cases)
  case (1 k)
  then show ?case using cluster_invD(1) [OF assms(1) 1] by simp
next
  case (2 k)
  have "grants_ok (sent_grants (cl_sent c) n) n (r_term (cl_node c n)) (r_vote (cl_node c n))"
    by (rule grants_ok_subset [OF elect_invD(4) [OF cluster_invD(1) [OF assms]]]) (auto simp: sent_grants_def grants_def)
  then show ?case using cluster_invD(2) [OF assms(1) 2] by (simp add: raft_hardState_def)
next
  case (3 m)
  then show ?case using cluster_inv_from [OF assms(1), of m] by simp
qed

lemma cluster_step_inv: "cluster_step Cs c c' \<Longrightarrow> cluster_inv Cs c \<Longrightarrow> cluster_inv Cs c'"
proof (induction rule: cluster_step.induct)
  case (receive n E c m r' err)
  show ?case
    by (rule cluster_inv_node [OF receive.prems elect.Step_I [OF receive.hyps(2) cluster_invD(1) [OF receive.prems receive.hyps(1)]
        genuine_good [OF receive.prems receive.hyps(3)]]]) (use receive.hyps in simp_all)
next
  case (tick n E c r')
  show ?case
    by (rule cluster_inv_node [OF tick.prems elect.tick_I [OF tick.hyps(2) cluster_invD(1) [OF tick.prems tick.hyps(1)]]])
      (use tick.hyps in simp_all)
next
  case (conf_change n E c cc r' cs)
  show ?case
    by (rule cluster_inv_node [OF conf_change.prems elect.applyConfChange_I [OF conf_change.hyps(2)
        cluster_invD(1) [OF conf_change.prems conf_change.hyps(1)]]]) (use conf_change.hyps in simp_all)
next
  case (persist n c)
  then show ?case by (intro persist_inv)
next
  case (flush n r c)
  then show ?case by (intro flush_inv)
next
  case (restart n cfg st c cs E r')
  then show ?case by (intro cluster_inv_node restart_elect_inv)
qed


text \<open>A group starts with followers that have queued and sent nothing; \<open>newRaft\<close> gives such
  nodes (\<open>newRaft_start\<close>).\<close>

definition cluster_init :: "JointConfig set \<Rightarrow> cluster \<Rightarrow> bool" where
  "cluster_init Cs c \<longleftrightarrow> cl_sent c = {} \<and>
     (\<forall>n. n \<noteq> NoneId \<longrightarrow> r_id (cl_node c n) = n \<and> r_state (cl_node c n) = StateFollower \<and>
        r_msgs (cl_node c n) = [] \<and> r_msgsAfterAppend (cl_node c n) = [] \<and>
        known Cs (cfg_voters (trk_config (r_trk (cl_node c n)))))"

definition coherent :: "JointConfig set \<Rightarrow> bool" where
  "coherent Cs \<longleftrightarrow> (\<forall>C \<in> Cs. \<forall>C' \<in> Cs. \<forall>A B. joint_quorum C A \<longrightarrow> joint_quorum C' B \<longrightarrow> A \<inter> B \<noteq> {})"

lemma grants_ok_empty: "grants_ok {} n t v"
  by (simp add: grants_ok_def one_per_term_def)

lemma cluster_init_inv: "cluster_init Cs c \<Longrightarrow> cluster_inv Cs c"
  by (rule cluster_invI) (simp_all add: cluster_init_def elect_inv_def tally_ok_def grants_def sent_grants_def grants_ok_empty)

lemma reachable_inv: "(cluster_step Cs)\<^sup>*\<^sup>* c c' \<Longrightarrow> cluster_inv Cs c \<Longrightarrow> cluster_inv Cs c'"
  by (induction rule: rtranclp_induct) (auto intro: cluster_step_inv)

lemma leader_elected:
  assumes "cluster_inv Cs c" "n \<noteq> NoneId" "r_state (cl_node c n) = StateLeader"
  shows "\<exists>C \<in> Cs. joint_quorum C (voters_for (cl_sent c) n (r_term (cl_node c n)))"
  using elect_invD(5) [OF cluster_invD(1) [OF assms(1,2)]] assms(3) by (auto simp: tally_ok_def known_def)

text \<open>A peer that voted for two nodes in a term voted for the same node.\<close>

lemma voters_agree:
  assumes "cluster_inv Cs c" "v \<in> voters_for (cl_sent c) i t" "v \<in> voters_for (cl_sent c) j t"
  shows "i = j"
proof -
  obtain m m' where m: "m \<in> cl_sent c" "granted m" "m_from m = v" "m_to m = i" "m_term m = t"
    and m': "m' \<in> cl_sent c" "granted m'" "m_from m' = v" "m_to m' = j" "m_term m' = t"
    using assms(2,3) by (auto simp: voters_for_def)
  have "v \<noteq> NoneId" using cluster_inv_from [OF assms(1) m(1,2)] m(3) by simp
  then have "one_per_term (sent_grants (cl_sent c) v)"
    using cluster_invD(2) [OF assms(1)] by (simp add: grants_ok_def)
  moreover have "m \<in> sent_grants (cl_sent c) v" "m' \<in> sent_grants (cl_sent c) v"
    using m m' by (simp_all add: sent_grants_def)
  ultimately show ?thesis using m m' unfolding one_per_term_def by metis
qed

lemma one_leader:
  assumes inv: "cluster_inv Cs c" and Cs: "coherent Cs" and i: "i \<noteq> NoneId" "r_state (cl_node c i) = StateLeader"
    and j: "j \<noteq> NoneId" "r_state (cl_node c j) = StateLeader" and t: "r_term (cl_node c i) = r_term (cl_node c j)"
  shows "i = j"
proof -
  obtain C where C: "C \<in> Cs" "joint_quorum C (voters_for (cl_sent c) i (r_term (cl_node c i)))"
    using leader_elected [OF inv i] by blast
  obtain C' where C': "C' \<in> Cs" "joint_quorum C' (voters_for (cl_sent c) j (r_term (cl_node c i)))"
    using leader_elected [OF inv j] t by auto
  have "voters_for (cl_sent c) i (r_term (cl_node c i)) \<inter> voters_for (cl_sent c) j (r_term (cl_node c i)) \<noteq> {}"
    using Cs C C' unfolding coherent_def by blast
  then show ?thesis using voters_agree [OF inv] by blast
qed

section \<open>A group with one voter\<close>

definition solo_tracker :: ProgressTracker where
  "solo_tracker = (MakeProgressTracker 4 0)\<lparr>trk_config := Config0\<lparr>cfg_voters := ({1}, {})\<rparr>,
     trk_progress := [1 \<mapsto> progress_example]\<rparr>"

definition solo_node :: "u64 \<Rightarrow> raft" where
  "solo_node n = (raft_init config_example ((log_example env_example)\<lparr>l_applying := 2, l_applied := 2\<rparr>))
     \<lparr>r_id := n, r_term := 2, r_trk := solo_tracker\<rparr>"

definition solo_group :: cluster where
  "solo_group = \<lparr>cl_node = solo_node, cl_hard = (\<lambda>n. \<lparr>hs_term = 2, hs_vote = 0, hs_commit = 2\<rparr>), cl_sent = {}\<rparr>"

definition solo_vote :: message where
  "solo_vote = Message0\<lparr>m_type := MsgVoteResp, m_from := 1, m_to := 1, m_term := 3\<rparr>"

definition solo_progress :: Progress where
  "solo_progress = progress_example\<lparr>pr_match := 3, pr_next := 4, pr_state := StateProbe, pr_recentActive := False,
     pr_msgAppFlowPaused := False, pr_pendingSnapshot := 0, pr_inflights := NewInflights 4 0\<rparr>"

definition solo_candidate :: raft where
  "solo_candidate = (solo_node 1)\<lparr>r_term := 3, r_vote := 1, r_state := StateCandidate,
     r_trk := solo_tracker\<lparr>trk_progress := [1 \<mapsto> solo_progress]\<rparr>, r_randomizedElectionTimeout := 10, r_draws := 1\<rparr>"

lemmas solo_defs = solo_node_def solo_tracker_def solo_progress_def raft_init_def config_example_def MakeProgressTracker_def
  Config0_def progress_example_def log_example_def env_example_def Message0_def NoneId_def

lemmas reset_defs = raft_reset_def raft_visit_def ProgressTracker_Visit_def ProgressTracker_ResetVotes_def
  raft_abortLeaderTransfer_def raft_resetRandomizedElectionTimeout_def reset_progress_def raft_pr_def set_pr_def
  ProgressMap_at_def RaftLog_lastIndex_def Unstable_maybeLastIndex_def add64_def W64_def newReadOnly_def Let_def

lemma solo_campaigns:
  "Step env_example (solo_node 1) (Message0\<lparr>m_type := MsgHup\<rparr>) = Inr (solo_candidate\<lparr>r_msgsAfterAppend := [solo_vote]\<rparr>, Ok)"
  by (simp add: solo_candidate_def solo_vote_def solo_defs reset_defs Step_def step_by_type_def raft_hup_def raft_promotable_def
    raft_hasUnappliedConfChanges_def raft_campaign_def raft_becomeCandidate_def JointConfig_IDs_def raft_requestVote_def
    raft_send_def is_vote_msg_def ok_step_def RaftLog_hasNextOrInProgressSnapshot_def campaignPreElection_def campaignElection_def)

lemmas elected_defs = Step_def step_by_type_def step_by_state_def stepCandidate_def stepCandidate_vote_def
    raft_poll_def ProgressTracker_RecordVote_def ProgressTracker_TallyVotes_def  JointConfig_GetVoteResult_def MajorityConfig_GetVoteResult_def
    raft_becomeLeader_def Progress_BecomeReplicate_def Progress_ResetState_def raft_appendEntry_def Entry0_def
    raft_increaseUncommittedSize_def payloadsSize_def payloadSize_def at_ix_def RaftLog_append_def Unstable_truncateAndAppend_def sub64_def raft_bcastAppend_def
    raft_send_def is_vote_msg_def ok_step_def

lemma solo_elected:
  "\<exists>r. Step env_example solo_candidate solo_vote = Inr (r, Ok) \<and> r_state r = StateLeader \<and> r_term r = 3 \<and>
     trk_config (r_trk r) = trk_config solo_tracker"
  by (simp add: solo_candidate_def solo_vote_def solo_defs reset_defs elected_defs)

lemma solo_init: "cluster_init {({1}, {})} solo_group"
  by (simp add: cluster_init_def solo_group_def solo_defs known_def)

lemma solo_run:
  "\<exists>c. (cluster_step {({1}, {})})\<^sup>*\<^sup>* solo_group c \<and> r_state (cl_node c 1) = StateLeader \<and> r_term (cl_node c 1) = 3"
proof -
  let ?step = "cluster_step {({1}, {})}" and ?r = "solo_candidate\<lparr>r_msgsAfterAppend := [solo_vote]\<rparr>"
  let ?c1 = "solo_group\<lparr>cl_node := (cl_node solo_group)(1 := ?r)\<rparr>"
  let ?c2 = "?c1\<lparr>cl_hard := (cl_hard ?c1)(1 := raft_hardState ?r), cl_sent := cl_sent ?c1 \<union> set (r_msgs ?r) \<union> set (r_msgsAfterAppend ?r),
       cl_node := (cl_node ?c1)(1 := ?r\<lparr>r_msgs := [], r_msgsAfterAppend := []\<rparr>)\<rparr>"
  have k: "known {({1}, {})} (cfg_voters (trk_config solo_tracker))" by (simp add: known_def solo_defs)
  have t: "r_term (solo_node 1) = 2" "r_term solo_candidate = 3" "trk_config (r_trk solo_candidate) = trk_config solo_tracker"
    "solo_candidate\<lparr>r_msgs := [], r_msgsAfterAppend := []\<rparr> = solo_candidate"
    by (simp_all add: solo_candidate_def solo_defs)
  have 1: "?step solo_group ?c1"
    by (rule cluster_step.receive [where E = env_example and m = "Message0\<lparr>m_type := MsgHup\<rparr>" and err = Ok])
      (use k t solo_campaigns in \<open>simp_all add: solo_group_def genuine_def has_term_def granted_def NoneId_def Message0_def W64_def\<close>)
  have 2: "?step ?c1 ?c2" by (rule cluster_step.flush) (simp_all add: NoneId_def)
  obtain r where r: "Step env_example solo_candidate solo_vote = Inr (r, Ok)" "r_state r = StateLeader" "r_term r = 3"
    "trk_config (r_trk r) = trk_config solo_tracker" using solo_elected by blast
  have "?step ?c2 (?c2\<lparr>cl_node := (cl_node ?c2)(1 := r)\<rparr>)"
    by (rule cluster_step.receive [where E = env_example and m = solo_vote and err = Ok])
      (use k t r in \<open>simp_all add: genuine_def has_term_def granted_def NoneId_def Message0_def W64_def solo_vote_def\<close>)
  then have "?step\<^sup>*\<^sup>* solo_group (?c2\<lparr>cl_node := (cl_node ?c2)(1 := r)\<rparr>)"
    using 1 2 by (meson converse_rtranclp_into_rtranclp rtranclp.rtrancl_refl)
  then show ?thesis using r by (intro exI [of _ "?c2\<lparr>cl_node := (cl_node ?c2)(1 := r)\<rparr>"]) simp
qed

lemma solo_coherent: "coherent {({1}, {})}"
  using majority.quorum_meet [of "{1}"] by (simp add: coherent_def joint_quorum_def)

section \<open>Properties\<close>

text \<open>
  C1: election safety, over the whole group. Start from followers and let the nodes step
  messages, tick, apply configuration changes, write their hard state, send, crash and
  restart in any order, with messages lost, delayed, duplicated or reordered; as long as
  the configurations in use have pairwise intersecting quorums, two leaders of the same
  term are the same node.
\<close>

theorem election_safety:
  assumes "cluster_init Cs c0" "(cluster_step Cs)\<^sup>*\<^sup>* c0 c" "coherent Cs" "i \<noteq> NoneId" "j \<noteq> NoneId"
    and "r_state (cl_node c i) = StateLeader" "r_state (cl_node c j) = StateLeader"
    and "r_term (cl_node c i) = r_term (cl_node c j)"
  shows "i = j"
proof -
  have "cluster_inv Cs c" using assms(1,2) by (blast intro: reachable_inv cluster_init_inv)
  then show ?thesis by (rule one_leader) (use assms in simp_all)
qed

theorem election_safety_witness:
  "\<exists>c. (cluster_step {({1}, {})})\<^sup>*\<^sup>* solo_group c \<and>
     {n. n \<noteq> NoneId \<and> r_state (cl_node c n) = StateLeader \<and> r_term (cl_node c n) = 3} = {1}"
proof -
  obtain c where c: "(cluster_step {({1}, {})})\<^sup>*\<^sup>* solo_group c" "r_state (cl_node c 1) = StateLeader" "r_term (cl_node c 1) = 3"
    using solo_run by blast
  have "n = 1" if "n \<noteq> NoneId" "r_state (cl_node c n) = StateLeader" "r_term (cl_node c n) = 3" for n
    using election_safety [OF solo_init c(1) solo_coherent, of n 1] that c by (simp add: NoneId_def)
  then show ?thesis using c by (intro exI [of _ c]) (auto simp: NoneId_def)
qed

end
