(* ===== verification/RawNode.thy ===== *)
theory RawNode
  imports Election
begin

text \<open>
  The raw node of \<open>src/etcd_raft/rawnode.h\<close>, the \<open>Ready\<close> of \<open>raft.h\<close> and the status of
  \<open>status.h\<close>. The application takes a \<open>Ready\<close>, stores and sends what it holds, and calls
  \<open>Advance\<close>, which steps the acknowledgements that \<open>acceptReady\<close> has queued; with
  asynchronous storage writes the storage threads deliver these acknowledgements instead.

  An outgoing message is a pair of the message and its \<open>responses\<close>; only the two messages
  to the storage threads have any. The shared pointer \<open>prevSoftSt_\<close> is never null, so it is
  its value; \<open>softState_\<close> of a \<open>Ready\<close> is an option.
\<close>

section \<open>Ready\<close>

record Ready =
  rd_softState :: "SoftState option"
  rd_hardState :: HardState
  rd_readStates :: "ReadState list"
  rd_entries :: "entry list"
  rd_snapshot :: snapshot
  rd_committedEntries :: "entry list"
  rd_messages :: "(message \<times> message list) list"
  rd_mustSync :: bool

definition Ready_containsUpdates :: "Ready \<Rightarrow> bool" where
  "Ready_containsUpdates rd =
     (rd_softState rd \<noteq> None \<or> \<not> IsEmptyHardState (rd_hardState rd) \<or> \<not> IsEmptySnap (rd_snapshot rd) \<or>
      rd_entries rd \<noteq> [] \<or> rd_committedEntries rd \<noteq> [] \<or> rd_messages rd \<noteq> [] \<or> rd_readStates rd \<noteq> [])"

definition Ready_appliedCursor :: "Ready \<Rightarrow> u64" where
  "Ready_appliedCursor rd =
     (if 0 < length (rd_committedEntries rd)
      then e_index (rd_committedEntries rd ! (length (rd_committedEntries rd) - 1))
      else if 0 < sn_index (rd_snapshot rd) then sn_index (rd_snapshot rd) else 0)"

definition MustSync :: "HardState \<Rightarrow> HardState \<Rightarrow> nat \<Rightarrow> bool" where
  "MustSync st prevst entsnum =
     (entsnum \<noteq> 0 \<or> hs_vote st \<noteq> hs_vote prevst \<or> hs_term st \<noteq> hs_term prevst)"

section \<open>The raw node\<close>

definition ErrStepLocalMsg :: error where
  "ErrStepLocalMsg = UnknownErr ''raft: cannot step raft local message''"

definition ErrStepPeerNotFound :: error where
  "ErrStepPeerNotFound = UnknownErr ''raft: cannot step as peer not found''"

datatype SnapshotStatus = SnapshotFinish | SnapshotFailure

record Peer =
  peer_id :: u64
  peer_context :: string

record RawNode =
  rn_raft :: raft
  rn_async :: bool
  rn_prevSoftSt :: SoftState
  rn_prevHardSt :: HardState
  rn_stepsOnAdvance :: "message list"

text \<open>A call that steps the node and leaves the rest of the raw node alone.\<close>

definition on_raft :: "RawNode \<Rightarrow> (raft \<times> 'a) res \<Rightarrow> (RawNode \<times> 'a) res" where
  "on_raft rn x = bindR x (\<lambda>(r, v). Inr (rn\<lparr>rn_raft := r\<rparr>, v))"

definition RawNode_Tick :: "env \<Rightarrow> RawNode \<Rightarrow> RawNode res" where
  "RawNode_Tick E rn = bindR (raft_tick E (rn_raft rn)) (\<lambda>r. Inr (rn\<lparr>rn_raft := r\<rparr>))"

definition RawNode_TickQuiesced :: "RawNode \<Rightarrow> RawNode" where
  "RawNode_TickQuiesced rn =
     rn\<lparr>rn_raft := (rn_raft rn)\<lparr>r_electionElapsed := r_electionElapsed (rn_raft rn) + 1\<rparr>\<rparr>"

definition RawNode_Campaign :: "env \<Rightarrow> RawNode \<Rightarrow> (RawNode \<times> error) res" where
  "RawNode_Campaign E rn = on_raft rn (Step E (rn_raft rn) (Message0\<lparr>m_type := MsgHup\<rparr>))"

definition RawNode_Propose :: "env \<Rightarrow> RawNode \<Rightarrow> string \<Rightarrow> (RawNode \<times> error) res" where
  "RawNode_Propose E rn d =
     on_raft rn (Step E (rn_raft rn) (Message0\<lparr>m_type := MsgProp, m_from := r_id (rn_raft rn),
       m_entries := [Entry0\<lparr>e_data := d\<rparr>]\<rparr>))"

definition RawNode_ProposeConfChange :: "env \<Rightarrow> RawNode \<Rightarrow> ConfChangeI option \<Rightarrow> (RawNode \<times> error) res" where
  "RawNode_ProposeConfChange E rn cc =
     (case confChangeToMsg E cc of (m, err) \<Rightarrow>
        if err \<noteq> Ok then Inr (rn, err) else on_raft rn (Step E (rn_raft rn) m))"

definition RawNode_ApplyConfChange :: "env \<Rightarrow> RawNode \<Rightarrow> ConfChangeI \<Rightarrow> (RawNode \<times> ConfState) res" where
  "RawNode_ApplyConfChange E rn cc = on_raft rn (raft_applyConfChange E (rn_raft rn) (AsV2 cc))"

definition RawNode_Step :: "env \<Rightarrow> RawNode \<Rightarrow> message \<Rightarrow> (RawNode \<times> error) res" where
  "RawNode_Step E rn m =
     (if IsLocalMsg (m_type m) \<and> \<not> IsLocalMsgTarget (m_from m) then Inr (rn, ErrStepLocalMsg)
      else if IsResponseMsg (m_type m) \<and> \<not> IsLocalMsgTarget (m_from m) \<and>
              trk_progress (r_trk (rn_raft rn)) (m_from m) = None
      then Inr (rn, ErrStepPeerNotFound)
      else on_raft rn (Step E (rn_raft rn) m))"

definition RawNode_applyUnstableEntries :: "RawNode \<Rightarrow> bool" where
  "RawNode_applyUnstableEntries rn = (\<not> rn_async rn)"

section \<open>Messages to and from the storage threads\<close>

definition needStorageAppendMsg :: "raft \<Rightarrow> Ready \<Rightarrow> bool" where
  "needStorageAppendMsg r rd =
     (rd_entries rd \<noteq> [] \<or> \<not> IsEmptyHardState (rd_hardState rd) \<or> \<not> IsEmptySnap (rd_snapshot rd) \<or>
      r_msgsAfterAppend r \<noteq> [])"

definition needStorageAppendRespMsg :: "raft \<Rightarrow> Ready \<Rightarrow> bool" where
  "needStorageAppendRespMsg r rd =
     (RaftLog_hasNextOrInProgressUnstableEnts (r_raftLog r) \<or> \<not> IsEmptySnap (rd_snapshot rd))"

definition newStorageAppendRespMsg :: "raft \<Rightarrow> Ready \<Rightarrow> message res" where
  "newStorageAppendRespMsg r rd =
     (let m = Message0\<lparr>m_type := MsgStorageAppendResp, m_to := r_id r, m_from := LocalAppendThread, m_term := r_term r\<rparr> in
      bindR (if RaftLog_hasNextOrInProgressUnstableEnts (r_raftLog r)
             then bindR (RaftLog_lastIndex (r_raftLog r)) (\<lambda>li.
                  bindR (RaftLog_lastTerm (r_raftLog r)) (\<lambda>lt. Inr (m\<lparr>m_index := li, m_logterm := lt\<rparr>)))
             else Inr m) (\<lambda>m1.
        Inr (if IsEmptySnap (rd_snapshot rd) then m1 else m1\<lparr>m_snapshot := rd_snapshot rd\<rparr>)))"

definition newStorageAppendMsg :: "raft \<Rightarrow> Ready \<Rightarrow> (message \<times> message list) res" where
  "newStorageAppendMsg r rd =
     (let m0 = Message0\<lparr>m_type := MsgStorageAppend, m_to := LocalAppendThread, m_from := r_id r, m_entries := rd_entries rd\<rparr>;
          hs = rd_hardState rd;
          m1 = (if IsEmptyHardState hs then m0 else m0\<lparr>m_term := hs_term hs, m_vote := hs_vote hs, m_commit := hs_commit hs\<rparr>);
          m = (if IsEmptySnap (rd_snapshot rd) then m1 else m1\<lparr>m_snapshot := rd_snapshot rd\<rparr>)
      in if needStorageAppendRespMsg r rd
         then bindR (newStorageAppendRespMsg r rd) (\<lambda>resp. Inr (m, r_msgsAfterAppend r @ [resp]))
         else Inr (m, r_msgsAfterAppend r))"

definition needStorageApplyMsg :: "Ready \<Rightarrow> bool" where
  "needStorageApplyMsg rd = (rd_committedEntries rd \<noteq> [])"

definition needStorageApplyRespMsg :: "Ready \<Rightarrow> bool" where
  "needStorageApplyRespMsg rd = needStorageApplyMsg rd"

definition newStorageApplyRespMsg :: "raft \<Rightarrow> entry list \<Rightarrow> message" where
  "newStorageApplyRespMsg r ents =
     Message0\<lparr>m_type := MsgStorageApplyResp, m_to := r_id r, m_from := LocalApplyThread, m_term := 0, m_entries := ents\<rparr>"

definition newStorageApplyMsg :: "raft \<Rightarrow> Ready \<Rightarrow> message \<times> message list" where
  "newStorageApplyMsg r rd =
     (Message0\<lparr>m_type := MsgStorageApply, m_to := LocalApplyThread, m_from := r_id r, m_term := 0,
        m_entries := rd_committedEntries rd\<rparr>,
      [newStorageApplyRespMsg r (rd_committedEntries rd)])"

section \<open>Ready and Advance\<close>

text \<open>The messages \<open>readyWithoutAccept\<close> adds to those in \<open>msgs_\<close>.\<close>

definition ready_extra_messages :: "RawNode \<Rightarrow> Ready \<Rightarrow> (message \<times> message list) list res" where
  "ready_extra_messages rn rd =
     (let r = rn_raft rn in
      if rn_async rn
      then bindR (if needStorageAppendMsg r rd then bindR (newStorageAppendMsg r rd) (\<lambda>m. Inr [m]) else Inr []) (\<lambda>ms.
           Inr (ms @ (if needStorageApplyMsg rd then [newStorageApplyMsg r rd] else [])))
      else Inr (map (\<lambda>m. (m, [])) (filter (\<lambda>m. m_to m \<noteq> r_id r) (r_msgsAfterAppend r))))"

definition RawNode_readyWithoutAccept :: "env \<Rightarrow> RawNode \<Rightarrow> Ready res" where
  "RawNode_readyWithoutAccept E rn =
     (let r = rn_raft rn; softSt = raft_softState r; hardSt = raft_hardState r in
      bindR (RaftLog_nextUnstableEnts (r_raftLog r)) (\<lambda>ents.
      bindR (RaftLog_nextCommittedEnts E (r_raftLog r) (RawNode_applyUnstableEntries rn)) (\<lambda>cents.
        let rd = \<lparr>rd_softState = (if softSt \<noteq> rn_prevSoftSt rn then Some softSt else None),
                  rd_hardState = (if \<not> isHardStateEqual hardSt (rn_prevHardSt rn) then hardSt else HardState0),
                  rd_readStates = r_readStates r, rd_entries = ents,
                  rd_snapshot = (case RaftLog_nextUnstableSnapshot (r_raftLog r) of Some s \<Rightarrow> s | None \<Rightarrow> Snapshot0),
                  rd_committedEntries = cents, rd_messages = map (\<lambda>m. (m, [])) (r_msgs r),
                  rd_mustSync = MustSync hardSt (rn_prevHardSt rn) (length ents)\<rparr>
        in bindR (ready_extra_messages rn rd) (\<lambda>ms. Inr (rd\<lparr>rd_messages := rd_messages rd @ ms\<rparr>)))))"

text \<open>The acknowledgements \<open>acceptReady\<close> queues for \<open>Advance\<close>.\<close>

definition ready_steps :: "raft \<Rightarrow> Ready \<Rightarrow> message list res" where
  "ready_steps r rd =
     bindR (if needStorageAppendRespMsg r rd then bindR (newStorageAppendRespMsg r rd) (\<lambda>m. Inr [m]) else Inr []) (\<lambda>ms.
       Inr (filter (\<lambda>m. m_to m = r_id r) (r_msgsAfterAppend r) @ ms @
            (if needStorageApplyRespMsg rd then [newStorageApplyRespMsg r (rd_committedEntries rd)] else [])))"

definition RawNode_acceptReady :: "env \<Rightarrow> RawNode \<Rightarrow> Ready \<Rightarrow> RawNode res" where
  "RawNode_acceptReady E rn rd =
     (let r0 = rn_raft rn;
          r = (if rd_readStates rd \<noteq> [] then r0\<lparr>r_readStates := []\<rparr> else r0)
      in bindR (if rn_async rn then Inr (rn_stepsOnAdvance rn)
                else if rn_stepsOnAdvance rn \<noteq> []
                then Inl (Panic ''two accepted Ready structs without call to Advance'')
                else ready_steps r rd) (\<lambda>steps.
         let l = RaftLog_acceptUnstable (r_raftLog r) in
         bindR (if rd_committedEntries rd \<noteq> []
                then RaftLog_acceptApplying l (e_index (last (rd_committedEntries rd))) (entsSize E (rd_committedEntries rd))
                       (RawNode_applyUnstableEntries rn)
                else Inr l) (\<lambda>l'.
           Inr (rn\<lparr>rn_raft := r\<lparr>r_msgs := [], r_msgsAfterAppend := [], r_raftLog := l'\<rparr>,
                   rn_prevSoftSt := (case rd_softState rd of Some s \<Rightarrow> s | None \<Rightarrow> rn_prevSoftSt rn),
                   rn_prevHardSt := (if IsEmptyHardState (rd_hardState rd) then rn_prevHardSt rn else rd_hardState rd),
                   rn_stepsOnAdvance := steps\<rparr>))))"

definition RawNode_GetReady :: "env \<Rightarrow> RawNode \<Rightarrow> (RawNode \<times> Ready) res" where
  "RawNode_GetReady E rn =
     bindR (RawNode_readyWithoutAccept E rn) (\<lambda>rd. bindR (RawNode_acceptReady E rn rd) (\<lambda>rn'. Inr (rn', rd)))"

definition RawNode_HasReady :: "RawNode \<Rightarrow> bool res" where
  "RawNode_HasReady rn =
     (let r = rn_raft rn; l = r_raftLog r; hardSt = raft_hardState r in
      if raft_softState r \<noteq> rn_prevSoftSt rn then Inr True
      else if \<not> IsEmptyHardState hardSt \<and> \<not> isHardStateEqual hardSt (rn_prevHardSt rn) then Inr True
      else if RaftLog_hasNextUnstableSnapshot l then Inr True
      else if r_msgs r \<noteq> [] \<or> r_msgsAfterAppend r \<noteq> [] then Inr True
      else bindR (RaftLog_hasNextUnstableEnts l) (\<lambda>b.
        Inr (b \<or> RaftLog_hasNextCommittedEnts l (RawNode_applyUnstableEntries rn) \<or> r_readStates r \<noteq> [])))"

definition RawNode_Advance :: "env \<Rightarrow> RawNode \<Rightarrow> RawNode res" where
  "RawNode_Advance E rn =
     (if rn_async rn then Inl (Panic ''Advance must not be called when using AsyncStorageWrites'')
      else bindR (foldR (\<lambda>m r. bindR (Step E r m) (\<lambda>(r', _). Inr r')) (rn_stepsOnAdvance rn) (rn_raft rn)) (\<lambda>r.
        Inr (rn\<lparr>rn_raft := r, rn_stepsOnAdvance := []\<rparr>)))"

section \<open>Reports and requests\<close>

definition RawNode_ReportUnreachable :: "env \<Rightarrow> RawNode \<Rightarrow> u64 \<Rightarrow> (RawNode \<times> error) res" where
  "RawNode_ReportUnreachable E rn i = on_raft rn (Step E (rn_raft rn) (Message0\<lparr>m_type := MsgUnreachable, m_from := i\<rparr>))"

definition RawNode_ReportSnapshot :: "env \<Rightarrow> RawNode \<Rightarrow> u64 \<Rightarrow> SnapshotStatus \<Rightarrow> (RawNode \<times> error) res" where
  "RawNode_ReportSnapshot E rn i status =
     on_raft rn (Step E (rn_raft rn) (Message0\<lparr>m_type := MsgSnapStatus, m_from := i, m_reject := (status = SnapshotFailure)\<rparr>))"

definition RawNode_TransferLeader :: "env \<Rightarrow> RawNode \<Rightarrow> u64 \<Rightarrow> (RawNode \<times> error) res" where
  "RawNode_TransferLeader E rn transferee =
     on_raft rn (Step E (rn_raft rn) (Message0\<lparr>m_type := MsgTransferLeader, m_from := transferee\<rparr>))"

definition RawNode_ReadIndex :: "env \<Rightarrow> RawNode \<Rightarrow> string \<Rightarrow> (RawNode \<times> error) res" where
  "RawNode_ReadIndex E rn rctx =
     on_raft rn (Step E (rn_raft rn) (Message0\<lparr>m_type := MsgReadIndex, m_entries := [Entry0\<lparr>e_data := rctx\<rparr>]\<rparr>))"

definition RawNode_ForgetLeader :: "env \<Rightarrow> RawNode \<Rightarrow> (RawNode \<times> error) res" where
  "RawNode_ForgetLeader E rn = on_raft rn (Step E (rn_raft rn) (Message0\<lparr>m_type := MsgForgetLeader\<rparr>))"

section \<open>Start\<close>

text \<open>The entry of the \<open>i\<close>-th peer in \<open>Bootstrap\<close>; \<open>SerializeAsString\<close> gives the empty
  string when serialisation fails.\<close>

fun bootstrap_entries :: "env \<Rightarrow> nat \<Rightarrow> Peer list \<Rightarrow> entry list" where
  "bootstrap_entries E i [] = []"
| "bootstrap_entries E i (p # ps) =
     \<lparr>e_term = 1, e_index = i + 1, e_type = EntryConfChange,
      e_data = (case pb_ser_ConfChange E \<lparr>cc_type = ConfChangeAddNode, cc_node_id = peer_id p,
                        cc_context = peer_context p, cc_id = 0\<rparr> of Some d \<Rightarrow> d | None \<Rightarrow> '''')\<rparr>
     # bootstrap_entries E (i + 1) ps"

definition bootstrap_apply :: "env \<Rightarrow> Peer \<Rightarrow> raft \<Rightarrow> raft res" where
  "bootstrap_apply E p r =
     bindR (raft_applyConfChange E r (AsV2 (ConfChangeWrap \<lparr>cc_type = ConfChangeAddNode, cc_node_id = peer_id p,
        cc_context = '''', cc_id = 0\<rparr>))) (\<lambda>(r', _). Inr r')"

definition RawNode_Bootstrap :: "env \<Rightarrow> RawNode \<Rightarrow> Peer list \<Rightarrow> (RawNode \<times> error) res" where
  "RawNode_Bootstrap E rn peers =
     (if peers = [] then Inr (rn, UnknownErr ''must provide at least one peer to Bootstrap'')
      else bindR (st_LastIndex (l_storage (r_raftLog (rn_raft rn)))) (\<lambda>(lastIndex, err).
        if err \<noteq> Ok then Inr (rn, err)
        else if lastIndex \<noteq> 0 then Inr (rn, UnknownErr ''can't bootstrap a nonempty Storage'')
        else bindR (raft_becomeFollower E (rn_raft rn) 1 NoneId) (\<lambda>r1.
          let ents = bootstrap_entries E 0 peers in
          bindR (RaftLog_append (r_raftLog r1) ents) (\<lambda>(l, _).
          bindR (foldR (bootstrap_apply E) peers (r1\<lparr>r_raftLog := l\<lparr>l_committed := length ents\<rparr>\<rparr>)) (\<lambda>r2.
            Inr (rn\<lparr>rn_prevHardSt := HardState0, rn_raft := r2\<rparr>, Ok))))))"

definition NewRawNode :: "env \<Rightarrow> RaftConfig \<Rightarrow> (RawNode \<times> error) res" where
  "NewRawNode E config =
     bindR (newRaft E config) (\<lambda>r.
       Inr (\<lparr>rn_raft = r, rn_async = rc_AsyncStorageWrites config, rn_prevSoftSt = raft_softState r,
             rn_prevHardSt = raft_hardState r, rn_stepsOnAdvance = []\<rparr>, Ok))"

section \<open>Status\<close>

record BasicStatus =
  bs_id :: u64
  bs_hardState :: HardState
  bs_softState :: SoftState
  bs_applied :: u64
  bs_leadTransferee :: u64

record Status =
  status_basic :: BasicStatus
  status_config :: Config
  status_progress :: ProgressMap

definition getBasicStatus :: "raft \<Rightarrow> BasicStatus" where
  "getBasicStatus r =
     \<lparr>bs_id = r_id r, bs_hardState = raft_hardState r, bs_softState = raft_softState r,
      bs_applied = l_applied (r_raftLog r), bs_leadTransferee = r_leadTransferee r\<rparr>"

text \<open>A copy is the value itself, so the two \<open>Clone\<close> calls leave nothing to write down.\<close>

definition getProgressCopy :: "raft \<Rightarrow> ProgressMap" where
  "getProgressCopy r =
     fold (\<lambda>i m. m(i := trk_progress (r_trk r) i)) (ProgressTracker_Visit (r_trk r)) (\<lambda>_. None)"

definition getStatus :: "raft \<Rightarrow> Status" where
  "getStatus r =
     \<lparr>status_basic = getBasicStatus r, status_config = trk_config (r_trk r),
      status_progress = (if ss_raftState (bs_softState (getBasicStatus r)) = StateLeader then getProgressCopy r else (\<lambda>_. None))\<rparr>"

section \<open>Taking a Ready\<close>

text \<open>What the hard state on disk is once the application has stored a \<open>Ready\<close>.\<close>

definition ready_stored :: "Ready \<Rightarrow> HardState \<Rightarrow> HardState" where
  "ready_stored rd hs = (if IsEmptyHardState (rd_hardState rd) then hs else rd_hardState rd)"

text \<open>An acknowledgement of the storage threads.\<close>

definition storage_ack :: "message \<Rightarrow> bool" where
  "storage_ack m \<longleftrightarrow> m_type m = MsgStorageAppendResp \<or> m_type m = MsgStorageApplyResp"

lemma isHardStateEqual_iff: "isHardStateEqual a b \<longleftrightarrow> a = b"
  by (auto simp: isHardStateEqual_def)

lemma newStorageAppendRespMsg_type: "newStorageAppendRespMsg r rd = Inr m \<Longrightarrow> m_type m = MsgStorageAppendResp"
  by (auto simp: newStorageAppendRespMsg_def Let_def split: if_splits)

lemma ready_steps_set:
  assumes "ready_steps r rd = Inr ms"
  shows "\<forall>m \<in> set ms. storage_ack m \<or> m \<in> set (r_msgsAfterAppend r) \<and> m_to m = r_id r"
    and "{m \<in> set (r_msgsAfterAppend r). m_to m = r_id r} \<subseteq> set ms"
  using assms newStorageAppendRespMsg_type
  by (auto simp: ready_steps_def storage_ack_def newStorageApplyRespMsg_def split: if_splits)

lemma readyWithoutAccept_fields:
  assumes "RawNode_readyWithoutAccept E rn = Inr rd"
  shows "rd_hardState rd = (if raft_hardState (rn_raft rn) = rn_prevHardSt rn then HardState0 else raft_hardState (rn_raft rn))"
    and "rd_softState rd = (if raft_softState (rn_raft rn) = rn_prevSoftSt rn then None else Some (raft_softState (rn_raft rn)))"
    and "\<not> rn_async rn \<Longrightarrow> set (map fst (rd_messages rd)) =
      set (r_msgs (rn_raft rn)) \<union> {m \<in> set (r_msgsAfterAppend (rn_raft rn)). m_to m \<noteq> r_id (rn_raft rn)}"
    and "RaftLog_nextUnstableEnts (r_raftLog (rn_raft rn)) = Inr (rd_entries rd)"
    and "RaftLog_nextCommittedEnts E (r_raftLog (rn_raft rn)) (\<not> rn_async rn) = Inr (rd_committedEntries rd)"
  using assms
  by (auto simp: RawNode_readyWithoutAccept_def ready_extra_messages_def RawNode_applyUnstableEntries_def Let_def isHardStateEqual_iff
      image_Un image_image)

lemma GetReady_effect:
  assumes "RawNode_GetReady E rn = Inr (rn', rd)" "\<not> rn_async rn"
  shows "\<exists>l. rn_raft rn' = (rn_raft rn)\<lparr>r_readStates := [], r_msgs := [], r_msgsAfterAppend := [], r_raftLog := l\<rparr>"
    and "rn_prevHardSt rn' = ready_stored rd (rn_prevHardSt rn)" "rn_async rn' = rn_async rn"
    and "\<forall>m \<in> set (rn_stepsOnAdvance rn'). storage_ack m \<or> m \<in> set (r_msgsAfterAppend (rn_raft rn)) \<and> m_to m = r_id (rn_raft rn)"
    and "RawNode_readyWithoutAccept E rn = Inr rd"
proof -
  have s: "RawNode_readyWithoutAccept E rn = Inr rd" "RawNode_acceptReady E rn rd = Inr rn'"
    using assms(1) by (auto simp: RawNode_GetReady_def)
  have rs: "rd_readStates rd = r_readStates (rn_raft rn)"
    using s(1) by (auto simp: RawNode_readyWithoutAccept_def Let_def)
  let ?r = "if rd_readStates rd \<noteq> [] then (rn_raft rn)\<lparr>r_readStates := []\<rparr> else rn_raft rn"
  have r: "?r = (rn_raft rn)\<lparr>r_readStates := []\<rparr>" using rs by simp
  obtain steps l where a: "ready_steps ?r rd = Inr steps"
      "rn' = rn\<lparr>rn_raft := ?r\<lparr>r_msgs := [], r_msgsAfterAppend := [], r_raftLog := l\<rparr>,
                   rn_prevSoftSt := (case rd_softState rd of Some s \<Rightarrow> s | None \<Rightarrow> rn_prevSoftSt rn),
                   rn_prevHardSt := (if IsEmptyHardState (rd_hardState rd) then rn_prevHardSt rn else rd_hardState rd),
                   rn_stepsOnAdvance := steps\<rparr>"
    using s(2) assms(2) unfolding RawNode_acceptReady_def Let_def by (auto split: if_splits)
  show "\<exists>l. rn_raft rn' = (rn_raft rn)\<lparr>r_readStates := [], r_msgs := [], r_msgsAfterAppend := [], r_raftLog := l\<rparr>"
    unfolding a(2) r by auto
  show "rn_prevHardSt rn' = ready_stored rd (rn_prevHardSt rn)" "rn_async rn' = rn_async rn"
    by (simp_all add: a(2) ready_stored_def)
  show "\<forall>m \<in> set (rn_stepsOnAdvance rn'). storage_ack m \<or> m \<in> set (r_msgsAfterAppend (rn_raft rn)) \<and> m_to m = r_id (rn_raft rn)"
    using ready_steps_set(1) [OF a(1)] unfolding a(2) r by simp
  show "RawNode_readyWithoutAccept E rn = Inr rd" by (rule s(1))
qed


section \<open>A log from which a Ready can be taken\<close>

definition log_ready :: "env \<Rightarrow> RaftLog \<Rightarrow> alog \<Rightarrow> bool" where
  "log_ready E l a \<longleftrightarrow> log_ok E l a \<and> (l_applyingEntsPaused l \<or> l_applyingEntsSize l < l_maxApplyingEntsSize l) \<and>
     l_maxApplyingEntsSize l < W64 \<and> ents_bytes E (al_ents a) < W64 \<and>
     (\<forall>s. u_snapshot (l_unstable l) = Some s \<longrightarrow> sn_index s \<noteq> 0)"

lemma log_ready_unstable: "log_ready E l a \<Longrightarrow> unstable_wf (l_unstable l)"
  using log_okD(1) [of E l a] by (auto simp: log_ready_def elim!: log_abs_cases)

lemma nextUnstableEnts_ready:
  "log_ready E l a \<Longrightarrow> RaftLog_nextUnstableEnts l =
     Inr (drop (u_offsetInProgress (l_unstable l) - u_offset (l_unstable l)) (u_entries (l_unstable l)))"
  using nextEntries_wf [OF log_ready_unstable] by (simp add: RaftLog_nextUnstableEnts_def)

lemma nextCommittedEnts_ready:
  assumes "log_ready E l a"
  shows "returns (RaftLog_nextCommittedEnts E l b) (\<lambda>es. (es \<noteq> [] \<longleftrightarrow> RaftLog_hasNextCommittedEnts l b) \<and>
     (es \<noteq> [] \<longrightarrow> l_applying l < e_index (last es) \<and> e_index (last es) \<le> l_committed l))"
proof (cases "RaftLog_hasNextCommittedEnts l b")
  case False
  then have "RaftLog_nextCommittedEnts E l b = Inr []"
    by (auto simp: RaftLog_nextCommittedEnts_def RaftLog_hasNextCommittedEnts_def Let_def not_less split: if_splits)
  then show ?thesis using False by simp
next
  case True
  have h: "log_ok E l a" "l_applyingEntsPaused l \<or> l_applyingEntsSize l < l_maxApplyingEntsSize l" "l_maxApplyingEntsSize l < W64"
    "ents_bytes E (al_ents a) < W64" using assms by (simp_all add: log_ready_def)
  let ?hi = "RaftLog_maxAppliableIndex l b"
  let ?S = "al_slice a (l_applying l + 1) (?hi + 1)"
  note N = nextCommittedEnts_eq [OF h(1) True h(2-4)]
  obtain m where R: "RaftLog_nextCommittedEnts E l b = Inr (limitSize E ?S m)" using N(1) by blast
  let ?P = "limitSize E ?S m"
  have hi: "?hi \<le> l_committed l" by (rule maxAppliableIndex_bounds(1) [OF h(1)])
  have len: "length ?S = ?hi - l_applying l"
    using al_slice_length [OF N(2), of "?hi + 1"] N(3) hi log_okD(5) [OF h(1)] by simp
  have "numbered (l_applying l + 1) ?P"
    using al_slice_numbered [OF log_abs_wf [OF log_okD(1) [OF h(1)]] N(2)] numbered_take limitSize_take by metis
  moreover have P: "?P \<noteq> []" using len N(3) by auto
  ultimately have "e_index (last ?P) = l_applying l + length ?P"
    using numbered_last [of "l_applying l + 1" ?P] by simp
  moreover have "length ?P \<le> ?hi - l_applying l" "0 < length ?P" using limitSize_length [of E ?S m] len P by simp_all
  ultimately show ?thesis using R True P hi N(3) by simp
qed

lemma newStorageAppendRespMsg_ready:
  assumes "log_ready E (r_raftLog r) a"
  shows "newStorageAppendRespMsg r rd =
     Inr ((Message0\<lparr>m_type := MsgStorageAppendResp, m_to := r_id r, m_from := LocalAppendThread, m_term := r_term r,
       m_index := (if u_entries (l_unstable (r_raftLog r)) = [] then 0 else al_last a),
       m_logterm := (if u_entries (l_unstable (r_raftLog r)) = [] then 0 else fst (al_term a (al_last a)))\<rparr>)
       \<lparr>m_snapshot := (if IsEmptySnap (rd_snapshot rd) then Snapshot0 else rd_snapshot rd)\<rparr>)"
  using lastIndex_abs [of E "r_raftLog r" a] lastTerm_abs [of E "r_raftLog r" a] log_okD(1) assms
  by (auto simp: newStorageAppendRespMsg_def log_ready_def RaftLog_hasNextOrInProgressUnstableEnts_def Message0_def)

lemma ready_extra_returns:
  assumes "log_ready E (r_raftLog (rn_raft rn)) a"
  shows "\<exists>ms. ready_extra_messages rn rd = Inr ms \<and> (ms \<noteq> [] \<longleftrightarrow>
       (if rn_async rn then needStorageAppendMsg (rn_raft rn) rd \<or> rd_committedEntries rd \<noteq> []
        else \<exists>m \<in> set (r_msgsAfterAppend (rn_raft rn)). m_to m \<noteq> r_id (rn_raft rn)))"
proof -
  obtain m where "newStorageAppendMsg (rn_raft rn) rd = Inr m"
    using newStorageAppendRespMsg_ready [OF assms] by (cases "needStorageAppendRespMsg (rn_raft rn) rd") (auto simp: newStorageAppendMsg_def Let_def)
  then show ?thesis by (simp add: ready_extra_messages_def Let_def needStorageApplyMsg_def filter_empty_conv)
qed

lemma readyWithoutAccept_returns:
  assumes "log_ready E (r_raftLog (rn_raft rn)) a"
  shows "\<exists>rd. RawNode_readyWithoutAccept E rn = Inr rd \<and> rd_snapshot rd =
     (case RaftLog_nextUnstableSnapshot (r_raftLog (rn_raft rn)) of Some s \<Rightarrow> s | None \<Rightarrow> Snapshot0) \<and>
     rd_readStates rd = r_readStates (rn_raft rn) \<and>
     (rd_messages rd \<noteq> [] \<longleftrightarrow> r_msgs (rn_raft rn) \<noteq> [] \<or>
       (if rn_async rn then needStorageAppendMsg (rn_raft rn) rd \<or> rd_committedEntries rd \<noteq> []
        else \<exists>m \<in> set (r_msgsAfterAppend (rn_raft rn)). m_to m \<noteq> r_id (rn_raft rn)))"
proof -
  let ?r = "rn_raft rn"
  obtain ents cents where e: "RaftLog_nextUnstableEnts (r_raftLog ?r) = Inr ents"
      "RaftLog_nextCommittedEnts E (r_raftLog ?r) (RawNode_applyUnstableEntries rn) = Inr cents"
    using nextUnstableEnts_ready [OF assms] nextCommittedEnts_ready [OF assms, of "RawNode_applyUnstableEntries rn"]
    unfolding returns_def by blast
  let ?rd = "\<lparr>rd_softState = (if raft_softState ?r \<noteq> rn_prevSoftSt rn then Some (raft_softState ?r) else None),
      rd_hardState = (if \<not> isHardStateEqual (raft_hardState ?r) (rn_prevHardSt rn) then raft_hardState ?r else HardState0),
      rd_readStates = r_readStates ?r, rd_entries = ents,
      rd_snapshot = (case RaftLog_nextUnstableSnapshot (r_raftLog ?r) of Some s \<Rightarrow> s | None \<Rightarrow> Snapshot0),
      rd_committedEntries = cents, rd_messages = map (\<lambda>m. (m, [])) (r_msgs ?r),
      rd_mustSync = MustSync (raft_hardState ?r) (rn_prevHardSt rn) (length ents)\<rparr>"
  obtain ms where "ready_extra_messages rn ?rd = Inr ms" "ms \<noteq> [] \<longleftrightarrow>
       (if rn_async rn then needStorageAppendMsg ?r ?rd \<or> rd_committedEntries ?rd \<noteq> []
        else \<exists>m \<in> set (r_msgsAfterAppend ?r). m_to m \<noteq> r_id ?r)"
    using ready_extra_returns [OF assms, of ?rd] by blast
  then show ?thesis unfolding RawNode_readyWithoutAccept_def Let_def e bindR_Inr by (simp add: needStorageAppendMsg_def)
qed


lemma hardState_update_iff:
  "\<not> IsEmptyHardState (if hs = prev then HardState0 else hs) \<longleftrightarrow> \<not> IsEmptyHardState hs \<and> hs \<noteq> prev"
  by (auto simp: IsEmptyHardState_def isHardStateEqual_iff)

lemma unstable_snapshot_iff:
  assumes "log_ready E l a"
  shows "\<not> IsEmptySnap (case RaftLog_nextUnstableSnapshot l of Some s \<Rightarrow> s | None \<Rightarrow> Snapshot0) \<longleftrightarrow> RaftLog_hasNextUnstableSnapshot l"
  using assms by (auto simp: log_ready_def RaftLog_nextUnstableSnapshot_def RaftLog_hasNextUnstableSnapshot_def IsEmptySnap_def
      Snapshot0_def Unstable_nextSnapshot_def split: option.splits if_splits)

lemma HasReady_eq:
  assumes "log_ready E (r_raftLog (rn_raft rn)) a" "RawNode_readyWithoutAccept E rn = Inr rd"
  shows "RawNode_HasReady rn = Inr (rd_softState rd \<noteq> None \<or> \<not> IsEmptyHardState (rd_hardState rd) \<or>
     RaftLog_hasNextUnstableSnapshot (r_raftLog (rn_raft rn)) \<or> r_msgs (rn_raft rn) \<noteq> [] \<or> r_msgsAfterAppend (rn_raft rn) \<noteq> [] \<or>
     rd_entries rd \<noteq> [] \<or> rd_committedEntries rd \<noteq> [] \<or> r_readStates (rn_raft rn) \<noteq> [])"
proof -
  note F = readyWithoutAccept_fields [OF assms(2)]
  have c: "rd_committedEntries rd \<noteq> [] \<longleftrightarrow> RaftLog_hasNextCommittedEnts (r_raftLog (rn_raft rn)) (RawNode_applyUnstableEntries rn)"
    using nextCommittedEnts_ready [OF assms(1), of "\<not> rn_async rn"] F(5) by (simp add: RawNode_applyUnstableEntries_def)
  have h: "\<not> IsEmptyHardState (rd_hardState rd) \<longleftrightarrow> \<not> IsEmptyHardState (raft_hardState (rn_raft rn)) \<and>
      \<not> isHardStateEqual (raft_hardState (rn_raft rn)) (rn_prevHardSt rn)"
    unfolding F(1) hardState_update_iff by (simp add: isHardStateEqual_iff)
  show ?thesis unfolding RawNode_HasReady_def Let_def RaftLog_hasNextUnstableEnts_def F(4) bindR_Inr c h using F(2) by (auto split: if_splits)
qed

section \<open>Properties\<close>


definition follower_raw :: RawNode where
  "follower_raw = \<lparr>rn_raft = node_example, rn_async = False, rn_prevSoftSt = raft_softState node_example,
     rn_prevHardSt = raft_hardState node_example, rn_stepsOnAdvance = []\<rparr>"

lemma log_example_ready: "log_ready env_example (log_example env_example) alog_example"
  using log_example_ok
  by (simp add: log_ready_def log_example_fields) (simp add: log_example_def alog_example_def Entry_ByteSizeLong_def env_example_def
    ent_def W64_def noLimit_def u64_max_def)


end
