(* ===== verification/RawGroup.thy ===== *)
theory RawGroup
  imports RawNode
begin

text \<open>
  A group of raw nodes, each driven by an application that keeps the contract of \<open>Ready\<close>:
  it writes the hard state before it sends the messages, and it steps the acknowledgements
  of the last \<open>Ready\<close> by \<open>Advance\<close>. Election safety of such a group follows from the one of
  \<open>Election\<close>: what a raw node hands out in a \<open>Ready\<close> is what the node inside it has queued.
  Storage writes are synchronous, as \<open>src/raft_driver/raft_driver.cc\<close> configures them.
\<close>

section \<open>Queued responses\<close>

text \<open>Only responses wait for the storage.\<close>

definition resp_only :: "raft \<Rightarrow> bool" where
  "resp_only r \<longleftrightarrow> (\<forall>m \<in> set (r_msgsAfterAppend r). after_append (m_type m))"

interpretation resp: raft_invariant E resp_only has_term "\<lambda>_. True" "\<lambda>_ _. True" for E
  by unfold_locales (auto simp: resp_only_def quiet_def restarted_def has_term_def after_append_def)

section \<open>Calls of the application\<close>

text \<open>A message the node sends to itself on behalf of the application.\<close>

definition local_message :: "message \<Rightarrow> bool" where
  "local_message m \<longleftrightarrow> m_term m = 0 \<and> has_term m \<and> m_type m \<noteq> MsgVote \<and> m_type m \<noteq> MsgVoteResp"

inductive api_call :: "env \<Rightarrow> RawNode \<Rightarrow> RawNode \<Rightarrow> bool" for E where
  tick: "RawNode_Tick E rn = Inr rn' \<Longrightarrow> api_call E rn rn'"
| tick_quiesced: "api_call E rn (RawNode_TickQuiesced rn)"
| campaign: "RawNode_Campaign E rn = Inr (rn', err) \<Longrightarrow> api_call E rn rn'"
| propose: "RawNode_Propose E rn d = Inr (rn', err) \<Longrightarrow> api_call E rn rn'"
| propose_conf: "RawNode_ProposeConfChange E rn cc = Inr (rn', err) \<Longrightarrow> api_call E rn rn'"
| unreachable: "RawNode_ReportUnreachable E rn i = Inr (rn', err) \<Longrightarrow> api_call E rn rn'"
| snapshot: "RawNode_ReportSnapshot E rn i st = Inr (rn', err) \<Longrightarrow> api_call E rn rn'"
| transfer: "RawNode_TransferLeader E rn i = Inr (rn', err) \<Longrightarrow> api_call E rn rn'"
| read_index: "RawNode_ReadIndex E rn ctx = Inr (rn', err) \<Longrightarrow> api_call E rn rn'"
| forget: "RawNode_ForgetLeader E rn = Inr (rn', err) \<Longrightarrow> api_call E rn rn'"

definition raft_moved :: "env \<Rightarrow> RawNode \<Rightarrow> RawNode \<Rightarrow> bool" where
  "raft_moved E rn rn' \<longleftrightarrow>
     (\<exists>r'. rn' = rn\<lparr>rn_raft := r'\<rparr> \<and> (quiet (rn_raft rn) r' \<or> raft_tick E (rn_raft rn) = Inr r' \<or>
        (\<exists>m err. local_message m \<and> Step E (rn_raft rn) m = Inr (r', err))))"

lemma raft_moved_Step: "on_raft rn (Step E (rn_raft rn) m) = Inr (rn', err) \<Longrightarrow> local_message m \<Longrightarrow> raft_moved E rn rn'"
  by (auto simp: on_raft_def raft_moved_def)

lemma raft_moved_refl: "raft_moved E rn rn"
  unfolding raft_moved_def by (intro exI [of _ "rn_raft rn"]) simp

lemma confChangeToMsg_local: "confChangeToMsg E cc = (m, Ok) \<Longrightarrow> local_message m"
  by (auto simp: confChangeToMsg_def local_message_def has_term_def Message0_def split: prod.splits if_splits)

lemma api_call_moved: "api_call E rn rn' \<Longrightarrow> raft_moved E rn rn'"
proof (induction rule: api_call.induct)
  case (tick rn rn')
  then show ?case by (auto simp: RawNode_Tick_def raft_moved_def)
next
  case (tick_quiesced rn)
  show ?case unfolding raft_moved_def RawNode_TickQuiesced_def by (intro exI conjI disjI1, rule refl, simp)
next
  case (propose_conf rn cc rn' err)
  obtain m e where m: "confChangeToMsg E cc = (m, e)" by (cases "confChangeToMsg E cc")
  then show ?case
    using propose_conf raft_moved_refl raft_moved_Step [OF _ confChangeToMsg_local]
    by (cases "e = Ok") (auto simp: RawNode_ProposeConfChange_def)
qed (unfold RawNode_Campaign_def RawNode_Propose_def RawNode_ReportUnreachable_def RawNode_ReportSnapshot_def
    RawNode_TransferLeader_def RawNode_ReadIndex_def RawNode_ForgetLeader_def,
    (erule raft_moved_Step, simp add: local_message_def has_term_def Message0_def)+)

section \<open>The group\<close>

record raw_group =
  rg_node :: "u64 \<Rightarrow> RawNode"
  rg_disk :: "u64 \<Rightarrow> HardState"    \<comment> \<open>the hard state in the storage of each node\<close>
  rg_net :: "message set"           \<comment> \<open>the messages sent so far\<close>

text \<open>One acknowledgement of \<open>Advance\<close>; \<open>Advance\<close> steps all of them in turn.\<close>

definition advance_one :: "env \<Rightarrow> RawNode \<Rightarrow> RawNode \<Rightarrow> bool" where
  "advance_one E rn rn' \<longleftrightarrow>
     (\<exists>m ms r' err. rn_stepsOnAdvance rn = m # ms \<and> Step E (rn_raft rn) m = Inr (r', err) \<and>
        rn' = rn\<lparr>rn_raft := r', rn_stepsOnAdvance := ms\<rparr>)"

lemma Advance_steps:
  assumes "RawNode_Advance E rn = Inr rn'"
  shows "(advance_one E)\<^sup>*\<^sup>* rn rn'"
proof -
  let ?f = "\<lambda>m r. bindR (Step E r m) (\<lambda>(r', _). Inr r')"
  have "(advance_one E)\<^sup>*\<^sup>* (rn\<lparr>rn_raft := r, rn_stepsOnAdvance := ms\<rparr>) (rn\<lparr>rn_raft := r', rn_stepsOnAdvance := []\<rparr>)"
    if "foldR ?f ms r = Inr r'" for ms r r'
    using that
  proof (induction ms arbitrary: r)
    case (Cons m ms)
    obtain r1 err where 1: "Step E r m = Inr (r1, err)" "foldR ?f ms r1 = Inr r'" using Cons.prems by auto
    have "advance_one E (rn\<lparr>rn_raft := r, rn_stepsOnAdvance := m # ms\<rparr>) (rn\<lparr>rn_raft := r1, rn_stepsOnAdvance := ms\<rparr>)"
      using 1(1) by (auto simp: advance_one_def)
    then show ?case using Cons.IH [OF 1(2)] by (rule converse_rtranclp_into_rtranclp)
  qed simp
  from this [of "rn_stepsOnAdvance rn" "rn_raft rn"] show ?thesis
    using assms by (auto simp: RawNode_Advance_def split: if_splits)
qed

inductive raw_step :: "JointConfig set \<Rightarrow> raw_group \<Rightarrow> raw_group \<Rightarrow> bool" for Cs where
  deliver: "n \<noteq> NoneId \<Longrightarrow> RawNode_Step E (rg_node g n) m = Inr (rn', err) \<Longrightarrow> genuine (rg_net g) n m \<Longrightarrow>
     r_term (rn_raft (rg_node g n)) + 1 < W64 \<Longrightarrow> m_term m + 1 < W64 \<Longrightarrow>
     known Cs (cfg_voters (trk_config (r_trk (rn_raft rn')))) \<Longrightarrow>
     raw_step Cs g (g\<lparr>rg_node := (rg_node g)(n := rn')\<rparr>)"
| call: "n \<noteq> NoneId \<Longrightarrow> api_call E (rg_node g n) rn' \<Longrightarrow> r_term (rn_raft (rg_node g n)) + 1 < W64 \<Longrightarrow>
     known Cs (cfg_voters (trk_config (r_trk (rn_raft rn')))) \<Longrightarrow>
     raw_step Cs g (g\<lparr>rg_node := (rg_node g)(n := rn')\<rparr>)"
| conf_change: "n \<noteq> NoneId \<Longrightarrow> RawNode_ApplyConfChange E (rg_node g n) cc = Inr (rn', cs) \<Longrightarrow>
     known Cs (cfg_voters (trk_config (r_trk (rn_raft rn')))) \<Longrightarrow>
     raw_step Cs g (g\<lparr>rg_node := (rg_node g)(n := rn')\<rparr>)"
| ready: "n \<noteq> NoneId \<Longrightarrow> RawNode_GetReady E (rg_node g n) = Inr (rn', rd) \<Longrightarrow>
     raw_step Cs g (g\<lparr>rg_node := (rg_node g)(n := rn'), rg_disk := (rg_disk g)(n := ready_stored rd (rg_disk g n)),
       rg_net := rg_net g \<union> set (map fst (rd_messages rd))\<rparr>)"
| advance: "n \<noteq> NoneId \<Longrightarrow> advance_one E (rg_node g n) rn' \<Longrightarrow> r_term (rn_raft (rg_node g n)) + 1 < W64 \<Longrightarrow>
     m_term (hd (rn_stepsOnAdvance (rg_node g n))) + 1 < W64 \<Longrightarrow>
     known Cs (cfg_voters (trk_config (r_trk (rn_raft rn')))) \<Longrightarrow>
     raw_step Cs g (g\<lparr>rg_node := (rg_node g)(n := rn')\<rparr>)"
| restart: "n \<noteq> NoneId \<Longrightarrow> rc_id cfg = n \<Longrightarrow> rc_storage cfg = Some st \<Longrightarrow> \<not> rc_AsyncStorageWrites cfg \<Longrightarrow>
     st_InitialState st = Inr (rg_disk g n, cs, Ok) \<Longrightarrow> NewRawNode E cfg = Inr (rn', err) \<Longrightarrow>
     known Cs (cfg_voters (trk_config (r_trk (rn_raft rn')))) \<Longrightarrow>
     raw_step Cs g (g\<lparr>rg_node := (rg_node g)(n := rn')\<rparr>)"


section \<open>The invariant of the group\<close>

definition raw_cluster :: "raw_group \<Rightarrow> message set \<Rightarrow> cluster" where
  "raw_cluster g S = \<lparr>cl_node = (\<lambda>n. rn_raft (rg_node g n)), cl_hard = rg_disk g, cl_sent = S\<rparr>"

definition queued_ok :: "message set \<Rightarrow> u64 \<Rightarrow> HardState \<Rightarrow> RawNode \<Rightarrow> bool" where
  "queued_ok S n hs rn \<longleftrightarrow> \<not> rn_async rn \<and> hs_term (rn_prevHardSt rn) = hs_term hs \<and> hs_vote (rn_prevHardSt rn) = hs_vote hs \<and>
     resp_only (rn_raft rn) \<and> (\<forall>m \<in> set (rn_stepsOnAdvance rn). genuine S n m)"

text \<open>\<open>S\<close> holds the messages sent and those the nodes have handed to themselves.\<close>

definition raw_inv_with :: "JointConfig set \<Rightarrow> raw_group \<Rightarrow> message set \<Rightarrow> bool" where
  "raw_inv_with Cs g S \<longleftrightarrow> rg_net g \<subseteq> S \<and> cluster_inv Cs (raw_cluster g S) \<and>
     (\<forall>n. n \<noteq> NoneId \<longrightarrow> queued_ok S n (rg_disk g n) (rg_node g n))"

lemma raw_cluster_simps [simp]:
  "cl_node (raw_cluster g S) n = rn_raft (rg_node g n)" "cl_hard (raw_cluster g S) = rg_disk g" "cl_sent (raw_cluster g S) = S"
  by (simp_all add: raw_cluster_def)

lemma raw_invD:
  assumes "raw_inv_with Cs g S" "n \<noteq> NoneId"
  shows "elect_inv Cs S n (rn_raft (rg_node g n))" "queued_ok S n (rg_disk g n) (rg_node g n)"
  using assms cluster_invD(1) [of Cs "raw_cluster g S" n] by (auto simp: raw_inv_with_def)

lemma genuine_mono: "genuine S n m \<Longrightarrow> S \<subseteq> T \<Longrightarrow> genuine T n m"
  by (auto simp: genuine_def)

lemma queued_ok_mono: "queued_ok S n hs rn \<Longrightarrow> S \<subseteq> T \<Longrightarrow> queued_ok T n hs rn"
  using genuine_mono by (auto simp: queued_ok_def)

lemma local_genuine: "local_message m \<Longrightarrow> genuine S n m"
  by (simp add: local_message_def genuine_def granted_def)

lemma raw_inv_good:
  assumes "raw_inv_with Cs g S" "genuine S n m"
  shows "elect_good S n m" "has_term m"
  using genuine_good [of Cs "raw_cluster g S" n m] assms by (auto simp: raw_inv_with_def genuine_def)

text \<open>A step of one node that sends nothing.\<close>

lemma raw_inv_node:
  assumes "raw_inv_with Cs g S" "elect_inv Cs S n (rn_raft rn')" "n \<noteq> NoneId \<Longrightarrow> queued_ok S n (rg_disk g n) rn'"
  shows "raw_inv_with Cs (g\<lparr>rg_node := (rg_node g)(n := rn')\<rparr>) S"
proof -
  have "cluster_inv Cs (raw_cluster g S)" using assms(1) by (simp add: raw_inv_with_def)
  then have "cluster_inv Cs ((raw_cluster g S)\<lparr>cl_node := (cl_node (raw_cluster g S))(n := rn_raft rn')\<rparr>)"
    using assms(2) by (intro cluster_inv_node) simp_all
  moreover have "(raw_cluster g S)\<lparr>cl_node := (cl_node (raw_cluster g S))(n := rn_raft rn')\<rparr> =
      raw_cluster (g\<lparr>rg_node := (rg_node g)(n := rn')\<rparr>) S"
    by (auto simp: raw_cluster_def)
  ultimately show ?thesis using assms(1,3) by (simp add: raw_inv_with_def)
qed

lemma raw_inv_Step:
  assumes "raw_inv_with Cs g S" "n \<noteq> NoneId" "Step E (rn_raft (rg_node g n)) m = Inr (r', err)" "genuine S n m"
    and "r_term (rn_raft (rg_node g n)) + 1 < W64" "m_term m + 1 < W64" "known Cs (cfg_voters (trk_config (r_trk r')))"
    and "set ms \<subseteq> set (rn_stepsOnAdvance (rg_node g n))"
  shows "raw_inv_with Cs (g\<lparr>rg_node := (rg_node g)(n := (rg_node g n)\<lparr>rn_raft := r', rn_stepsOnAdvance := ms\<rparr>)\<rparr>) S"
proof (rule raw_inv_node [OF assms(1)])
  show "elect_inv Cs S n (rn_raft ((rg_node g n)\<lparr>rn_raft := r', rn_stepsOnAdvance := ms\<rparr>))"
    using elect.Step_I [OF assms(3) raw_invD(1) [OF assms(1,2)] raw_inv_good(1) [OF assms(1,4)] assms(5,6)] assms(7) by simp
  have "resp_only (rn_raft (rg_node g n))" using raw_invD(2) [OF assms(1,2)] by (simp add: queued_ok_def)
  then have "resp_only r'" using resp.Step_I [OF assms(3) _ raw_inv_good(2) [OF assms(1,4)] assms(5,6)] by simp
  then show "queued_ok S n (rg_disk g n) ((rg_node g n)\<lparr>rn_raft := r', rn_stepsOnAdvance := ms\<rparr>)"
    using raw_invD(2) [OF assms(1,2)] assms(8) by (auto simp: queued_ok_def)
qed

lemma raw_inv_Step_same:
  assumes "raw_inv_with Cs g S" "n \<noteq> NoneId" "Step E (rn_raft (rg_node g n)) m = Inr (r', err)" "genuine S n m"
    and "r_term (rn_raft (rg_node g n)) + 1 < W64" "m_term m + 1 < W64" "known Cs (cfg_voters (trk_config (r_trk r')))"
  shows "raw_inv_with Cs (g\<lparr>rg_node := (rg_node g)(n := (rg_node g n)\<lparr>rn_raft := r'\<rparr>)\<rparr>) S"
  using raw_inv_Step [OF assms, of "rn_stepsOnAdvance (rg_node g n)"] by simp


lemma raw_inv_call:
  assumes "raw_inv_with Cs g S" "n \<noteq> NoneId" "api_call E (rg_node g n) rn'" "r_term (rn_raft (rg_node g n)) + 1 < W64"
    and "known Cs (cfg_voters (trk_config (r_trk (rn_raft rn'))))"
  shows "raw_inv_with Cs (g\<lparr>rg_node := (rg_node g)(n := rn')\<rparr>) S"
proof -
  note inv = raw_invD [OF assms(1,2)]
  obtain r' where rn': "rn' = (rg_node g n)\<lparr>rn_raft := r'\<rparr>"
    and c: "quiet (rn_raft (rg_node g n)) r' \<or> raft_tick E (rn_raft (rg_node g n)) = Inr r' \<or>
      (\<exists>m err. local_message m \<and> Step E (rn_raft (rg_node g n)) m = Inr (r', err))"
    using api_call_moved [OF assms(3)] by (auto simp: raft_moved_def)
  have resp: "resp_only (rn_raft (rg_node g n))" using inv(2) by (simp add: queued_ok_def)
  from c show ?thesis
  proof (elim disjE exE conjE)
    assume q: "quiet (rn_raft (rg_node g n)) r'"
    then have "resp_only r'" using resp by (simp add: resp_only_def quiet_def)
    then show ?thesis
      using elect_inv_quiet [OF inv(1) q] inv(2) by (intro raw_inv_node [OF assms(1)]) (simp_all add: rn' queued_ok_def)
  next
    assume t: "raft_tick E (rn_raft (rg_node g n)) = Inr r'"
    show ?thesis
      using elect.tick_I [OF t inv(1) assms(4)] resp.tick_I [OF t resp assms(4)] inv(2)
      by (intro raw_inv_node [OF assms(1)]) (simp_all add: rn' queued_ok_def)
  next
    fix m err assume m: "local_message m" "Step E (rn_raft (rg_node g n)) m = Inr (r', err)"
    then show ?thesis
      unfolding rn' using assms(2,4,5) rn'
      by (intro raw_inv_Step_same [OF assms(1) _ m(2) local_genuine [OF m(1)]]) (simp_all add: local_message_def W64_def)
  qed
qed

lemma raw_inv_conf:
  assumes "raw_inv_with Cs g S" "n \<noteq> NoneId" "RawNode_ApplyConfChange E (rg_node g n) cc = Inr (rn', cs)"
    and "known Cs (cfg_voters (trk_config (r_trk (rn_raft rn'))))"
  shows "raw_inv_with Cs (g\<lparr>rg_node := (rg_node g)(n := rn')\<rparr>) S"
proof -
  note inv = raw_invD [OF assms(1,2)]
  obtain r' where r': "rn' = (rg_node g n)\<lparr>rn_raft := r'\<rparr>" "raft_applyConfChange E (rn_raft (rg_node g n)) (AsV2 cc) = Inr (r', cs)"
    using assms(3) by (auto simp: RawNode_ApplyConfChange_def on_raft_def)
  have "resp_only r'" using resp.applyConfChange_I [OF r'(2)] inv(2) by (simp add: queued_ok_def)
  then show ?thesis
    using elect.applyConfChange_I [OF r'(2) inv(1)] inv(2) assms(4)
    by (intro raw_inv_node [OF assms(1)]) (simp_all add: r'(1) queued_ok_def)
qed

lemma raw_inv_restart:
  assumes "raw_inv_with Cs g S" "n \<noteq> NoneId" "rc_id cfg = n" "rc_storage cfg = Some st" "\<not> rc_AsyncStorageWrites cfg"
    and "st_InitialState st = Inr (rg_disk g n, cs, Ok)" "NewRawNode E cfg = Inr (rn', err)"
    and "known Cs (cfg_voters (trk_config (r_trk (rn_raft rn'))))"
  shows "raw_inv_with Cs (g\<lparr>rg_node := (rg_node g)(n := rn')\<rparr>) S"
proof -
  obtain r' where r': "newRaft E cfg = Inr r'" and rn': "rn' = \<lparr>rn_raft = r', rn_async = rc_AsyncStorageWrites cfg,
      rn_prevSoftSt = raft_softState r', rn_prevHardSt = raft_hardState r', rn_stepsOnAdvance = []\<rparr>"
    using assms(7) by (auto simp: NewRawNode_def)
  have "elect_inv Cs S n r'"
    using restart_elect_inv [of Cs "raw_cluster g S" n E cfg r' st cs] assms r' rn' by (simp add: raw_inv_with_def)
  moreover have "queued_ok S n (rg_disk g n) rn'"
    using newRaft_start [OF r'] assms(4-6) rn' by (auto simp: queued_ok_def resp_only_def raft_hardState_def)
  ultimately show ?thesis by (intro raw_inv_node [OF assms(1)]) (simp_all add: rn')
qed

text \<open>Storing and sending a \<open>Ready\<close> is the \<open>flush\<close> of the node inside.\<close>

lemma ready_stored_ok:
  assumes "RawNode_readyWithoutAccept E rn = Inr rd" "grants_ok G n (r_term (rn_raft rn)) (r_vote (rn_raft rn))"
    and "hs_term (rn_prevHardSt rn) = hs_term hs" "hs_vote (rn_prevHardSt rn) = hs_vote hs"
  shows "grants_ok G n (hs_term (ready_stored rd hs)) (hs_vote (ready_stored rd hs))"
proof (cases "raft_hardState (rn_raft rn) = rn_prevHardSt rn")
  case True
  then have "ready_stored rd hs = hs"
    using readyWithoutAccept_fields(1) [OF assms(1)] by (simp add: ready_stored_def IsEmptyHardState_def isHardStateEqual_iff)
  moreover have "r_term (rn_raft rn) = hs_term hs" "r_vote (rn_raft rn) = hs_vote hs"
    using assms(3,4) arg_cong [OF True, of hs_term] arg_cong [OF True, of hs_vote] by (simp_all add: raft_hardState_def)
  ultimately show ?thesis using assms(2) by simp
next
  case False
  then have rd: "rd_hardState rd = raft_hardState (rn_raft rn)" using readyWithoutAccept_fields(1) [OF assms(1)] by simp
  show ?thesis
  proof (cases "raft_hardState (rn_raft rn) = HardState0")
    case True
    then have "G = {}"
      using assms(2) arg_cong [OF True, of hs_term] unfolding grants_ok_def by (auto simp: raft_hardState_def HardState0_def)
    then show ?thesis by (simp add: grants_ok_empty)
  next
    case False
    then show ?thesis
      using assms(2) by (simp add: ready_stored_def rd IsEmptyHardState_def isHardStateEqual_iff raft_hardState_def)
  qed
qed

lemma ready_step_genuine:
  assumes "storage_ack m \<or> m \<in> A \<and> m_to m = n" "m \<in> A \<Longrightarrow> after_append (m_type m)" "A \<subseteq> S"
  shows "genuine S n m"
  using assms by (auto simp: genuine_def storage_ack_def granted_def has_term_def after_append_def)

lemma raw_inv_ready:
  assumes "raw_inv_with Cs g S" "n \<noteq> NoneId" "RawNode_GetReady E (rg_node g n) = Inr (rn', rd)"
  shows "\<exists>S'. raw_inv_with Cs (g\<lparr>rg_node := (rg_node g)(n := rn'), rg_disk := (rg_disk g)(n := ready_stored rd (rg_disk g n)),
       rg_net := rg_net g \<union> set (map fst (rd_messages rd))\<rparr>) S'"
proof -
  let ?rn = "rg_node g n" and ?r = "rn_raft (rg_node g n)" and ?hs = "ready_stored rd (rg_disk g n)"
  let ?S = "S \<union> set (r_msgs ?r) \<union> set (r_msgsAfterAppend ?r)"
  let ?g = "g\<lparr>rg_node := (rg_node g)(n := rn'), rg_disk := (rg_disk g)(n := ?hs), rg_net := rg_net g \<union> set (map fst (rd_messages rd))\<rparr>"
  note inv = raw_invD [OF assms(1,2)]
  have q: "\<not> rn_async ?rn" "hs_term (rn_prevHardSt ?rn) = hs_term (rg_disk g n)" "hs_vote (rn_prevHardSt ?rn) = hs_vote (rg_disk g n)"
    "resp_only ?r" using inv(2) by (simp_all add: queued_ok_def)
  note G = GetReady_effect [OF assms(3) q(1)]
  obtain l where l: "rn_raft rn' = ?r\<lparr>r_readStates := [], r_msgs := [], r_msgsAfterAppend := [], r_raftLog := l\<rparr>" using G(1) by blast
  let ?c = "(raw_cluster g S)\<lparr>cl_hard := (rg_disk g)(n := ?hs), cl_sent := ?S,
    cl_node := (cl_node (raw_cluster g S))(n := ?r\<lparr>r_msgs := [], r_msgsAfterAppend := []\<rparr>)\<rparr>"
  have "cluster_inv Cs (raw_cluster g S)" using assms(1) by (simp add: raw_inv_with_def)
  then have c: "cluster_inv Cs ?c"
    using send_all_inv [of Cs "raw_cluster g S" n ?r ?hs] ready_stored_ok [OF G(5) elect_invD(4) [OF inv(1)] q(2,3)] assms(2) by simp
  have "elect_inv Cs ?S n (rn_raft rn')"
    using cluster_invD(1) [OF c assms(2)] elect_inv_cong [of "rn_raft rn'" "?r\<lparr>r_msgs := [], r_msgsAfterAppend := []\<rparr>" Cs ?S n] l by simp
  then have "cluster_inv Cs (?c\<lparr>cl_node := (cl_node ?c)(n := rn_raft rn')\<rparr>)" by (intro cluster_inv_node [OF c]) simp
  moreover have "?c\<lparr>cl_node := (cl_node ?c)(n := rn_raft rn')\<rparr> = raw_cluster ?g ?S" by (auto simp: raw_cluster_def)
  ultimately have cl: "cluster_inv Cs (raw_cluster ?g ?S)" by simp
  have net: "rg_net ?g \<subseteq> ?S"
    using assms(1) readyWithoutAccept_fields(3) [OF G(5) q(1)] by (auto simp: raw_inv_with_def)
  have "queued_ok ?S k (rg_disk ?g k) (rg_node ?g k)" if "k \<noteq> NoneId" for k
  proof (cases "k = n")
    case True
    have "genuine ?S n m" if "m \<in> set (rn_stepsOnAdvance rn')" for m
      using G(4) that q(4) elect_invD(1) [OF inv(1)]
      by (intro ready_step_genuine [of m "set (r_msgsAfterAppend ?r)"]) (auto simp: resp_only_def)
    then show ?thesis
      using True G(2,3) q l by (auto simp: queued_ok_def ready_stored_def resp_only_def)
  next
    case False
    have "queued_ok S k (rg_disk g k) (rg_node g k)" by (rule raw_invD(2) [OF assms(1) that])
    then show ?thesis using queued_ok_mono [of S k _ _ ?S] False by auto
  qed
  then show ?thesis using cl net unfolding raw_inv_with_def by blast
qed


lemma raw_step_inv:
  assumes "raw_step Cs g g'" "raw_inv_with Cs g S"
  shows "\<exists>S'. raw_inv_with Cs g' S'"
  using assms
proof (induction rule: raw_step.induct)
  case (deliver n E g m rn' err)
  have g: "genuine S n m" using deliver.hyps(3) deliver.prems genuine_mono by (auto simp: raw_inv_with_def)
  show ?case
  proof (cases "rn' = rg_node g n")
    case False
    then obtain r' where r': "rn' = (rg_node g n)\<lparr>rn_raft := r'\<rparr>" "Step E (rn_raft (rg_node g n)) m = Inr (r', err)"
      using deliver.hyps(2) by (auto simp: RawNode_Step_def on_raft_def split: if_splits)
    show ?thesis
      using raw_inv_Step_same [OF deliver.prems deliver.hyps(1) r'(2) g deliver.hyps(4,5)] deliver.hyps(6) r'(1) by auto
  qed (use deliver.prems in auto)
next
  case (call n E g rn')
  then show ?case using raw_inv_call by blast
next
  case (conf_change n E g cc rn' cs)
  then show ?case using raw_inv_conf by blast
next
  case (ready n E g rn' rd)
  then show ?case using raw_inv_ready by blast
next
  case (advance n E g rn')
  obtain m ms r' err where m: "rn_stepsOnAdvance (rg_node g n) = m # ms" "Step E (rn_raft (rg_node g n)) m = Inr (r', err)"
    "rn' = (rg_node g n)\<lparr>rn_raft := r', rn_stepsOnAdvance := ms\<rparr>"
    using advance.hyps(2) by (auto simp: advance_one_def)
  have "genuine S n m" using raw_invD(2) [OF advance.prems advance.hyps(1)] m(1) by (simp add: queued_ok_def)
  then show ?case
    using raw_inv_Step [OF advance.prems advance.hyps(1) m(2), of ms] advance.hyps(3-5) m(1,3) by auto
next
  case (restart n cfg st g cs E rn' err)
  then show ?case using raw_inv_restart by blast
qed

definition raw_init :: "JointConfig set \<Rightarrow> raw_group \<Rightarrow> bool" where
  "raw_init Cs g \<longleftrightarrow> cluster_init Cs (raw_cluster g {}) \<and> rg_net g = {} \<and>
     (\<forall>n. n \<noteq> NoneId \<longrightarrow> \<not> rn_async (rg_node g n) \<and> rn_stepsOnAdvance (rg_node g n) = [] \<and>
        rn_prevHardSt (rg_node g n) = rg_disk g n)"

lemma raw_init_inv: "raw_init Cs g \<Longrightarrow> raw_inv_with Cs g {}"
  unfolding raw_init_def raw_inv_with_def
  by (auto intro!: cluster_init_inv simp: queued_ok_def resp_only_def cluster_init_def)

lemma raw_reachable_inv:
  assumes "(raw_step Cs)\<^sup>*\<^sup>* g g'" "raw_inv_with Cs g S"
  shows "\<exists>S'. raw_inv_with Cs g' S'"
  using assms by (induction rule: rtranclp_induct) (auto intro: raw_step_inv)

section \<open>A run with one voter\<close>

definition solo_raw :: "u64 \<Rightarrow> RawNode" where
  "solo_raw n = \<lparr>rn_raft = solo_node n, rn_async = False, rn_prevSoftSt = raft_softState (solo_node n),
     rn_prevHardSt = raft_hardState (solo_node n), rn_stepsOnAdvance = []\<rparr>"

definition solo_raw_group :: raw_group where
  "solo_raw_group = \<lparr>rg_node = solo_raw, rg_disk = (\<lambda>n. raft_hardState (solo_node n)), rg_net = {}\<rparr>"

lemma solo_raw_campaign:
  "RawNode_Campaign env_example (solo_raw 1) = Inr ((solo_raw 1)\<lparr>rn_raft := solo_candidate\<lparr>r_msgsAfterAppend := [solo_vote]\<rparr>\<rparr>, Ok)"
  using solo_campaigns by (simp add: RawNode_Campaign_def solo_raw_def on_raft_def)

text \<open>The candidate after its \<open>Ready\<close>: the unstable entry is being written.\<close>

definition solo_accepted :: raft where
  "solo_accepted = solo_candidate\<lparr>r_raftLog := (r_raftLog solo_candidate)\<lparr>l_unstable :=
     (l_unstable (r_raftLog solo_candidate))\<lparr>u_offsetInProgress := 4\<rparr>\<rparr>\<rparr>"

lemma solo_raw_ready:
  "\<exists>rn rd ms. RawNode_GetReady env_example ((solo_raw 1)\<lparr>rn_raft := solo_candidate\<lparr>r_msgsAfterAppend := [solo_vote]\<rparr>\<rparr>) = Inr (rn, rd) \<and>
     rn_stepsOnAdvance rn = solo_vote # ms \<and> rn_raft rn = solo_accepted"
  by (simp add: RawNode_GetReady_def RawNode_readyWithoutAccept_def solo_raw_def RawNode_acceptReady_def ready_steps_def
    ready_extra_messages_def RawNode_applyUnstableEntries_def RaftLog_nextUnstableEnts_def Unstable_nextEntries_def
    RaftLog_nextCommittedEnts_def RaftLog_maxAppliableIndex_def RaftLog_hasNextOrInProgressSnapshot_def
    RaftLog_nextUnstableSnapshot_def Unstable_nextSnapshot_def needStorageAppendRespMsg_def RaftLog_hasNextOrInProgressUnstableEnts_def
    newStorageAppendRespMsg_def RaftLog_lastTerm_def RaftLog_term_def Unstable_maybeTerm_def needStorageApplyRespMsg_def needStorageApplyMsg_def
    RaftLog_acceptUnstable_def Unstable_acceptInProgress_def subvec_def sub64_def at_ix_def ent_def
    solo_accepted_def solo_candidate_def solo_vote_def solo_defs reset_defs)

lemma solo_accepted_elected:
  "\<exists>r. Step env_example solo_accepted solo_vote = Inr (r, Ok) \<and> r_state r = StateLeader \<and> r_term r = 3 \<and>
     trk_config (r_trk r) = trk_config solo_tracker"
  by (simp add: solo_accepted_def solo_candidate_def solo_vote_def solo_defs reset_defs elected_defs)

lemma solo_raw_init: "raw_init {({1}, {})} solo_raw_group"
proof -
  have "cluster_init {({1}, {})} (raw_cluster solo_raw_group {})"
    using solo_init unfolding cluster_init_def by (simp add: solo_raw_group_def solo_raw_def solo_group_def)
  then show ?thesis by (simp add: raw_init_def solo_raw_group_def solo_raw_def)
qed

lemma solo_raw_run:
  "\<exists>g. (raw_step {({1}, {})})\<^sup>*\<^sup>* solo_raw_group g \<and> r_state (rn_raft (rg_node g 1)) = StateLeader \<and> r_term (rn_raft (rg_node g 1)) = 3"
proof -
  let ?step = "raw_step {({1}, {})}" and ?rn1 = "(solo_raw 1)\<lparr>rn_raft := solo_candidate\<lparr>r_msgsAfterAppend := [solo_vote]\<rparr>\<rparr>"
  let ?g1 = "solo_raw_group\<lparr>rg_node := (rg_node solo_raw_group)(1 := ?rn1)\<rparr>"
  obtain rn rd ms where R1: "RawNode_GetReady env_example ?rn1 = Inr (rn, rd)" "rn_stepsOnAdvance rn = solo_vote # ms"
    "rn_raft rn = solo_accepted" using solo_raw_ready by blast
  obtain r where R: "Step env_example solo_accepted solo_vote = Inr (r, Ok)" "r_state r = StateLeader" "r_term r = 3"
    "trk_config (r_trk r) = trk_config solo_tracker" using solo_accepted_elected by blast
  let ?g2 = "?g1\<lparr>rg_node := (rg_node ?g1)(1 := rn), rg_disk := (rg_disk ?g1)(1 := ready_stored rd (rg_disk ?g1 1)),
       rg_net := rg_net ?g1 \<union> set (map fst (rd_messages rd))\<rparr>"
  let ?g3 = "?g2\<lparr>rg_node := (rg_node ?g2)(1 := rn\<lparr>rn_raft := r, rn_stepsOnAdvance := ms\<rparr>)\<rparr>"
  have k: "known {({1}, {})} (cfg_voters (trk_config solo_tracker))" by (simp add: known_def solo_defs)
  have t: "r_term (solo_node 1) = 2" "trk_config (r_trk solo_candidate) = trk_config solo_tracker" "m_term solo_vote = 3"
    "r_term solo_accepted = 3" by (simp_all add: solo_accepted_def solo_candidate_def solo_vote_def solo_defs)
  have 1: "?step solo_raw_group ?g1"
    by (rule raw_step.call [where E = env_example])
      (use k t solo_raw_campaign in \<open>auto simp: solo_raw_group_def solo_raw_def NoneId_def W64_def intro: api_call.campaign\<close>)
  have 2: "?step ?g1 ?g2" by (rule raw_step.ready [where E = env_example]) (use R1(1) in \<open>simp_all add: NoneId_def\<close>)
  have 3: "?step ?g2 ?g3"
    by (rule raw_step.advance [where E = env_example])
      (use k t R R1 in \<open>auto simp: advance_one_def NoneId_def W64_def\<close>)
  have "?step\<^sup>*\<^sup>* solo_raw_group ?g3" using 1 2 3 by (meson converse_rtranclp_into_rtranclp rtranclp.rtrancl_refl)
  then show ?thesis using R(2,3) by (intro exI [of _ ?g3]) simp
qed

section \<open>Properties\<close>

text \<open>
  C2: election safety at the interface. In a group of raw nodes whose applications store
  the hard state of a \<open>Ready\<close> before they send its messages and then step its
  acknowledgements, with proposals, ticks, reports, configuration changes, crashes and
  restarts from the stored hard state in any order, there is at most one leader per term,
  provided the configurations in use have pairwise intersecting quorums.
\<close>

theorem raw_election_safety:
  assumes "raw_init Cs g0" "(raw_step Cs)\<^sup>*\<^sup>* g0 g" "coherent Cs" "i \<noteq> NoneId" "j \<noteq> NoneId"
    and "r_state (rn_raft (rg_node g i)) = StateLeader" "r_state (rn_raft (rg_node g j)) = StateLeader"
    and "r_term (rn_raft (rg_node g i)) = r_term (rn_raft (rg_node g j))"
  shows "i = j"
proof -
  obtain S where "raw_inv_with Cs g S" using raw_reachable_inv [OF assms(2) raw_init_inv [OF assms(1)]] by blast
  then have "cluster_inv Cs (raw_cluster g S)" by (simp add: raw_inv_with_def)
  then show ?thesis using one_leader [of Cs "raw_cluster g S" i j] assms(3-8) by simp
qed

theorem raw_election_safety_witness:
  "\<exists>g. (raw_step {({1}, {})})\<^sup>*\<^sup>* solo_raw_group g \<and>
     {n. n \<noteq> NoneId \<and> r_state (rn_raft (rg_node g n)) = StateLeader \<and> r_term (rn_raft (rg_node g n)) = 3} = {1}"
proof -
  obtain g where g: "(raw_step {({1}, {})})\<^sup>*\<^sup>* solo_raw_group g" "r_state (rn_raft (rg_node g 1)) = StateLeader"
    "r_term (rn_raft (rg_node g 1)) = 3" using solo_raw_run by blast
  have "n = 1" if "n \<noteq> NoneId" "r_state (rn_raft (rg_node g n)) = StateLeader" "r_term (rn_raft (rg_node g n)) = 3" for n
    using raw_election_safety [OF solo_raw_init g(1) solo_coherent, of n 1] that g by (simp add: NoneId_def)
  then show ?thesis using g by (intro exI [of _ g]) (auto simp: NoneId_def)
qed

end
