(* ===== verification/ReadyCycle.thy ===== *)
theory ReadyCycle
  imports RawNode
begin

text \<open>
  One round of the loop that \<open>rawnode.h\<close> asks of its application: take a \<open>Ready\<close>, append
  its entries to the storage, call \<open>Advance\<close>. The storage is a \<open>MemoryStorage\<close>; the
  application and the log of the node share the object, so writing to it replaces the
  storage the log reads.
\<close>

section \<open>Steps of the round\<close>

definition with_storage :: "storage \<Rightarrow> RawNode \<Rightarrow> RawNode" where
  "with_storage st rn = rn\<lparr>rn_raft := (rn_raft rn)\<lparr>r_raftLog := (r_raftLog (rn_raft rn))\<lparr>l_storage := st\<rparr>\<rparr>\<rparr>"

lemma mem_holds_cong:
  assumes "l_storage l' = l_storage l" "l_unstable l' = l_unstable l"
  shows "mem_holds E ms l' a \<longleftrightarrow> mem_holds E ms l a"
  unfolding mem_holds_def log_parts_def alog_of_def assms by (rule refl)

lemma mem_holds_accepted:
  assumes "mem_holds E ms l a" "l_storage l' = l_storage l" "l_unstable l' = Unstable_acceptInProgress (l_unstable l)"
  shows "mem_holds E ms l' a"
proof -
  have "unstable_wf (l_unstable l)" using assms(1) by (simp add: mem_holds_def log_parts_def)
  then show ?thesis
    using assms acceptInProgress_wf [of "l_unstable l"]
    by (cases "u_snapshot (l_unstable l)") (auto simp: mem_holds_def log_parts_def alog_of_def)
qed

text \<open>The acknowledgement that the whole log is stable.\<close>

definition append_ack :: "raft \<Rightarrow> u64 \<Rightarrow> u64 \<Rightarrow> message" where
  "append_ack r i t = Message0\<lparr>m_type := MsgStorageAppendResp, m_to := r_id r, m_from := LocalAppendThread,
     m_term := r_term r, m_index := i, m_logterm := t\<rparr>"

lemma ready_steps_follower:
  assumes "log_ready E (r_raftLog r) a" "\<forall>m \<in> set (r_msgsAfterAppend r). m_to m \<noteq> r_id r" "IsEmptySnap (rd_snapshot rd)"
  shows "ready_steps r rd = Inr ((if u_entries (l_unstable (r_raftLog r)) = [] then [] else [append_ack r (al_last a) (fst (al_term a (al_last a)))]) @
     (if rd_committedEntries rd = [] then [] else [newStorageApplyRespMsg r (rd_committedEntries rd)]))"
proof -
  have "filter (\<lambda>m. m_to m = r_id r) (r_msgsAfterAppend r) = []" using assms(2) by (simp add: filter_empty_conv)
  then show ?thesis
    using newStorageAppendRespMsg_ready [OF assms(1), of rd] assms(3)
    by (simp add: ready_steps_def needStorageAppendRespMsg_def RaftLog_hasNextOrInProgressUnstableEnts_def append_ack_def
        needStorageApplyRespMsg_def needStorageApplyMsg_def Message0_def)
qed

lemma Step_append_ack:
  assumes "RaftLog_stableTo (r_raftLog r) i t = Inr l" "i \<noteq> 0" "r_term r' = r_term r"
  shows "Step E r (append_ack r' i t) = Inr (r\<lparr>r_raftLog := l\<rparr>, Ok)"
  using assms by (simp add: append_ack_def Step_def step_by_type_def step_storageAppendResp_def ok_step_def Message0_def
      IsEmptySnap_def Snapshot0_def)

lemma Step_apply_ack:
  assumes "RaftLog_appliedTo (r_raftLog r) (max (e_index (last ents)) (l_applied (r_raftLog r))) (entsSize E ents) = Inr l"
    and "ents \<noteq> []" "r_state r \<noteq> StateLeader"
  shows "Step E r (newStorageApplyRespMsg r' ents) = Inr (raft_reduceUncommittedSize (r\<lparr>r_raftLog := l\<rparr>) (payloadsSize ents), Ok)"
  using assms by (simp add: newStorageApplyRespMsg_def Step_def step_by_type_def step_storageApplyResp_def ok_step_def Message0_def
      raft_appliedTo_def Let_def)

lemma reduceUncommittedSize_fields [simp]:
  "r_raftLog (raft_reduceUncommittedSize r s) = r_raftLog r" "r_term (raft_reduceUncommittedSize r s) = r_term r"
  "r_vote (raft_reduceUncommittedSize r s) = r_vote r" "r_state (raft_reduceUncommittedSize r s) = r_state r"
  by (simp_all add: raft_reduceUncommittedSize_def)


text \<open>The log after the entries of the \<open>Ready\<close> have been accepted.\<close>

lemma accepted_log:
  assumes "log_ready E l a" "ents \<noteq> [] \<Longrightarrow> l_applying l < e_index (last ents) \<and> e_index (last ents) \<le> l_committed l"
  shows "\<exists>l'. (if ents \<noteq> [] then RaftLog_acceptApplying (RaftLog_acceptUnstable l) (e_index (last ents)) sz b
               else Inr (RaftLog_acceptUnstable l)) = Inr l' \<and>
     l_storage l' = l_storage l \<and> l_unstable l' = Unstable_acceptInProgress (l_unstable l) \<and>
     l_committed l' = l_committed l \<and> l_applied l' = l_applied l"
  using assms(2) by (cases "ents = []") (simp_all add: RaftLog_acceptApplying_def RaftLog_acceptUnstable_def Let_def)

lemma acceptReady_follower:
  assumes "log_ready E (r_raftLog (rn_raft rn)) a" "\<not> rn_async rn" "rn_stepsOnAdvance rn = []"
    and "\<forall>m \<in> set (r_msgsAfterAppend (rn_raft rn)). m_to m \<noteq> r_id (rn_raft rn)" "u_snapshot (l_unstable (r_raftLog (rn_raft rn))) = None"
  shows "\<exists>rn1 rd l. RawNode_GetReady E rn = Inr (rn1, rd) \<and>
     RaftLog_nextUnstableEnts (r_raftLog (rn_raft rn)) = Inr (rd_entries rd) \<and>
     (rd_committedEntries rd \<noteq> [] \<longrightarrow> l_applying (r_raftLog (rn_raft rn)) < e_index (last (rd_committedEntries rd)) \<and>
        e_index (last (rd_committedEntries rd)) \<le> l_committed (r_raftLog (rn_raft rn))) \<and>
     rn_raft rn1 = (rn_raft rn)\<lparr>r_readStates := [], r_msgs := [], r_msgsAfterAppend := [], r_raftLog := l\<rparr> \<and>
     l_storage l = l_storage (r_raftLog (rn_raft rn)) \<and>
     l_unstable l = Unstable_acceptInProgress (l_unstable (r_raftLog (rn_raft rn))) \<and>
     l_committed l = l_committed (r_raftLog (rn_raft rn)) \<and> l_applied l = l_applied (r_raftLog (rn_raft rn)) \<and> \<not> rn_async rn1 \<and>
     ready_steps (rn_raft rn) rd = Inr (rn_stepsOnAdvance rn1) \<and> IsEmptySnap (rd_snapshot rd)"
proof -
  let ?r = "rn_raft rn"
  obtain rd where rd: "RawNode_readyWithoutAccept E rn = Inr rd" "rd_readStates rd = r_readStates ?r" "rd_snapshot rd = Snapshot0"
    using readyWithoutAccept_returns [OF assms(1)] assms(5)
    by (auto simp: RaftLog_nextUnstableSnapshot_def Unstable_nextSnapshot_def)
  note F = readyWithoutAccept_fields(4,5) [OF rd(1)]
  have c: "rd_committedEntries rd \<noteq> [] \<Longrightarrow> l_applying (r_raftLog ?r) < e_index (last (rd_committedEntries rd)) \<and>
      e_index (last (rd_committedEntries rd)) \<le> l_committed (r_raftLog ?r)"
    using nextCommittedEnts_ready [OF assms(1), of "\<not> rn_async rn"] F(2) by simp
  have sn: "IsEmptySnap (rd_snapshot rd)" using rd(3) by (simp add: IsEmptySnap_def Snapshot0_def)
  let ?r1 = "?r\<lparr>r_readStates := []\<rparr>"
  have r1: "(if rd_readStates rd \<noteq> [] then ?r1 else ?r) = ?r1" using rd(2) by simp
  have rl: "r_raftLog ?r1 = r_raftLog ?r" by simp
  have steps: "ready_steps ?r1 rd = ready_steps ?r rd" by (simp add: ready_steps_def needStorageAppendRespMsg_def newStorageAppendRespMsg_def
        newStorageApplyRespMsg_def cong: if_cong)
  obtain ms where ms: "ready_steps ?r rd = Inr ms" using ready_steps_follower [OF assms(1,4) sn] by blast
  obtain l where l: "(if rd_committedEntries rd \<noteq> []
        then RaftLog_acceptApplying (RaftLog_acceptUnstable (r_raftLog ?r)) (e_index (last (rd_committedEntries rd)))
               (entsSize E (rd_committedEntries rd)) (RawNode_applyUnstableEntries rn)
        else Inr (RaftLog_acceptUnstable (r_raftLog ?r))) = Inr l"
      "l_storage l = l_storage (r_raftLog ?r)" "l_unstable l = Unstable_acceptInProgress (l_unstable (r_raftLog ?r))"
      "l_committed l = l_committed (r_raftLog ?r)" "l_applied l = l_applied (r_raftLog ?r)"
    using accepted_log [OF assms(1) c] by blast
  have "RawNode_acceptReady E rn rd = Inr (rn\<lparr>rn_raft := ?r1\<lparr>r_msgs := [], r_msgsAfterAppend := [], r_raftLog := l\<rparr>,
       rn_prevSoftSt := (case rd_softState rd of Some s \<Rightarrow> s | None \<Rightarrow> rn_prevSoftSt rn),
       rn_prevHardSt := (if IsEmptyHardState (rd_hardState rd) then rn_prevHardSt rn else rd_hardState rd), rn_stepsOnAdvance := ms\<rparr>)"
    unfolding RawNode_acceptReady_def Let_def r1 steps ms rl l(1) bindR_Inr using assms(2,3) by simp
  then show ?thesis
    using rd(1) F(1) c l ms sn assms(2) by (simp add: RawNode_GetReady_def) (rule exI [of _ l], simp)
qed


text \<open>The last entry of the log is the last unstable one.\<close>

lemma last_unstable:
  assumes "log_abs E l a" "u_entries (l_unstable l) \<noteq> []"
  shows "e_index (last (u_entries (l_unstable l))) = al_last a" "e_term (last (u_entries (l_unstable l))) = fst (al_term a (al_last a))"
    "al_last a \<noteq> 0"
proof -
  let ?es = "u_entries (l_unstable l)"
  have u: "unstable_wf (l_unstable l)" "u_offset (l_unstable l) + length ?es = al_last a + 1" "\<exists>xs. al_ents a = xs @ ?es"
    using assms(1) by (cases rule: log_abs_cases, auto)+
  obtain xs where xs: "al_ents a = xs @ ?es" using u(3) by blast
  show "e_index (last ?es) = al_last a" using numbered_last [OF unstable_wfD(1) [OF u(1)] assms(2)] u(2) by simp
  have len: "0 < length (al_ents a)" using xs assms(2) by simp
  then have "al_base a < al_last a" by (simp add: al_last_def)
  then have "fst (al_term a (al_last a)) = e_term (al_ents a ! (length (al_ents a) - 1))"
    using al_term_cases(3) [of a "al_last a"] by (simp add: al_last_def)
  also have "al_ents a ! (length (al_ents a) - 1) = last ?es" using xs assms(2) len by (metis last_appendR last_conv_nth length_0_conv less_numeral_extra(3))
  finally show "e_term (last ?es) = fst (al_term a (al_last a))" ..
  show "al_last a \<noteq> 0" using \<open>al_base a < al_last a\<close> by simp
qed

lemma cycle_persist:
  assumes "mem_holds E ms l a" "u_snapshot (l_unstable l) = None"
  shows "\<exists>ms' l'. MemoryStorage_Append ms (u_entries (l_unstable l)) = Inr (ms', Ok) \<and>
     (if u_entries (l_unstable l) = [] then l' = l\<lparr>l_storage := as_Storage E ms'\<rparr>
      else RaftLog_stableTo (l\<lparr>l_storage := as_Storage E ms'\<rparr>) (al_last a) (fst (al_term a (al_last a))) = Inr l') \<and>
     mem_holds E ms' l' a \<and> u_entries (l_unstable l') = [] \<and> l_applied l' = l_applied l \<and> l_committed l' = l_committed l"
proof (cases "u_entries (l_unstable l) = []")
  case True
  have "mem_holds E ms (l\<lparr>l_storage := as_Storage E ms\<rparr>) a"
    using assms(1) mem_holds_cong [of "l\<lparr>l_storage := as_Storage E ms\<rparr>" l E ms a] by (simp add: mem_holds_def)
  then show ?thesis using True by (intro exI [of _ ms]) (simp add: MemoryStorage_Append_def)
next
  case False
  note L = last_unstable [OF mem.holds_abs False] assms(1) [unfolded mem_holds_eq]
  obtain ms' l' where "MemoryStorage_Append ms (u_entries (l_unstable l)) = Inr (ms', Ok)"
      "RaftLog_stableTo (l\<lparr>l_storage := as_Storage E ms'\<rparr>) (e_index (last (u_entries (l_unstable l)))) (e_term (last (u_entries (l_unstable l)))) = Inr l'"
      "mem_holds E ms' l' a" "u_entries (l_unstable l') = []"
    using mem.persist_keeps_log [OF L(4) assms(2) False] by (auto simp: returns_def mem_holds_eq)
  then show ?thesis using False L(1,2) [OF L(4)] stableTo_cursors by (intro exI [of _ ms'] exI [of _ l']) fastforce
qed


lemma advance_follower:
  assumes "\<not> rn_async rn" "rn_stepsOnAdvance rn =
       (if es = [] then [] else [append_ack rq i t]) @ (if cs = [] then [] else [newStorageApplyRespMsg rq cs])"
    and "r_term rq = r_term (rn_raft rn)" "r_state (rn_raft rn) \<noteq> StateLeader" "es \<noteq> [] \<Longrightarrow> i \<noteq> 0"
    and "if es = [] then l = r_raftLog (rn_raft rn) else RaftLog_stableTo (r_raftLog (rn_raft rn)) i t = Inr l"
    and "cs \<noteq> [] \<Longrightarrow> l_applied l \<le> e_index (last cs) \<and> e_index (last cs) \<le> l_committed l"
  shows "returns (RawNode_Advance E rn) (\<lambda>rn'. rn_stepsOnAdvance rn' = [] \<and>
     l_storage (r_raftLog (rn_raft rn')) = l_storage l \<and> l_unstable (r_raftLog (rn_raft rn')) = l_unstable l \<and>
     l_applied (r_raftLog (rn_raft rn')) = (if cs = [] then l_applied l else e_index (last cs)))"
proof -
  let ?f = "\<lambda>m r. bindR (Step E r m) (\<lambda>(r', _). Inr r')" and ?r1 = "(rn_raft rn)\<lparr>r_raftLog := l\<rparr>"
  have 1: "foldR ?f (if es = [] then [] else [append_ack rq i t]) (rn_raft rn) = Inr ?r1"
    using assms(3,5,6) Step_append_ack [of "rn_raft rn" i t l rq E] by (cases "es = []") simp_all
  have 2: "returns (foldR ?f (if cs = [] then [] else [newStorageApplyRespMsg rq cs]) ?r1) (\<lambda>r.
      l_storage (r_raftLog r) = l_storage l \<and> l_unstable (r_raftLog r) = l_unstable l \<and>
      l_applied (r_raftLog r) = (if cs = [] then l_applied l else e_index (last cs)))"
  proof (cases "cs = []")
    case False
    have m: "max (e_index (last cs)) (l_applied l) = e_index (last cs)" using assms(7) False by simp
    obtain l2 where l2: "RaftLog_appliedTo l (e_index (last cs)) (entsSize E cs) = Inr l2" "l_storage l2 = l_storage l"
        "l_unstable l2 = l_unstable l" "l_applied l2 = e_index (last cs)"
      using assms(7) False by (simp add: RaftLog_appliedTo_def Let_def)
    have "Step E ?r1 (newStorageApplyRespMsg rq cs) = Inr (raft_reduceUncommittedSize (?r1\<lparr>r_raftLog := l2\<rparr>) (payloadsSize cs), Ok)"
      using assms(4) m l2(1) False by (intro Step_apply_ack) simp_all
    then show ?thesis using l2 False by simp
  qed simp
  have "foldR ?f (rn_stepsOnAdvance rn) (rn_raft rn) = foldR ?f (if cs = [] then [] else [newStorageApplyRespMsg rq cs]) ?r1"
    unfolding assms(2) foldR_append 1 by simp
  then show ?thesis using 2 assms(1) by (auto simp: RawNode_Advance_def returns_def)
qed

section \<open>Properties\<close>

text \<open>
  C10: a round of the \<open>Ready\<close> loop. The node writes its storage synchronously, is not the
  leader, has no unstable snapshot, no write in progress, no acknowledgement outstanding and
  nothing for itself in its queue; its log is well-formed over a \<open>MemoryStorage\<close>, and the
  entries being applied are below their size limit or application is paused. Then taking the \<open>Ready\<close>, appending its entries to
  the storage and calling \<open>Advance\<close> all succeed; the log is unchanged, all of it is now in
  the storage and none of it unstable, the acknowledgements have been used up, and the
  applied index is that of the last entry handed out for application.
\<close>

theorem ready_cycle:
  assumes "mem_holds E ms (r_raftLog (rn_raft rn)) a" "log_ready E (r_raftLog (rn_raft rn)) a"
    and "u_snapshot (l_unstable (r_raftLog (rn_raft rn))) = None"
    and "u_offsetInProgress (l_unstable (r_raftLog (rn_raft rn))) = u_offset (l_unstable (r_raftLog (rn_raft rn)))"
    and "\<not> rn_async rn" "rn_stepsOnAdvance rn = []" "r_state (rn_raft rn) \<noteq> StateLeader"
    and "\<forall>m \<in> set (r_msgsAfterAppend (rn_raft rn)). m_to m \<noteq> r_id (rn_raft rn)"
  shows "returns (RawNode_GetReady E rn) (\<lambda>(rn1, rd).
     returns (MemoryStorage_Append ms (rd_entries rd)) (\<lambda>(ms', err). err = Ok \<and>
       returns (RawNode_Advance E (with_storage (as_Storage E ms') rn1)) (\<lambda>rn2.
         mem_holds E ms' (r_raftLog (rn_raft rn2)) a \<and> u_entries (l_unstable (r_raftLog (rn_raft rn2))) = [] \<and>
         rn_stepsOnAdvance rn2 = [] \<and> l_applied (r_raftLog (rn_raft rn2)) =
           (if rd_committedEntries rd = [] then l_applied (r_raftLog (rn_raft rn)) else e_index (last (rd_committedEntries rd))))))"
proof -
  let ?l0 = "r_raftLog (rn_raft rn)" and ?es = "u_entries (l_unstable (r_raftLog (rn_raft rn)))"
  obtain rn1 rd l where G: "RawNode_GetReady E rn = Inr (rn1, rd)" "RaftLog_nextUnstableEnts ?l0 = Inr (rd_entries rd)"
      "rd_committedEntries rd \<noteq> [] \<Longrightarrow> l_applying ?l0 < e_index (last (rd_committedEntries rd)) \<and>
         e_index (last (rd_committedEntries rd)) \<le> l_committed ?l0"
      "rn_raft rn1 = (rn_raft rn)\<lparr>r_readStates := [], r_msgs := [], r_msgsAfterAppend := [], r_raftLog := l\<rparr>"
      "l_storage l = l_storage ?l0" "l_unstable l = Unstable_acceptInProgress (l_unstable ?l0)" "l_committed l = l_committed ?l0"
      "l_applied l = l_applied ?l0" "\<not> rn_async rn1" "ready_steps (rn_raft rn) rd = Inr (rn_stepsOnAdvance rn1)" "IsEmptySnap (rd_snapshot rd)"
    using acceptReady_follower [OF assms(2,5,6,8,3)] by blast
  have es: "rd_entries rd = ?es" using nextUnstableEnts_ready [OF assms(2)] assms(4) G(2) by simp
  have acc: "u_entries (l_unstable l) = ?es" "u_snapshot (l_unstable l) = None"
    using acceptInProgress_wf [OF log_ready_unstable [OF assms(2)]] G(6) assms(3) by simp_all
  obtain ms' l' where P: "MemoryStorage_Append ms ?es = Inr (ms', Ok)"
      "if ?es = [] then l' = l\<lparr>l_storage := as_Storage E ms'\<rparr>
       else RaftLog_stableTo (l\<lparr>l_storage := as_Storage E ms'\<rparr>) (al_last a) (fst (al_term a (al_last a))) = Inr l'"
      "mem_holds E ms' l' a" "u_entries (l_unstable l') = []" "l_applied l' = l_applied l" "l_committed l' = l_committed l"
    using cycle_persist [OF mem_holds_accepted [OF assms(1) G(5,6)] acc(2)] unfolding acc(1) by blast
  have ok: "log_ok E ?l0 a" using assms(2) by (simp add: log_ready_def)
  let ?w = "with_storage (as_Storage E ms') rn1"
  have W: "\<not> rn_async ?w" "r_term (rn_raft rn) = r_term (rn_raft ?w)" "r_state (rn_raft ?w) \<noteq> StateLeader"
      "r_raftLog (rn_raft ?w) = l\<lparr>l_storage := as_Storage E ms'\<rparr>"
    using G(4,9) assms(7) by (simp_all add: with_storage_def)
  have "returns (RawNode_Advance E (with_storage (as_Storage E ms') rn1)) (\<lambda>rn2. rn_stepsOnAdvance rn2 = [] \<and>
     l_storage (r_raftLog (rn_raft rn2)) = l_storage l' \<and> l_unstable (r_raftLog (rn_raft rn2)) = l_unstable l' \<and>
     l_applied (r_raftLog (rn_raft rn2)) = (if rd_committedEntries rd = [] then l_applied l' else e_index (last (rd_committedEntries rd))))"
  proof (rule advance_follower [where es = ?es and rq = "rn_raft rn" and i = "al_last a" and t = "fst (al_term a (al_last a))"])
    show "rn_stepsOnAdvance (with_storage (as_Storage E ms') rn1) = (if ?es = [] then [] else [append_ack (rn_raft rn) (al_last a) (fst (al_term a (al_last a)))]) @
       (if rd_committedEntries rd = [] then [] else [newStorageApplyRespMsg (rn_raft rn) (rd_committedEntries rd)])"
      using G(10) ready_steps_follower [OF assms(2,8) G(11)] by (simp add: with_storage_def)
    show "if ?es = [] then l' = r_raftLog (rn_raft ?w)
        else RaftLog_stableTo (r_raftLog (rn_raft ?w)) (al_last a) (fst (al_term a (al_last a))) = Inr l'"
      using P(2) unfolding W(4) .
    show "l_applied l' \<le> e_index (last (rd_committedEntries rd)) \<and> e_index (last (rd_committedEntries rd)) \<le> l_committed l'"
      if "rd_committedEntries rd \<noteq> []" using G(3) [OF that] P(5,6) G(7,8) log_okD(2) [OF ok] by simp
    show "al_last a \<noteq> 0" if "?es \<noteq> []" by (rule last_unstable(3) [OF log_okD(1) [OF ok] that])
  qed (use W in simp_all)
  then have "returns (RawNode_Advance E (with_storage (as_Storage E ms') rn1)) (\<lambda>rn2.
         mem_holds E ms' (r_raftLog (rn_raft rn2)) a \<and> u_entries (l_unstable (r_raftLog (rn_raft rn2))) = [] \<and>
         rn_stepsOnAdvance rn2 = [] \<and> l_applied (r_raftLog (rn_raft rn2)) =
           (if rd_committedEntries rd = [] then l_applied ?l0 else e_index (last (rd_committedEntries rd))))"
  proof (rule returns_mono, elim conjE, intro conjI)
    fix rn2
    assume a: "l_storage (r_raftLog (rn_raft rn2)) = l_storage l'" "l_unstable (r_raftLog (rn_raft rn2)) = l_unstable l'"
    show "mem_holds E ms' (r_raftLog (rn_raft rn2)) a" using P(3) mem_holds_cong [OF a] by simp
    show "u_entries (l_unstable (r_raftLog (rn_raft rn2))) = []" using P(4) a(2) by simp
  qed (use P(5) G(8) in simp_all)
  then show ?thesis using G(1) P(1) es by simp
qed


theorem ready_cycle_witness:
  "\<exists>rn1 rd ms' rn2. RawNode_GetReady env_example follower_raw = Inr (rn1, rd) \<and>
     MemoryStorage_Append ms_example (rd_entries rd) = Inr (ms', Ok) \<and>
     RawNode_Advance env_example (with_storage (as_Storage env_example ms') rn1) = Inr rn2 \<and>
     mem_holds env_example ms' (r_raftLog (rn_raft rn2)) alog_example \<and> u_entries (l_unstable (r_raftLog (rn_raft rn2))) = []"
proof -
  have l: "r_raftLog (rn_raft follower_raw) = log_example env_example" by (simp add: follower_raw_def)
  show ?thesis
    using ready_cycle [of env_example ms_example follower_raw alog_example] log_example_holds log_example_ready
    unfolding l by (auto simp: returns_def follower_raw_def log_example_def)
qed

end
