(* ===== verification/NodeLog.thy ===== *)
theory NodeLog
  imports ReadyCycle
begin

text \<open>
  The log of a node over time. A node works on its log through the handlers of \<open>raft.h\<close>;
  the application writes the log's tail or its snapshot to the \<open>MemoryStorage\<close> and compacts
  it. Whatever the order of these actions, an entry that has been committed stays what it
  is until it is compacted away.
\<close>

section \<open>What is kept\<close>

text \<open>The entries up to \<open>c\<close> that a log still has are those of an earlier log.\<close>

definition same_upto :: "u64 \<Rightarrow> alog \<Rightarrow> alog \<Rightarrow> bool" where
  "same_upto c a a' \<longleftrightarrow> al_base a \<le> al_base a' \<and> (\<forall>i. al_base a' < i \<longrightarrow> i \<le> c \<longrightarrow> al_entry a' i = al_entry a i)"

lemma same_upto_refl [simp]: "same_upto c a a"
  by (simp add: same_upto_def)

lemma same_upto_trans: "same_upto c a a1 \<Longrightarrow> same_upto c' a1 a2 \<Longrightarrow> c \<le> c' \<Longrightarrow> same_upto c a a2"
  by (simp add: same_upto_def)

lemma same_upto_write:
  assumes "al_base a < f" "f \<le> al_last a + 1" "c < f"
  shows "same_upto c a (al_write a f es)"
  using assms al_write_entry_old [of a _ f es] by (auto simp: same_upto_def)

lemma same_upto_drop:
  assumes "al_ents a' = drop k (al_ents a)" "al_base a' = al_base a + k" "k \<le> length (al_ents a)"
  shows "same_upto c a a'"
proof -
  have "al_entry a' i = al_entry a i" if "al_base a' < i" for i
    using assms that by (simp add: al_entry_def)
  then show ?thesis using assms(2) by (simp add: same_upto_def)
qed

lemma same_upto_above: "al_base a \<le> al_base a' \<Longrightarrow> c \<le> al_base a' \<Longrightarrow> same_upto c a a'"
  by (simp add: same_upto_def)

text \<open>The log part of a node: it denotes \<open>a\<close>, and the commit index lies in it.\<close>

definition log_in :: "env \<Rightarrow> RaftLog \<Rightarrow> alog \<Rightarrow> bool" where
  "log_in E l a \<longleftrightarrow> log_abs E l a \<and> l_applied l \<le> l_committed l \<and> al_base a \<le> l_committed l \<and> l_committed l \<le> al_last a"

definition log_kept :: "env \<Rightarrow> storage \<Rightarrow> alog \<Rightarrow> u64 \<Rightarrow> RaftLog \<Rightarrow> bool" where
  "log_kept E st a c l \<longleftrightarrow> l_storage l = st \<and> c \<le> l_committed l \<and> (\<exists>a'. log_in E l a' \<and> same_upto c a a')"

lemma log_keptI: "log_in E l a' \<Longrightarrow> same_upto c a a' \<Longrightarrow> c \<le> l_committed l \<Longrightarrow> l_storage l = st \<Longrightarrow> log_kept E st a c l"
  by (auto simp: log_kept_def)

lemma log_keptE:
  assumes "log_kept E st a c l"
  obtains a' where "log_abs E l a'" "l_applied l \<le> l_committed l" "al_base a' \<le> l_committed l" "l_committed l \<le> al_last a'"
    "same_upto c a a'" "c \<le> l_committed l" "l_storage l = st"
  using assms by (auto simp: log_kept_def log_in_def)

lemma log_ok_in: "log_ok E l a \<Longrightarrow> log_in E l a"
  by (auto simp: log_ok_def log_in_def)

section \<open>The handlers keep the log\<close>

lemma stamp_numbered: "i + length es < W64 \<Longrightarrow> numbered i (stamp_entries te i es)"
proof (induction es arbitrary: i)
  case (Cons e es)
  then show ?case by (simp add: numbered_Cons)
qed simp

lemma stamp_length [simp]: "length (stamp_entries te i es) = length es"
  by (induction es arbitrary: i) simp_all

lemma append_kept:
  assumes "log_kept E st a c l" "RaftLog_lastIndex l = Inr li" "li + length es + 1 < W64"
    and "RaftLog_append l (stamp_entries te (add64 li 1) es) = Inr (l', i)"
  shows "log_kept E st a c l'"
proof (cases "es = []")
  case True
  then show ?thesis using assms(1,2,4) by (simp add: RaftLog_append_def)
next
  case False
  obtain a' where L: "log_abs E l a'" "l_applied l \<le> l_committed l" "al_base a' \<le> l_committed l" "l_committed l \<le> al_last a'"
      "same_upto c a a'" "c \<le> l_committed l" "l_storage l = st"
    using assms(1) by (rule log_keptE)
  let ?es = "stamp_entries te (add64 li 1) es" and ?f = "al_last a' + 1"
  have li: "li = al_last a'" using lastIndex_abs [OF L(1)] assms(2) by simp
  have n: "add64 li 1 = ?f" "?es \<noteq> []" "numbered ?f ?es" "al_base a' < ?f" "?f + length ?es < W64" "l_committed l < ?f"
    using assms(3) L(3,4) False stamp_numbered [of ?f es te] by (auto simp: li) (metis length_0_conv stamp_length)
  obtain u where u: "l' = l\<lparr>l_unstable := u\<rparr>" "log_abs E l' (al_write a' ?f ?es)"
    using append_abs [OF L(1) n(2-4) order_refl n(5,6)] assms(4) by (auto simp: returns_def)
  have "log_in E l' (al_write a' ?f ?es)"
    using u L(2-4) al_write_last [OF n(4) order_refl, of ?es] by (simp add: log_in_def)
  moreover have "same_upto c a (al_write a' ?f ?es)"
    using same_upto_trans [OF L(5) same_upto_write [OF n(4) order_refl n(6)] L(6)] .
  ultimately show ?thesis using u(1) L(6,7) by (intro log_keptI) simp_all
qed

text \<open>
  A merge that returns, for any number of entries: the log is as before or it has been
  written from an index above the commit index. The conversion of the position to
  \<open>int\<close> can only make it smaller, and \<open>append\<close> checks the commit index itself.
\<close>

lemma maybeAppend_writes:
  assumes "log_abs E l a" "numbered (index + 1) ents" "index + 1 + length ents < W64" "al_term a index = (logTerm, Ok)"
    and "RaftLog_maybeAppend l index logTerm committed ents = Inr (l', i, ok)"
  obtains u a' where "l' = l\<lparr>l_unstable := u, l_committed := max (l_committed l) (min committed (index + length ents))\<rparr>"
    "log_abs E l' a'" "index + length ents \<le> al_last a'"
    "a' = a \<or> (\<exists>f es. al_base a < f \<and> f \<le> al_last a + 1 \<and> l_committed l < f \<and> es \<noteq> [] \<and> a' = al_write a f es)"
proof -
  let ?k = "length (takeWhile (matches a) ents)" and ?n = "index + length ents"
  have le: "al_base a \<le> index" "index \<le> al_last a" using al_term_Ok_iff [of a index] assms(4) by simp_all
  have m: "RaftLog_matchTerm l index logTerm = Inr True" "add64 index (length ents) = ?n"
    using matchTerm_abs [OF assms(1)] assms(3,4) by simp_all
  have fc: "RaftLog_findConflict l ents = Inr (if ?k = length ents then 0 else index + 1 + ?k)"
    using findConflict_abs [OF assms(1,2)] assms(3) by (simp add: Let_def)
  show ?thesis
  proof (cases "?k = length ents")
    case True
    have n: "?n \<le> al_last a" using takeWhile_matches_last [OF assms(2) refl, of a] le True by (cases "ents = []") auto
    then have "RaftLog_commitTo l (min committed ?n) = Inr (l\<lparr>l_committed := max (l_committed l) (min committed ?n)\<rparr>)"
      using commitTo_abs [OF assms(1)] by simp
    then have "RaftLog_maybeAppend l index logTerm committed ents =
        Inr (l\<lparr>l_committed := max (l_committed l) (min committed ?n)\<rparr>, ?n, True)"
      using True m fc by (simp add: RaftLog_maybeAppend_def Let_def)
    then have "l' = l\<lparr>l_committed := max (l_committed l) (min committed ?n)\<rparr>" using assms(5) by simp
    then show ?thesis using that [of "l_unstable l" a] assms(1) n by simp
  next
    case False
    define j where "j = nat (to_int32 ?k)"
    let ?f = "index + 1 + j" and ?es = "drop j ents"
    have k: "?k < length ents" using False length_takeWhile_le [of "matches a" ents] by linarith
    have j: "j \<le> ?k" using to_int32_le [of ?k] by (simp add: j_def)
    then have "subvec ents (nat (to_int32 ?k)) (length ents) = Inr ?es" using k by (simp add: j_def)
    moreover have "sub64 (index + 1 + ?k) (add64 index 1) = ?k" using assms(3) k by simp
    ultimately obtain l1 li where l1: "RaftLog_append l ?es = Inr (l1, li)" "RaftLog_commitTo l1 (min committed ?n) = Inr l'"
      using assms(5) m fc k False by (auto simp: RaftLog_maybeAppend_def Let_def j_def split: if_splits)
    have num: "numbered ?f ?es" "?es \<noteq> []" using numbered_drop [OF assms(2), of j] j k by simp_all
    have f: "al_base a < ?f" "?f \<le> al_last a + 1" "?f + length ?es < W64"
      using takeWhile_matches_last [OF assms(2) refl, of a] le assms(3) j k by (cases "?k = 0"; simp)+
    have "sub64 (e_index (?es ! 0)) 1 = ?f - 1" using numbered_hd [OF num] f(1,3) by simp
    then have c: "l_committed l < ?f" using l1(1) num(2) f(1) by (auto simp: RaftLog_append_def split: if_splits)
    obtain u where u: "l1 = l\<lparr>l_unstable := u\<rparr>" "log_abs E l1 (al_write a ?f ?es)"
      using append_abs [OF assms(1) num(2,1) f c] l1(1) by (auto simp: returns_def)
    have n: "?n \<le> al_last (al_write a ?f ?es)" using al_write_last [OF f(1,2), of ?es] j k by simp
    then have "l' = l1\<lparr>l_committed := max (l_committed l1) (min committed ?n)\<rparr>"
      using l1(2) commitTo_abs [OF u(2), of "min committed ?n"] by simp
    then have "l' = l\<lparr>l_unstable := u, l_committed := max (l_committed l) (min committed ?n)\<rparr>" "log_abs E l' (al_write a ?f ?es)"
      using u by simp_all
    then show ?thesis by (rule that [OF _ _ n]) (use f(1,2) c num(2) in blast)
  qed
qed

lemma maybeAppend_kept:
  assumes "log_kept E st a c l" "numbered (index + 1) ents" "index + 1 + length ents < W64"
    and "RaftLog_maybeAppend l index logTerm committed ents = Inr (l', i, ok)"
  shows "log_kept E st a c l'"
proof -
  obtain a' where L: "log_abs E l a'" "l_applied l \<le> l_committed l" "al_base a' \<le> l_committed l" "l_committed l \<le> al_last a'"
      "same_upto c a a'" "c \<le> l_committed l" "l_storage l = st"
    using assms(1) by (rule log_keptE)
  show ?thesis
  proof (cases "al_term a' index = (logTerm, Ok)")
    case False
    then have "l' = l" using matchTerm_abs [OF L(1)] assms(3,4) by (simp add: RaftLog_maybeAppend_def)
    then show ?thesis using assms(1) by simp
  next
    case True
    obtain u a1 where u: "l' = l\<lparr>l_unstable := u, l_committed := max (l_committed l) (min committed (index + length ents))\<rparr>"
        "log_abs E l' a1" "index + length ents \<le> al_last a1"
        "a1 = a' \<or> (\<exists>f es. al_base a' < f \<and> f \<le> al_last a' + 1 \<and> l_committed l < f \<and> es \<noteq> [] \<and> a1 = al_write a' f es)"
      using maybeAppend_writes [OF L(1) assms(2,3) True assms(4)] by metis
    have a1: "same_upto (l_committed l) a' a1 \<and> l_committed l \<le> al_last a1 \<and> al_base a1 = al_base a'"
      using u(4)
    proof (elim disjE exE conjE)
      fix f es
      assume f: "al_base a' < f" "f \<le> al_last a' + 1" "l_committed l < f" "es \<noteq> []" "a1 = al_write a' f es"
      then show ?thesis using same_upto_write [OF f(1-3)] al_write_last [OF f(1,2), of es] by simp
    qed (use L(4) in simp)
    then have "log_in E l' a1" using u L(2,3) by (simp add: log_in_def le_max_iff_disj min_le_iff_disj)
    moreover have "same_upto c a a1" using same_upto_trans [OF L(5) _ L(6)] a1 by blast
    ultimately show ?thesis using u(1) L(6,7) by (intro log_keptI) (simp_all add: le_max_iff_disj)
  qed
qed

lemma commitTo_kept:
  assumes "log_kept E st a c l" "RaftLog_commitTo l i = Inr l'"
  shows "log_kept E st a c l'"
proof -
  obtain a' where L: "log_abs E l a'" "l_applied l \<le> l_committed l" "al_base a' \<le> l_committed l" "l_committed l \<le> al_last a'"
      "same_upto c a a'" "c \<le> l_committed l" "l_storage l = st"
    using assms(1) by (rule log_keptE)
  have "l' = l\<lparr>l_committed := max (l_committed l) i\<rparr> \<and> max (l_committed l) i \<le> al_last a'"
    using assms(2) L(4) lastIndex_abs [OF L(1)] by (auto simp: RaftLog_commitTo_def max_def split: if_splits)
  then show ?thesis using L by (intro log_keptI [of E l' a']) (simp_all add: log_in_def le_max_iff_disj)
qed

lemma appliedTo_kept:
  assumes "log_kept E st a c l" "RaftLog_appliedTo l i sz = Inr l'"
  shows "log_kept E st a c l'"
proof -
  obtain a' where L: "log_abs E l a'" "l_applied l \<le> l_committed l" "al_base a' \<le> l_committed l" "l_committed l \<le> al_last a'"
      "same_upto c a a'" "c \<le> l_committed l" "l_storage l = st"
    using assms(1) by (rule log_keptE)
  have A: "l_storage l' = l_storage l" "l_unstable l' = l_unstable l" "l_committed l' = l_committed l" "l_applied l' \<le> l_committed l"
    using assms(2) by (auto simp: RaftLog_appliedTo_def Let_def split: if_splits)
  then show ?thesis using L log_abs_cong [OF A(1,2), of E a'] by (intro log_keptI [of E l' a']) (simp_all add: log_in_def)
qed

lemma restore_kept:
  assumes "log_kept E st a c l" "l_committed l < sn_index s" "sn_index s + 1 < W64"
  shows "log_kept E st a c (RaftLog_restore l s)"
proof -
  obtain a' where L: "log_abs E l a'" "l_applied l \<le> l_committed l" "al_base a' \<le> l_committed l" "l_committed l \<le> al_last a'"
      "same_upto c a a'" "c \<le> l_committed l" "l_storage l = st"
    using assms(1) by (rule log_keptE)
  let ?a = "\<lparr>al_base = sn_index s, al_bterm = sn_term s, al_ents = []\<rparr>" and ?l = "RaftLog_restore l s"
  obtain b t es where "storage_ok E (l_storage l) b t es" using L(1) by (auto simp: log_abs_def log_parts_def)
  then have "log_parts E ?l b t es \<and> ?a = alog_of ?l b t es"
    using assms(3) by (simp add: log_parts_def alog_of_def RaftLog_restore_def Unstable_restore_def unstable_wf_def)
  then have "log_abs E ?l ?a" unfolding log_abs_def by blast
  then have "log_in E ?l ?a" using L(2) assms(2) by (simp add: log_in_def RaftLog_restore_def al_last_def)
  moreover have "same_upto c a ?a" using L(3,5,6) assms(2) by (intro same_upto_above) (simp_all add: same_upto_def)
  ultimately show ?thesis using L(6,7) assms(2) by (intro log_keptI) (simp_all add: RaftLog_restore_def)
qed

text \<open>
  The messages a node may be given: those of a leader carry consecutive entries, a snapshot
  has an index below the largest one, and acknowledgements of the storage are actions of
  their own. \<open>log_fits r n\<close>: there are indexes left for \<open>n\<close> more entries.
\<close>

definition log_good :: "message \<Rightarrow> bool" where
  "log_good m \<longleftrightarrow> has_term m \<and> m_type m \<noteq> MsgStorageAppendResp \<and>
     (m_type m = MsgApp \<longrightarrow> numbered (m_index m + 1) (m_entries m) \<and> m_index m + 1 + length (m_entries m) < W64) \<and>
     (m_type m = MsgSnap \<longrightarrow> sn_index (m_snapshot m) + 1 < W64)"

definition log_fits :: "raft \<Rightarrow> nat \<Rightarrow> bool" where
  "log_fits r n \<longleftrightarrow> (case RaftLog_lastIndex (r_raftLog r) of Inr li \<Rightarrow> li + n + 1 < W64 | Inl _ \<Rightarrow> True)"

lemma appliedTo_lastIndex:
  assumes "RaftLog_appliedTo l i sz = Inr l'"
  shows "RaftLog_lastIndex l' = RaftLog_lastIndex l"
proof -
  have "l_storage l' = l_storage l" "l_unstable l' = l_unstable l"
    using assms by (auto simp: RaftLog_appliedTo_def Let_def split: if_splits)
  then show ?thesis unfolding RaftLog_lastIndex_def by (simp only:)
qed

interpretation logs: raft_invariant E "\<lambda>r. log_kept E st a c (r_raftLog r)" log_good "\<lambda>_. True" log_fits for E st a c
proof (unfold_locales, goal_cases)
  case (11 r es l i li)
  then show ?case using append_kept [of E st a c "r_raftLog r" li es "r_term r" l i] by (simp add: log_fits_def)
next
  case (12 r m l i ok)
  then show ?case using maybeAppend_kept [of E st a c "r_raftLog r" "m_index m" "m_entries m"] by (simp add: log_good_def)
next
  case (13 r c l)
  then show ?case using commitTo_kept by simp
next
  case (14 r i sz l)
  then show ?case using appliedTo_kept by simp
next
  case (17 r m)
  then show ?case using restore_kept by (simp add: log_good_def)
next
  case (21 r i sz l n)
  then show ?case using appliedTo_lastIndex by (simp add: log_fits_def)
qed (auto simp: log_good_def log_fits_def has_term_def quiet_def restarted_def)

section \<open>The application's writes\<close>

text \<open>The contract of a storage determines what it holds.\<close>

lemma storage_ok_unique:
  assumes "storage_ok E st b t es" "storage_ok E st b' t' es'"
  shows "b' = b \<and> t' = t \<and> es' = es"
proof -
  have b: "b' = b" using storage_okD(3) [OF assms(1)] storage_okD(3) [OF assms(2)] by simp
  have n: "length es' = length es" using b storage_okD(4) [OF assms(1)] storage_okD(4) [OF assms(2)] by simp
  have t: "t' = t" using b storage_okD(6) [OF assms(1)] storage_okD(6) [OF assms(2)] by simp
  have one: "st_Entries st (b + 1 + k) (b + 2 + k) 0 = Inr ([xs ! k], Ok)" if "storage_ok E st b q xs" "k < length xs" for q k xs
  proof -
    have "take 1 (drop k xs) = [xs ! k]" using that(2) by (simp add: Cons_nth_drop_Suc [symmetric])
    then show ?thesis using storage_okD(9) [OF that(1), of "b + 1 + k" "b + 2 + k" 0] that(2) by simp
  qed
  have "es' ! k = es ! k" if "k < length es" for k
    using one [OF assms(1) that] one [of t' es' k] assms(2) that n b by simp
  then show ?thesis using b t n by (simp add: nth_equalityI)
qed

lemma log_abs_mem:
  assumes "log_abs E l a" "ms_inv ms" "l_storage l = as_Storage E ms"
  shows "mem_holds E ms l a"
proof -
  obtain b t es where p: "log_parts E l b t es" "a = alog_of l b t es" using assms(1) by (auto simp: log_abs_def)
  then have "storage_ok E (as_Storage E ms) b t es" using assms(3) by (simp add: log_parts_def)
  then show ?thesis
    using storage_ok_unique [OF ms_view_ok [OF assms(2)]] p assms(2,3) by (auto simp: mem_holds_def)
qed

definition set_storage :: "env \<Rightarrow> MemoryStorage \<Rightarrow> RaftLog \<Rightarrow> RaftLog" where
  "set_storage E ms l = l\<lparr>l_storage := as_Storage E ms\<rparr>"

lemma set_storage_simps [simp]:
  "l_storage (set_storage E ms l) = as_Storage E ms" "l_unstable (set_storage E ms l) = l_unstable l"
  "l_committed (set_storage E ms l) = l_committed l" "l_applied (set_storage E ms l) = l_applied l"
  by (simp_all add: set_storage_def)

definition node_kept :: "env \<Rightarrow> alog \<Rightarrow> u64 \<Rightarrow> MemoryStorage \<Rightarrow> RaftLog \<Rightarrow> bool" where
  "node_kept E a c ms l \<longleftrightarrow> ms_inv ms \<and> log_kept E (as_Storage E ms) a c l"

lemma node_keptE:
  assumes "node_kept E a c ms l"
  obtains a' where "mem_holds E ms l a'" "log_in E l a'" "same_upto c a a'" "c \<le> l_committed l" "ms_inv ms"
  using assms log_abs_mem unfolding node_kept_def log_kept_def by (auto simp: log_in_def)

lemma node_keptI:
  assumes "mem_holds E ms l a'" "same_upto c a a'" "c \<le> l_committed l" "l_applied l \<le> l_committed l"
    "al_base a' \<le> l_committed l" "l_committed l \<le> al_last a'"
  shows "node_kept E a c ms l"
  using assms mem.holds_abs [of E ms l a'] unfolding node_kept_def log_kept_def log_in_def mem_holds_eq [symmetric]
  by (auto simp: mem_holds_def)

text \<open>The tail of the log is written and acknowledged.\<close>

lemma persist_kept:
  assumes "node_kept E a c ms l" "u_snapshot (l_unstable l) = None" "u_entries (l_unstable l) \<noteq> []"
    and "MemoryStorage_Append ms (u_entries (l_unstable l)) = Inr (ms', Ok)"
    and "RaftLog_stableTo (set_storage E ms' l) (e_index (last (u_entries (l_unstable l)))) (e_term (last (u_entries (l_unstable l)))) = Inr l'"
  shows "node_kept E a c ms' l'"
proof -
  obtain a' where L: "mem_holds E ms l a'" "log_in E l a'" "same_upto c a a'" "c \<le> l_committed l" using assms(1) by (rule node_keptE)
  have ab: "log_abs E l a'" using L(2) by (simp add: log_in_def)
  have "mem_holds E ms' l' a' \<and> l_applied l' = l_applied l \<and> l_committed l' = l_committed l"
    using cycle_persist [OF L(1) assms(2)] assms(3-5) last_unstable(1,2) [OF ab assms(3)] by (auto simp: set_storage_def)
  then show ?thesis using L(2-4) by (intro node_keptI [of E ms' l' a']) (simp_all add: log_in_def)
qed

text \<open>A snapshot is written and acknowledged.\<close>

lemma install_kept:
  assumes "node_kept E a c ms l" "u_snapshot (l_unstable l) = Some s" "u_entries (l_unstable l) = []"
    and "MemoryStorage_ApplySnapshot ms s = (ms', Ok)"
  shows "node_kept E a c ms' (RaftLog_stableSnapTo (set_storage E ms' l) (sn_index s))"
proof -
  obtain a' where L: "mem_holds E ms l a'" "log_in E l a'" "same_upto c a a'" "c \<le> l_committed l" "ms_inv ms"
    using assms(1) by (rule node_keptE)
  let ?l = "RaftLog_stableSnapTo (set_storage E ms' l) (sn_index s)"
  have P: "unstable_wf (l_unstable l)" "u_offset (l_unstable l) = sn_index s + 1" "a' = alog_of l (ms_base ms) (ms_bterm ms) (ms_log ms)"
    using L(1) assms(2) by (simp_all add: mem_holds_def log_parts_def)
  have "sn_index (ms_snapshot ms) < sn_index s" using assms(4) by (auto simp: MemoryStorage_ApplySnapshot_def split: if_splits)
  then have S: "ms_inv ms'" "ms_base ms' = sn_index s" "ms_bterm ms' = sn_term s" "ms_log ms' = []"
    using ApplySnapshot_spec [OF L(5), of s] assms(3,4) unstable_wfD(3) [OF P(1)] P(2) by simp_all
  have u: "l_unstable ?l = (l_unstable l)\<lparr>u_snapshot := None, u_snapshotInProgress := False\<rparr>"
    using assms(2) by (simp add: RaftLog_stableSnapTo_def Unstable_stableSnapTo_def)
  have "unstable_wf (l_unstable ?l)" using P(1) by (simp add: u unstable_wf_def)
  then have "mem_holds E ms' ?l a'"
    using P(2,3) S assms(2,3) ms_view_ok [OF S(1), of E]
    by (simp add: mem_holds_def log_parts_def alog_of_def u) (simp add: RaftLog_stableSnapTo_def)
  then show ?thesis
    using L(2-4) by (intro node_keptI [of E ms' ?l a']) (simp_all add: log_in_def RaftLog_stableSnapTo_def)
qed

text \<open>A prefix of the stable and applied entries is compacted.\<close>

lemma compact_kept:
  assumes "node_kept E a c ms l" "i \<le> l_applied l" "i < u_offset (l_unstable l)" "MemoryStorage_Compact ms i = Inr (ms', Ok)"
  shows "node_kept E a c ms' (set_storage E ms' l)"
proof -
  obtain a' where L: "mem_holds E ms l a'" "log_in E l a'" "same_upto c a a'" "c \<le> l_committed l" "ms_inv ms"
    using assms(1) by (rule node_keptE)
  obtain d where d: "ms_ents ms = d # ms_log ms" "ms_base ms = e_index d" "ms_base ms + length (ms_log ms) + 1 < W64"
    using L(5) by (rule ms_invE)
  have "ms_base ms < i" "i \<le> ms_base ms + length (ms_log ms)"
    using assms(4) d by (auto simp: MemoryStorage_Compact_def MemoryStorage_lastIndex_def Let_def split: if_splits)
  note i = this Compact_spec [OF L(5) this]
  have S: "ms_inv ms'" "ms_base ms' = i" "ms_log ms' = drop (i - ms_base ms) (ms_log ms)" using i(3) assms(4) by simp_all
  let ?l = "set_storage E ms' l" and ?a = "alog_of (set_storage E ms' l) (ms_base ms') (ms_bterm ms') (ms_log ms')"
  have P: "log_parts E l (ms_base ms) (ms_bterm ms) (ms_log ms)" "a' = alog_of l (ms_base ms) (ms_bterm ms) (ms_log ms)"
    using L(1) by (simp_all add: mem_holds_def)
  have h: "mem_holds E ms' ?l ?a"
    using P(1) S i(1,2) assms(3) ms_view_ok [OF S(1), of E] by (auto simp: mem_holds_def log_parts_def split: option.splits)
  show ?thesis
  proof (cases "u_snapshot (l_unstable l)")
    case (Some s)
    then have "?a = a'" using P(2) by (simp add: alog_of_def)
    then show ?thesis using h L(2-4) by (intro node_keptI [of E ms' ?l a']) (simp_all add: log_in_def)
  next
    case None
    let ?k = "i - ms_base ms"
    have off: "u_offset (l_unstable l) \<le> ms_base ms + length (ms_log ms) + 1" using P(1) None by (simp add: log_parts_def)
    have "al_ents ?a = drop ?k (al_ents a')"
      using None P(2) S i(1) assms(3) off by (simp add: alog_of_def drop_take min_def)
    moreover have "al_base ?a = al_base a' + ?k" "?k \<le> length (al_ents a')"
      using None P(2) S i(1) assms(3) off by (simp_all add: alog_of_def min_def) arith
    ultimately have "same_upto (l_committed l) a' ?a \<and> al_base ?a = i \<and> al_last ?a = al_last a'"
      using same_upto_drop None S(2) by (simp add: al_last_def) (simp add: alog_of_def)
    moreover have "i \<le> l_committed l" using assms(2) L(2) by (simp add: log_in_def)
    ultimately show ?thesis
      using h L(2-4) same_upto_trans [OF L(3) _ L(4)] by (intro node_keptI [of E ms' ?l ?a]) (simp_all add: log_in_def)
  qed
qed

lemma snapshot_kept:
  assumes "node_kept E a c ms l" "MemoryStorage_CreateSnapshot ms i cs data = Inr (ms', sn, err)"
  shows "node_kept E a c ms' (set_storage E ms' l)"
proof -
  obtain a' where L: "mem_holds E ms l a'" "log_in E l a'" "same_upto c a a'" "c \<le> l_committed l" using assms(1) by (rule node_keptE)
  have e: "ms_ents ms' = ms_ents ms"
    using assms(2) by (auto simp: MemoryStorage_CreateSnapshot_def Let_def split: if_splits elim!: bindR_InrE)
  then have S: "ms_inv ms'" "ms_base ms' = ms_base ms" "ms_bterm ms' = ms_bterm ms" "ms_log ms' = ms_log ms"
    using L(1) by (simp_all add: mem_holds_def ms_inv_def ms_base_def ms_bterm_def ms_log_def)
  then have "mem_holds E ms' (set_storage E ms' l) a'"
    using L(1) ms_view_ok [OF S(1), of E] by (simp add: mem_holds_def log_parts_def alog_of_def cong: option.case_cong)
  then show ?thesis using L(2-4) by (intro node_keptI [where a' = a']) (simp_all add: log_in_def)
qed

section \<open>Runs of a node\<close>

text \<open>
  The actions: a message is handled, the clock ticks, a configuration change is applied;
  the application writes the unstable entries or the unstable snapshot to the storage and
  has the acknowledgement stepped, records a snapshot, or compacts the storage up to an
  index that is stable and applied.
\<close>

definition snap_ack :: "raft \<Rightarrow> snapshot \<Rightarrow> message" where
  "snap_ack r s = (append_ack r 0 0)\<lparr>m_snapshot := s\<rparr>"

inductive stored_step :: "env \<Rightarrow> MemoryStorage \<times> raft \<Rightarrow> MemoryStorage \<times> raft \<Rightarrow> bool" for E where
  receive: "Step E r m = Inr (r', err) \<Longrightarrow> log_good m \<Longrightarrow> r_term r + 1 < W64 \<Longrightarrow> m_term m + 1 < W64 \<Longrightarrow>
    log_fits r 1 \<Longrightarrow> log_fits r (length (m_entries m)) \<Longrightarrow> stored_step E (ms, r) (ms, r')"
| tick: "raft_tick E r = Inr r' \<Longrightarrow> r_term r + 1 < W64 \<Longrightarrow> stored_step E (ms, r) (ms, r')"
| reconfigure: "raft_applyConfChange E r cc = Inr (r', cs) \<Longrightarrow> stored_step E (ms, r) (ms, r')"
| persist: "l = r_raftLog r \<Longrightarrow> u_snapshot (l_unstable l) = None \<Longrightarrow> u_entries (l_unstable l) \<noteq> [] \<Longrightarrow>
    MemoryStorage_Append ms (u_entries (l_unstable l)) = Inr (ms', Ok) \<Longrightarrow> e = last (u_entries (l_unstable l)) \<Longrightarrow>
    Step E (r\<lparr>r_raftLog := set_storage E ms' l\<rparr>) (append_ack r (e_index e) (e_term e)) = Inr (r', err) \<Longrightarrow>
    stored_step E (ms, r) (ms', r')"
| install: "l = r_raftLog r \<Longrightarrow> u_snapshot (l_unstable l) = Some s \<Longrightarrow> u_entries (l_unstable l) = [] \<Longrightarrow>
    MemoryStorage_ApplySnapshot ms s = (ms', Ok) \<Longrightarrow> log_fits r 1 \<Longrightarrow>
    Step E (r\<lparr>r_raftLog := set_storage E ms' l\<rparr>) (snap_ack r s) = Inr (r', err) \<Longrightarrow> stored_step E (ms, r) (ms', r')"
| snapshot: "MemoryStorage_CreateSnapshot ms i cs data = Inr (ms', sn, err) \<Longrightarrow>
    stored_step E (ms, r) (ms', r\<lparr>r_raftLog := set_storage E ms' (r_raftLog r)\<rparr>)"
| compact: "MemoryStorage_Compact ms i = Inr (ms', Ok) \<Longrightarrow> i \<le> l_applied (r_raftLog r) \<Longrightarrow>
    i < u_offset (l_unstable (r_raftLog r)) \<Longrightarrow>
    stored_step E (ms, r) (ms', r\<lparr>r_raftLog := set_storage E ms' (r_raftLog r)\<rparr>)"

lemma Step_storage_ack:
  "m_type m = MsgStorageAppendResp \<Longrightarrow> m_term m = r_term r \<Longrightarrow> Step E r m = ok_step (step_storageAppendResp E r m)"
  by (simp add: Step_def step_by_type_def)

lemma persist_step:
  assumes "node_kept E a c ms (r_raftLog r)" "u_snapshot (l_unstable (r_raftLog r)) = None" "u_entries (l_unstable (r_raftLog r)) = xs @ [e]"
    and "MemoryStorage_Append ms (xs @ [e]) = Inr (ms', Ok)"
    and "Step E (r\<lparr>r_raftLog := set_storage E ms' (r_raftLog r)\<rparr>) (append_ack r (e_index e) (e_term e)) = Inr (r', err)"
  shows "node_kept E a c ms' (r_raftLog r')"
proof -
  let ?r = "r\<lparr>r_raftLog := set_storage E ms' (r_raftLog r)\<rparr>"
  obtain a' where "log_in E (r_raftLog r) a'" using assms(1) by (rule node_keptE)
  then have "log_abs E (r_raftLog r) a'" by (simp add: log_in_def)
  then have "e_index e \<noteq> 0" using last_unstable [of E "r_raftLog r" a'] assms(3) by simp
  moreover obtain l' where l': "RaftLog_stableTo (r_raftLog ?r) (e_index e) (e_term e) = Inr l'"
    using assms(5) \<open>e_index e \<noteq> 0\<close>
    by (cases "RaftLog_stableTo (r_raftLog ?r) (e_index e) (e_term e)")
      (simp_all add: Step_storage_ack append_ack_def step_storageAppendResp_def ok_step_def)
  ultimately have "r_raftLog r' = l'" using Step_append_ack [OF l', of r E] assms(5) by simp
  then show ?thesis using persist_kept [OF assms(1,2), of ms' l'] assms(3,4) l' by simp
qed

lemma install_step:
  assumes "node_kept E a c ms (r_raftLog r)" "u_snapshot (l_unstable (r_raftLog r)) = Some s" "u_entries (l_unstable (r_raftLog r)) = []"
    and "MemoryStorage_ApplySnapshot ms s = (ms', Ok)" "log_fits r 1"
    and "Step E (r\<lparr>r_raftLog := set_storage E ms' (r_raftLog r)\<rparr>) (snap_ack r s) = Inr (r', err)"
  shows "node_kept E a c ms' (r_raftLog r')"
proof -
  let ?l = "set_storage E ms' (r_raftLog r)"
  let ?r = "r\<lparr>r_raftLog := RaftLog_stableSnapTo ?l (sn_index s)\<rparr>"
  have ne: "\<not> IsEmptySnap s" using assms(4) by (auto simp: MemoryStorage_ApplySnapshot_def IsEmptySnap_def split: if_splits)
  have st: "raft_appliedTo E ?r (sn_index s) 0 = Inr r'"
    using assms(6) ne by (cases "raft_appliedTo E ?r (sn_index s) 0")
      (simp_all add: Step_storage_ack snap_ack_def append_ack_def step_storageAppendResp_def ok_step_def raft_appliedSnap_def)
  have k: "node_kept E a c ms' (r_raftLog ?r)" using install_kept [OF assms(1-4)] by simp
  have "RaftLog_lastIndex (r_raftLog r) = Inr (sn_index s)"
    using assms(2,3) by (simp add: RaftLog_lastIndex_def Unstable_maybeLastIndex_def)
  moreover have "RaftLog_lastIndex (r_raftLog ?r) = Inr (sn_index s)"
    using assms(2-5) calculation
    by (auto simp: RaftLog_lastIndex_def Unstable_maybeLastIndex_def RaftLog_stableSnapTo_def Unstable_stableSnapTo_def as_Storage_def
        MemoryStorage_ApplySnapshot_def MemoryStorage_LastIndex_def MemoryStorage_lastIndex_def log_fits_def split: if_splits)
  ultimately have "log_fits ?r 1" using assms(5) by (simp add: log_fits_def)
  then have "logs.J E (as_Storage E ms') a c ?r r'"
    using logs.appliedTo_J [OF st, of "as_Storage E ms'" a c ?r] k by (simp add: logs.J_def node_kept_def)
  then show ?thesis using k by (simp add: logs.J_def node_kept_def)
qed

lemma stored_step_kept:
  assumes "stored_step E (ms, r) (ms', r')" "node_kept E a c ms (r_raftLog r)"
  shows "node_kept E a c ms' (r_raftLog r')"
  using assms(1)
proof cases
  case (receive m err)
  then show ?thesis using logs.Step_I [of E r m r' err "as_Storage E ms" a c] assms(2) by (simp add: node_kept_def)
next
  case tick
  then show ?thesis using logs.tick_I [of E r r' "as_Storage E ms" a c] assms(2) by (simp add: node_kept_def)
next
  case (reconfigure cc cs)
  then show ?thesis using logs.applyConfChange_I [of E r cc r' cs "as_Storage E ms" a c] assms(2) by (simp add: node_kept_def)
next
  case (persist l e err)
  then obtain xs where "u_entries (l_unstable (r_raftLog r)) = xs @ [e]" by (metis append_butlast_last_id)
  then show ?thesis using persist_step [OF assms(2)] persist by simp
next
  case (install l s err)
  then show ?thesis using install_step [OF assms(2)] by simp
next
  case (snapshot i cs data sn err)
  then show ?thesis using snapshot_kept [OF assms(2)] by simp
next
  case (compact i)
  then show ?thesis using compact_kept [OF assms(2)] by simp
qed

definition stored_run :: "env \<Rightarrow> MemoryStorage \<times> raft \<Rightarrow> MemoryStorage \<times> raft \<Rightarrow> bool" where
  "stored_run E = (stored_step E)\<^sup>*\<^sup>*"

lemma stored_run_kept:
  "stored_run E s s' \<Longrightarrow> node_kept E a c (fst s) (r_raftLog (snd s)) \<Longrightarrow> node_kept E a c (fst s') (r_raftLog (snd s'))"
  unfolding stored_run_def
proof (induction rule: rtranclp_induct)
  case (step s1 s2)
  then show ?case using stored_step_kept [of E "fst s1" "snd s1" "fst s2" "snd s2"] by simp
qed simp

section \<open>Property\<close>

text \<open>
  C20: committed entries never change. Whatever messages a node handles, whenever the clock
  ticks, configuration changes are applied and the application writes the log's tail or a
  snapshot to the storage, takes snapshots and compacts the applied part: afterwards the
  commit index has not gone back, it still lies within the log, and every entry that was
  committed at the start and has not been compacted is the same entry at the same index.
\<close>

theorem committed_entries_stable:
  assumes "stored_run E (ms, r) (ms', r')" "mem_holds E ms (r_raftLog r) a" "log_ok E (r_raftLog r) a"
  shows "\<exists>a'. mem_holds E ms' (r_raftLog r') a' \<and> al_base a \<le> al_base a' \<and>
     l_committed (r_raftLog r) \<le> l_committed (r_raftLog r') \<and> l_committed (r_raftLog r') \<le> al_last a' \<and>
     (\<forall>i. al_base a' < i \<longrightarrow> i \<le> l_committed (r_raftLog r) \<longrightarrow> al_entry a' i = al_entry a i)"
proof -
  have "node_kept E a (l_committed (r_raftLog r)) ms (r_raftLog r)"
    using assms(2) log_ok_in [OF assms(3)] by (intro node_keptI [of E ms _ a]) (simp_all add: log_in_def)
  then have "node_kept E a (l_committed (r_raftLog r)) ms' (r_raftLog r')" using stored_run_kept [OF assms(1)] by simp
  then show ?thesis by (rule node_keptE) (auto simp: log_in_def same_upto_def)
qed

text \<open>A follower that stores its tail, then takes a heartbeat committing it.\<close>

definition stored_example :: MemoryStorage where
  "stored_example = ms_example\<lparr>ms_ents := [Entry0, ent 1 1, ent 1 2, ent 2 3]\<rparr>"

definition compacted_example :: MemoryStorage where
  "compacted_example = ms_example\<lparr>ms_ents := [ent 1 1, ent 1 2, ent 2 3]\<rparr>"

definition log_after :: "MemoryStorage \<Rightarrow> RaftLog" where
  "log_after ms = (log_example env_example)\<lparr>l_storage := as_Storage env_example ms,
     l_unstable := \<lparr>u_snapshot = None, u_entries = [], u_offset = 4, u_snapshotInProgress = False, u_offsetInProgress = 4\<rparr>\<rparr>"

lemma example_persists:
  "stored_step env_example (ms_example, node_example) (stored_example, node_example\<lparr>r_raftLog := log_after stored_example\<rparr>)"
proof (rule stored_step.persist [OF refl, where e = "ent 2 3" and err = Ok])
  let ?r = "node_example\<lparr>r_raftLog := set_storage env_example stored_example (r_raftLog node_example)\<rparr>"
  have "RaftLog_stableTo (r_raftLog ?r) 3 2 = Inr (log_after stored_example)"
    by (simp add: RaftLog_stableTo_def Unstable_stableTo_def Unstable_maybeTerm_def Unstable_maybeLastIndex_def
        set_storage_def log_example_def log_after_def at_ix_def subvec_def Let_def ent_def add64_def sub64_def W64_def)
  then have "Step env_example ?r (append_ack node_example 3 2) = Inr (?r\<lparr>r_raftLog := log_after stored_example\<rparr>, Ok)"
    by (rule Step_append_ack) simp_all
  then show "Step env_example ?r (append_ack node_example (e_index (ent 2 3)) (e_term (ent 2 3))) =
      Inr (node_example\<lparr>r_raftLog := log_after stored_example\<rparr>, Ok)" by (simp add: ent_def)
qed (simp_all add: log_example_def ms_example_def stored_example_def MemoryStorage_Append_def MemoryStorage_firstIndex_def
    ent_def Entry0_def at_ix_def Let_def sub64_def add64_def W64_def)

theorem committed_entries_stable_witness:
  "\<exists>r' a'. stored_run env_example (ms_example, node_example) (compacted_example, r') \<and>
     mem_holds env_example compacted_example (r_raftLog r') a' \<and> al_base a' = 1 \<and> al_entry a' 2 = ent 1 2"
proof -
  let ?r = "node_example\<lparr>r_raftLog := log_after compacted_example\<rparr>"
  have "stored_step env_example (stored_example, node_example\<lparr>r_raftLog := log_after stored_example\<rparr>)
      (compacted_example, node_example\<lparr>r_raftLog := log_after stored_example\<rparr>
        \<lparr>r_raftLog := set_storage env_example compacted_example (log_after stored_example)\<rparr>)"
    using stored_step.compact [of stored_example 1 compacted_example "node_example\<lparr>r_raftLog := log_after stored_example\<rparr>" env_example]
    by (simp add: MemoryStorage_Compact_def MemoryStorage_lastIndex_def stored_example_def compacted_example_def at_ix_def subvec_def
        Let_def log_after_def log_example_def ent_def Entry0_def sub64_def add64_def W64_def)
  moreover have "set_storage env_example compacted_example (log_after stored_example) = log_after compacted_example"
    by (simp add: set_storage_def log_after_def log_example_def)
  ultimately have run: "stored_run env_example (ms_example, node_example) (compacted_example, ?r)"
    using example_persists unfolding stored_run_def by (simp add: rtranclp.rtrancl_into_rtrancl [OF r_into_rtranclp])
  obtain a' where a': "mem_holds env_example compacted_example (r_raftLog ?r) a'"
      "\<And>i. al_base a' < i \<Longrightarrow> i \<le> 2 \<Longrightarrow> al_entry a' i = al_entry alog_example i"
    using committed_entries_stable [OF run, of alog_example] log_example_holds log_example_ok [of env_example]
    by (auto simp: log_example_fields)
  have "al_base a' = 1"
    using a'(1) by (simp add: mem_holds_def alog_of_def log_after_def compacted_example_def ms_base_def ent_def)
  then show ?thesis using run a'(1) a'(2) [of 2] by (intro exI [of _ ?r] exI [of _ a']) (simp add: al_entry_def alog_example_def)
qed

end
