(* ===== verification/SendLoop.thy ===== *)
theory SendLoop
  imports RaftProps LogProps
begin

text \<open>
  The loop \<open>while (r.maybeSendAppend(to, false)) {}\<close> by which a leader fills the window of a follower ends: a
  message to a replicating follower moves its \<open>next_\<close> towards the end of the log, and every other message pauses
  the follower.
\<close>

text \<open>What is needed of the log: it denotes a sequence of entries whose sizes and number can be counted.\<close>

definition sendable :: "env \<Rightarrow> raft \<Rightarrow> alog \<Rightarrow> bool" where
  "sendable E r a \<longleftrightarrow> log_abs E (r_raftLog r) a \<and> r_maxMsgSize r < W64 \<and> ents_bytes E (al_ents a) < W64 \<and> length (al_ents a) < 2 ^ 31"

lemma entries_part:
  assumes "sendable E r a" "RaftLog_entries E (r_raftLog r) n (r_maxMsgSize r) = Inr (ents, err)"
  shows "n + length ents \<le> al_last a + 1 \<or> ents = []" "length ents < 2 ^ 31"
proof -
  note s = assms(1) [unfolded sendable_def]
  have li: "RaftLog_lastIndex (r_raftLog r) = Inr (al_last a)" using s lastIndex_abs by blast
  show "n + length ents \<le> al_last a + 1 \<or> ents = []" "length ents < 2 ^ 31"
  proof (atomize (full), cases "al_last a < n \<or> n \<le> al_base a")
    case True
    have "al_last a + 1 < W64" using s log_abs_wf al_wf_def by blast
    then have "ents = []"
      using True assms(2) s mustCheckOutOfBounds_abs [of E "r_raftLog r" a n "al_last a + 1"]
      by (auto simp: RaftLog_entries_def RaftLog_slice_def li split: if_splits)
    then show "(n + length ents \<le> al_last a + 1 \<or> ents = []) \<and> length ents < 2 ^ 31" by simp
  next
    case False
    have b: "ents_bytes E (al_slice a n (al_last a + 1)) < W64"
      using s le_less_trans [OF ents_bytes_part, of E "al_ents a" W64] unfolding al_slice_def by blast
    have "al_last a + 1 < W64" using s log_abs_wf al_wf_def by blast
    then have "ents = limitSize E (al_slice a n (al_last a + 1)) (r_maxMsgSize r)"
      using False assms(2) s slice_abs [of E "r_raftLog r" a n "al_last a + 1" "r_maxMsgSize r"] b
      by (simp add: RaftLog_entries_def li)
    then have "length ents \<le> length (al_slice a n (al_last a + 1))"
      using limitSize_take [of E "al_slice a n (al_last a + 1)" "r_maxMsgSize r"] by (metis length_take min.cobounded1)
    also have "\<dots> = al_last a + 1 - n" using False by (intro al_slice_length) auto
    finally show "(n + length ents \<le> al_last a + 1 \<or> ents = []) \<and> length ents < 2 ^ 31"
      using False s by (auto simp: al_last_def)
  qed
qed

lemma send_keeps: "raft_send r m = Inr r' \<Longrightarrow>
    r_raftLog r' = r_raftLog r \<and> r_maxMsgSize r' = r_maxMsgSize r \<and> r_trk r' = r_trk r"
  by (auto simp: raft_send_def Let_def split: if_splits)

lemma UpdateOnEntriesSend_next:
  assumes "Progress_UpdateOnEntriesSend pr (to_int32 k) b (pr_next pr) = Inr (pr', Ok)" "0 < k" "k < 2 ^ 31" "pr_next pr + k < W64"
  shows "Progress_IsPaused pr' \<or> pr_next pr' = pr_next pr + k"
proof -
  have k: "to_int32 k = int k" using assms(3) by (simp add: to_int32_def)
  have n: "add64 (sub64 (add64 (pr_next pr) k) 1) 1 = pr_next pr + k"
    using assms(2,4) by (simp add: add64_exact sub64_exact)
  show ?thesis using assms(1,2) n
    by (auto simp: Progress_UpdateOnEntriesSend_def Progress_IsPaused_def Progress_OptimisticUpdate_def Let_def k
      split: ProgressStateType.splits if_splits)
qed

lemma sent_next:
  assumes "sendable E r a" "trk_progress (r_trk r) d = Some pr" "raft_maybeSendAppend E r d False = Inr (r', True)"
  shows "sendable E r' a" "\<not> Progress_IsPaused pr" "pr_next pr \<le> al_last a"
    "\<exists>pr'. trk_progress (r_trk r') d = Some pr' \<and> (Progress_IsPaused pr' \<or> pr_next pr < pr_next pr' \<and> pr_next pr' \<le> al_last a + 1)"
proof -
  have w: "al_last a + 1 < W64" using assms(1) log_abs_wf al_wf_def sendable_def by blast
  show "\<not> Progress_IsPaused pr" using assms(2,3) by (auto simp: raft_maybeSendAppend_def raft_pr_def ProgressMap_at_def)
  obtain ents err where "RaftLog_entries E (r_raftLog r) (pr_next pr) (r_maxMsgSize r) = Inr (ents, err)" "ents \<noteq> []"
    using assms(2,3) by (auto simp: raft_maybeSendAppend_def raft_pr_def Let_def split: if_splits)
  then show "pr_next pr \<le> al_last a" using entries_part(1) [OF assms(1)] by (cases ents) fastforce+
  consider (snap) "raft_sendSnapshot r d pr = Inr (r', True)"
    | (app) ents pr' m where "RaftLog_entries E (r_raftLog r) (pr_next pr) (r_maxMsgSize r) = Inr (ents, Ok)" "ents \<noteq> []"
        "Progress_UpdateOnEntriesSend pr (to_int32 (length ents)) (payloadsSize ents) (pr_next pr) = Inr (pr', Ok)"
        "raft_send (set_pr r d pr') m = Inr r'"
    using assms(2,3) by (auto simp: raft_maybeSendAppend_def raft_pr_def ProgressMap_at_def Let_def split: if_splits)
  then show "sendable E r' a" "\<exists>pr'. trk_progress (r_trk r') d = Some pr' \<and> (Progress_IsPaused pr' \<or> pr_next pr < pr_next pr' \<and> pr_next pr' \<le> al_last a + 1)"
  proof (atomize (full), cases)
    case snap
    then show "sendable E r' a \<and> (\<exists>pr'. trk_progress (r_trk r') d = Some pr' \<and>
        (Progress_IsPaused pr' \<or> pr_next pr < pr_next pr' \<and> pr_next pr' \<le> al_last a + 1))"
      using assms(1) by (auto simp: raft_sendSnapshot_def sendable_def set_pr_def Progress_IsPaused_def
        Progress_BecomeSnapshot_def Progress_ResetState_def split: if_splits dest!: send_keeps)
  next
    case (app ents pr' m)
    then have "Progress_IsPaused pr' \<or> pr_next pr < pr_next pr' \<and> pr_next pr' \<le> al_last a + 1"
      using entries_part [OF assms(1) app(1)] UpdateOnEntriesSend_next [OF app(3)] w by fastforce
    then show "sendable E r' a \<and> (\<exists>pr'. trk_progress (r_trk r') d = Some pr' \<and>
        (Progress_IsPaused pr' \<or> pr_next pr < pr_next pr' \<and> pr_next pr' \<le> al_last a + 1))"
      using assms(1) send_keeps [OF app(4)] by (simp add: sendable_def set_pr_def)
  qed
qed

definition loop_ended :: "env \<Rightarrow> u64 \<Rightarrow> raft res \<Rightarrow> bool" where
  "loop_ended E d x \<longleftrightarrow> (case x of
     Inr r' \<Rightarrow> raft_maybeSendAppend E r' d False = Inr (r', False)
   | Inl e \<Rightarrow> \<exists>r'. raft_maybeSendAppend E r' d False = Inl e)"

lemma not_sent: "raft_maybeSendAppend E r d b = Inr (r', False) \<Longrightarrow> r' = r"
  by (auto simp: raft_maybeSendAppend_def raft_sendSnapshot_def Let_def split: if_splits)

lemma loop_ends:
  assumes "sendable E r a" "trk_progress (r_trk r) d = Some pr" "0 < f" "\<not> Progress_IsPaused pr \<Longrightarrow> al_last a + 2 \<le> pr_next pr + f"
  shows "loop_ended E d (send_all f E r d) \<and> send_all (f + k) E r d = send_all f E r d"
  using assms
proof (induction f arbitrary: r pr)
  case (Suc f)
  show ?case
  proof (cases "raft_maybeSendAppend E r d False")
    case (Inl e)
    then show ?thesis by (auto simp: loop_ended_def)
  next
    case (Inr p)
    show ?thesis
    proof (cases "snd p")
      case True
      then have st: "raft_maybeSendAppend E r d False = Inr (fst p, True)" using Inr by (cases p) simp
      note sn = sent_next [OF Suc.prems(1,2) st]
      obtain pr' where pr': "trk_progress (r_trk (fst p)) d = Some pr'"
          "Progress_IsPaused pr' \<or> pr_next pr < pr_next pr' \<and> pr_next pr' \<le> al_last a + 1" using sn(4) by blast
      have "loop_ended E d (send_all f E (fst p) d) \<and> send_all (f + k) E (fst p) d = send_all f E (fst p) d"
        using Suc.IH [OF sn(1) pr'(1)] pr'(2) Suc.prems(4) [OF sn(2)] sn(3) by fastforce
      then show ?thesis using st by simp
    next
      case False
      then have "raft_maybeSendAppend E r d False = Inr (r, False)" using Inr not_sent by (cases p) auto
      then show ?thesis by (simp add: loop_ended_def)
    qed
  qed
qed simp


section \<open>The loop\<close>

text \<open>
  C30: The loop \<open>while (r.maybeSendAppend(m.from(), false)) {}\<close> of the leader's handler of \<open>MsgAppResp\<close> ends
  within \<open>lastIndex + 2\<close> calls, on a node whose log denotes a sequence of entries: with that many iterations or
  any larger number the model's loop returns the same result, and this result is either a node from which
  \<open>maybeSendAppend\<close> has nothing to send to the peer or a failure that a call of \<open>maybeSendAppend\<close> raised; it is
  never the exhaustion of the fuel.
\<close>

theorem send_all_terminates:
  assumes "log_abs E (r_raftLog r) a" "r_maxMsgSize r < W64" "ents_bytes E (al_ents a) < W64" "length (al_ents a) < 2 ^ 31"
    and "send_fuel r \<le> n"
  shows "send_fuel r = al_last a + 2 \<and> send_all n E r d = send_all (send_fuel r) E r d \<and>
    (case send_all n E r d of
       Inr r' \<Rightarrow> raft_maybeSendAppend E r' d False = Inr (r', False)
     | Inl e \<Rightarrow> \<exists>r'. raft_maybeSendAppend E r' d False = Inl e)"
proof -
  have s: "sendable E r a" using assms by (simp add: sendable_def)
  have f: "send_fuel r = al_last a + 2" using lastIndex_abs [OF assms(1)] by (simp add: send_fuel_def)
  have e: "loop_ended E d (send_all k E r d) \<and> send_all k E r d = send_all (send_fuel r) E r d" if "send_fuel r \<le> k" for k
  proof (cases "trk_progress (r_trk r) d")
    case None
    then have "raft_maybeSendAppend E r d False = Inl (OutOfRange ''ProgressMap'')"
      by (simp add: raft_maybeSendAppend_def raft_pr_def ProgressMap_at_def)
    then show ?thesis using that f by (cases k; simp) (auto simp: loop_ended_def)
  next
    case (Some pr)
    have "0 < send_fuel r" "al_last a + 2 \<le> pr_next pr + send_fuel r" using f by simp_all
    then show ?thesis
      using loop_ends [OF s Some, of "send_fuel r" "k - send_fuel r"] le_add_diff_inverse [OF that] by metis
  qed
  show ?thesis using f e [OF assms(5)] unfolding loop_ended_def by blast
qed

theorem send_all_terminates_witness:
  "case send_all 5 env_example node_example 2 of
     Inr r' \<Rightarrow> raft_maybeSendAppend env_example r' 2 False = Inr (r', False)
   | Inl e \<Rightarrow> \<exists>r'. raft_maybeSendAppend env_example r' 2 False = Inl e"
proof -
  have "log_abs env_example (r_raftLog node_example) alog_example" using log_example_abs by simp
  moreover have "r_maxMsgSize node_example < W64" "length (al_ents alog_example) < 2 ^ 31"
    by (simp_all add: node_example_def raft_init_def config_example_def W64_def alog_example_def)
  moreover have "ents_bytes env_example (al_ents alog_example) < W64"
    by (simp add: alog_example_def W64_def ents_bytes_def ent_def env_example_def Entry_ByteSizeLong_def Entry0_def)
  moreover have "send_fuel node_example \<le> 5"
    using lastIndex_abs [OF log_example_abs, of env_example] by (simp add: send_fuel_def alog_example_terms)
  ultimately show ?thesis using send_all_terminates by blast
qed

end
