(* ===== verification/Bytes.thy ===== *)
theory Bytes
  imports Prelude "HOL-Library.List_Lexorder" "HOL-Library.Char_ord"
begin

text \<open>
  Byte strings. A \<open>std::string\<close> is a list of characters, each of them a byte; the encoders
  of the repository write fixed-width integers in big-endian order
  (\<open>boost::endian::native_to_big\<close>). \<open>be n x\<close> is the encoding of \<open>x\<close> in \<open>n\<close> bytes,
  \<open>unbe\<close> its inverse; \<open>to_uint\<close> and \<open>to_sint\<close> are the conversions between unsigned and
  two's complement integers of a width. The order of byte strings is the bytewise one of
  \<open>memcmp\<close> (\<open>List_Lexorder\<close> over \<open>Char_ord\<close>), and big-endian encodings of one width are
  ordered as the numbers they stand for.
\<close>

section \<open>Big-endian integers\<close>

abbreviation byte :: "nat \<Rightarrow> char" where
  "byte \<equiv> char_of"

fun be :: "nat \<Rightarrow> nat \<Rightarrow> string" where
  "be 0 x = []"
| "be (Suc n) x = byte (x div 256 ^ n) # be n x"

definition unbe :: "string \<Rightarrow> nat" where
  "unbe = foldl (\<lambda>a c. 256 * a + of_char c) 0"

lemma be_length [simp]: "length (be n x) = n"
  by (induction n) simp_all

lemma foldl_unbe: "foldl (\<lambda>a c. 256 * a + of_char c) a s = a * 256 ^ length s + unbe s"
proof (induction s arbitrary: a)
  case Nil
  then show ?case by (simp add: unbe_def)
next
  case (Cons c s)
  have "unbe (c # s) = of_char c * 256 ^ length s + unbe s"
    using Cons.IH [of "of_char c"] by (simp add: unbe_def)
  then show ?case using Cons.IH [of "256 * a + of_char c"] by (simp add: algebra_simps)
qed

lemma unbe_Nil [simp]: "unbe [] = 0"
  by (simp add: unbe_def)

lemma unbe_Cons [simp]: "unbe (c # s) = of_char c * 256 ^ length s + unbe s"
  using foldl_unbe [of "of_char c" s] by (simp add: unbe_def)

lemma unbe_append: "unbe (s @ t) = unbe s * 256 ^ length t + unbe t"
  using foldl_unbe [of "unbe s" t] by (simp add: unbe_def)

lemma unbe_less: "unbe s < 256 ^ length s"
proof (induction s)
  case (Cons c s)
  have "of_char c * 256 ^ length s + unbe s < (of_char c + 1) * 256 ^ length s" using Cons.IH by simp
  also have "of_char c + 1 \<le> (256 :: nat)" by (metis Suc_eq_plus1 Suc_leI nat_of_char_less_256)
  then have "(of_char c + 1) * 256 ^ length s \<le> 256 * (256 :: nat) ^ length s" by (rule mult_right_mono) simp
  finally show ?case by simp
qed simp

lemma unbe_be: "unbe (be n x) = x mod 256 ^ n"
proof (induction n)
  case (Suc n)
  have "x mod (256 ^ n * 256) = 256 ^ n * (x div 256 ^ n mod 256) + x mod 256 ^ n" by (rule mod_mult2_eq)
  then show ?case using Suc by (simp add: algebra_simps)
qed simp

lemma unbe_be_small [simp]: "x < 256 ^ n \<Longrightarrow> unbe (be n x) = x"
  by (simp add: unbe_be)

lemma be_mod: "be n (x + y * 256 ^ n) = be n x"
proof -
  have "be m (x + y * 256 ^ n) = be m x" if "m \<le> n" for m
    using that
  proof (induction m)
    case (Suc m)
    have "256 ^ n = (256 :: nat) ^ m * 256 * 256 ^ (n - Suc m)"
      using Suc.prems by (metis power_Suc2 power_add le_add_diff_inverse)
    then have "(x + y * 256 ^ n) div 256 ^ m = x div 256 ^ m + 256 * (y * 256 ^ (n - Suc m))"
      by (simp add: algebra_simps div_add1_eq)
    moreover have "(x div 256 ^ m + 256 * (y * 256 ^ (n - Suc m))) mod 256 = x div 256 ^ m mod 256" by simp
    ultimately show ?case using Suc by (metis be.simps(2) char_of_mod_256 Suc_leD)
  qed simp
  then show ?thesis by simp
qed

lemma be_unbe: "length s = n \<Longrightarrow> be n (unbe s) = s"
proof (induction n arbitrary: s)
  case (Suc n)
  then obtain c t where s: "s = c # t" "length t = n" by (cases s) auto
  have "(of_char c * 256 ^ n + unbe t) div 256 ^ n = of_char c" using unbe_less [of t] s(2) by simp
  moreover have "be n (of_char c * 256 ^ n + unbe t) = t"
    using be_mod [of n "unbe t" "of_char c"] Suc.IH [OF s(2)] by (simp add: algebra_simps)
  ultimately show ?case using s by simp
qed simp

lemma be_inj: "x < 256 ^ n \<Longrightarrow> y < 256 ^ n \<Longrightarrow> be n x = be n y \<longleftrightarrow> x = y"
  by (metis unbe_be_small)

text \<open>The encodings are ordered bytewise as the numbers.\<close>

lemma unbe_mono: "length s = length t \<Longrightarrow> s < t \<Longrightarrow> unbe s < unbe t"
proof (induction s arbitrary: t)
  case Nil
  then show ?case by simp
next
  case (Cons c s)
  then obtain d t' where t: "t = d # t'" "length t' = length s" by (cases t) auto
  show ?case
  proof (cases "c = d")
    case True
    then show ?thesis using Cons t by simp
  next
    case False
    then have "c < d" using Cons.prems t by simp
    then have "of_char c + 1 \<le> (of_char d :: nat)" by (simp add: less_char_def)
    then have "(of_char c + 1) * 256 ^ length s \<le> of_char d * (256 :: nat) ^ length s" by (intro mult_right_mono) simp_all
    moreover have "unbe s < 256 ^ length s" by (rule unbe_less)
    ultimately show ?thesis using t by simp
  qed
qed

lemma be_less_iff: "x < 256 ^ n \<Longrightarrow> y < 256 ^ n \<Longrightarrow> be n x < be n y \<longleftrightarrow> x < y"
proof -
  assume a: "x < 256 ^ n" "y < 256 ^ n"
  have mono: "be n u < be n v \<Longrightarrow> u < v" if "u < 256 ^ n" "v < 256 ^ n" for u v
    using unbe_mono [of "be n u" "be n v"] that by simp
  show ?thesis using mono [OF a] mono [OF a(2,1)] be_inj [OF a] by (metis less_asym linorder_less_linear)
qed

lemma be_le_iff: "x < 256 ^ n \<Longrightarrow> y < 256 ^ n \<Longrightarrow> be n x \<le> be n y \<longleftrightarrow> x \<le> y"
  using be_less_iff [of y n x] by (simp add: not_less [symmetric])

section \<open>Integer conversions\<close>

text \<open>A conversion to an unsigned type of \<open>w\<close> bits, and reading \<open>w\<close> bits as two's complement.\<close>

definition to_uint :: "nat \<Rightarrow> int \<Rightarrow> nat" where
  "to_uint w i = nat (i mod 2 ^ w)"

definition to_sint :: "nat \<Rightarrow> nat \<Rightarrow> int" where
  "to_sint w n = (let m = n mod 2 ^ w in if m < 2 ^ (w - 1) then int m else int m - 2 ^ w)"

lemma to_uint_less [simp]: "to_uint w i < 2 ^ w"
proof -
  have "i mod 2 ^ w < 2 ^ w" by simp
  then show ?thesis by (simp add: to_uint_def nat_less_iff)
qed

lemma to_uint_nat [simp]: "0 \<le> i \<Longrightarrow> i < 2 ^ w \<Longrightarrow> to_uint w i = nat i"
  by (simp add: to_uint_def)

lemma to_sint_to_uint:
  assumes "0 < w" "- (2 ^ (w - 1)) \<le> i" "i < 2 ^ (w - 1)"
  shows "to_sint w (to_uint w i) = i"
proof -
  have w: "(2 :: int) ^ w = 2 * 2 ^ (w - 1)" using assms(1) by (cases w) simp_all
  have m: "to_uint w i mod 2 ^ w = to_uint w i" by simp
  show ?thesis
  proof (cases "0 \<le> i")
    case True
    then have "to_uint w i = nat i" using assms(3) w by simp
    moreover have "nat i < 2 ^ (w - 1)" using assms(3) True by (simp add: nat_less_iff)
    ultimately show ?thesis using True m by (simp add: to_sint_def Let_def)
  next
    case False
    have "(i + 2 ^ w) mod 2 ^ w = i + 2 ^ w" using False assms(2) w by (intro mod_pos_pos_trivial) auto
    then have "i mod 2 ^ w = i + 2 ^ w" by simp
    then have n: "to_uint w i = nat (i + 2 ^ w)" by (simp add: to_uint_def)
    moreover have p: "0 \<le> i + 2 ^ w" "2 ^ (w - 1) \<le> i + 2 ^ w" "(0 :: int) < 2 ^ (w - 1)"
      using assms(2) w zero_less_power [of "2 :: int" "w - 1"] by linarith+
    moreover have "\<not> to_uint w i < 2 ^ (w - 1)"
      using n p by (simp add: nat_less_iff)
    moreover have "int (nat (i + 2 ^ w)) = i + 2 ^ w" using p(1) by (rule int_nat_eq [THEN trans, OF if_P])
    ultimately show ?thesis unfolding to_sint_def Let_def m by (simp add: n)
  qed
qed

lemma to_sint_range: "0 < w \<Longrightarrow> - (2 ^ (w - 1)) \<le> to_sint w n \<and> to_sint w n < 2 ^ (w - 1)"
proof -
  assume "0 < w"
  then have w: "(2 :: nat) ^ w = 2 * 2 ^ (w - 1)" by (cases w) simp_all
  have "n mod 2 ^ w < 2 ^ w" by simp
  then have "int (n mod 2 ^ w) < int (2 * 2 ^ (w - 1))" using w by (metis of_nat_less_iff)
  then have "int (n mod 2 ^ w) < 2 * 2 ^ (w - 1)" by simp
  moreover have "(2 :: int) ^ w = 2 * 2 ^ (w - 1)" using \<open>0 < w\<close> by (cases w) simp_all
  ultimately show ?thesis by (auto simp: to_sint_def Let_def)
qed

abbreviation int64 :: "int \<Rightarrow> bool" where
  "int64 i \<equiv> - (2 ^ 63) \<le> i \<and> i < 2 ^ 63"

section \<open>Decimal numerals\<close>

text \<open>\<open>std::to_string\<close>.\<close>

fun show_nat :: "nat \<Rightarrow> string" where
  "show_nat n = (if n < 10 then [byte (48 + n)] else show_nat (n div 10) @ [byte (48 + n mod 10)])"

declare show_nat.simps [simp del]

definition show_int :: "int \<Rightarrow> string" where
  "show_int i = (if i < 0 then CHR ''-'' # show_nat (nat (- i)) else show_nat (nat i))"

end
