(* ===== verification/Pack.thy ===== *)
theory Pack
  imports Bytes
begin

text \<open>
  The PackStream format of \<open>src/bolt/pack.h\<close> and \<open>src/bolt/pack.cc\<close>: the encoder
  \<open>Packer\<close> and the decoder \<open>Unpacker\<close> over a byte buffer. A \<open>double\<close> is the 64-bit
  pattern that is sent; the \<open>length\<close> arguments of the encoder are C++ \<open>int\<close>s made from
  \<open>size_t\<close>s, so a length of \<open>2 ^ 31\<close> or more arrives as another number (\<open>to_int32\<close>).
  Each method of the decoder takes the decoder and returns the new one; the first error is
  kept in it, as in the code.
\<close>

section \<open>Markers\<close>

datatype PackType =
  TUndef | TInteger | TFloat | TString | TStructure | TBytes | TList | TDictionary | TNull | TTrue | TFalse

text \<open>The numbers of the enumeration, printed in an error message.\<close>

fun PackType_code :: "PackType \<Rightarrow> nat" where
  "PackType_code TUndef = 0"
| "PackType_code TInteger = 1"
| "PackType_code TFloat = 2"
| "PackType_code TString = 3"
| "PackType_code TStructure = 4"
| "PackType_code TBytes = 5"
| "PackType_code TList = 6"
| "PackType_code TDictionary = 7"
| "PackType_code TNull = 8"
| "PackType_code TTrue = 9"
| "PackType_code TFalse = 10"

record Marker =
  mk_typ :: PackType
  mk_shortlen :: int
  mk_numlenbytes :: nat

definition Marker0 :: Marker where
  "Marker0 = \<lparr>mk_typ = TUndef, mk_shortlen = 0, mk_numlenbytes = 0\<rparr>"

definition short_marker :: "PackType \<Rightarrow> int \<Rightarrow> Marker" where
  "short_marker t l = \<lparr>mk_typ = t, mk_shortlen = l, mk_numlenbytes = 0\<rparr>"

definition long_marker :: "PackType \<Rightarrow> nat \<Rightarrow> Marker" where
  "long_marker t n = \<lparr>mk_typ = t, mk_shortlen = 0, mk_numlenbytes = n\<rparr>"

text \<open>The table \<open>markers\<close> as \<open>MarkersInit\<close> fills it; the entries it does not name keep the default.\<close>

definition markers :: "nat \<Rightarrow> Marker" where
  "markers i =
     (if i < 0x80 then short_marker TInteger (int i)
      else if i < 0x90 then short_marker TString (int i - 0x80)
      else if i < 0xa0 then short_marker TList (int i - 0x90)
      else if i < 0xb0 then short_marker TDictionary (int i - 0xa0)
      else if i < 0xc0 then short_marker TStructure (int i - 0xb0)
      else if i = 0xc0 then long_marker TNull 0
      else if i = 0xc1 then long_marker TFloat 8
      else if i = 0xc2 then long_marker TFalse 0
      else if i = 0xc3 then long_marker TTrue 0
      else if i = 0xc8 then long_marker TInteger 1
      else if i = 0xc9 then long_marker TInteger 2
      else if i = 0xca then long_marker TInteger 4
      else if i = 0xcb then long_marker TInteger 8
      else if i = 0xcc then long_marker TBytes 1
      else if i = 0xcd then long_marker TBytes 2
      else if i = 0xce then long_marker TBytes 4
      else if i = 0xd0 then long_marker TString 1
      else if i = 0xd1 then long_marker TString 2
      else if i = 0xd2 then long_marker TString 4
      else if i = 0xd4 then long_marker TList 1
      else if i = 0xd5 then long_marker TList 2
      else if i = 0xd6 then long_marker TList 4
      else if i = 0xd8 then long_marker TDictionary 1
      else if i = 0xd9 then long_marker TDictionary 2
      else if i = 0xda then long_marker TDictionary 4
      else if 0xf0 \<le> i \<and> i < 0x100 then short_marker TInteger (int i - 0x100)
      else Marker0)"

section \<open>The encoder\<close>

record Packer =
  pk_buf :: string
  pk_err :: "string option"

definition push :: "nat \<Rightarrow> Packer \<Rightarrow> Packer" where
  "push b p = p\<lparr>pk_buf := pk_buf p @ [byte b]\<rparr>"

definition append_buf :: "string \<Rightarrow> Packer \<Rightarrow> Packer" where
  "append_buf s p = p\<lparr>pk_buf := pk_buf p @ s\<rparr>"

definition Packer_Begin :: "string \<Rightarrow> Packer" where
  "Packer_Begin buf = \<lparr>pk_buf = buf, pk_err = None\<rparr>"

definition Packer_setErr :: "string \<Rightarrow> Packer \<Rightarrow> Packer" where
  "Packer_setErr e p = (case pk_err p of None \<Rightarrow> p\<lparr>pk_err := Some e\<rparr> | Some _ \<Rightarrow> p)"

text \<open>
  The header of a string, list or map. The argument \<open>ll\<close> is an \<open>int\<close>: a negative one takes
  the first branch.
\<close>

definition Packer_ListHeader :: "int \<Rightarrow> nat \<Rightarrow> nat \<Rightarrow> Packer \<Rightarrow> Packer" where
  "Packer_ListHeader l shortOffset longOffset p =
     (if l < 0x10 then append_buf [byte (shortOffset + to_uint 8 l)] p
      else if l < 0x100 then append_buf (byte longOffset # be 1 (nat l)) p
      else if l < 0x10000 then append_buf (byte (longOffset + 1) # be 2 (nat l)) p
      else if l < 0xffffffff then append_buf (byte (longOffset + 2) # be 4 (nat l)) p
      else p\<lparr>pk_err := Some (''Trying to pack too large list of size '' @ show_int l)\<rparr>)"

definition Packer_StructHeader :: "nat \<Rightarrow> int \<Rightarrow> Packer \<Rightarrow> Packer" where
  "Packer_StructHeader tag num p =
     (if num > 0x0f then Packer_setErr ''Trying to pack struct with too many fields'' p
      else push tag (push (0xb0 + to_uint 8 num) p))"

definition Packer_Int64 :: "int \<Rightarrow> Packer \<Rightarrow> Packer" where
  "Packer_Int64 i p =
     (if - 0x10 \<le> i \<and> i < 0x80 then push (to_uint 8 i) p
      else if - 0x80 \<le> i \<and> i < - 0x10 then append_buf (byte 0xc8 # be 1 (to_uint 8 i)) p
      else if - 0x8000 \<le> i \<and> i < 0x8000 then append_buf (byte 0xc9 # be 2 (to_uint 16 i)) p
      else if - 0x80000000 \<le> i \<and> i < 0x80000000 then append_buf (byte 0xca # be 4 (to_uint 32 i)) p
      else append_buf (byte 0xcb # be 8 (to_uint 64 i)) p)"

definition Packer_Uint64 :: "u64 \<Rightarrow> Packer \<Rightarrow> Packer" where
  "Packer_Uint64 i p =
     Packer_Int64 (to_sint 64 i)
       (if i > 2 ^ 63 - 1 then p\<lparr>pk_err := Some ''Trying to pack uint64 that doesn't fit into int64''\<rparr> else p)"

definition Packer_Double :: "nat \<Rightarrow> Packer \<Rightarrow> Packer" where
  "Packer_Double f p = append_buf (byte 0xc1 # be 8 f) p"

definition Packer_String :: "string \<Rightarrow> Packer \<Rightarrow> Packer" where
  "Packer_String s p = append_buf s (Packer_ListHeader (to_int32 (length s)) 0x80 0xd0 p)"

text \<open>The overload for a \<open>const char*\<close> sends the characters before the first zero.\<close>

definition Packer_CString :: "string \<Rightarrow> Packer \<Rightarrow> Packer" where
  "Packer_CString s p = Packer_String (takeWhile (\<lambda>c. c \<noteq> byte 0) s) p"

definition Packer_Bytes :: "string \<Rightarrow> Packer \<Rightarrow> Packer" where
  "Packer_Bytes b p =
     (let l = length b in
      if l < 0x100 then append_buf (byte 0xcc # be 1 l @ b) p
      else if l < 0x10000 then append_buf (byte 0xcd # be 2 l @ b) p
      else if l < 0x100000000 then append_buf (byte 0xce # be 4 l @ b) p
      else p\<lparr>pk_err := Some (''Trying to pack too large byte array of size '' @ show_nat l)\<rparr>)"

definition Packer_Bool :: "bool \<Rightarrow> Packer \<Rightarrow> Packer" where
  "Packer_Bool b = push (if b then 0xc3 else 0xc2)"

definition Packer_Null :: "Packer \<Rightarrow> Packer" where
  "Packer_Null = push 0xc0"

definition Packer_List :: "nat \<Rightarrow> Packer \<Rightarrow> Packer" where
  "Packer_List l = Packer_ListHeader (to_int32 l) 0x90 0xd4"

definition Packer_Map :: "nat \<Rightarrow> Packer \<Rightarrow> Packer" where
  "Packer_Map l = Packer_ListHeader (to_int32 l) 0xa0 0xd8"

definition Packer_Strings :: "string list \<Rightarrow> Packer \<Rightarrow> Packer" where
  "Packer_Strings ss p = fold Packer_String ss (Packer_List (length ss) p)"

definition Packer_Int64s :: "int list \<Rightarrow> Packer \<Rightarrow> Packer" where
  "Packer_Int64s is p = fold Packer_Int64 is (Packer_List (length is) p)"

definition Packer_Doubles :: "nat list \<Rightarrow> Packer \<Rightarrow> Packer" where
  "Packer_Doubles ds p = fold Packer_Double ds (Packer_List (length ds) p)"

definition Packer_Bools :: "bool list \<Rightarrow> Packer \<Rightarrow> Packer" where
  "Packer_Bools bs p = fold Packer_Bool bs (Packer_List (length bs) p)"

definition Packer_Ints :: "int list \<Rightarrow> Packer \<Rightarrow> Packer" where
  "Packer_Ints is p = fold Packer_Int64 is (Packer_List (length is) p)"

definition Packer_IntMap :: "(string \<times> int) list \<Rightarrow> Packer \<Rightarrow> Packer" where
  "Packer_IntMap m p = fold (\<lambda>(k, i). Packer_Int64 i \<circ> Packer_String k) m (Packer_Map (length m) p)"

definition Packer_StringMap :: "(string \<times> string) list \<Rightarrow> Packer \<Rightarrow> Packer" where
  "Packer_StringMap m p = fold (\<lambda>(k, s). Packer_String s \<circ> Packer_String k) m (Packer_Map (length m) p)"

section \<open>The decoder\<close>

record Unpacker =
  up_buf :: string
  up_off :: nat
  up_len :: nat
  up_mrk :: Marker
  up_err :: "string option"
  up_curr :: PackType

definition Unpacker_SetErr :: "string \<Rightarrow> Unpacker \<Rightarrow> Unpacker" where
  "Unpacker_SetErr e u = (case up_err u of None \<Rightarrow> u\<lparr>up_err := Some e\<rparr> | Some _ \<Rightarrow> u)"

definition Unpacker_Reset :: "string \<Rightarrow> Unpacker \<Rightarrow> Unpacker" where
  "Unpacker_Reset buf u =
     u\<lparr>up_buf := buf, up_off := 0, up_len := length buf mod 2 ^ 32, up_err := None,
       up_mrk := (up_mrk u)\<lparr>mk_typ := TUndef\<rparr>, up_curr := TUndef\<rparr>"

definition Unpacker_Pop :: "Unpacker \<Rightarrow> nat \<times> Unpacker" where
  "Unpacker_Pop u =
     (if up_off u < up_len u then (of_char (up_buf u ! up_off u), u\<lparr>up_off := up_off u + 1\<rparr>)
      else (0, Unpacker_SetErr ''IO Error'' u))"

definition Unpacker_Next :: "Unpacker \<Rightarrow> Unpacker" where
  "Unpacker_Next u =
     (let (i, u') = Unpacker_Pop u in u'\<lparr>up_mrk := markers i, up_curr := mk_typ (markers i)\<rparr>)"

definition Unpacker_Read :: "nat \<Rightarrow> Unpacker \<Rightarrow> string \<times> Unpacker" where
  "Unpacker_Read n u =
     (if up_off u + n > up_len u then ('''', Unpacker_SetErr ''IO Error'' u)
      else (take n (drop (up_off u) (up_buf u)), u\<lparr>up_off := up_off u + n\<rparr>))"

definition Unpacker_ReadLen :: "nat \<Rightarrow> Unpacker \<Rightarrow> nat \<times> Unpacker" where
  "Unpacker_ReadLen n u =
     (if up_off u + n > up_len u then (0, Unpacker_SetErr ''IO Error'' u)
      else if n = 1 \<or> n = 2 \<or> n = 4 then (unbe (take n (drop (up_off u) (up_buf u))), u\<lparr>up_off := up_off u + n\<rparr>)
      else (0, (Unpacker_SetErr (''Illegal length: '' @ show_nat n @ '', current type: '' @
                 show_nat (PackType_code (up_curr u))) u)\<lparr>up_off := up_off u + n\<rparr>))"

definition Unpacker_Len :: "Unpacker \<Rightarrow> nat \<times> Unpacker" where
  "Unpacker_Len u =
     (if mk_numlenbytes (up_mrk u) = 0 then (to_uint 32 (mk_shortlen (up_mrk u)), u)
      else Unpacker_ReadLen (mk_numlenbytes (up_mrk u)) u)"

text \<open>The message of the last branch prints the result variable, which is still 0.\<close>

definition Unpacker_Int :: "Unpacker \<Rightarrow> int \<times> Unpacker" where
  "Unpacker_Int u =
     (let n = mk_numlenbytes (up_mrk u) in
      if n = 0 then (mk_shortlen (up_mrk u), u)
      else if up_off u + n > up_len u then (0, Unpacker_SetErr ''IO Error'' u)
      else if n = 1 \<or> n = 2 \<or> n = 4 \<or> n = 8
      then (to_sint (8 * n) (unbe (take n (drop (up_off u) (up_buf u)))), u\<lparr>up_off := up_off u + n\<rparr>)
      else (0, Unpacker_SetErr ''Illegal int length: 0'' u))"

definition quiet_NaN :: nat where
  "quiet_NaN = 0x7ff8000000000000"

definition Unpacker_Double :: "Unpacker \<Rightarrow> nat \<times> Unpacker" where
  "Unpacker_Double u =
     (let (s, u') = Unpacker_Read 8 u in if up_err u' \<noteq> None then (quiet_NaN, u') else (unbe s, u'))"

definition Unpacker_String :: "Unpacker \<Rightarrow> string \<times> Unpacker" where
  "Unpacker_String u = (let (n, u') = Unpacker_Len u in Unpacker_Read n u')"

definition Unpacker_Bool :: "Unpacker \<Rightarrow> bool \<times> Unpacker" where
  "Unpacker_Bool u =
     (case up_curr u of TTrue \<Rightarrow> (True, u) | TFalse \<Rightarrow> (False, u)
      | _ \<Rightarrow> (False, Unpacker_SetErr ''Illegal value for bool'' u))"

definition Unpacker_StructTag :: "Unpacker \<Rightarrow> nat \<times> Unpacker" where
  "Unpacker_StructTag = Unpacker_Pop"

definition Unpacker_ByteArray :: "Unpacker \<Rightarrow> string \<times> Unpacker" where
  "Unpacker_ByteArray u = (let (n, u') = Unpacker_Len u in Unpacker_Read n u')"


section \<open>What the encoder writes\<close>

text \<open>An operation of the encoder that only appends.\<close>

definition appends :: "(Packer \<Rightarrow> Packer) \<Rightarrow> string \<Rightarrow> bool" where
  "appends f s \<longleftrightarrow> (\<forall>p. f p = append_buf s p)"

lemma append_buf_append [simp]: "append_buf t (append_buf s p) = append_buf (s @ t) p"
  by (simp add: append_buf_def)

lemma append_buf_Nil [simp]: "append_buf [] p = p"
  by (simp add: append_buf_def)

lemma push_eq: "push b p = append_buf [byte b] p"
  by (simp add: push_def append_buf_def)

lemma appendsI: "(\<And>p. f p = append_buf s p) \<Longrightarrow> appends f s"
  by (simp add: appends_def)

lemma appendsD: "appends f s \<Longrightarrow> f p = append_buf s p"
  by (simp add: appends_def)

lemma appends_comp: "appends f s \<Longrightarrow> appends g t \<Longrightarrow> appends (\<lambda>p. g (f p)) (s @ t)"
  by (simp add: appends_def)

lemma appends_fold:
  "(\<And>x. x \<in> set xs \<Longrightarrow> appends (f x) (g x)) \<Longrightarrow> appends (fold f xs) (concat (map g xs))"
proof (induction xs)
  case (Cons x xs)
  then show ?case using appends_comp [of "f x" "g x" "fold f xs"] by (simp add: comp_def)
qed (simp add: appends_def)

definition int_bytes :: "int \<Rightarrow> string" where
  "int_bytes i =
     (if - 0x10 \<le> i \<and> i < 0x80 then [byte (to_uint 8 i)]
      else if - 0x80 \<le> i \<and> i < - 0x10 then byte 0xc8 # be 1 (to_uint 8 i)
      else if - 0x8000 \<le> i \<and> i < 0x8000 then byte 0xc9 # be 2 (to_uint 16 i)
      else if - 0x80000000 \<le> i \<and> i < 0x80000000 then byte 0xca # be 4 (to_uint 32 i)
      else byte 0xcb # be 8 (to_uint 64 i))"

definition len_bytes :: "nat \<Rightarrow> nat \<Rightarrow> nat \<Rightarrow> string" where
  "len_bytes short long n =
     (if n < 0x10 then [byte (short + n)]
      else if n < 0x100 then byte long # be 1 n
      else if n < 0x10000 then byte (long + 1) # be 2 n
      else byte (long + 2) # be 4 n)"

definition str_bytes :: "string \<Rightarrow> string" where
  "str_bytes s = len_bytes 0x80 0xd0 (length s) @ s"

lemma Int64_appends: "appends (Packer_Int64 i) (int_bytes i)"
  by (simp add: appends_def Packer_Int64_def int_bytes_def push_eq)

lemma ListHeader_appends: "n < 2 ^ 31 \<Longrightarrow> appends (Packer_ListHeader (to_int32 n) short long) (len_bytes short long n)"
  by (simp add: appends_def Packer_ListHeader_def len_bytes_def)

lemma String_appends: "length s < 2 ^ 31 \<Longrightarrow> appends (Packer_String s) (str_bytes s)"
  using ListHeader_appends [of "length s" "0x80" "0xd0"] by (simp add: appends_def Packer_String_def str_bytes_def)

lemma StructHeader_appends: "0 \<le> num \<Longrightarrow> num \<le> 0x0f \<Longrightarrow> appends (Packer_StructHeader tag num) [byte (0xb0 + nat num), byte tag]"
  by (simp add: appends_def Packer_StructHeader_def push_eq)

lemma Double_appends: "appends (Packer_Double d) (byte 0xc1 # be 8 d)"
  by (simp add: appends_def Packer_Double_def)

section \<open>What the decoder reads\<close>

text \<open>\<open>ahead u s\<close>: the next bytes are \<open>s\<close>. \<open>moved u n v\<close>: \<open>n\<close> bytes have been read.\<close>

definition ahead :: "Unpacker \<Rightarrow> string \<Rightarrow> bool" where
  "ahead u s \<longleftrightarrow> up_len u \<le> length (up_buf u) \<and> up_off u + length s \<le> up_len u \<and>
     take (length s) (drop (up_off u) (up_buf u)) = s"

definition moved :: "Unpacker \<Rightarrow> nat \<Rightarrow> Unpacker \<Rightarrow> bool" where
  "moved u n v \<longleftrightarrow> up_buf v = up_buf u \<and> up_len v = up_len u \<and> up_err v = up_err u \<and> up_off v = up_off u + n"

lemma moved_trans: "moved u m v \<Longrightarrow> moved v n w \<Longrightarrow> moved u (m + n) w"
  by (simp add: moved_def)

lemma ahead_split: "ahead u (s @ t) \<Longrightarrow> ahead u s"
  by (auto simp: ahead_def take_add)

lemma ahead_rest:
  assumes "ahead u (s @ t)" "moved u (length s) v"
  shows "ahead v t"
  using assms by (auto simp: ahead_def moved_def take_add add.commute)

lemma ahead_Next:
  assumes "ahead u (c # s)"
  shows "moved u 1 (Unpacker_Next u)" "up_mrk (Unpacker_Next u) = markers (of_char c)"
    "up_curr (Unpacker_Next u) = mk_typ (markers (of_char c))" "ahead (Unpacker_Next u) s"
proof -
  have off: "up_off u < up_len u" "up_len u \<le> length (up_buf u)" using assms by (auto simp: ahead_def)
  then have "drop (up_off u) (up_buf u) = up_buf u ! up_off u # drop (Suc (up_off u)) (up_buf u)"
    by (intro Cons_nth_drop_Suc [symmetric]) simp
  then have c: "up_buf u ! up_off u = c" using assms by (simp add: ahead_def)
  then show m: "moved u 1 (Unpacker_Next u)" and "up_mrk (Unpacker_Next u) = markers (of_char c)"
    "up_curr (Unpacker_Next u) = mk_typ (markers (of_char c))"
    using off by (simp_all add: Unpacker_Next_def Unpacker_Pop_def moved_def)
  show "ahead (Unpacker_Next u) s" using ahead_rest [of u "[c]" s] assms m by simp
qed

lemma ahead_take: "ahead u (s @ t) \<Longrightarrow> take (length s) (drop (up_off u) (up_buf u)) = s"
  using ahead_split by (auto simp: ahead_def)

lemma ahead_room: "ahead u (s @ t) \<Longrightarrow> \<not> up_off u + length s > up_len u"
  by (simp add: ahead_def)

lemma Read_ahead:
  assumes "ahead u (s @ t)"
  shows "\<exists>v. Unpacker_Read (length s) u = (s, v) \<and> moved u (length s) v \<and> ahead v t"
proof -
  have "moved u (length s) (u\<lparr>up_off := up_off u + length s\<rparr>)" by (simp add: moved_def)
  then show ?thesis
    using ahead_rest [OF assms] ahead_take [OF assms] ahead_room [OF assms] by (auto simp: Unpacker_Read_def)
qed


text \<open>
  \<open>decodes s t f x\<close>: at the bytes \<open>s\<close>, \<open>Next\<close> finds the type \<open>t\<close> and \<open>f\<close> then reads \<open>x\<close>
  and nothing more.
\<close>

definition decodes :: "string \<Rightarrow> PackType \<Rightarrow> (Unpacker \<Rightarrow> 'a \<times> Unpacker) \<Rightarrow> 'a \<Rightarrow> bool" where
  "decodes s t f x \<longleftrightarrow> (\<forall>u. ahead u s \<longrightarrow> up_err u = None \<longrightarrow>
     up_curr (Unpacker_Next u) = t \<and> (\<exists>v. f (Unpacker_Next u) = (x, v) \<and> moved u (length s) v))"

lemma decodesI:
  assumes "\<And>u. ahead u s \<Longrightarrow> up_err u = None \<Longrightarrow>
     up_curr (Unpacker_Next u) = t \<and> (\<exists>v. f (Unpacker_Next u) = (x, v) \<and> moved u (length s) v)"
  shows "decodes s t f x"
  using assms by (simp add: decodes_def)

lemma decodesE:
  assumes "decodes s t f x" "ahead u (s @ r)" "up_err u = None"
  obtains v where "up_curr (Unpacker_Next u) = t" "f (Unpacker_Next u) = (x, v)" "moved u (length s) v" "ahead v r" "up_err v = None"
proof -
  obtain v where v: "up_curr (Unpacker_Next u) = t" "f (Unpacker_Next u) = (x, v)" "moved u (length s) v"
    using assms(1,3) ahead_split [OF assms(2)] unfolding decodes_def by blast
  show ?thesis using that [OF v ahead_rest [OF assms(2) v(3)]] v(3) assms(3) by (simp add: moved_def)
qed

lemma decodes_short:
  assumes "markers (of_char c) = short_marker t l" "\<And>u. mk_numlenbytes (up_mrk u) = 0 \<Longrightarrow> mk_shortlen (up_mrk u) = l \<Longrightarrow> f u = (x, u)"
  shows "decodes [c] t f x"
proof (rule decodesI)
  fix u assume "ahead u [c]"
  note N = ahead_Next [OF this]
  show "up_curr (Unpacker_Next u) = t \<and> (\<exists>v. f (Unpacker_Next u) = (x, v) \<and> moved u (length [c]) v)"
    using N(1-3) assms by (simp add: short_marker_def)
qed

lemma decodes_long:
  assumes "markers (of_char c) = long_marker t (length s)"
    and "\<And>u. ahead u s \<Longrightarrow> up_mrk u = long_marker t (length s) \<Longrightarrow> up_err u = None \<Longrightarrow>
       f u = (x, u\<lparr>up_off := up_off u + length s\<rparr>)"
  shows "decodes (c # s) t f x"
proof (rule decodesI)
  fix u assume "ahead u (c # s)" and e: "up_err u = None"
  note N = ahead_Next [OF this(1)]
  let ?v = "(Unpacker_Next u)\<lparr>up_off := up_off (Unpacker_Next u) + length s\<rparr>"
  have "moved u (length (c # s)) ?v" using N(1) by (simp add: moved_def)
  then show "up_curr (Unpacker_Next u) = t \<and> (\<exists>v. f (Unpacker_Next u) = (x, v) \<and> moved u (length (c # s)) v)"
    using N assms e by (simp add: long_marker_def moved_def)
qed

lemma Int_long:
  assumes "ahead u (be n x)" "mk_numlenbytes (up_mrk u) = n" "n = 1 \<or> n = 2 \<or> n = 4 \<or> n = 8" "x < 256 ^ n"
  shows "Unpacker_Int u = (to_sint (8 * n) x, u\<lparr>up_off := up_off u + n\<rparr>)"
proof -
  have "take n (drop (up_off u) (up_buf u)) = be n x" "\<not> up_off u + n > up_len u" using assms(1) by (simp_all add: ahead_def)
  then show ?thesis using assms(2-4) by (auto simp: Unpacker_Int_def Let_def)
qed

lemma pow256: "(256 :: nat) ^ n = 2 ^ (8 * n)"
  by (simp add: power_mult)

lemma decodes_int_long:
  assumes "markers (of_char c) = long_marker TInteger n" "n = 1 \<or> n = 2 \<or> n = 4 \<or> n = 8"
    and "- (2 ^ (8 * n - 1)) \<le> i" "i < 2 ^ (8 * n - 1)"
  shows "decodes (c # be n (to_uint (8 * n) i)) TInteger Unpacker_Int i"
proof (rule decodes_long)
  fix u assume "ahead u (be n (to_uint (8 * n) i))" "up_mrk u = long_marker TInteger (length (be n (to_uint (8 * n) i)))"
  then have "Unpacker_Int u = (to_sint (8 * n) (to_uint (8 * n) i), u\<lparr>up_off := up_off u + n\<rparr>)"
    using assms(2) by (intro Int_long) (auto simp: long_marker_def pow256)
  moreover have "to_sint (8 * n) (to_uint (8 * n) i) = i" using assms(2-4) by (intro to_sint_to_uint) auto
  ultimately show "Unpacker_Int u = (i, u\<lparr>up_off := up_off u + length (be n (to_uint (8 * n) i))\<rparr>)" by simp
qed (use assms(1) in simp)

lemma markers_tiny_int:
  assumes "- 0x10 \<le> i" "i < 0x80"
  shows "markers (of_char (byte (to_uint 8 i))) = short_marker TInteger i"
proof (cases "0 \<le> i")
  case True
  then have "to_uint 8 i = nat i" "nat i < 128" using assms by auto
  then show ?thesis using True by (simp add: markers_def)
next
  case False
  have "(i + 256) mod 256 = i + 256" using False assms by (intro mod_pos_pos_trivial) auto
  then have "to_uint 8 i = nat (i + 256)" by (simp add: to_uint_def)
  moreover have "240 \<le> nat (i + 256)" "nat (i + 256) < 256" using False assms by auto
  ultimately show ?thesis using False assms by (auto simp: markers_def)
qed

lemma decodes_int:
  assumes "int64 i"
  shows "decodes (int_bytes i) TInteger Unpacker_Int i"
proof -
  consider "- 0x10 \<le> i \<and> i < 0x80" | "- 0x80 \<le> i \<and> i < - 0x10" | "- 0x8000 \<le> i \<and> i < 0x8000" "\<not> (- 0x80 \<le> i \<and> i < 0x80)"
    | "- 0x80000000 \<le> i \<and> i < 0x80000000" "\<not> (- 0x8000 \<le> i \<and> i < 0x8000)" | "\<not> (- 0x80000000 \<le> i \<and> i < 0x80000000)" by fastforce
  then show ?thesis
  proof cases
    case 1
    then show ?thesis using decodes_short [OF markers_tiny_int, of i Unpacker_Int i] by (simp add: int_bytes_def Unpacker_Int_def Let_def)
  next
    case 2
    then have "int_bytes i = byte 0xc8 # be 1 (to_uint 8 i)" by (simp add: int_bytes_def)
    then show ?thesis using decodes_int_long [of "byte 0xc8" 1 i] 2 by (simp add: markers_def)
  next
    case 3
    then have "int_bytes i = byte 0xc9 # be 2 (to_uint 16 i)" by (auto simp: int_bytes_def)
    then show ?thesis using decodes_int_long [of "byte 0xc9" 2 i] 3 by (simp add: markers_def)
  next
    case 4
    then have "int_bytes i = byte 0xca # be 4 (to_uint 32 i)" by (auto simp: int_bytes_def)
    then show ?thesis using decodes_int_long [of "byte 0xca" 4 i] 4 by (simp add: markers_def)
  next
    case 5
    then have "int_bytes i = byte 0xcb # be 8 (to_uint 64 i)" by (auto simp: int_bytes_def)
    then show ?thesis using decodes_int_long [of "byte 0xcb" 8 i] assms by (simp add: markers_def)
  qed
qed


lemma Len_long:
  assumes "ahead u (be n x)" "mk_numlenbytes (up_mrk u) = n" "n = 1 \<or> n = 2 \<or> n = 4" "x < 256 ^ n"
  shows "Unpacker_Len u = (x, u\<lparr>up_off := up_off u + n\<rparr>)"
proof -
  have "take n (drop (up_off u) (up_buf u)) = be n x" "\<not> up_off u + n > up_len u" using assms(1) by (simp_all add: ahead_def)
  then show ?thesis using assms(2-4) by (auto simp: Unpacker_Len_def Unpacker_ReadLen_def)
qed

lemma decodes_len_long:
  assumes "markers (of_char c) = long_marker t n" "n = 1 \<or> n = 2 \<or> n = 4" "x < 256 ^ n"
  shows "decodes (c # be n x) t Unpacker_Len x"
  using assms Len_long by (intro decodes_long) (simp_all add: long_marker_def)

text \<open>The headers of strings, lists and maps.\<close>

definition header :: "nat \<Rightarrow> nat \<Rightarrow> PackType \<Rightarrow> bool" where
  "header short long t \<longleftrightarrow>
     short = 0x80 \<and> long = 0xd0 \<and> t = TString \<or> short = 0x90 \<and> long = 0xd4 \<and> t = TList \<or>
     short = 0xa0 \<and> long = 0xd8 \<and> t = TDictionary"

lemma header_markers:
  assumes "header short long t"
  shows "n < 0x10 \<Longrightarrow> markers (of_char (byte (short + n))) = short_marker t (int n)"
    "markers (of_char (byte long)) = long_marker t 1" "markers (of_char (byte (long + 1))) = long_marker t 2"
    "markers (of_char (byte (long + 2))) = long_marker t 4"
proof -
  show "n < 0x10 \<Longrightarrow> markers (of_char (byte (short + n))) = short_marker t (int n)"
    using assms unfolding header_def by (elim disjE conjE) (simp_all add: markers_def)
  show "markers (of_char (byte long)) = long_marker t 1" "markers (of_char (byte (long + 1))) = long_marker t 2"
    "markers (of_char (byte (long + 2))) = long_marker t 4"
    using assms unfolding header_def by (elim disjE conjE; simp add: markers_def)+
qed

lemma decodes_len:
  assumes "header short long t" "n < 2 ^ 32"
  shows "decodes (len_bytes short long n) t Unpacker_Len n"
proof -
  note M = header_markers [OF assms(1)]
  consider "n < 0x10" | "\<not> n < 0x10" "n < 0x100" | "\<not> n < 0x100" "n < 0x10000" | "\<not> n < 0x10000" by argo
  then show ?thesis
  proof cases
    case 1
    have "decodes [byte (short + n)] t Unpacker_Len n"
      using 1 by (intro decodes_short [OF M(1) [OF 1]]) (simp add: Unpacker_Len_def)
    then show ?thesis unfolding len_bytes_def if_P [OF 1] .
  next
    case 2
    have "decodes (byte long # be 1 n) t Unpacker_Len n" by (rule decodes_len_long [OF M(2)]) (use 2 in simp_all)
    then show ?thesis unfolding len_bytes_def if_not_P [OF 2(1)] if_P [OF 2(2)] .
  next
    case 3
    then have "\<not> n < 0x10" by simp
    have "decodes (byte (long + 1) # be 2 n) t Unpacker_Len n" by (rule decodes_len_long [OF M(3)]) (use 3 in simp_all)
    then show ?thesis unfolding len_bytes_def if_not_P [OF \<open>\<not> n < 0x10\<close>] if_not_P [OF 3(1)] if_P [OF 3(2)] .
  next
    case 4
    then have "\<not> n < 0x10" "\<not> n < 0x100" by simp_all
    have "decodes (byte (long + 2) # be 4 n) t Unpacker_Len n" by (rule decodes_len_long [OF M(4)]) (use 4 assms(2) in simp_all)
    then show ?thesis
      unfolding len_bytes_def if_not_P [OF \<open>\<not> n < 0x10\<close>] if_not_P [OF \<open>\<not> n < 0x100\<close>] if_not_P [OF 4] .
  qed
qed

lemma decodes_string:
  assumes "length s < 2 ^ 32"
  shows "decodes (str_bytes s) TString Unpacker_String s"
proof (rule decodesI)
  fix u assume a: "ahead u (str_bytes s)" "up_err u = None"
  have "decodes (len_bytes 0x80 0xd0 (length s)) TString Unpacker_Len (length s)"
    using assms by (intro decodes_len) (simp_all add: header_def)
  then obtain v where v: "up_curr (Unpacker_Next u) = TString" "Unpacker_Len (Unpacker_Next u) = (length s, v)"
      "moved u (length (len_bytes 0x80 0xd0 (length s))) v" "ahead v s"
    using a by (auto simp: str_bytes_def elim!: decodesE)
  obtain w where "Unpacker_Read (length s) v = (s, w)" "moved v (length s) w" using Read_ahead [of v s "[]"] v(4) by auto
  then show "up_curr (Unpacker_Next u) = TString \<and>
      (\<exists>w. Unpacker_String (Unpacker_Next u) = (s, w) \<and> moved u (length (str_bytes s)) w)"
    using v moved_trans [OF v(3)] by (simp add: Unpacker_String_def str_bytes_def)
qed

lemma decodes_double:
  assumes "d < 2 ^ 64"
  shows "decodes (byte 0xc1 # be 8 d) TFloat Unpacker_Double d"
proof (rule decodes_long)
  fix u assume a: "ahead u (be 8 d)" "up_err u = None"
  have "take 8 (drop (up_off u) (up_buf u)) = be 8 d" "\<not> up_off u + 8 > up_len u" using a(1) by (simp_all add: ahead_def)
  then show "Unpacker_Double u = (d, u\<lparr>up_off := up_off u + length (be 8 d)\<rparr>)"
    using a(2) assms by (simp add: Unpacker_Double_def Unpacker_Read_def)
qed (simp add: markers_def)

text \<open>A structure: its size is in the marker, its tag in the byte behind it.\<close>

lemma struct_ahead:
  assumes "ahead u (byte (0xb0 + n) # byte tag # r)" "n < 0x10" "tag < 0x100" "up_err u = None"
  shows "up_curr (Unpacker_Next u) = TStructure"
    "\<exists>v. Unpacker_StructTag (Unpacker_Next u) = (tag, v) \<and> Unpacker_Len v = (n, v) \<and> moved u 2 v \<and> ahead v r \<and> up_err v = None"
proof -
  note N = ahead_Next [OF assms(1)]
  have m: "markers (of_char (byte (0xb0 + n))) = short_marker TStructure (int n)" using assms(2) by (simp add: markers_def)
  then show "up_curr (Unpacker_Next u) = TStructure" using N(3) by (simp add: short_marker_def)
  let ?u = "Unpacker_Next u" and ?v = "(Unpacker_Next u)\<lparr>up_off := up_off (Unpacker_Next u) + 1\<rparr>"
  have "up_off ?u < up_len ?u" "up_len ?u \<le> length (up_buf ?u)" using N(4) by (auto simp: ahead_def)
  moreover have "up_buf ?u ! up_off ?u = byte tag"
    using N(4) calculation by (simp add: ahead_def Cons_nth_drop_Suc [symmetric])
  ultimately have "Unpacker_StructTag ?u = (tag, ?v)" using assms(3) by (simp add: Unpacker_StructTag_def Unpacker_Pop_def)
  moreover have "Unpacker_Len ?v = (n, ?v)" using N(2) m assms(2) by (simp add: Unpacker_Len_def short_marker_def)
  moreover have mv: "moved u 2 ?v" using N(1) by (simp add: moved_def)
  moreover have "ahead ?v r" using ahead_rest [of u "[byte (0xb0 + n), byte tag]" r ?v] assms(1) mv by (simp add: numeral_2_eq_2)
  ultimately show "\<exists>v. Unpacker_StructTag ?u = (tag, v) \<and> Unpacker_Len v = (n, v) \<and> moved u 2 v \<and> ahead v r \<and> up_err v = None"
    using assms(4) N(1) by (simp add: moved_def)
qed

end
