(* ===== verification/PackMessage.thy ===== *)
theory PackMessage
  imports Pack
begin

text \<open>
  The message encoder \<open>PackStream\<close> of \<open>src/bolt/pack_stream.h\<close>: dynamically typed values,
  their encoding, and the chunks a message is sent in.

  A \<open>std::any\<close> is a value of the datatype \<open>any\<close>, one constructor per type that the Bolt
  code stores in one (\<open>src/bolt/graph.h\<close>, \<open>path.h\<close>, \<open>temporal.h\<close>, \<open>spatial.h\<close>). An
  \<open>unordered_map\<close> is the list of its pairs in iteration order, which the code does not
  determine; a \<open>float\<close> is the pattern of the \<open>double\<close> it converts to. The packer of a
  \<open>PackStream\<close> writes into the buffer of its chunker, so there is one buffer.
\<close>

section \<open>Values\<close>

datatype any =
    ANone
  | ABool bool
  | AInt8 int
  | AInt16 int
  | AInt32 int
  | AInt64 int
  | AFloat nat
  | ADouble nat
  | AString string
  | ACString string
  | AStrings "string list"
  | AInt64s "int list"
  | ADoubles "nat list"
  | ABools "bool list"
  | ANode node
  | ARelationship relationship
  | AInternalPath "node list" "relnode list" "int list"
  | AMap "(string \<times> any) list"
  | AList "any list"
  | ADate int
  | ALocalDateTime int int
  | ADateTime int int int
  | ADateTimeZoneId int int string
  | ALegacyDateTime int int int
  | ALegacyDateTimeZoneId int int string
  | ALocalTime int
  | ATime int int
  | ADuration int int int int
  | APoint2D nat nat nat
  | APoint3D nat nat nat nat
  | AByteArray string
and node = Node (nd_id: int) (nd_elementId: string) (nd_labels: "string list") (nd_props: "(string \<times> any) list")
and relationship =
  Relationship (rl_id: int) (rl_elementId: string) (rl_startId: int) (rl_startElementId: string)
    (rl_endId: int) (rl_endElementId: string) (rl_type: string) (rl_props: "(string \<times> any) list")
and relnode = RelNode (rn_id: int) (rn_elementId: string) (rn_name: string) (rn_props: "(string \<times> any) list")

section \<open>Encoding\<close>

definition tag :: "char \<Rightarrow> nat" where
  "tag c = of_char c"

definition PackDate :: "int \<Rightarrow> Packer \<Rightarrow> Packer" where
  "PackDate days p = Packer_Int64 days (Packer_StructHeader (tag CHR ''D'') 1 p)"

definition PackLocalDateTime :: "int \<Rightarrow> int \<Rightarrow> Packer \<Rightarrow> Packer" where
  "PackLocalDateTime seconds nanoseconds p =
     Packer_Int64 nanoseconds (Packer_Int64 seconds (Packer_StructHeader (tag CHR ''d'') 2 p))"

text \<open>The subtraction is on \<open>int64_t\<close>: leaving its range is undefined.\<close>

definition PackDateTime :: "int \<Rightarrow> int \<Rightarrow> int \<Rightarrow> Packer \<Rightarrow> Packer res" where
  "PackDateTime seconds nanoseconds tz_offset_seconds p =
     (if int64 (seconds - tz_offset_seconds)
      then Inr (Packer_Int64 tz_offset_seconds (Packer_Int64 nanoseconds
             (Packer_Int64 (seconds - tz_offset_seconds) (Packer_StructHeader (tag CHR ''I'') 3 p))))
      else Inl (Undefined ''signed overflow''))"

definition PackDateTimeZoneId :: "int \<Rightarrow> int \<Rightarrow> string \<Rightarrow> Packer \<Rightarrow> Packer" where
  "PackDateTimeZoneId seconds nanoseconds tz_id p =
     Packer_String tz_id (Packer_Int64 nanoseconds (Packer_Int64 seconds (Packer_StructHeader (tag CHR ''i'') 3 p)))"

definition PackLocalTime :: "int \<Rightarrow> Packer \<Rightarrow> Packer" where
  "PackLocalTime nanoseconds p = Packer_Int64 nanoseconds (Packer_StructHeader (tag CHR ''t'') 1 p)"

definition PackTime :: "int \<Rightarrow> int \<Rightarrow> Packer \<Rightarrow> Packer" where
  "PackTime nanoseconds tz_offset_seconds p =
     Packer_Int64 tz_offset_seconds (Packer_Int64 nanoseconds (Packer_StructHeader (tag CHR ''T'') 2 p))"

definition PackDuration :: "int \<Rightarrow> int \<Rightarrow> int \<Rightarrow> int \<Rightarrow> Packer \<Rightarrow> Packer" where
  "PackDuration months days seconds nanos p =
     Packer_Int64 nanos (Packer_Int64 seconds (Packer_Int64 days (Packer_Int64 months
       (Packer_StructHeader (tag CHR ''E'') 4 p))))"

definition PackPoint2D :: "nat \<Rightarrow> nat \<Rightarrow> nat \<Rightarrow> Packer \<Rightarrow> Packer" where
  "PackPoint2D x y spatialRefId p =
     Packer_Double y (Packer_Double x (Packer_Int64 (int spatialRefId) (Packer_StructHeader (tag CHR ''X'') 3 p)))"

definition PackPoint3D :: "nat \<Rightarrow> nat \<Rightarrow> nat \<Rightarrow> nat \<Rightarrow> Packer \<Rightarrow> Packer" where
  "PackPoint3D x y z spatialRefId p =
     Packer_Double z (Packer_Double y (Packer_Double x (Packer_Int64 (int spatialRefId)
       (Packer_StructHeader (tag CHR ''Y'') 4 p))))"

text \<open>
  \<open>PackX\<close> with the containers it recurses through. A type it does not know ends the process
  (\<open>LOG_FATAL\<close>).
\<close>

fun PackX :: "any \<Rightarrow> Packer \<Rightarrow> Packer res"
and PackPairs :: "(string \<times> any) list \<Rightarrow> Packer \<Rightarrow> Packer res"
and PackItems :: "any list \<Rightarrow> Packer \<Rightarrow> Packer res"
and PackNode :: "node \<Rightarrow> Packer \<Rightarrow> Packer res"
and PackNodes :: "node list \<Rightarrow> Packer \<Rightarrow> Packer res"
and PackRelationship :: "relationship \<Rightarrow> Packer \<Rightarrow> Packer res"
and PackUnboundRelationship :: "relnode \<Rightarrow> Packer \<Rightarrow> Packer res"
and PackUnboundRelationships :: "relnode list \<Rightarrow> Packer \<Rightarrow> Packer res"
where
  "PackX ANone p = Inr (Packer_Null p)"
| "PackX (ABool b) p = Inr (Packer_Bool b p)"
| "PackX (AInt8 i) p = Inr (Packer_Int64 i p)"
| "PackX (AInt16 i) p = Inr (Packer_Int64 i p)"
| "PackX (AInt32 i) p = Inr (Packer_Int64 i p)"
| "PackX (AInt64 i) p = Inr (Packer_Int64 i p)"
| "PackX (AFloat d) p = Inr (Packer_Double d p)"
| "PackX (ADouble d) p = Inr (Packer_Double d p)"
| "PackX (AString s) p = Inr (Packer_String s p)"
| "PackX (ACString s) p = Inr (Packer_CString s p)"
| "PackX (AStrings ss) p = Inr (Packer_Strings ss p)"
| "PackX (AInt64s is) p = Inr (Packer_Int64s is p)"
| "PackX (ADoubles ds) p = Inr (Packer_Doubles ds p)"
| "PackX (ABools bs) p = Inr (Packer_Bools bs p)"
| "PackX (ANode n) p = PackNode n p"
| "PackX (ARelationship r) p = PackRelationship r p"
| "PackX (AInternalPath nodes rels indices) p =
     bindR (PackNodes nodes (Packer_List (length nodes) (Packer_StructHeader (tag CHR ''P'') 3 p))) (\<lambda>p1.
       bindR (PackUnboundRelationships rels (Packer_List (length rels) p1)) (\<lambda>p2.
         Inr (fold Packer_Int64 indices (Packer_List (length indices) p2))))"
| "PackX (AMap m) p = PackPairs m (Packer_Map (length m) p)"
| "PackX (AList xs) p = PackItems xs (Packer_List (length xs) p)"
| "PackX (ADate d) p = Inr (PackDate d p)"
| "PackX (ALocalDateTime s n) p = Inr (PackLocalDateTime s n p)"
| "PackX (ADateTime s n z) p = PackDateTime s n z p"
| "PackX (ADateTimeZoneId s n z) p = Inr (PackDateTimeZoneId s n z p)"
| "PackX (ALocalTime n) p = Inr (PackLocalTime n p)"
| "PackX (ATime n z) p = Inr (PackTime n z p)"
| "PackX (ADuration m d s n) p = Inr (PackDuration m d s n p)"
| "PackX (APoint2D x y srid) p = Inr (PackPoint2D x y srid p)"
| "PackX (APoint3D x y z srid) p = Inr (PackPoint3D x y z srid p)"
| "PackX (ALegacyDateTime s n z) p = Inl (Panic ''PackX meet unexpected type'')"
| "PackX (ALegacyDateTimeZoneId s n z) p = Inl (Panic ''PackX meet unexpected type'')"
| "PackX (AByteArray b) p = Inl (Panic ''PackX meet unexpected type'')"
| "PackPairs [] p = Inr p"
| "PackPairs ((k, v) # m) p = bindR (PackX v (Packer_String k p)) (PackPairs m)"
| "PackItems [] p = Inr p"
| "PackItems (x # xs) p = bindR (PackX x p) (PackItems xs)"
| "PackNode (Node i eid labels props) p =
     PackPairs props (Packer_Map (length props) (fold Packer_String labels (Packer_List (length labels)
       (Packer_Int64 i (Packer_StructHeader (tag CHR ''N'') 3 p)))))"
| "PackNodes [] p = Inr p"
| "PackNodes (n # ns) p = bindR (PackNode n p) (PackNodes ns)"
| "PackRelationship (Relationship i eid si sei ei eei t props) p =
     PackPairs props (Packer_Map (length props) (Packer_String t (Packer_Int64 ei (Packer_Int64 si
       (Packer_Int64 i (Packer_StructHeader (tag CHR ''R'') 5 p))))))"
| "PackUnboundRelationship (RelNode i eid name props) p =
     PackPairs props (Packer_Map (length props) (Packer_String name
       (Packer_Int64 i (Packer_StructHeader (tag CHR ''r'') 3 p))))"
| "PackUnboundRelationships [] p = Inr p"
| "PackUnboundRelationships (r # rs) p = bindR (PackUnboundRelationship r p) (PackUnboundRelationships rs)"

section \<open>Chunks\<close>

record PackStream =
  ps_packer :: Packer
  ps_offset :: int

definition PackStream_Reset :: PackStream where
  "PackStream_Reset = \<lparr>ps_packer = \<lparr>pk_buf = [], pk_err = None\<rparr>, ps_offset = 0\<rparr>"

text \<open>Room for the length of the first chunk; the position behind it is kept in an \<open>int\<close>.\<close>

definition PackStream_Begin :: "PackStream \<Rightarrow> PackStream" where
  "PackStream_Begin ps =
     (let buf = pk_buf (ps_packer ps) @ [byte 0, byte 0]
      in \<lparr>ps_packer = Packer_Begin buf, ps_offset = to_int32 (length buf)\<rparr>)"

definition put16 :: "string \<Rightarrow> nat \<Rightarrow> string \<Rightarrow> string" where
  "put16 buf i s = take i buf @ s @ drop (i + 2) buf"

text \<open>
  The loop of \<open>EndMessage\<close>: a full chunk gets its length and the two bytes for the length
  of the next one are inserted behind it.
\<close>

function chunk_loop :: "string \<Rightarrow> nat \<Rightarrow> nat \<Rightarrow> (string \<times> nat \<times> nat) res" where
  "chunk_loop buf off sz =
     (if sz > 0xffff
      then let buf1 = put16 buf (off - 2) [byte 0xff, byte 0xff];
               buf2 = take (off + 0xffff) buf1 @ [byte 0, byte 0] @ drop (off + 0xffff) buf1
           in if off + 0xffff + 2 < 2 ^ 31 then chunk_loop buf2 (off + 0xffff + 2) (sz - 0xffff)
              else Inl (Undefined ''signed overflow'')
      else Inr (buf, off, sz))"
  by pat_completeness auto
termination
  by (relation "measure (\<lambda>(buf, off, sz). sz)") auto

declare chunk_loop.simps [simp del]

definition Chunker_EndMessage :: "string \<Rightarrow> int \<Rightarrow> (string \<times> int) res" where
  "Chunker_EndMessage buf offset =
     (if offset < 2 then Inl (Undefined ''write before the buffer'')
      else bindR (chunk_loop buf (nat offset) (length buf - nat offset)) (\<lambda>(buf', off, sz).
        Inr (put16 buf' (off - 2) (be 2 sz) @ [byte 0, byte 0], int off)))"

definition PackStream_End :: "PackStream \<Rightarrow> PackStream res" where
  "PackStream_End ps =
     (case pk_err (ps_packer ps) of Some e \<Rightarrow> Inl (Panic (''packer meet error '' @ e))
      | None \<Rightarrow> bindR (Chunker_EndMessage (pk_buf (ps_packer ps)) (ps_offset ps)) (\<lambda>(buf, off).
          Inr \<lparr>ps_packer = (ps_packer ps)\<lparr>pk_buf := buf\<rparr>, ps_offset = off\<rparr>))"

section \<open>Messages\<close>

datatype BoltMsg =
    Msg_Reset | Msg_Run | Msg_DiscardN | Msg_PullN | Msg_Record | Msg_Success | Msg_Ignored | Msg_Failure
  | Msg_Hello | Msg_Logon | Msg_Logoff | Msg_Goodbye | Msg_Begin | Msg_Commit | Msg_Rollback | Msg_Route | Msg_Telemetry

fun BoltMsg_code :: "BoltMsg \<Rightarrow> nat" where
  "BoltMsg_code Msg_Reset = 0x0f"
| "BoltMsg_code Msg_Run = 0x10"
| "BoltMsg_code Msg_DiscardN = 0x2f"
| "BoltMsg_code Msg_PullN = 0x3f"
| "BoltMsg_code Msg_Record = 0x71"
| "BoltMsg_code Msg_Success = 0x70"
| "BoltMsg_code Msg_Ignored = 0x7e"
| "BoltMsg_code Msg_Failure = 0x7f"
| "BoltMsg_code Msg_Hello = 0x01"
| "BoltMsg_code Msg_Logon = 0x6a"
| "BoltMsg_code Msg_Logoff = 0x6b"
| "BoltMsg_code Msg_Goodbye = 0x02"
| "BoltMsg_code Msg_Begin = 0x11"
| "BoltMsg_code Msg_Commit = 0x12"
| "BoltMsg_code Msg_Rollback = 0x13"
| "BoltMsg_code Msg_Route = 0x66"
| "BoltMsg_code Msg_Telemetry = 0x54"

definition message :: "(Packer \<Rightarrow> Packer res) \<Rightarrow> PackStream \<Rightarrow> PackStream res" where
  "message f ps =
     (let ps1 = PackStream_Begin ps
      in bindR (f (ps_packer ps1)) (\<lambda>p. PackStream_End (ps1\<lparr>ps_packer := p\<rparr>)))"

definition AppendStructMessage :: "BoltMsg \<Rightarrow> (string \<times> any) list \<Rightarrow> PackStream \<Rightarrow> PackStream res" where
  "AppendStructMessage t meta = message (\<lambda>p. PackX (AMap meta) (Packer_StructHeader (BoltMsg_code t) 1 p))"

definition AppendEmptyMessage :: "BoltMsg \<Rightarrow> PackStream \<Rightarrow> PackStream res" where
  "AppendEmptyMessage t = message (\<lambda>p. Inr (Packer_StructHeader (BoltMsg_code t) 0 p))"

definition AppendHello :: "(string \<times> any) list \<Rightarrow> PackStream \<Rightarrow> PackStream res" where
  "AppendHello = AppendStructMessage Msg_Hello"

definition AppendSuccess :: "(string \<times> any) list \<Rightarrow> PackStream \<Rightarrow> PackStream res" where
  "AppendSuccess = AppendStructMessage Msg_Success"

definition AppendSuccessEmpty :: "PackStream \<Rightarrow> PackStream res" where
  "AppendSuccessEmpty = message (\<lambda>p. Inr (Packer_Map 0 (Packer_StructHeader (BoltMsg_code Msg_Success) 1 p)))"

definition AppendSuccessFields :: "string list \<Rightarrow> PackStream \<Rightarrow> PackStream res" where
  "AppendSuccessFields names = message (\<lambda>p. Inr (Packer_Strings names (Packer_CString ''fields'' (Packer_Map 1
     (Packer_StructHeader (BoltMsg_code Msg_Success) 1 p)))))"

definition AppendSuccessHasMore :: "bool \<Rightarrow> PackStream \<Rightarrow> PackStream res" where
  "AppendSuccessHasMore has_more = message (\<lambda>p. Inr (Packer_Bool has_more (Packer_CString ''has_more'' (Packer_Map 1
     (Packer_StructHeader (BoltMsg_code Msg_Success) 1 p)))))"

definition AppendIgnored :: "PackStream \<Rightarrow> PackStream res" where
  "AppendIgnored = AppendEmptyMessage Msg_Ignored"

definition AppendReset :: "PackStream \<Rightarrow> PackStream res" where
  "AppendReset = AppendEmptyMessage Msg_Reset"

definition AppendFailure :: "(string \<times> any) list \<Rightarrow> PackStream \<Rightarrow> PackStream res" where
  "AppendFailure = AppendStructMessage Msg_Failure"

definition AppendRun :: "string \<Rightarrow> (string \<times> any) list \<Rightarrow> (string \<times> any) list \<Rightarrow> PackStream \<Rightarrow> PackStream res" where
  "AppendRun cypher params meta = message (\<lambda>p.
     bindR (PackX (AMap params) (Packer_String cypher (Packer_StructHeader (BoltMsg_code Msg_Run) 3 p))) (PackX (AMap meta)))"

definition AppendCount :: "BoltMsg \<Rightarrow> int \<Rightarrow> PackStream \<Rightarrow> PackStream res" where
  "AppendCount t n = message (\<lambda>p. Inr (Packer_Int64 n (Packer_CString ''n'' (Packer_Map 1
     (Packer_StructHeader (BoltMsg_code t) 1 p)))))"

definition AppendPullN :: "int \<Rightarrow> PackStream \<Rightarrow> PackStream res" where
  "AppendPullN = AppendCount Msg_PullN"

definition AppendDiscardN :: "int \<Rightarrow> PackStream \<Rightarrow> PackStream res" where
  "AppendDiscardN = AppendCount Msg_DiscardN"

definition AppendRecord :: "any list \<Rightarrow> PackStream \<Rightarrow> PackStream res" where
  "AppendRecord row = message (\<lambda>p. PackX (AList row) (Packer_StructHeader (BoltMsg_code Msg_Record) 1 p))"

definition AppendRecords :: "any list list \<Rightarrow> PackStream \<Rightarrow> PackStream res" where
  "AppendRecords = foldR AppendRecord"

section \<open>What a message is sent as\<close>

fun chunked :: "string \<Rightarrow> string" where
  "chunked s =
     (if length s > 0xffff then [byte 0xff, byte 0xff] @ take 0xffff s @ chunked (drop 0xffff s)
      else be 2 (length s) @ s @ [byte 0, byte 0])"

declare chunked.simps [simp del]

lemma chunk_loop_chunked:
  assumes "2 \<le> length pre" "length (chunked msg) + length pre < 2 ^ 31"
  shows "returns (chunk_loop (pre @ msg) (length pre) (length msg)) (\<lambda>(buf, off, sz).
     sz \<le> 0xffff \<and> put16 buf (off - 2) (be 2 sz) @ [byte 0, byte 0] = take (length pre - 2) pre @ chunked msg)"
  using assms
proof (induction msg arbitrary: pre rule: chunked.induct)
  case (1 s)
  show ?case
  proof (cases "length s > 0xffff")
    case False
    then show ?thesis
      using "1.prems"(1) by (simp add: chunk_loop.simps [of _ _ "length s"] put16_def chunked.simps [of s])
  next
    case True
    let ?pre = "take (length pre - 2) pre @ [byte 0xff, byte 0xff] @ take 0xffff s @ [byte 0, byte 0]"
    have c: "chunked s = [byte 0xff, byte 0xff] @ take 0xffff s @ chunked (drop 0xffff s)"
      using True by (simp add: chunked.simps [of s])
    have b: "length pre + 0xffff + 2 = length ?pre" using True "1.prems"(1) by simp
    have eq: "(let buf1 = put16 (pre @ s) (length pre - 2) [byte 0xff, byte 0xff]
        in take (length pre + 0xffff) buf1 @ [byte 0, byte 0] @ drop (length pre + 0xffff) buf1) = ?pre @ drop 0xffff s"
      using True "1.prems"(1) by (simp add: put16_def Let_def)
    have "2 \<le> length (chunked (drop 0xffff s))" by (subst chunked.simps) simp
    then have lim: "length pre + 0xffff + 2 < 2 ^ 31" "length (chunked (drop 0xffff s)) + length ?pre < 2 ^ 31"
      using "1.prems" c True by auto
    have "chunk_loop (pre @ s) (length pre) (length s) = chunk_loop (?pre @ drop 0xffff s) (length ?pre) (length (drop 0xffff s))"
      using True lim(1) eq b by (subst chunk_loop.simps) (simp add: Let_def)
    moreover have "take (length ?pre - 2) ?pre @ chunked (drop 0xffff s) = take (length pre - 2) pre @ chunked s"
      using c True by simp
    ultimately show ?thesis using "1.IH" [OF True, of ?pre] lim(2) by simp
  qed
qed


lemma message_chunked:
  assumes "\<And>p. f p = Inr (append_buf msg p)" "length (pk_buf (ps_packer ps)) + length (chunked msg) + 2 < 2 ^ 31"
  shows "returns (message f ps) (\<lambda>ps'. pk_buf (ps_packer ps') = pk_buf (ps_packer ps) @ chunked msg \<and> pk_err (ps_packer ps') = None)"
proof -
  let ?buf = "pk_buf (ps_packer ps)"
  let ?pre = "?buf @ [byte 0, byte 0]"
  have off: "to_int32 (length ?pre) = int (length ?pre)" using assms(2) by (intro to_int32_exact) simp
  have "length (chunked msg) + length ?pre < 2 ^ 31" using assms(2) by simp
  then obtain buf off sz where L: "chunk_loop (?pre @ msg) (length ?pre) (length msg) = Inr (buf, off, sz)"
      "put16 buf (off - 2) (be 2 sz) @ [byte 0, byte 0] = ?buf @ chunked msg"
    using chunk_loop_chunked [of ?pre msg] by (auto simp: returns_def)
  have "length (?pre @ msg) - nat (int (length ?pre)) = length msg" "\<not> int (length ?pre) < 2" by simp_all
  then have "Chunker_EndMessage (?pre @ msg) (int (length ?pre)) = Inr (?buf @ chunked msg, int off)"
    unfolding Chunker_EndMessage_def using L by (simp only: if_False nat_int bindR_Inr prod.case)
  then show ?thesis
    using assms(1) unfolding message_def PackStream_Begin_def Let_def off
    by (simp add: PackStream_End_def Packer_Begin_def append_buf_def)
qed

end
