(* ===== verification/Hydrate.thy ===== *)
theory Hydrate
  imports PackMessage
begin

text \<open>
  The server's decoder of PackStream values, \<open>ServerHydrator\<close> of \<open>src/bolt/hydrator.cc\<close>.
  It reads the value whose marker \<open>Next\<close> has just fetched. Malformed structures raise a
  \<open>BoltDataError\<close>; reading past the end only sets the error of the \<open>Unpacker\<close> and goes on
  with zero bytes, so the caller has to look at it. The recursion is bounded by fuel, and
  the number of bytes that are left is shown to be fuel enough.
\<close>

section \<open>Structures\<close>

definition BoltDataError :: string where
  "BoltDataError = ''BoltDataError''"

definition RequireServerStructureLength :: "nat \<Rightarrow> nat \<Rightarrow> nat \<Rightarrow> unit res" where
  "RequireServerStructureLength t actual expected =
     (if actual \<noteq> expected
      then Inl (Thrown BoltDataError (''PackStream structure '' @ [byte t] @ '' expected '' @ show_nat expected @
             '' fields, got '' @ show_nat actual))
      else Inr ())"

definition NextServerField :: "PackType \<Rightarrow> nat \<Rightarrow> nat \<Rightarrow> Unpacker \<Rightarrow> Unpacker res" where
  "NextServerField expected t field u =
     (let u' = Unpacker_Next u in
      if up_curr u' \<noteq> expected
      then Inl (Thrown BoltDataError (''PackStream structure '' @ [byte t] @ '' field '' @ show_nat field @
             '' has an invalid type''))
      else Inr u')"

definition ReadServerInteger :: "nat \<Rightarrow> nat \<Rightarrow> Unpacker \<Rightarrow> (int \<times> Unpacker) res" where
  "ReadServerInteger t field u = bindR (NextServerField TInteger t field u) (\<lambda>u'. Inr (Unpacker_Int u'))"

definition ReadServerFloat :: "nat \<Rightarrow> nat \<Rightarrow> Unpacker \<Rightarrow> (nat \<times> Unpacker) res" where
  "ReadServerFloat t field u = bindR (NextServerField TFloat t field u) (\<lambda>u'. Inr (Unpacker_Double u'))"

definition ReadServerString :: "nat \<Rightarrow> nat \<Rightarrow> Unpacker \<Rightarrow> (string \<times> Unpacker) res" where
  "ReadServerString t field u = bindR (NextServerField TString t field u) (\<lambda>u'. Inr (Unpacker_String u'))"

definition ReadServerSpatialRefId :: "nat \<Rightarrow> Unpacker \<Rightarrow> (nat \<times> Unpacker) res" where
  "ReadServerSpatialRefId t u =
     bindR (ReadServerInteger t 0 u) (\<lambda>(srid, u').
       if srid < 0 \<or> srid > 2 ^ 32 - 1 then Inl (Thrown BoltDataError ''PackStream point SRID is out of range'')
       else Inr (nat srid, u'))"

text \<open>\<open>n\<close> integer fields, as the braced initialisers of the structures read them.\<close>

fun ReadServerIntegers :: "nat \<Rightarrow> nat \<Rightarrow> nat \<Rightarrow> Unpacker \<Rightarrow> (int list \<times> Unpacker) res" where
  "ReadServerIntegers t field 0 u = Inr ([], u)"
| "ReadServerIntegers t field (Suc n) u =
     bindR (ReadServerInteger t field u) (\<lambda>(i, u1).
       bindR (ReadServerIntegers t (Suc field) n u1) (\<lambda>(is, u2). Inr (i # is, u2)))"

definition HydrateServerStructure :: "Unpacker \<Rightarrow> (any \<times> Unpacker) res" where
  "HydrateServerStructure u =
     (let (t, u1) = Unpacker_StructTag u; (fields, u2) = Unpacker_Len u1;
          need = RequireServerStructureLength t fields
      in if t = tag CHR ''X'' then
           bindR (need 3) (\<lambda>_. bindR (ReadServerSpatialRefId t u2) (\<lambda>(srid, u3).
             bindR (ReadServerFloat t 1 u3) (\<lambda>(x, u4). bindR (ReadServerFloat t 2 u4) (\<lambda>(y, u5).
               Inr (APoint2D x y srid, u5)))))
         else if t = tag CHR ''Y'' then
           bindR (need 4) (\<lambda>_. bindR (ReadServerSpatialRefId t u2) (\<lambda>(srid, u3).
             bindR (ReadServerFloat t 1 u3) (\<lambda>(x, u4). bindR (ReadServerFloat t 2 u4) (\<lambda>(y, u5).
               bindR (ReadServerFloat t 3 u5) (\<lambda>(z, u6). Inr (APoint3D x y z srid, u6))))))
         else if t = tag CHR ''F'' then
           bindR (need 3) (\<lambda>_. bindR (ReadServerIntegers t 0 3 u2) (\<lambda>(is, u3).
             Inr (ALegacyDateTime (is ! 0) (is ! 1) (is ! 2), u3)))
         else if t = tag CHR ''I'' then
           bindR (need 3) (\<lambda>_. bindR (ReadServerIntegers t 0 3 u2) (\<lambda>(is, u3).
             Inr (ADateTime (is ! 0) (is ! 1) (is ! 2), u3)))
         else if t = tag CHR ''f'' then
           bindR (need 3) (\<lambda>_. bindR (ReadServerIntegers t 0 2 u2) (\<lambda>(is, u3).
             bindR (ReadServerString t 2 u3) (\<lambda>(z, u4). Inr (ALegacyDateTimeZoneId (is ! 0) (is ! 1) z, u4))))
         else if t = tag CHR ''i'' then
           bindR (need 3) (\<lambda>_. bindR (ReadServerIntegers t 0 2 u2) (\<lambda>(is, u3).
             bindR (ReadServerString t 2 u3) (\<lambda>(z, u4). Inr (ADateTimeZoneId (is ! 0) (is ! 1) z, u4))))
         else if t = tag CHR ''d'' then
           bindR (need 2) (\<lambda>_. bindR (ReadServerIntegers t 0 2 u2) (\<lambda>(is, u3).
             Inr (ALocalDateTime (is ! 0) (is ! 1), u3)))
         else if t = tag CHR ''D'' then
           bindR (need 1) (\<lambda>_. bindR (ReadServerIntegers t 0 1 u2) (\<lambda>(is, u3). Inr (ADate (is ! 0), u3)))
         else if t = tag CHR ''T'' then
           bindR (need 2) (\<lambda>_. bindR (ReadServerIntegers t 0 2 u2) (\<lambda>(is, u3). Inr (ATime (is ! 0) (is ! 1), u3)))
         else if t = tag CHR ''t'' then
           bindR (need 1) (\<lambda>_. bindR (ReadServerIntegers t 0 1 u2) (\<lambda>(is, u3). Inr (ALocalTime (is ! 0), u3)))
         else if t = tag CHR ''E'' then
           bindR (need 4) (\<lambda>_. bindR (ReadServerIntegers t 0 4 u2) (\<lambda>(is, u3).
             Inr (ADuration (is ! 0) (is ! 1) (is ! 2) (is ! 3), u3)))
         else Inl (Thrown BoltDataError (''Unsupported PackStream structure parameter tag: '' @ [byte t])))"

section \<open>Values\<close>

text \<open>\<open>m[key] = v\<close> on the pairs of a map: a key that is there keeps its place.\<close>

fun map_put :: "string \<Rightarrow> 'a \<Rightarrow> (string \<times> 'a) list \<Rightarrow> (string \<times> 'a) list" where
  "map_put k v [] = [(k, v)]"
| "map_put k v ((k', v') # m) = (if k' = k then (k, v) # m else (k', v') # map_put k v m)"

fun ServerHydrator :: "nat \<Rightarrow> Unpacker \<Rightarrow> (any \<times> Unpacker) res"
and hydrate_items :: "nat \<Rightarrow> nat \<Rightarrow> Unpacker \<Rightarrow> (any list \<times> Unpacker) res"
and hydrate_pairs :: "nat \<Rightarrow> nat \<Rightarrow> (string \<times> any) list \<Rightarrow> Unpacker \<Rightarrow> ((string \<times> any) list \<times> Unpacker) res"
where
  "ServerHydrator 0 u = Inl NoFuel"
| "ServerHydrator (Suc f) u =
     (case up_curr u of
        TInteger \<Rightarrow> (let (i, u') = Unpacker_Int u in Inr (AInt64 i, u'))
      | TFloat \<Rightarrow> (let (d, u') = Unpacker_Double u in Inr (ADouble d, u'))
      | TString \<Rightarrow> (let (s, u') = Unpacker_String u in Inr (AString s, u'))
      | TStructure \<Rightarrow> HydrateServerStructure u
      | TBytes \<Rightarrow> (let (s, u') = Unpacker_ByteArray u in Inr (AByteArray s, u'))
      | TList \<Rightarrow> (let (n, u') = Unpacker_Len u in bindR (hydrate_items f n u') (\<lambda>(xs, u''). Inr (AList xs, u'')))
      | TDictionary \<Rightarrow>
          (let (n, u') = Unpacker_Len u in bindR (hydrate_pairs f n [] u') (\<lambda>(m, u''). Inr (AMap m, u'')))
      | TNull \<Rightarrow> Inr (ANone, u)
      | TTrue \<Rightarrow> Inr (ABool True, u)
      | TFalse \<Rightarrow> Inr (ABool False, u)
      | TUndef \<Rightarrow> Inl (Thrown BoltDataError (''Unsupported type to unpack: '' @ show_nat (PackType_code TUndef))))"
| "hydrate_items f 0 u = Inr ([], u)"
| "hydrate_items f (Suc n) u =
     bindR (ServerHydrator f (Unpacker_Next u)) (\<lambda>(x, u1).
       bindR (hydrate_items f n u1) (\<lambda>(xs, u2). Inr (x # xs, u2)))"
| "hydrate_pairs f 0 m u = Inr (m, u)"
| "hydrate_pairs f (Suc n) m u =
     (let (key, u1) = Unpacker_String (Unpacker_Next u)
      in bindR (ServerHydrator f (Unpacker_Next u1)) (\<lambda>(x, u2). hydrate_pairs f n (map_put key x m) u2))"

section \<open>The fuel suffices\<close>

text \<open>\<open>later u v\<close>: \<open>v\<close> reads the same buffer from the same place or a later one, which is not past its end.\<close>

definition later :: "Unpacker \<Rightarrow> Unpacker \<Rightarrow> bool" where
  "later u v \<longleftrightarrow> up_buf v = up_buf u \<and> up_len v = up_len u \<and> up_off u \<le> up_off v \<and>
     (up_off u \<le> up_len u \<longrightarrow> up_off v \<le> up_len v)"

definition bytes_left :: "Unpacker \<Rightarrow> nat" where
  "bytes_left u = up_len u - up_off u"

lemma later_refl [simp]: "later u u"
  by (simp add: later_def)

lemma later_trans: "later u v \<Longrightarrow> later v w \<Longrightarrow> later u w"
  by (auto simp: later_def)

lemma later_left: "later u v \<Longrightarrow> bytes_left v \<le> bytes_left u"
  by (auto simp: later_def bytes_left_def)

lemma SetErr_fields [simp]:
  "up_len (Unpacker_SetErr e u) = up_len u" "up_off (Unpacker_SetErr e u) = up_off u" "up_buf (Unpacker_SetErr e u) = up_buf u"
  by (simp_all add: Unpacker_SetErr_def split: option.split)

named_theorems reading

lemma later_ops [reading]:
  "later u (snd (Unpacker_Pop u))" "later u (Unpacker_Next u)" "later u (snd (Unpacker_Read n u))"
  "later u (snd (Unpacker_Len u))" "later u (snd (Unpacker_Int u))" "later u (snd (Unpacker_StructTag u))"
  by (auto simp: later_def Unpacker_Pop_def Unpacker_Next_def Unpacker_Read_def Unpacker_Len_def Unpacker_ReadLen_def
      Unpacker_Int_def Unpacker_StructTag_def Let_def)

lemma later_composed [reading]:
  "later u (snd (Unpacker_Double u))" "later u (snd (Unpacker_String u))" "later u (snd (Unpacker_ByteArray u))"
proof -
  show "later u (snd (Unpacker_Double u))"
    using later_ops(3) [of u 8] by (auto simp: Unpacker_Double_def split: prod.split)
  show "later u (snd (Unpacker_String u))" "later u (snd (Unpacker_ByteArray u))"
    using later_trans [OF later_ops(4) later_ops(3)]
    by (auto simp: Unpacker_String_def Unpacker_ByteArray_def split: prod.split) (metis snd_conv)+
qed

lemma left_Next: "bytes_left u = 0 \<Longrightarrow> up_curr (Unpacker_Next u) = TInteger"
  "0 < bytes_left u \<Longrightarrow> bytes_left (Unpacker_Next u) = bytes_left u - 1"
  by (auto simp: bytes_left_def Unpacker_Next_def Unpacker_Pop_def markers_def short_marker_def)

text \<open>A step that does not run out of fuel and does not go back.\<close>

definition forward :: "Unpacker \<Rightarrow> ('a \<times> Unpacker) res \<Rightarrow> bool" where
  "forward u m \<longleftrightarrow> (case m of Inl e \<Rightarrow> e \<noteq> NoFuel | Inr (x, v) \<Rightarrow> later u v)"

lemma forward_Inr [simp]: "forward u (Inr (x, v)) \<longleftrightarrow> later u v"
  by (simp add: forward_def)

lemma forward_Inl [simp]: "forward u (Inl e) \<longleftrightarrow> e \<noteq> NoFuel"
  by (simp add: forward_def)

lemma forward_pair: "later u (snd p) \<Longrightarrow> forward u (Inr p)"
  by (cases p) simp

lemma forward_bind:
  "forward u m \<Longrightarrow> (\<And>x v. later u v \<Longrightarrow> forward v (f (x, v))) \<Longrightarrow> forward u (bindR m f)"
proof (cases m)
  case (Inr p)
  assume m: "forward u m" and f: "\<And>x v. later u v \<Longrightarrow> forward v (f (x, v))"
  obtain x v where p: "p = (x, v)" by (cases p)
  then have v: "later u v" using m Inr by simp
  then show ?thesis
    using f [OF v, of x] Inr p later_trans [OF v] by (auto simp: forward_def split: sum.splits)
qed simp

lemma forward_later: "later u v \<Longrightarrow> forward v m \<Longrightarrow> forward u m"
  by (auto simp: forward_def split: sum.splits intro: later_trans)

lemma forward_bind2:
  "forward u m \<Longrightarrow> (\<And>x v. forward v (g x v)) \<Longrightarrow> forward u (bindR m (\<lambda>(x, v). g x v))"
  by (rule forward_bind) simp_all

lemma forward_return: "forward v (Inr (x, v))" and forward_throw: "forward v (Inl (Thrown c s))"
  by simp_all

lemma forward_if: "(b \<Longrightarrow> forward u m) \<Longrightarrow> (\<not> b \<Longrightarrow> forward u m') \<Longrightarrow> forward u (if b then m else m')"
  by simp

lemma forward_need: "forward u (m ()) \<Longrightarrow> forward u (bindR (RequireServerStructureLength t a e) m)"
  by (simp add: RequireServerStructureLength_def)

lemma forward_fields:
  "forward u (ReadServerInteger t k u)" "forward u (ReadServerFloat t k u)" "forward u (ReadServerString t k u)"
proof -
  have n: "forward u (bindR (NextServerField ty t k u) (\<lambda>v. Inr (g v)))" if "\<And>v. later v (snd (g v))"
    for ty and g :: "Unpacker \<Rightarrow> 'b \<times> Unpacker"
    using forward_pair [OF later_trans [OF later_ops(2) that]] by (auto simp: NextServerField_def Let_def)
  show "forward u (ReadServerInteger t k u)" unfolding ReadServerInteger_def by (rule n) (rule reading)
  show "forward u (ReadServerFloat t k u)" unfolding ReadServerFloat_def by (rule n) (rule reading)
  show "forward u (ReadServerString t k u)" unfolding ReadServerString_def by (rule n) (rule reading)
qed

lemma forward_srid: "forward u (ReadServerSpatialRefId t u)"
  unfolding ReadServerSpatialRefId_def by (rule forward_bind [OF forward_fields(1)]) simp

lemma forward_integers: "forward u (ReadServerIntegers t k n u)"
proof (induction n arbitrary: k u)
  case (Suc n)
  show ?case
    unfolding ReadServerIntegers.simps
    by (rule forward_bind [OF forward_fields(1)], simp, rule forward_bind [OF Suc.IH], simp)
qed simp

lemma forward_structure: "forward u (HydrateServerStructure u)"
proof -
  obtain t u1 n u2 where t: "Unpacker_StructTag u = (t, u1)" and n: "Unpacker_Len u1 = (n, u2)" by fastforce
  have l: "later u u2" using later_ops(6) [of u] later_ops(4) [of u1] later_trans t n by (metis snd_conv)
  note F = forward_if forward_need forward_bind2 forward_integers forward_fields forward_srid forward_return forward_throw
  show ?thesis
    unfolding HydrateServerStructure_def t n Let_def prod.case
    by (rule forward_later [OF l]) (intro F)
qed


lemma hydrate_forward:
  "bytes_left u + 2 \<le> f \<or> up_curr u = TInteger \<and> 1 \<le> f \<Longrightarrow> forward u (ServerHydrator f u)"
  "bytes_left u + 1 \<le> f \<Longrightarrow> forward u (hydrate_items f n u)"
  "bytes_left u + 1 \<le> f \<Longrightarrow> forward u (hydrate_pairs f n m u)"
proof (induction f u and f n u and f n m u rule: ServerHydrator_hydrate_items_hydrate_pairs.induct)
  case (2 f u)
  obtain n v where v: "Unpacker_Len u = (n, v)" by fastforce
  have l: "later u v" using later_ops(4) [of u] v by simp
  then have left: "up_curr u \<noteq> TInteger \<Longrightarrow> bytes_left v + 1 \<le> f" using "2.prems" later_left [OF l] by auto
  have items: "up_curr u = TList \<Longrightarrow> forward u (bindR (hydrate_items f n v) (\<lambda>(xs, w). Inr (AList xs, w)))"
    using "2.IH"(1) [OF _ v [symmetric] refl] left by (intro forward_later [OF l] forward_bind2) simp_all
  have pairs: "up_curr u = TDictionary \<Longrightarrow> forward u (bindR (hydrate_pairs f n [] v) (\<lambda>(m, w). Inr (AMap m, w)))"
    using "2.IH"(2) [OF _ v [symmetric] refl] left by (intro forward_later [OF l] forward_bind2) simp_all
  show ?case
  proof (cases "up_curr u")
    case TInteger
    then show ?thesis using later_ops(5) [of u] by (cases "Unpacker_Int u") simp
  next
    case TFloat
    then show ?thesis using later_composed(1) [of u] by (cases "Unpacker_Double u") simp
  next
    case TString
    then show ?thesis using later_composed(2) [of u] by (cases "Unpacker_String u") simp
  next
    case TBytes
    then show ?thesis using later_composed(3) [of u] by (cases "Unpacker_ByteArray u") simp
  qed (use items pairs v forward_structure [of u] in simp_all)
next
  case (4 f n u)
  have "forward (Unpacker_Next u) (ServerHydrator f (Unpacker_Next u))"
    using "4.IH"(1) "4.prems" left_Next [of u] by (cases "bytes_left u = 0") auto
  then have first: "forward u (ServerHydrator f (Unpacker_Next u))" by (rule forward_later [OF later_ops(2)])
  show ?case
  proof (cases "ServerHydrator f (Unpacker_Next u)")
    case (Inl e)
    then show ?thesis using first by simp
  next
    case (Inr p)
    then obtain x v where p: "ServerHydrator f (Unpacker_Next u) = Inr (x, v)" by (cases p) simp
    then have v: "later u v" using first by simp
    then have "forward v (hydrate_items f n v)" using "4.IH"(2) [OF p refl] "4.prems" later_left [OF v] by simp
    then show ?thesis using p by (simp add: forward_later [OF v] forward_bind2)
  qed
next
  case (6 f n m u)
  obtain key v where v: "Unpacker_String (Unpacker_Next u) = (key, v)" by fastforce
  have l: "later u v" using later_trans [OF later_ops(2) later_composed(2)] v by (metis snd_conv)
  then have left: "bytes_left v + 1 \<le> f" using "6.prems" later_left [OF l] by simp
  have "forward (Unpacker_Next v) (ServerHydrator f (Unpacker_Next v))"
    using "6.IH"(1) [OF v [symmetric] refl] left left_Next [of v] by (cases "bytes_left v = 0") auto
  then have first: "forward v (ServerHydrator f (Unpacker_Next v))" by (rule forward_later [OF later_ops(2)])
  show ?case
  proof (cases "ServerHydrator f (Unpacker_Next v)")
    case (Inl e)
    then show ?thesis using first v by simp
  next
    case (Inr p)
    then obtain x w where p: "ServerHydrator f (Unpacker_Next v) = Inr (x, w)" by (cases p) simp
    then have w: "later v w" using first by simp
    then have "forward w (hydrate_pairs f n (map_put key x m) w)"
      using "6.IH"(2) [OF v [symmetric] refl p refl] left later_left [OF w] by simp
    then show ?thesis using p v by (simp add: forward_later [OF later_trans [OF l w]])
  qed
qed (simp_all add: forward_def)


section \<open>More fuel changes nothing\<close>

lemma bindR_fuel: "bindR m f \<noteq> Inl NoFuel \<Longrightarrow> m \<noteq> Inl NoFuel"
  by auto

lemma hydrate_more_fuel:
  "ServerHydrator f u \<noteq> Inl NoFuel \<Longrightarrow> f \<le> g \<Longrightarrow> ServerHydrator g u = ServerHydrator f u"
  "hydrate_items f n u \<noteq> Inl NoFuel \<Longrightarrow> f \<le> g \<Longrightarrow> hydrate_items g n u = hydrate_items f n u"
  "hydrate_pairs f n m u \<noteq> Inl NoFuel \<Longrightarrow> f \<le> g \<Longrightarrow> hydrate_pairs g n m u = hydrate_pairs f n m u"
proof (induction f u and f n u and f n m u arbitrary: g and g and g rule: ServerHydrator_hydrate_items_hydrate_pairs.induct)
  case (2 f u)
  obtain h where g: "g = Suc h" "f \<le> h" using "2.prems"(2) by (cases g) auto
  obtain n v where v: "Unpacker_Len u = (n, v)" by fastforce
  have "hydrate_items h n v = hydrate_items f n v" if "up_curr u = TList"
    using "2.IH"(1) [OF that v [symmetric] refl _ g(2)] "2.prems"(1) that v by (auto dest: bindR_fuel)
  moreover have "hydrate_pairs h n [] v = hydrate_pairs f n [] v" if "up_curr u = TDictionary"
    using "2.IH"(2) [OF that v [symmetric] refl _ g(2)] "2.prems"(1) that v by (auto dest: bindR_fuel)
  ultimately show ?case unfolding g(1) using v by (simp split: PackType.split)
next
  case (4 f n u)
  have "ServerHydrator g (Unpacker_Next u) = ServerHydrator f (Unpacker_Next u)"
    using "4.IH"(1) [OF _ "4.prems"(2)] "4.prems"(1) by (auto dest: bindR_fuel)
  moreover have "hydrate_items g n v = hydrate_items f n v" if "ServerHydrator f (Unpacker_Next u) = Inr (x, v)" for x v
    using "4.IH"(2) [OF that refl _ "4.prems"(2)] "4.prems"(1) that by (auto dest: bindR_fuel)
  ultimately show ?case by (cases "ServerHydrator f (Unpacker_Next u)") auto
next
  case (6 f n m u)
  obtain key v where v: "Unpacker_String (Unpacker_Next u) = (key, v)" by fastforce
  have "ServerHydrator g (Unpacker_Next v) = ServerHydrator f (Unpacker_Next v)"
    using "6.IH"(1) [OF v [symmetric] refl _ "6.prems"(2)] "6.prems"(1) v by (auto dest: bindR_fuel)
  moreover have "hydrate_pairs g n (map_put key x m) w = hydrate_pairs f n (map_put key x m) w"
    if "ServerHydrator f (Unpacker_Next v) = Inr (x, w)" for x w
    using "6.IH"(2) [OF v [symmetric] refl that refl _ "6.prems"(2)] "6.prems"(1) that v by auto
  ultimately show ?case using v by (cases "ServerHydrator f (Unpacker_Next v)") auto
qed auto

text \<open>C26: The hydrator returns on every input, whatever the bytes: beyond the bytes that are left and two, more
  fuel does not change the outcome, which is a value or an error of the code, never the end of the fuel.\<close>

theorem hydrator_returns:
  assumes "bytes_left u + 2 \<le> f"
  shows "ServerHydrator f u = ServerHydrator (bytes_left u + 2) u \<and> ServerHydrator f u \<noteq> Inl NoFuel"
proof -
  have "ServerHydrator g u \<noteq> Inl NoFuel" if "bytes_left u + 2 \<le> g" for g
    using hydrate_forward(1) [of u g] that by (auto simp: forward_def)
  then show ?thesis using hydrate_more_fuel(1) [OF _ assms] assms by blast
qed


text \<open>C27: Whatever the bytes say, the hydrator reads nothing outside the message: it starts and ends inside the
  buffer and never goes back, also when a length field announces more bytes than there are.\<close>

theorem hydrator_in_bounds:
  assumes "up_off u \<le> up_len u" "up_len u \<le> length (up_buf u)" "bytes_left u + 2 \<le> f" "ServerHydrator f u = Inr (x, v)"
  shows "up_buf v = up_buf u \<and> up_off u \<le> up_off v \<and> up_off v \<le> up_len v \<and> up_len v \<le> length (up_buf v)"
  using hydrate_forward(1) [of u f] assms by (simp add: later_def)

theorem hydrator_in_bounds_witness:
  "let u = \<lparr>up_buf = [byte 0xd0, byte 0xff, byte 65], up_off = 1, up_len = 3, up_mrk = markers 0xd0,
            up_err = None, up_curr = TString\<rparr>;
       v = u\<lparr>up_off := 2, up_err := Some ''IO Error''\<rparr>
   in ServerHydrator 9 u = Inr (AString '''', v) \<and>
      up_buf v = up_buf u \<and> up_off u \<le> up_off v \<and> up_off v \<le> up_len v \<and> up_len v \<le> length (up_buf v)"
proof -
  let ?u = "\<lparr>up_buf = [byte 0xd0, byte 0xff, byte 65], up_off = 1, up_len = 3, up_mrk = markers 0xd0,
            up_err = None, up_curr = TString\<rparr>"
  have "ServerHydrator 9 ?u = Inr (AString '''', ?u\<lparr>up_off := 2, up_err := Some ''IO Error''\<rparr>)"
    by code_simp
  then show ?thesis
    using hydrator_in_bounds [of ?u 9 "AString ''''" "?u\<lparr>up_off := 2, up_err := Some ''IO Error''\<rparr>"]
    by (simp add: bytes_left_def Let_def del: ServerHydrator.simps)
qed

theorem hydrator_returns_witness:
  "let u = \<lparr>up_buf = [byte 0x92, byte 7], up_off = 1, up_len = 2, up_mrk = markers 0x92, up_err = None, up_curr = TList\<rparr> in
   bytes_left u + 2 \<le> 9 \<and> ServerHydrator 9 u = ServerHydrator (bytes_left u + 2) u \<and> ServerHydrator 9 u \<noteq> Inl NoFuel"
  unfolding Let_def by (rule conjI, simp add: bytes_left_def, rule hydrator_returns, simp add: bytes_left_def)

section \<open>Past the end of the buffer\<close>

text \<open>
  At the end of the buffer every read gives the integer 0 and an error that the loops of the hydrator do not look at.
\<close>

lemma hydrate_at_end:
  assumes "bytes_left u = 0"
  shows "ServerHydrator (Suc f) (Unpacker_Next u) = Inr (AInt64 0, Unpacker_Next u)"
    "bytes_left (Unpacker_Next u) = 0" "up_err (Unpacker_Next u) \<noteq> None"
  using assms by (auto simp: bytes_left_def Unpacker_Next_def Unpacker_Pop_def Unpacker_Int_def markers_def short_marker_def
      Unpacker_SetErr_def split: option.split)

lemma hydrate_items_at_end:
  "bytes_left u = 0 \<Longrightarrow> \<exists>v. hydrate_items (Suc f) n u = Inr (replicate n (AInt64 0), v) \<and> (0 < n \<longrightarrow> up_err v \<noteq> None)"
proof (induction n arbitrary: u)
  case (Suc n)
  obtain v where "hydrate_items (Suc f) n (Unpacker_Next u) = Inr (replicate n (AInt64 0), v)" "0 < n \<longrightarrow> up_err v \<noteq> None"
    using Suc.IH [OF hydrate_at_end(2) [OF Suc.prems]] by blast
  then show ?case using hydrate_at_end(1,3) [OF Suc.prems] by (cases n) (auto simp del: ServerHydrator.simps)
qed simp


text \<open>C28: A list header that announces items the message does not have is not refused where it is read: five bytes
  make the hydrator build a list of as many zeros as they say, up to \<open>2 ^ 32 - 1\<close>, and only the error left in the
  unpacker tells that they were not there.\<close>

theorem missing_items_are_zeros:
  assumes "0 < n" "n < 2 ^ 32"
  shows "\<exists>v. ServerHydrator 2 (Unpacker_Next (Unpacker_Reset (byte 0xd6 # be 4 n) u)) =
           Inr (AList (replicate n (AInt64 0)), v) \<and> up_err v \<noteq> None"
proof -
  let ?u = "Unpacker_Next (Unpacker_Reset (byte 0xd6 # be 4 n) u)"
  obtain v where v: "Unpacker_Len ?u = (n, v)" "bytes_left v = 0"
    using assms by (auto simp: Unpacker_Next_def Unpacker_Pop_def Unpacker_Reset_def markers_def long_marker_def Unpacker_Len_def
        Unpacker_ReadLen_def bytes_left_def)
  moreover have "up_curr ?u = TList"
    by (simp add: Unpacker_Next_def Unpacker_Pop_def Unpacker_Reset_def markers_def long_marker_def)
  ultimately show ?thesis
    using hydrate_items_at_end [of v 0 n] assms(1) by (auto simp: numeral_2_eq_2)
qed

theorem missing_items_are_zeros_witness:
  "\<exists>v. ServerHydrator 2 (Unpacker_Next (Unpacker_Reset (byte 0xd6 # be 4 4294967295)
          \<lparr>up_buf = [], up_off = 0, up_len = 0, up_mrk = markers 0, up_err = None, up_curr = TUndef\<rparr>)) =
        Inr (AList (replicate 4294967295 (AInt64 0)), v) \<and> up_err v \<noteq> None"
  by (rule missing_items_are_zeros) simp_all

end
