(* ===== verification/BoltRoundTrip.thy ===== *)
theory BoltRoundTrip
  imports Hydrate
begin

text \<open>
  What one side packs the other side unpacks: the reference encoding \<open>packed\<close> of the values
  that may be sent to the server, the encoder and the decoder related to it, and the round
  trip of values through both.
\<close>

section \<open>The reference encoding\<close>

definition struct_bytes :: "char \<Rightarrow> string list \<Rightarrow> string" where
  "struct_bytes c fs = byte (0xb0 + length fs) # c # concat fs"

definition list_bytes :: "string list \<Rightarrow> string" where
  "list_bytes items = len_bytes 0x90 0xd4 (length items) @ concat items"

definition dbl_bytes :: "nat \<Rightarrow> string" where
  "dbl_bytes d = byte 0xc1 # be 8 d"

fun packed :: "any \<Rightarrow> string" where
  "packed ANone = [byte 0xc0]"
| "packed (ABool b) = [byte (if b then 0xc3 else 0xc2)]"
| "packed (AInt8 i) = int_bytes i"
| "packed (AInt16 i) = int_bytes i"
| "packed (AInt32 i) = int_bytes i"
| "packed (AInt64 i) = int_bytes i"
| "packed (AFloat d) = dbl_bytes d"
| "packed (ADouble d) = dbl_bytes d"
| "packed (AString s) = str_bytes s"
| "packed (ACString s) = str_bytes (takeWhile (\<lambda>c. c \<noteq> byte 0) s)"
| "packed (AStrings ss) = list_bytes (map str_bytes ss)"
| "packed (AInt64s is) = list_bytes (map int_bytes is)"
| "packed (ADoubles ds) = list_bytes (map dbl_bytes ds)"
| "packed (ABools bs) = list_bytes (map (\<lambda>b. [byte (if b then 0xc3 else 0xc2)]) bs)"
| "packed (AMap m) = len_bytes 0xa0 0xd8 (length m) @ concat (map (\<lambda>(k, v). str_bytes k @ packed v) m)"
| "packed (AList xs) = list_bytes (map packed xs)"
| "packed (ADate d) = struct_bytes CHR ''D'' [int_bytes d]"
| "packed (ALocalDateTime s n) = struct_bytes CHR ''d'' [int_bytes s, int_bytes n]"
| "packed (ADateTime s n z) = struct_bytes CHR ''I'' [int_bytes (s - z), int_bytes n, int_bytes z]"
| "packed (ADateTimeZoneId s n z) = struct_bytes CHR ''i'' [int_bytes s, int_bytes n, str_bytes z]"
| "packed (ALocalTime n) = struct_bytes CHR ''t'' [int_bytes n]"
| "packed (ATime n z) = struct_bytes CHR ''T'' [int_bytes n, int_bytes z]"
| "packed (ADuration m d s n) = struct_bytes CHR ''E'' [int_bytes m, int_bytes d, int_bytes s, int_bytes n]"
| "packed (APoint2D x y srid) = struct_bytes CHR ''X'' [int_bytes (int srid), dbl_bytes x, dbl_bytes y]"
| "packed (APoint3D x y z srid) = struct_bytes CHR ''Y'' [int_bytes (int srid), dbl_bytes x, dbl_bytes y, dbl_bytes z]"
| "packed _ = []"

text \<open>The values that can be sent: every number in its range, every length below \<open>2 ^ 31\<close>.\<close>

fun wire :: "any \<Rightarrow> bool" where
  "wire ANone = True"
| "wire (ABool b) = True"
| "wire (AInt8 i) = int64 i"
| "wire (AInt16 i) = int64 i"
| "wire (AInt32 i) = int64 i"
| "wire (AInt64 i) = int64 i"
| "wire (AFloat d) = (d < 2 ^ 64)"
| "wire (ADouble d) = (d < 2 ^ 64)"
| "wire (AString s) = (length s < 2 ^ 31)"
| "wire (ACString s) = (length s < 2 ^ 31)"
| "wire (AStrings ss) = (length ss < 2 ^ 31 \<and> (\<forall>s \<in> set ss. length s < 2 ^ 31))"
| "wire (AInt64s is) = (length is < 2 ^ 31 \<and> (\<forall>i \<in> set is. int64 i))"
| "wire (ADoubles ds) = (length ds < 2 ^ 31 \<and> (\<forall>d \<in> set ds. d < 2 ^ 64))"
| "wire (ABools bs) = (length bs < 2 ^ 31)"
| "wire (AMap m) = (length m < 2 ^ 31 \<and> distinct (map fst m) \<and> (\<forall>(k, v) \<in> set m. length k < 2 ^ 31 \<and> wire v))"
| "wire (AList xs) = (length xs < 2 ^ 31 \<and> (\<forall>x \<in> set xs. wire x))"
| "wire (ADate d) = int64 d"
| "wire (ALocalDateTime s n) = (int64 s \<and> int64 n)"
| "wire (ADateTime s n z) = (int64 (s - z) \<and> int64 n \<and> int64 z)"
| "wire (ADateTimeZoneId s n z) = (int64 s \<and> int64 n \<and> length z < 2 ^ 31)"
| "wire (ALocalTime n) = int64 n"
| "wire (ATime n z) = (int64 n \<and> int64 z)"
| "wire (ADuration m d s n) = (int64 m \<and> int64 d \<and> int64 s \<and> int64 n)"
| "wire (APoint2D x y srid) = (x < 2 ^ 64 \<and> y < 2 ^ 64 \<and> srid < 2 ^ 32)"
| "wire (APoint3D x y z srid) = (x < 2 ^ 64 \<and> y < 2 ^ 64 \<and> z < 2 ^ 64 \<and> srid < 2 ^ 32)"
| "wire _ = False"

text \<open>
  What the receiver gets: one integer type, one floating-point type and one list type, and
  the seconds of a date-time in UTC.
\<close>

fun received :: "any \<Rightarrow> any" where
  "received (AInt8 i) = AInt64 i"
| "received (AInt16 i) = AInt64 i"
| "received (AInt32 i) = AInt64 i"
| "received (AFloat d) = ADouble d"
| "received (ACString s) = AString (takeWhile (\<lambda>c. c \<noteq> byte 0) s)"
| "received (AStrings ss) = AList (map AString ss)"
| "received (AInt64s is) = AList (map AInt64 is)"
| "received (ADoubles ds) = AList (map ADouble ds)"
| "received (ABools bs) = AList (map ABool bs)"
| "received (AMap m) = AMap (map (\<lambda>(k, v). (k, received v)) m)"
| "received (AList xs) = AList (map received xs)"
| "received (ADateTime s n z) = ADateTime (s - z) n z"
| "received x = x"

section \<open>The encoder writes it\<close>

lemma List_appends: "n < 2 ^ 31 \<Longrightarrow> Packer_List n p = append_buf (len_bytes 0x90 0xd4 n) p"
  unfolding Packer_List_def by (rule appendsD [OF ListHeader_appends])

lemma Map_appends: "n < 2 ^ 31 \<Longrightarrow> Packer_Map n p = append_buf (len_bytes 0xa0 0xd8 n) p"
  unfolding Packer_Map_def by (rule appendsD [OF ListHeader_appends])

lemma Bool_appends: "Packer_Bool b p = append_buf [byte (if b then 0xc3 else 0xc2)] p"
  by (simp add: Packer_Bool_def push_eq)

lemmas pack_defs = PackDate_def PackLocalDateTime_def PackDateTime_def PackDateTimeZoneId_def PackLocalTime_def PackTime_def
  PackDuration_def PackPoint2D_def PackPoint3D_def Packer_CString_def Packer_Null_def

lemmas pack_appends = appendsD [OF Int64_appends] appendsD [OF String_appends] appendsD [OF Double_appends]
  appendsD [OF StructHeader_appends] List_appends Map_appends Bool_appends push_eq

lemma fold_appends: "(\<And>x. x \<in> set xs \<Longrightarrow> appends (f x) (g x)) \<Longrightarrow> fold f xs p = append_buf (concat (map g xs)) p"
  by (rule appendsD [OF appends_fold])

lemma Strings_appends:
  "length ss < 2 ^ 31 \<Longrightarrow> \<forall>s \<in> set ss. length s < 2 ^ 31 \<Longrightarrow> Packer_Strings ss p = append_buf (list_bytes (map str_bytes ss)) p"
  "length is < 2 ^ 31 \<Longrightarrow> Packer_Int64s is p = append_buf (list_bytes (map int_bytes is)) p"
  "length ds < 2 ^ 31 \<Longrightarrow> Packer_Doubles ds p = append_buf (list_bytes (map dbl_bytes ds)) p"
  "length bs < 2 ^ 31 \<Longrightarrow> Packer_Bools bs p = append_buf (list_bytes (map (\<lambda>b. [byte (if b then 0xc3 else 0xc2)]) bs)) p"
  by (simp_all add: Packer_Strings_def Packer_Int64s_def Packer_Doubles_def Packer_Bools_def list_bytes_def List_appends
      fold_appends [where g = str_bytes] fold_appends [where g = int_bytes] fold_appends [where g = dbl_bytes]
      fold_appends [where g = "\<lambda>b. [byte (if b then 0xc3 else 0xc2)]"] String_appends Int64_appends Double_appends [folded dbl_bytes_def]
      appendsI Bool_appends)

lemma PackItems_packed:
  "(\<And>x p. x \<in> set xs \<Longrightarrow> PackX x p = Inr (append_buf (packed x) p)) \<Longrightarrow> PackItems xs p = Inr (append_buf (concat (map packed xs)) p)"
  by (induction xs arbitrary: p) simp_all

lemma PackPairs_packed:
  assumes "\<And>k v p. (k, v) \<in> set m \<Longrightarrow> length k < 2 ^ 31 \<and> PackX v p = Inr (append_buf (packed v) p)"
  shows "PackPairs m p = Inr (append_buf (concat (map (\<lambda>(k, v). str_bytes k @ packed v) m)) p)"
  using assms
proof (induction m arbitrary: p)
  case (Cons e m)
  obtain k v where e: "e = (k, v)" by (cases e)
  have "length k < 2 ^ 31" "\<And>p. PackX v p = Inr (append_buf (packed v) p)" using Cons.prems [of k v] e by simp_all
  moreover have "\<And>p. PackPairs m p = Inr (append_buf (concat (map (\<lambda>(k, v). str_bytes k @ packed v) m)) p)"
    by (rule Cons.IH) (rule Cons.prems, simp)
  ultimately show ?case by (simp add: e pack_appends)
qed simp

lemma tag_byte [simp]: "byte (tag c) = c"
  by (simp add: tag_def)

lemma PackX_packed: "wire x \<Longrightarrow> PackX x p = Inr (append_buf (packed x) p)"
proof (induction x arbitrary: p rule: packed.induct)
  case (10 s)
  have "length (takeWhile (\<lambda>c. c \<noteq> byte 0) s) < 2 ^ 31" using 10 length_takeWhile_le [of "\<lambda>c. c \<noteq> byte 0" s] by simp
  then show ?case by (simp add: pack_defs pack_appends)
next
  case (15 m)
  have "PackPairs m q = Inr (append_buf (concat (map (\<lambda>(k, v). str_bytes k @ packed v) m)) q)" for q
    using 15 by (intro PackPairs_packed) auto
  then show ?case using 15 by (simp add: pack_appends)
next
  case (16 xs)
  have "PackItems xs q = Inr (append_buf (concat (map packed xs)) q)" for q
    using 16 by (intro PackItems_packed) auto
  then show ?case using 16 by (simp add: pack_appends list_bytes_def)
qed (simp_all add: pack_defs pack_appends Strings_appends struct_bytes_def dbl_bytes_def)


section \<open>The decoder reads it\<close>

definition reads :: "string \<Rightarrow> (Unpacker \<Rightarrow> ('a \<times> Unpacker) res) \<Rightarrow> 'a \<Rightarrow> bool" where
  "reads s g x \<longleftrightarrow> (\<forall>u. ahead u s \<longrightarrow> up_err u = None \<longrightarrow> (\<exists>v. g u = Inr (x, v) \<and> moved u (length s) v))"

lemma readsI:
  "(\<And>u. ahead u s \<Longrightarrow> up_err u = None \<Longrightarrow> \<exists>v. g u = Inr (x, v) \<and> moved u (length s) v) \<Longrightarrow> reads s g x"
  by (simp add: reads_def)

lemma readsE:
  assumes "reads s g x" "ahead u (s @ r)" "up_err u = None"
  obtains v where "g u = Inr (x, v)" "moved u (length s) v" "ahead v r" "up_err v = None"
proof -
  obtain v where v: "g u = Inr (x, v)" "moved u (length s) v"
    using assms(1,3) ahead_split [OF assms(2)] unfolding reads_def by blast
  show ?thesis using that [OF v ahead_rest [OF assms(2) v(2)]] v(2) assms(3) by (simp add: moved_def)
qed

lemma reads_return: "reads [] (\<lambda>u. Inr (x, u)) x"
  by (rule readsI) (simp add: moved_def)

lemma reads_bind:
  assumes "reads s g x" "reads t (h x) y"
  shows "reads (s @ t) (\<lambda>u. bindR (g u) (\<lambda>(x, v). h x v)) y"
proof (rule readsI)
  fix u assume "ahead u (s @ t)" "up_err u = None"
  with assms(1) obtain v where v: "g u = Inr (x, v)" "moved u (length s) v" "ahead v t" "up_err v = None" by (rule readsE)
  obtain w where w: "h x v = Inr (y, w)" "moved v (length t) w" using assms(2) v(3,4) unfolding reads_def by blast
  show "\<exists>w. bindR (g u) (\<lambda>(x, v). h x v) = Inr (y, w) \<and> moved u (length (s @ t)) w"
    using v(1) w(1) moved_trans [OF v(2) w(2)] by simp
qed

lemma reads_bind_last: "reads s g x \<Longrightarrow> reads s (\<lambda>u. bindR (g u) (\<lambda>(x, v). Inr (h x, v))) (h x)"
  using reads_bind [of s g x "[]" "\<lambda>x v. Inr (h x, v)", OF _ reads_return] by simp

lemma reads_field:
  assumes "decodes s t f x"
  shows "reads s (\<lambda>u. bindR (NextServerField t tg k u) (\<lambda>v. Inr (f v))) x"
proof (rule readsI)
  fix u assume "ahead u s" "up_err u = None"
  then show "\<exists>v. bindR (NextServerField t tg k u) (\<lambda>v. Inr (f v)) = Inr (x, v) \<and> moved u (length s) v"
    using assms by (auto simp: decodes_def NextServerField_def Let_def)
qed

lemma reads_integer: "int64 i \<Longrightarrow> reads (int_bytes i) (ReadServerInteger t k) i"
  using reads_field [OF decodes_int, of i t k] unfolding ReadServerInteger_def .

lemma reads_float: "d < 2 ^ 64 \<Longrightarrow> reads (dbl_bytes d) (ReadServerFloat t k) d"
  using reads_field [OF decodes_double, of d t k] unfolding ReadServerFloat_def dbl_bytes_def .

lemma reads_string: "length s < 2 ^ 31 \<Longrightarrow> reads (str_bytes s) (ReadServerString t k) s"
  using reads_field [OF decodes_string, of s t k] unfolding ReadServerString_def by simp

lemma reads_integers: "\<forall>i \<in> set is. int64 i \<Longrightarrow> reads (concat (map int_bytes is)) (ReadServerIntegers t k (length is)) is"
proof (induction "is" arbitrary: k)
  case Nil
  then show ?case by (simp add: reads_def moved_def)
next
  case (Cons i "is")
  have "reads (int_bytes i @ concat (map int_bytes is)) (\<lambda>u. bindR (ReadServerInteger t k u) (\<lambda>(i, u1).
       bindR (ReadServerIntegers t (Suc k) (length is) u1) (\<lambda>(is, u2). Inr (i # is, u2)))) (i # is)"
    by (rule reads_bind [OF reads_integer], use Cons.prems in simp, rule reads_bind_last, rule Cons.IH, use Cons.prems in simp)
  then show ?case by simp
qed

lemma reads_srid: "srid < 2 ^ 32 \<Longrightarrow> reads (int_bytes (int srid)) (ReadServerSpatialRefId t) srid"
proof -
  assume s: "srid < 2 ^ 32"
  then have "int srid \<le> 2 ^ 32 - 1" by simp
  then have "reads (int_bytes (int srid) @ []) (ReadServerSpatialRefId t) srid"
    unfolding ReadServerSpatialRefId_def using s
    by (intro reads_bind [OF reads_integer]) (auto simp: reads_def moved_def)
  then show ?thesis by simp
qed

text \<open>A structure: the body reads the fields behind tag and size.\<close>

lemma reads_structure:
  assumes "reads (concat fs) body x" "length fs < 0x10"
    and "\<And>w v. Unpacker_StructTag w = (tag c, v) \<Longrightarrow> Unpacker_Len v = (length fs, v) \<Longrightarrow> HydrateServerStructure w = body v"
  shows "reads (struct_bytes c fs) (\<lambda>u. ServerHydrator (Suc f) (Unpacker_Next u)) x"
proof (rule readsI)
  fix u assume a: "ahead u (struct_bytes c fs)" "up_err u = None"
  have t: "ahead u (byte (0xb0 + length fs) # byte (tag c) # concat fs)" "tag c < 0x100"
    using a(1) by (simp_all add: struct_bytes_def) (simp add: tag_def)
  obtain v where v: "Unpacker_StructTag (Unpacker_Next u) = (tag c, v)" "Unpacker_Len v = (length fs, v)" "moved u 2 v"
      "ahead v (concat fs)" "up_err v = None"
    using struct_ahead(2) [OF t(1) assms(2) t(2) a(2)] by blast
  obtain w where w: "body v = Inr (x, w)" "moved v (length (concat fs)) w" using assms(1) v(4,5) unfolding reads_def by blast
  have "length (struct_bytes c fs) = 2 + length (concat fs)" by (simp add: struct_bytes_def)
  then show "\<exists>w. ServerHydrator (Suc f) (Unpacker_Next u) = Inr (x, w) \<and> moved u (length (struct_bytes c fs)) w"
    using assms(3) [OF v(1,2)] w struct_ahead(1) [OF t(1) assms(2) t(2) a(2)] moved_trans [OF v(3) w(2)] by simp
qed


abbreviation hydrated :: "nat \<Rightarrow> string \<Rightarrow> any \<Rightarrow> bool" where
  "hydrated f s x \<equiv> reads s (\<lambda>u. ServerHydrator f (Unpacker_Next u)) x"

lemma hydrated_scalar:
  assumes "decodes s t g y" "\<And>u. up_curr u = t \<Longrightarrow> ServerHydrator (Suc f) u = (let (y, u') = g u in Inr (c y, u'))"
  shows "hydrated (Suc f) s (c y)"
proof (rule readsI)
  fix u assume "ahead u s" "up_err u = None"
  with assms(1) obtain v where "up_curr (Unpacker_Next u) = t" "g (Unpacker_Next u) = (y, v)" "moved u (length s) v"
    by (auto simp: decodes_def)
  then show "\<exists>v. ServerHydrator (Suc f) (Unpacker_Next u) = Inr (c y, v) \<and> moved u (length s) v"
    using assms(2) by simp
qed

lemma hydrated_int: "int64 i \<Longrightarrow> hydrated (Suc f) (int_bytes i) (AInt64 i)"
  by (rule hydrated_scalar [OF decodes_int]) simp_all

lemma hydrated_double: "d < 2 ^ 64 \<Longrightarrow> hydrated (Suc f) (dbl_bytes d) (ADouble d)"
  unfolding dbl_bytes_def by (rule hydrated_scalar [OF decodes_double]) simp_all

lemma hydrated_string: "length s < 2 ^ 31 \<Longrightarrow> hydrated (Suc f) (str_bytes s) (AString s)"
  by (rule hydrated_scalar [OF decodes_string]) simp_all

lemma hydrated_byte:
  assumes "markers (of_char b) = long_marker t 0" "\<And>u. up_curr u = t \<Longrightarrow> ServerHydrator (Suc f) u = Inr (x, u)"
  shows "hydrated (Suc f) [b] x"
proof (rule readsI)
  fix u assume "ahead u [b]"
  then show "\<exists>v. ServerHydrator (Suc f) (Unpacker_Next u) = Inr (x, v) \<and> moved u (length [b]) v"
    using ahead_Next [of u b "[]"] assms by (simp add: long_marker_def)
qed

lemma hydrated_null: "hydrated (Suc f) [byte 0xc0] ANone"
  by (rule hydrated_byte [where t = TNull]) (simp_all add: markers_def)

lemma hydrated_bool: "hydrated (Suc f) [byte (if b then 0xc3 else 0xc2)] (ABool b)"
  by (rule hydrated_byte [where t = "if b then TTrue else TFalse"]) (cases b; simp add: markers_def)+

lemma hydrated_items:
  "list_all2 (hydrated f) ss xs \<Longrightarrow> reads (concat ss) (hydrate_items f (length xs)) xs"
proof (induction rule: list_all2_induct)
  case Nil
  then show ?case by (simp add: reads_def moved_def)
next
  case (Cons s ss x xs)
  have "reads (s @ concat ss) (\<lambda>u. bindR (ServerHydrator f (Unpacker_Next u)) (\<lambda>(x, u1).
      bindR (hydrate_items f (length xs) u1) (\<lambda>(xs, u2). Inr (x # xs, u2)))) (x # xs)"
    by (rule reads_bind [OF Cons.hyps(1)], rule reads_bind_last, rule Cons.IH)
  then show ?case by simp
qed

lemma reads_counted:
  assumes "header short long t" "n < 2 ^ 31" "reads s (g n) x"
    and "\<And>u. up_curr u = t \<Longrightarrow> ServerHydrator (Suc f) u = (let (n, u') = Unpacker_Len u in bindR (g n u') (\<lambda>(x, v). Inr (c x, v)))"
  shows "hydrated (Suc f) (len_bytes short long n @ s) (c x)"
proof (rule readsI)
  fix u assume u: "ahead u (len_bytes short long n @ s)" "up_err u = None"
  have "decodes (len_bytes short long n) t Unpacker_Len n" using assms(1,2) by (intro decodes_len) simp_all
  then obtain v where v: "up_curr (Unpacker_Next u) = t" "Unpacker_Len (Unpacker_Next u) = (n, v)"
      "moved u (length (len_bytes short long n)) v" "ahead v s" "up_err v = None"
    using u by (rule decodesE)
  obtain w where w: "g n v = Inr (x, w)" "moved v (length s) w" using assms(3) v(4,5) unfolding reads_def by blast
  show "\<exists>w. ServerHydrator (Suc f) (Unpacker_Next u) = Inr (c x, w) \<and> moved u (length (len_bytes short long n @ s)) w"
    using assms(4) [OF v(1)] v(2) w(1) moved_trans [OF v(3) w(2)] by simp
qed

lemma hydrated_list:
  assumes "list_all2 (hydrated f) ss xs" "length xs < 2 ^ 31"
  shows "hydrated (Suc f) (list_bytes ss) (AList xs)"
proof -
  have "hydrated (Suc f) (len_bytes 0x90 0xd4 (length xs) @ concat ss) (AList xs)"
    by (rule reads_counted [where t = TList and g = "hydrate_items f"])
      (use assms(2) hydrated_items [OF assms(1)] in \<open>simp_all add: header_def\<close>)
  then show ?thesis using list_all2_lengthD [OF assms(1)] by (simp add: list_bytes_def)
qed

lemma map_put_new: "k \<notin> fst ` set m \<Longrightarrow> map_put k v m = m @ [(k, v)]"
  by (induction m) auto

lemma hydrated_pairs:
  assumes "\<forall>(k, v) \<in> set m. length k < 2 ^ 31 \<and> hydrated f (packed v) (received v)" "distinct (map fst m)"
    and "fst ` set m \<inter> fst ` set acc = {}"
  shows "reads (concat (map (\<lambda>(k, v). str_bytes k @ packed v) m)) (hydrate_pairs f (length m) acc)
     (acc @ map (\<lambda>(k, v). (k, received v)) m)"
  using assms
proof (induction m arbitrary: acc)
  case Nil
  then show ?case by (simp add: reads_def moved_def)
next
  case (Cons e m)
  obtain k v where e: "e = (k, v)" by (cases e)
  let ?rest = "concat (map (\<lambda>(k, v). str_bytes k @ packed v) m)" and ?acc = "acc @ [(k, received v)]"
  have put: "map_put k (received v) acc = ?acc" using Cons.prems(3) e by (intro map_put_new) auto
  have IH: "reads ?rest (hydrate_pairs f (length m) ?acc) (?acc @ map (\<lambda>(k, v). (k, received v)) m)"
    using Cons.prems e by (intro Cons.IH) (auto simp: image_iff)
  have key: "reads (str_bytes k) (\<lambda>u. Inr (Unpacker_String (Unpacker_Next u))) k"
    using Cons.prems(1) e decodes_string [of k] by (auto simp: reads_def decodes_def)
  have val: "hydrated f (packed v) (received v)" using Cons.prems(1) e by simp
  have "reads (str_bytes k @ packed v @ ?rest) (\<lambda>u. bindR (Inr (Unpacker_String (Unpacker_Next u))) (\<lambda>(key, u1).
      bindR (ServerHydrator f (Unpacker_Next u1)) (\<lambda>(x, u2). hydrate_pairs f (length m) (map_put key x acc) u2)))
      (?acc @ map (\<lambda>(k, v). (k, received v)) m)"
    by (rule reads_bind [OF key], rule reads_bind [OF val]) (use IH put in simp)
  then show ?case by (simp add: e Let_def case_prod_beta')
qed


lemma tag_eq [simp]: "tag c = tag d \<longleftrightarrow> c = d"
  by (simp add: tag_def)

lemma hydrated_integers:
  assumes "\<forall>i \<in> set is. int64 i" "length is < 0x10"
    and "\<And>w v. Unpacker_StructTag w = (tag c, v) \<Longrightarrow> Unpacker_Len v = (length is, v) \<Longrightarrow>
      HydrateServerStructure w = bindR (ReadServerIntegers (tag c) 0 (length is) v) (\<lambda>(is, u). Inr (h is, u))"
  shows "hydrated (Suc f) (struct_bytes c (map int_bytes is)) (h is)"
  using assms reads_bind_last [OF reads_integers [OF assms(1), of "tag c" 0], of h]
  by (intro reads_structure [where body = "\<lambda>v. bindR (ReadServerIntegers (tag c) 0 (length is) v) (\<lambda>(is, u). Inr (h is, u))"]) simp_all

lemma hydrated_zone:
  assumes "int64 s" "int64 n" "length z < 2 ^ 31"
  shows "hydrated (Suc f) (struct_bytes CHR ''i'' [int_bytes s, int_bytes n, str_bytes z]) (ADateTimeZoneId s n z)"
proof (rule reads_structure)
  have i: "reads (int_bytes s @ int_bytes n) (ReadServerIntegers (tag CHR ''i'') 0 2) [s, n]"
    using reads_integers [of "[s, n]" "tag CHR ''i''" 0] assms by (simp add: numeral_2_eq_2)
  have "reads ((int_bytes s @ int_bytes n) @ str_bytes z) (\<lambda>v. bindR (ReadServerIntegers (tag CHR ''i'') 0 2 v) (\<lambda>(is, u3).
      bindR (ReadServerString (tag CHR ''i'') 2 u3) (\<lambda>(z, u4). Inr (ADateTimeZoneId (is ! 0) (is ! 1) z, u4))))
      (ADateTimeZoneId ([s, n] ! 0) ([s, n] ! 1) z)"
    by (rule reads_bind [OF i], rule reads_bind_last [OF reads_string [OF assms(3)]])
  then show "reads (concat [int_bytes s, int_bytes n, str_bytes z]) (\<lambda>v. bindR (ReadServerIntegers (tag CHR ''i'') 0 2 v) (\<lambda>(is, u3).
      bindR (ReadServerString (tag CHR ''i'') 2 u3) (\<lambda>(z, u4). Inr (ADateTimeZoneId (is ! 0) (is ! 1) z, u4)))) (ADateTimeZoneId s n z)"
    by simp
qed (simp_all add: HydrateServerStructure_def RequireServerStructureLength_def)

lemma hydrated_point2D:
  assumes "x < 2 ^ 64" "y < 2 ^ 64" "srid < 2 ^ 32"
  shows "hydrated (Suc f) (struct_bytes CHR ''X'' [int_bytes (int srid), dbl_bytes x, dbl_bytes y]) (APoint2D x y srid)"
proof (rule reads_structure)
  let ?t = "tag CHR ''X''"
  have "reads (int_bytes (int srid) @ dbl_bytes x @ dbl_bytes y) (\<lambda>v. bindR (ReadServerSpatialRefId ?t v) (\<lambda>(srid, u3).
      bindR (ReadServerFloat ?t 1 u3) (\<lambda>(x, u4). bindR (ReadServerFloat ?t 2 u4) (\<lambda>(y, u5). Inr (APoint2D x y srid, u5))))) (APoint2D x y srid)"
    by (rule reads_bind [OF reads_srid [OF assms(3)]], rule reads_bind [OF reads_float [OF assms(1)]],
        rule reads_bind_last [OF reads_float [OF assms(2)]])
  then show "reads (concat [int_bytes (int srid), dbl_bytes x, dbl_bytes y]) (\<lambda>v. bindR (ReadServerSpatialRefId ?t v) (\<lambda>(srid, u3).
      bindR (ReadServerFloat ?t 1 u3) (\<lambda>(x, u4). bindR (ReadServerFloat ?t 2 u4) (\<lambda>(y, u5). Inr (APoint2D x y srid, u5))))) (APoint2D x y srid)"
    by simp
qed (simp_all add: HydrateServerStructure_def RequireServerStructureLength_def)

lemma hydrated_point3D:
  assumes "x < 2 ^ 64" "y < 2 ^ 64" "z < 2 ^ 64" "srid < 2 ^ 32"
  shows "hydrated (Suc f) (struct_bytes CHR ''Y'' [int_bytes (int srid), dbl_bytes x, dbl_bytes y, dbl_bytes z]) (APoint3D x y z srid)"
proof (rule reads_structure)
  let ?t = "tag CHR ''Y''"
  have "reads (int_bytes (int srid) @ dbl_bytes x @ dbl_bytes y @ dbl_bytes z) (\<lambda>v. bindR (ReadServerSpatialRefId ?t v) (\<lambda>(srid, u3).
      bindR (ReadServerFloat ?t 1 u3) (\<lambda>(x, u4). bindR (ReadServerFloat ?t 2 u4) (\<lambda>(y, u5).
        bindR (ReadServerFloat ?t 3 u5) (\<lambda>(z, u6). Inr (APoint3D x y z srid, u6)))))) (APoint3D x y z srid)"
    by (rule reads_bind [OF reads_srid [OF assms(4)]], rule reads_bind [OF reads_float [OF assms(1)]],
        rule reads_bind [OF reads_float [OF assms(2)]], rule reads_bind_last [OF reads_float [OF assms(3)]])
  then show "reads (concat [int_bytes (int srid), dbl_bytes x, dbl_bytes y, dbl_bytes z]) (\<lambda>v. bindR (ReadServerSpatialRefId ?t v)
      (\<lambda>(srid, u3). bindR (ReadServerFloat ?t 1 u3) (\<lambda>(x, u4). bindR (ReadServerFloat ?t 2 u4) (\<lambda>(y, u5).
        bindR (ReadServerFloat ?t 3 u5) (\<lambda>(z, u6). Inr (APoint3D x y z srid, u6)))))) (APoint3D x y z srid)"
    by simp
qed (simp_all add: HydrateServerStructure_def RequireServerStructureLength_def)


lemmas server_structure = HydrateServerStructure_def RequireServerStructureLength_def

lemma hydrated_times:
  "int64 d \<Longrightarrow> hydrated (Suc f) (struct_bytes CHR ''D'' [int_bytes d]) (ADate d)"
  "int64 n \<Longrightarrow> hydrated (Suc f) (struct_bytes CHR ''t'' [int_bytes n]) (ALocalTime n)"
  "int64 s \<Longrightarrow> int64 n \<Longrightarrow> hydrated (Suc f) (struct_bytes CHR ''d'' [int_bytes s, int_bytes n]) (ALocalDateTime s n)"
  "int64 n \<Longrightarrow> int64 z \<Longrightarrow> hydrated (Suc f) (struct_bytes CHR ''T'' [int_bytes n, int_bytes z]) (ATime n z)"
  "int64 s \<Longrightarrow> int64 n \<Longrightarrow> int64 z \<Longrightarrow>
     hydrated (Suc f) (struct_bytes CHR ''I'' [int_bytes s, int_bytes n, int_bytes z]) (ADateTime s n z)"
  "int64 m \<Longrightarrow> int64 d \<Longrightarrow> int64 s \<Longrightarrow> int64 n \<Longrightarrow>
     hydrated (Suc f) (struct_bytes CHR ''E'' [int_bytes m, int_bytes d, int_bytes s, int_bytes n]) (ADuration m d s n)"
  using hydrated_integers [of "[d]" "CHR ''D''" "\<lambda>is. ADate (is ! 0)" f]
    hydrated_integers [of "[n]" "CHR ''t''" "\<lambda>is. ALocalTime (is ! 0)" f]
    hydrated_integers [of "[s, n]" "CHR ''d''" "\<lambda>is. ALocalDateTime (is ! 0) (is ! 1)" f]
    hydrated_integers [of "[n, z]" "CHR ''T''" "\<lambda>is. ATime (is ! 0) (is ! 1)" f]
    hydrated_integers [of "[s, n, z]" "CHR ''I''" "\<lambda>is. ADateTime (is ! 0) (is ! 1) (is ! 2)" f]
    hydrated_integers [of "[m, d, s, n]" "CHR ''E''" "\<lambda>is. ADuration (is ! 0) (is ! 1) (is ! 2) (is ! 3)" f]
  by (simp_all add: server_structure eval_nat_numeral)

lemma bytes_nonempty [simp]: "int_bytes i \<noteq> []" "len_bytes a b n \<noteq> []" "str_bytes s \<noteq> []" "dbl_bytes d \<noteq> []"
  by (simp_all add: int_bytes_def len_bytes_def str_bytes_def dbl_bytes_def)

lemma bytes_positive: "0 < length (len_bytes a b n)" "0 < length (str_bytes s)"
  by simp_all

lemma packed_positive: "wire x \<Longrightarrow> 0 < length (packed x)"
  by (cases x) (simp_all add: dbl_bytes_def list_bytes_def struct_bytes_def)

lemma concat_member_length: "s \<in> set ss \<Longrightarrow> length s \<le> length (concat ss)"
  by (induction ss) auto

lemma list_bytes_member: "s \<in> set ss \<Longrightarrow> length s < length (list_bytes ss)"
  using concat_member_length [of s ss] bytes_positive(1) [of "0x90" "0xd4" "length ss"]
  unfolding list_bytes_def length_append by linarith

lemma hydrated_list_map:
  assumes "length xs < 2 ^ 31" "length (list_bytes (map p xs)) \<le> Suc f"
    and "\<And>x. x \<in> set xs \<Longrightarrow> length (p x) \<le> f \<Longrightarrow> hydrated f (p x) (r x)"
  shows "hydrated (Suc f) (list_bytes (map p xs)) (AList (map r xs))"
proof (rule hydrated_list)
  have "length (p x) \<le> f" if "x \<in> set xs" for x
    using list_bytes_member [of "p x" "map p xs"] that assms(2) by auto
  then show "list_all2 (hydrated f) (map p xs) (map r xs)"
    using assms(3) by (auto simp: list_all2_map1 list_all2_map2 intro!: list_all2_refl list.rel_refl_strong)
qed (use assms(1) in simp)

lemma hydrated_map:
  assumes "wire (AMap m)" "length (packed (AMap m)) \<le> Suc f"
    and "\<And>k v. (k, v) \<in> set m \<Longrightarrow> wire v \<Longrightarrow> length (packed v) \<le> f \<Longrightarrow> hydrated f (packed v) (received v)"
  shows "hydrated (Suc f) (packed (AMap m)) (received (AMap m))"
proof -
  have "hydrated f (packed v) (received v) \<and> length k < 2 ^ 31" if "(k, v) \<in> set m" for k v
  proof -
    have "length (str_bytes k @ packed v) \<le> length (concat (map (\<lambda>(k, v). str_bytes k @ packed v) m))"
      using that by (intro concat_member_length) force
    moreover have "length (concat (map (\<lambda>(k, v). str_bytes k @ packed v) m)) \<le> Suc f" using assms(2) by simp
    ultimately have "length (packed v) \<le> f" using bytes_positive(2) [of k] unfolding length_append by linarith
    moreover have "wire v" "length k < 2 ^ 31" using assms(1) that by auto
    ultimately show ?thesis using assms(3) that by blast
  qed
  then have "reads (concat (map (\<lambda>(k, v). str_bytes k @ packed v) m)) (hydrate_pairs f (length m) [])
     ([] @ map (\<lambda>(k, v). (k, received v)) m)"
    using assms(1) by (intro hydrated_pairs) auto
  then have "hydrated (Suc f) (len_bytes 0xa0 0xd8 (length m) @ concat (map (\<lambda>(k, v). str_bytes k @ packed v) m))
      (AMap ([] @ map (\<lambda>(k, v). (k, received v)) m))"
    using assms(1) by (intro reads_counted [where t = TDictionary and g = "\<lambda>n. hydrate_pairs f n []"]) (simp_all add: header_def)
  then show ?thesis by simp
qed


declare ServerHydrator.simps [simp del]

lemmas hydrated_intros = hydrated_times hydrated_zone hydrated_point2D hydrated_point3D hydrated_null hydrated_bool
  hydrated_int hydrated_double hydrated_string

lemma hydrated_one: "(\<And>f'. hydrated (Suc f') s x) \<Longrightarrow> length s \<le> f \<Longrightarrow> s \<noteq> [] \<Longrightarrow> hydrated f s x"
  by (cases f) simp_all

lemma hydrated_list_scalar:
  assumes "length xs < 2 ^ 31" "length (list_bytes (map p xs)) \<le> Suc f"
    and "\<And>x f. x \<in> set xs \<Longrightarrow> hydrated (Suc f) (p x) (r x)" "\<And>x. x \<in> set xs \<Longrightarrow> p x \<noteq> []"
  shows "hydrated (Suc f) (list_bytes (map p xs)) (AList (map r xs))"
  using assms(1,2) by (rule hydrated_list_map) (rule hydrated_one; use assms(3,4) in blast)

lemma hydrated_lists:
  "wire (AStrings ss) \<Longrightarrow> length (packed (AStrings ss)) \<le> Suc f \<Longrightarrow> hydrated (Suc f) (packed (AStrings ss)) (received (AStrings ss))"
  "wire (AInt64s is) \<Longrightarrow> length (packed (AInt64s is)) \<le> Suc f \<Longrightarrow> hydrated (Suc f) (packed (AInt64s is)) (received (AInt64s is))"
  "wire (ADoubles ds) \<Longrightarrow> length (packed (ADoubles ds)) \<le> Suc f \<Longrightarrow> hydrated (Suc f) (packed (ADoubles ds)) (received (ADoubles ds))"
  "wire (ABools bs) \<Longrightarrow> length (packed (ABools bs)) \<le> Suc f \<Longrightarrow> hydrated (Suc f) (packed (ABools bs)) (received (ABools bs))"
  by (simp_all only: packed.simps received.simps wire.simps)
    (rule hydrated_list_scalar; simp add: hydrated_string hydrated_int hydrated_double hydrated_bool)+

lemma hydrated_prefix: "length s < 2 ^ 31 \<Longrightarrow> hydrated (Suc f) (str_bytes (takeWhile P s)) (AString (takeWhile P s))"
  by (rule hydrated_string) (rule le_less_trans [OF length_takeWhile_le])

lemma hydrated_packed_Suc:
  "wire x \<Longrightarrow> length (packed x) \<le> Suc f \<Longrightarrow>
    (\<And>y f'. size y < size x \<Longrightarrow> wire y \<Longrightarrow> length (packed y) \<le> f' \<Longrightarrow> hydrated f' (packed y) (received y)) \<Longrightarrow>
    hydrated (Suc f) (packed x) (received x)"
proof (cases x)
  case (AMap m)
  moreover assume "wire x" "length (packed x) \<le> Suc f"
  moreover assume *: "\<And>y f'. size y < size x \<Longrightarrow> wire y \<Longrightarrow> length (packed y) \<le> f' \<Longrightarrow> hydrated f' (packed y) (received y)"
  have "size v < size x" if "(k, v) \<in> set m" for k v
    using size_list_estimation' [OF that order.refl, of "\<lambda>p. size_prod (\<lambda>_. 0) size p"] AMap by simp
  ultimately show ?thesis using * by (simp only:) (rule hydrated_map; blast)
next
  case (AList xs)
  moreover assume "wire x" "length (packed x) \<le> Suc f"
  moreover assume *: "\<And>y f'. size y < size x \<Longrightarrow> wire y \<Longrightarrow> length (packed y) \<le> f' \<Longrightarrow> hydrated f' (packed y) (received y)"
  have "size y < size x" if "y \<in> set xs" for y
    using size_list_estimation' [OF that order.refl, of size] AList by simp
  ultimately show ?thesis using * by (simp only: packed.simps received.simps wire.simps) (rule hydrated_list_map; blast)
qed (simp_all only: packed.simps received.simps wire.simps hydrated_intros hydrated_prefix simp_thms
    hydrated_lists(4) [unfolded packed.simps received.simps wire.simps],
  (rule hydrated_lists [unfolded packed.simps received.simps wire.simps]; assumption)+)

lemma hydrated_packed: "wire x \<Longrightarrow> length (packed x) \<le> f \<Longrightarrow> hydrated f (packed x) (received x)"
proof (induction "size x" arbitrary: x f rule: less_induct)
  case less
  then obtain f' where "f = Suc f'" using packed_positive [of x] by (cases f) auto
  with less show ?case using hydrated_packed_Suc [of x f'] by blast
qed

section \<open>The round trip\<close>

lemma ahead_Reset: "length s < 2 ^ 32 \<Longrightarrow> ahead (Unpacker_Reset s u) s" "up_err (Unpacker_Reset s u) = None"
  by (simp_all add: ahead_def Unpacker_Reset_def)

text \<open>C25: A value that can be sent, packed by one side and unpacked by the other, is the value again (with one integer,
  one floating-point and one list type, and a date-time in UTC), no byte is left over and neither side reports an
  error.\<close>

theorem value_round_trip:
  assumes "wire x" "length (packed x) < 2 ^ 32" "length (packed x) \<le> f"
  shows "\<exists>p v. PackX x (Packer_Begin []) = Inr p \<and> pk_err p = None \<and>
     ServerHydrator f (Unpacker_Next (Unpacker_Reset (pk_buf p) u)) = Inr (received x, v) \<and>
     up_err v = None \<and> up_off v = length (pk_buf p)"
proof -
  let ?p = "append_buf (packed x) (Packer_Begin [])" and ?u = "Unpacker_Reset (packed x) u"
  have p: "PackX x (Packer_Begin []) = Inr ?p" "pk_buf ?p = packed x" "pk_err ?p = None"
    using PackX_packed [OF assms(1)] by (simp_all add: append_buf_def Packer_Begin_def)
  obtain v where v: "ServerHydrator f (Unpacker_Next ?u) = Inr (received x, v)" "moved ?u (length (packed x)) v"
    using hydrated_packed [OF assms(1,3)] ahead_Reset(1) [OF assms(2), of u] ahead_Reset(2) [of "packed x" u] unfolding reads_def by blast
  moreover have "up_err v = None \<and> up_off v = length (packed x)" using v(2) by (simp add: moved_def Unpacker_Reset_def)
  ultimately show ?thesis using p by auto
qed

theorem value_round_trip_witness:
  "\<exists>p v. PackX (AMap [(''a'', AList [AInt8 (- 7), ADouble 5]), (''b'', ADateTime 10 20 3600)]) (Packer_Begin []) = Inr p \<and> pk_err p = None \<and>
     ServerHydrator 99 (Unpacker_Next (Unpacker_Reset (pk_buf p)
       \<lparr>up_buf = [], up_off = 0, up_len = 0, up_mrk = markers 0, up_err = None, up_curr = TUndef\<rparr>)) =
       Inr (AMap [(''a'', AList [AInt64 (- 7), ADouble 5]), (''b'', ADateTime (- 3590) 20 3600)], v) \<and>
     up_err v = None \<and> up_off v = length (pk_buf p)"
  using value_round_trip [of "AMap [(''a'', AList [AInt8 (- 7), ADouble 5]), (''b'', ADateTime 10 20 3600)]" 99
    "\<lparr>up_buf = [], up_off = 0, up_len = 0, up_mrk = markers 0, up_err = None, up_curr = TUndef\<rparr>"]
  by (simp add: len_bytes_def str_bytes_def list_bytes_def struct_bytes_def int_bytes_def dbl_bytes_def del: PackX.simps)

end
