(* ===== verification/ValueTypes.thy ===== *)
theory ValueTypes
  imports Bytes
begin

text \<open>
  The values of the query language (\<open>src/value/value.h\<close>): the temporal types, points, graph entities and the sum
  of them all. A floating-point number is its 64-bit pattern; a map of the code is ordered by its keys, so it is the
  list of its entries in that order. A pointer to an entity inside a path may be null.
\<close>

record Date =
  dt_year :: int
  dt_month :: int
  dt_day :: int

record LocalTime =
  lt_hour :: int
  lt_minute :: int
  lt_second :: int
  lt_nanosecond :: int
  lt_has_seconds :: bool

record Time =
  tm_local_time :: LocalTime
  tm_utc_offset_seconds :: int
  tm_timezone :: string

record LocalDateTime =
  ld_date :: Date
  ld_time :: LocalTime

record DateTime =
  dz_local_date_time :: LocalDateTime
  dz_utc_offset_seconds :: int
  dz_timezone :: string

record Duration =
  du_months :: int
  du_days :: int
  du_seconds :: int
  du_nanoseconds :: int

record Point =
  pt_srid :: int
  pt_coordinates :: "nat list"

datatype ValueType =
    kNull | kBool | kInteger | kDouble | kString | kList | kMap | kNode | kRelationship | kPath
  | kDate | kLocalTime | kTime | kLocalDateTime | kDateTime | kDuration | kPoint

datatype Value =
    VNull
  | VBool bool
  | VInteger int
  | VDouble nat
  | VString string
  | VList "Value list"
  | VMap "(string \<times> Value) list"
  | VNode Node
  | VRelationship Relationship
  | VPath "Node option list" "Relationship option list"
  | VDate Date
  | VLocalTime LocalTime
  | VTime Time
  | VLocalDateTime LocalDateTime
  | VDateTime DateTime
  | VDuration Duration
  | VPoint Point
and Node = Node (vn_id: int) (vn_labels: "string list") (vn_properties: "(string \<times> Value) list")
and Relationship =
  Relationship (vr_id: int) (vr_start_node_id: int) (vr_end_node_id: int) (vr_type_id: nat) (vr_type: string)
    (vr_properties: "(string \<times> Value) list")

fun Value_Type :: "Value \<Rightarrow> ValueType" where
  "Value_Type VNull = kNull"
| "Value_Type (VBool b) = kBool"
| "Value_Type (VInteger i) = kInteger"
| "Value_Type (VDouble d) = kDouble"
| "Value_Type (VString s) = kString"
| "Value_Type (VList xs) = kList"
| "Value_Type (VMap m) = kMap"
| "Value_Type (VNode n) = kNode"
| "Value_Type (VRelationship r) = kRelationship"
| "Value_Type (VPath ns rs) = kPath"
| "Value_Type (VDate d) = kDate"
| "Value_Type (VLocalTime t) = kLocalTime"
| "Value_Type (VTime t) = kTime"
| "Value_Type (VLocalDateTime t) = kLocalDateTime"
| "Value_Type (VDateTime t) = kDateTime"
| "Value_Type (VDuration d) = kDuration"
| "Value_Type (VPoint p) = kPoint"

end
