(* ===== verification/Calendar.thy ===== *)
theory Calendar
  imports ValueTypes "HOL-Library.Signed_Division"
begin

text \<open>
  The calendar of \<open>src/value/temporal.cc\<close>: validity of dates, day numbers, ISO weeks, ordinal days and quarters.
  Division of the code truncates, which is \<open>sdiv\<close> and \<open>smod\<close>; its \<open>unsigned\<close> arithmetic wraps at 32 bits. The day
  numbers are shown to count the days of the calendar, and the conversions to be inverse to each other.
\<close>

section \<open>Dates\<close>

definition InvalidTemporal :: "string \<Rightarrow> 'a res" where
  "InvalidTemporal message = Inl (Thrown ''InvalidParameter'' message)"

definition kMinimumYear :: int where
  "kMinimumYear = - 999999999"

definition kMaximumYear :: int where
  "kMaximumYear = 999999999"

definition CheckedInt :: "int \<Rightarrow> int \<Rightarrow> int \<Rightarrow> string \<Rightarrow> int res" where
  "CheckedInt value minimum maximum component =
     (if value < minimum \<or> value > maximum then InvalidTemporal (component @ '' is out of range'') else Inr value)"

definition LeapYear :: "int \<Rightarrow> bool" where
  "LeapYear year \<longleftrightarrow> year smod 4 = 0 \<and> (year smod 100 \<noteq> 0 \<or> year smod 400 = 0)"

definition kDays :: "int list" where
  "kDays = [31, 28, 31, 30, 31, 30, 31, 31, 30, 31, 30, 31]"

definition DaysInMonth :: "int \<Rightarrow> int \<Rightarrow> int res" where
  "DaysInMonth year month =
     (if month < 1 \<or> month > 12 then InvalidTemporal ''month is out of range''
      else Inr (if month = 2 \<and> LeapYear year then 29 else kDays ! nat (month - 1)))"

definition ValidateDate :: "Date \<Rightarrow> unit res" where
  "ValidateDate date =
     (if dt_year date < kMinimumYear \<or> dt_year date > kMaximumYear then InvalidTemporal ''year is out of range''
      else if dt_day date < 1 then InvalidTemporal ''invalid calendar date''
      else bindR (DaysInMonth (dt_year date) (dt_month date)) (\<lambda>n.
        if dt_day date > n then InvalidTemporal ''invalid calendar date'' else Inr ()))"

definition u32 :: "int \<Rightarrow> int" where
  "u32 i = i mod 2 ^ 32"

definition DaysFromCivil :: "int \<Rightarrow> int \<Rightarrow> int \<Rightarrow> int" where
  "DaysFromCivil year month day =
     (let adjusted_year = year - (if month \<le> 2 then 1 else 0);
          era = (if adjusted_year \<ge> 0 then adjusted_year else adjusted_year - 399) sdiv 400;
          year_of_era = u32 (adjusted_year - era * 400);
          day_of_year = u32 (u32 (153 * u32 (if month > 2 then month - 3 else month + 9) + 2) div 5 + day - 1);
          day_of_era = u32 (year_of_era * 365 + year_of_era div 4 - year_of_era div 100 + day_of_year)
      in era * 146097 + day_of_era - 719468)"

definition ToSysDays :: "Date \<Rightarrow> int res" where
  "ToSysDays date = bindR (ValidateDate date) (\<lambda>_. Inr (DaysFromCivil (dt_year date) (dt_month date) (dt_day date)))"

text \<open>
  The day number is an \<open>int64_t\<close>, and the first addition overflows for the last numbers of its range; the
  date is computed from the sum before its year is checked.
\<close>

definition CivilFromDays :: "int \<Rightarrow> Date" where
  "CivilFromDays days =
     (let era = (if days \<ge> 0 then days else days - 146096) sdiv 146097;
          day_of_era = u32 (days - era * 146097);
          year_of_era = u32 (day_of_era - day_of_era div 1460 + day_of_era div 36524 - day_of_era div 146096) div 365;
          year = year_of_era + era * 400;
          day_of_year = u32 (day_of_era - (365 * year_of_era + year_of_era div 4 - year_of_era div 100));
          month_part = u32 (5 * day_of_year + 2) div 153;
          day = u32 (day_of_year - u32 (153 * month_part + 2) div 5 + 1);
          month = (if month_part < 10 then month_part + 3 else month_part - 9);
          year' = year + (if month \<le> 2 then 1 else 0)
      in \<lparr>dt_year = year', dt_month = month, dt_day = day\<rparr>)"

definition FromSysDays :: "int \<Rightarrow> Date res" where
  "FromSysDays value =
     (if value + 719468 > 2 ^ 63 - 1 then Inl (Undefined ''signed overflow'')
      else let date = CivilFromDays (value + 719468) in
        if dt_year date < kMinimumYear \<or> dt_year date > kMaximumYear then InvalidTemporal ''year is out of range''
        else Inr date)"

text \<open>Monday is 1 and Sunday is 7, as \<open>weekday::iso_encoding\<close> has it; day 0 is a Thursday.\<close>

definition IsoWeekday :: "int \<Rightarrow> int" where
  "IsoWeekday day = (day + 3) mod 7 + 1"

record IsoWeek =
  iw_year :: int
  iw_week :: int
  iw_weekday :: int

definition IsoWeekComponents :: "Date \<Rightarrow> IsoWeek res" where
  "IsoWeekComponents date =
     bindR (ToSysDays date) (\<lambda>day.
       let weekday = IsoWeekday day
       in bindR (FromSysDays (day + (4 - weekday))) (\<lambda>thursday.
         let week_year = dt_year thursday
         in bindR (ToSysDays \<lparr>dt_year = week_year, dt_month = 1, dt_day = 4\<rparr>) (\<lambda>january_four.
           let week_one = january_four - (IsoWeekday january_four - 1)
           in Inr \<lparr>iw_year = week_year, iw_week = (day - week_one) sdiv 7 + 1, iw_weekday = weekday\<rparr>)))"

definition DateFromIsoWeek :: "int \<Rightarrow> int \<Rightarrow> int \<Rightarrow> Date res" where
  "DateFromIsoWeek year week weekday =
     (if week < 1 \<or> week > 53 \<or> weekday < 1 \<or> weekday > 7 then InvalidTemporal ''invalid ISO week date''
      else bindR (ToSysDays \<lparr>dt_year = year, dt_month = 1, dt_day = 4\<rparr>) (\<lambda>january_four.
        let week_one = january_four - (IsoWeekday january_four - 1)
        in bindR (FromSysDays (week_one + ((week - 1) * 7 + weekday - 1))) (\<lambda>result.
          bindR (IsoWeekComponents result) (\<lambda>components.
            if iw_year components \<noteq> year \<or> iw_week components \<noteq> week \<or> iw_weekday components \<noteq> weekday
            then InvalidTemporal ''invalid ISO week date'' else Inr result))))"

definition DateFromOrdinal :: "int \<Rightarrow> int \<Rightarrow> Date res" where
  "DateFromOrdinal year ordinal =
     (let maximum = (if LeapYear year then 366 else 365)
      in if ordinal < 1 \<or> ordinal > maximum then InvalidTemporal ''ordinal day is out of range''
         else bindR (ToSysDays \<lparr>dt_year = year, dt_month = 1, dt_day = 1\<rparr>) (\<lambda>first. FromSysDays (first + (ordinal - 1))))"

definition OrdinalDay :: "Date \<Rightarrow> int res" where
  "OrdinalDay date =
     bindR (ToSysDays \<lparr>dt_year = dt_year date, dt_month = 1, dt_day = 1\<rparr>) (\<lambda>first.
       bindR (ToSysDays date) (\<lambda>day. Inr (day - first + 1)))"

definition DateFromQuarter :: "int \<Rightarrow> int \<Rightarrow> int \<Rightarrow> Date res" where
  "DateFromQuarter year quarter day_of_quarter =
     (if quarter < 1 \<or> quarter > 4 then InvalidTemporal ''quarter is out of range''
      else let first_month = (quarter - 1) * 3 + 1 in
        bindR (ToSysDays \<lparr>dt_year = year, dt_month = first_month, dt_day = 1\<rparr>) (\<lambda>start.
        bindR (if quarter = 4 then ToSysDays \<lparr>dt_year = year + 1, dt_month = 1, dt_day = 1\<rparr>
               else ToSysDays \<lparr>dt_year = year, dt_month = first_month + 3, dt_day = 1\<rparr>) (\<lambda>end'.
        if day_of_quarter < 1 \<or> day_of_quarter > end' - start then InvalidTemporal ''day of quarter is out of range''
        else FromSysDays (start + (day_of_quarter - 1)))))"


section \<open>Day numbers\<close>

definition leap :: "int \<Rightarrow> bool" where
  "leap y \<longleftrightarrow> y mod 4 = 0 \<and> (y mod 100 \<noteq> 0 \<or> y mod 400 = 0)"

lemma smod_zero: "0 < n \<Longrightarrow> (y :: int) smod n = 0 \<longleftrightarrow> y mod n = 0"
  by (cases "0 \<le> y") (auto simp: smod_int_alt_def sgn_if simp flip: dvd_eq_mod_eq_0)

lemma LeapYear_leap [simp]: "LeapYear y = leap y"
  by (simp add: LeapYear_def leap_def smod_zero)

definition month_days :: "int \<Rightarrow> int \<Rightarrow> int" where
  "month_days y m = (if m = 2 then (if leap y then 29 else 28) else if m \<in> {4, 6, 9, 11} then 30 else 31)"

definition in_month :: "Date \<Rightarrow> bool" where
  "in_month d \<longleftrightarrow> 1 \<le> dt_month d \<and> dt_month d \<le> 12 \<and> 1 \<le> dt_day d \<and> dt_day d \<le> month_days (dt_year d) (dt_month d)"

definition year_ok :: "int \<Rightarrow> bool" where
  "year_ok y \<longleftrightarrow> kMinimumYear \<le> y \<and> y \<le> kMaximumYear"

definition valid_date :: "Date \<Rightarrow> bool" where
  "valid_date d \<longleftrightarrow> year_ok (dt_year d) \<and> in_month d"

lemma months: "1 \<le> m \<Longrightarrow> m \<le> 12 \<Longrightarrow> m \<in> {1, 2, 3, 4, 5, 6, 7, 8, 9, 10, 11, 12 :: int}"
proof -
  assume "1 \<le> m" "m \<le> 12"
  then have "m \<in> set [1..12]" by simp
  then show ?thesis by (simp add: upto.simps)
qed

lemma DaysInMonth_month_days: "1 \<le> m \<Longrightarrow> m \<le> 12 \<Longrightarrow> DaysInMonth y m = Inr (month_days y m)"
  using months [of m] by (auto simp: DaysInMonth_def month_days_def kDays_def nat_eq_iff)

lemma ValidateDate_valid: "ValidateDate d = Inr () \<longleftrightarrow> valid_date d"
proof (cases "1 \<le> dt_month d \<and> dt_month d \<le> 12")
  case True
  then show ?thesis
    by (auto simp: ValidateDate_def valid_date_def year_ok_def in_month_def DaysInMonth_month_days InvalidTemporal_def split: if_splits)
next
  case False
  then show ?thesis by (auto simp: ValidateDate_def valid_date_def year_ok_def in_month_def DaysInMonth_def InvalidTemporal_def split: if_splits)
qed

lemma u32_small [simp]: "0 \<le> i \<Longrightarrow> i < 4294967296 \<Longrightarrow> u32 i = i"
  by (simp add: u32_def)

text \<open>The day number written with the division that rounds down.\<close>

definition year_start :: "int \<Rightarrow> int" where
  "year_start y = 365 * y + y div 4 - y div 100 + y div 400"

definition civil :: "int \<Rightarrow> int \<Rightarrow> int \<Rightarrow> int" where
  "civil y m d =
     (let y' = y - (if m \<le> 2 then 1 else 0); m' = (if m > 2 then m - 3 else m + 9)
      in year_start y' + (153 * m' + 2) div 5 + d - 1 - 719468)"

lemma div_bounds: "(0 :: int) < n \<Longrightarrow> n * (x div n) \<le> x" "(0 :: int) < n \<Longrightarrow> x < n * (x div n) + n"
  using pos_mod_bound [of n x] pos_mod_sign [of n x] mult_div_mod_eq [of n x] by linarith+

lemma div_cases:
  fixes x :: int
  assumes "0 < n" "\<And>q. n * q \<le> x \<Longrightarrow> x < n * q + n \<Longrightarrow> P q"
  shows "P (x div n)"
  using assms div_bounds [of n x] by blast

lemma floor_sdiv: "0 < n \<Longrightarrow> k = n - 1 \<Longrightarrow> (if x \<ge> 0 then x else x - k) sdiv n = (x :: int) div n"
proof (cases "x \<ge> 0")
  case True
  moreover assume "0 < n"
  ultimately show ?thesis by (cases "x = 0") (simp_all add: signed_divide_int_def sgn_if)
next
  case False
  assume n: "0 < n" "k = n - 1"
  have "(n - 1 - x) div n = - (x div n)"
    by (rule div_cases [OF n(1), of x]) (rule int_div_pos_eq [of _ _ _ "n - 1 - (x - n * q)" for q], simp, linarith+)
  then show ?thesis using False n by (simp add: signed_divide_int_def)
qed

lemma civil_era:
  fixes y :: int
  shows "year_start y =
     y div 400 * 146097 + (365 * (y mod 400) + y mod 400 div 4 - y mod 400 div 100)"
proof -
  define e r where "e = y div 400" and "r = y mod 400"
  define p q where "p = r div 4" and "q = r div 100"
  have y: "y = 400 * e + r" by (simp add: e_def r_def)
  have "400 * e + r = r + 100 * e * 4" "400 * e + r = r + 4 * e * 100" by simp_all
  then have "y div 4 = 100 * e + p" "y div 100 = 4 * e + q"
    unfolding y p_def q_def by (simp_all only: div_mult_self1 [of "4 :: int"] div_mult_self1 [of "100 :: int"])
  then show ?thesis unfolding year_start_def e_def [symmetric] r_def [symmetric] p_def [symmetric] q_def [symmetric] using y by simp
qed

lemma DaysFromCivil_civil:
  assumes "1 \<le> m" "m \<le> 12" "1 \<le> d" "d \<le> 31"
  shows "DaysFromCivil y m d = civil y m d"
proof -
  define y' where "y' = y - (if m \<le> 2 then 1 else 0)"
  define m' where "m' = (if m > 2 then m - 3 else m + 9)"
  define r where "r = y' mod 400"
  define doy where "doy = (153 * m' + 2) div 5 + d - 1"
  have r: "y' - y' div 400 * 400 = r" by (simp add: r_def minus_div_mult_eq_mod)
  have m: "0 \<le> m'" "m' \<le> 11" using assms by (auto simp: m'_def)
  have r400: "0 \<le> r" "r < 400" by (simp_all add: r_def)
  have "0 \<le> doy \<and> doy \<le> 400" unfolding doy_def by (rule div_cases [of 5]) (use m assms(3,4) in linarith)+
  then have doy: "0 \<le> doy" "doy \<le> 400" by simp_all
  have "0 \<le> r * 365 + r div 4 - r div 100 + doy \<and> r * 365 + r div 4 - r div 100 + doy < 4294967296"
    by (rule div_cases [of 4 r], simp, rule div_cases [of 100 r], simp) (use r400 doy in linarith)
  then have doe: "0 \<le> r * 365 + r div 4 - r div 100 + doy" "r * 365 + r div 4 - r div 100 + doy < 4294967296" by simp_all
  have "u32 m' = m'" "u32 (153 * m' + 2) = 153 * m' + 2" "u32 doy = doy" "u32 r = r"
    using m doy r400 by simp_all
  then have "DaysFromCivil y m d = y' div 400 * 146097 + (r * 365 + r div 4 - r div 100 + doy) - 719468"
    unfolding DaysFromCivil_def Let_def y'_def [symmetric] m'_def [symmetric] floor_sdiv [of 400 399, simplified] r
    by (simp only: doy_def [symmetric] u32_small [OF doe])
  moreover have "civil y m d = year_start y' + doy - 719468"
    unfolding civil_def Let_def y'_def [symmetric] m'_def [symmetric] doy_def by (simp only: add_diff_eq)
  moreover define p q where "p = r div 4" and "q = r div 100"
  ultimately show ?thesis using civil_era [of y', folded r_def, folded p_def q_def] by linarith
qed

section \<open>The day of a number\<close>

text \<open>Year and day of the year inside an era of 400 years, which starts on the first of March.\<close>

definition era_day :: "int \<Rightarrow> int \<Rightarrow> int" where
  "era_day r doy = 365 * r + r div 4 - r div 100 + doy"

definition era_date :: "int \<Rightarrow> int \<Rightarrow> bool" where
  "era_date r doy \<longleftrightarrow> 0 \<le> r \<and> r < 400 \<and> 0 \<le> doy \<and> doy \<le> 365 \<and> (doy = 365 \<longrightarrow> leap (r + 1))"

lemma era_parts:
  fixes r :: int
  assumes "0 \<le> r" "r < 400"
  obtains c f b where "r = 100 * c + 4 * f + b" "0 \<le> c" "c \<le> 3" "0 \<le> f" "f \<le> 24" "0 \<le> b" "b \<le> 3"
    "r div 4 = 25 * c + f" "r div 100 = c"
proof -
  define c e where "c = r div 100" and "e = r mod 100"
  define f b where "f = e div 4" and "b = e mod 4"
  have r: "r = 100 * c + e" and e: "e = 4 * f + b" by (simp_all add: c_def e_def f_def b_def)
  have b: "0 \<le> b" "b \<le> 3" and e100: "0 \<le> e" "e \<le> 99" by (simp_all add: b_def e_def)
  have "r = 4 * (25 * c + f) + b" using r e by simp
  then have "r div 4 = 25 * c + f" using b by (intro int_div_pos_eq) auto
  moreover have "r div 100 = c" by (simp add: c_def)
  ultimately show thesis
    using that [of c f b] r e b e100 assms by linarith
qed

lemma leap_part: "leap (100 * c + 4 * f + b + 1) \<Longrightarrow> 0 \<le> b \<Longrightarrow> b \<le> 3 \<Longrightarrow> b = 3"
proof -
  assume l: "leap (100 * c + 4 * f + b + 1)" and b: "0 \<le> b" "b \<le> 3"
  have "100 * c + 4 * f + b + 1 = 4 * (25 * c + f) + (b + 1)" by simp
  then have "4 dvd 4 * (25 * c + f) + (b + 1)" using l unfolding leap_def dvd_eq_mod_eq_0 by metis
  then have "4 dvd b + 1" using dvd_add_right_iff dvd_triv_left by blast
  then show "b = 3" using b zdvd_imp_le [of 4 "b + 1"] by linarith
qed

lemma leap_century: "leap (100 * c + 4 * 24 + 3 + 1) \<Longrightarrow> 0 \<le> c \<Longrightarrow> c \<le> 3 \<Longrightarrow> c = 3"
proof -
  assume l: "leap (100 * c + 4 * 24 + 3 + 1)" and c: "0 \<le> c" "c \<le> 3"
  have e: "100 * c + 4 * 24 + 3 + 1 = 100 * (c + 1)" by simp
  have "100 * (c + 1) mod 100 = 0" by simp
  then have "400 dvd 100 * (c + 1)" using l unfolding leap_def dvd_eq_mod_eq_0 e by metis
  then have "100 * 4 dvd 100 * (c + 1)" by simp
  then have "4 dvd c + 1" by (simp only: dvd_mult_cancel_left) simp
  then show "c = 3" using c zdvd_imp_le [of 4 "c + 1"] by linarith
qed

lemma year_of_era:
  assumes "era_date r doy"
  defines "n \<equiv> era_day r doy"
  shows "0 \<le> n" "n \<le> 146096" "(n - n div 1460 + n div 36524 - n div 146096) div 365 = r"
proof -
  have r: "0 \<le> r" "r < 400" and doy: "0 \<le> doy" "doy \<le> 365" using assms(1) by (simp_all add: era_date_def)
  from r obtain c f b where p: "r = 100 * c + 4 * f + b" "0 \<le> c" "c \<le> 3" "0 \<le> f" "f \<le> 24" "0 \<le> b" "b \<le> 3"
    "r div 4 = 25 * c + f" "r div 100 = c" by (rule era_parts)
  have n: "n = 36524 * c + 1461 * f + 365 * b + doy" unfolding n_def era_day_def p(8,9) using p(1) by simp
  have b3: "b = 3" if "doy = 365" using that assms(1) p leap_part [of c f b] by (simp add: era_date_def)
  have c3: "c = 3" if "doy = 365" "f = 24"
    using that b3 assms(1) p(1-3) leap_century [of c] by (simp add: era_date_def)
  show "0 \<le> n" using n p doy by simp
  define d where "d = (if 24 * c + f + 365 * b + doy \<ge> 1460 then 1 else 0 :: int)"
  have q1: "n div 1460 = 25 * c + f + d"
    by (rule int_div_pos_eq [where r = "24 * c + f + 365 * b + doy - 1460 * d"]) (use n p doy in \<open>auto simp: d_def\<close>)
  have "doy = 365 \<Longrightarrow> 24 * c + f + 365 * b + doy \<ge> 1460" using b3 p(2,4) by simp
  then have d: "0 \<le> doy - d" "doy - d < 365" using p(2-7) doy unfolding d_def by (cases "doy = 365"; simp)+
  have q: "n div 36524 - n div 146096 = c \<and> n \<le> 146096"
  proof (cases "doy = 365 \<and> f = 24")
    case True
    then have "n = 146096" using n b3 c3 by simp
    then show ?thesis using c3 True by simp
  next
    case False
    then have "1461 * f + 365 * b + doy < 36524" using p doy by linarith
    moreover from this have "n < 146096" using n p by linarith
    moreover have "0 \<le> 1461 * f + 365 * b + doy" using p doy by simp
    ultimately show ?thesis
      using n int_div_pos_eq [of n 36524 c "1461 * f + 365 * b + doy"] \<open>0 \<le> n\<close> by simp
  qed
  then show "n \<le> 146096" ..
  have "n - n div 1460 + n div 36524 - n div 146096 = 365 * r + (doy - d)"
  proof -
    have "n - (25 * c + f + d) + c = 365 * r + (doy - d)" using n p(1) by simp
    then show ?thesis using q q1 by linarith
  qed
  then show "(n - n div 1460 + n div 36524 - n div 146096) div 365 = r"
    using d by (simp add: int_div_pos_eq)
qed


definition month_part :: "int \<Rightarrow> int" where
  "month_part m = (if m > 2 then m - 3 else m + 9)"

definition year_day :: "int \<Rightarrow> int \<Rightarrow> int" where
  "year_day m d = (153 * month_part m + 2) div 5 + d - 1"

lemma month_parts:
  assumes "1 \<le> m" "m \<le> 12" "1 \<le> d" "d \<le> month_days y m"
  shows "0 \<le> year_day m d" "year_day m d \<le> 365" "year_day m d = 365 \<Longrightarrow> m = 2 \<and> leap y"
    "(5 * year_day m d + 2) div 153 = month_part m" "0 \<le> month_part m" "month_part m \<le> 11"
proof -
  have "0 \<le> year_day m d \<and> year_day m d \<le> 365 \<and> (year_day m d = 365 \<longrightarrow> m = 2 \<and> leap y) \<and>
    0 \<le> 5 * year_day m d + 2 - 153 * month_part m \<and> 5 * year_day m d + 2 - 153 * month_part m < 153"
    using months [OF assms(1,2)] assms(3,4) unfolding insert_iff empty_iff
    by (elim disjE) (simp_all add: year_day_def month_part_def month_days_def split: if_splits)
  note * = this [THEN conjunct1] this [THEN conjunct2]
  show "0 \<le> year_day m d" "year_day m d \<le> 365" "year_day m d = 365 \<Longrightarrow> m = 2 \<and> leap y" using * by simp_all
  show "(5 * year_day m d + 2) div 153 = month_part m"
    by (rule int_div_pos_eq [where r = "5 * year_day m d + 2 - 153 * month_part m"]) (use * in simp_all)
  show "0 \<le> month_part m" "month_part m \<le> 11" using assms(1,2) by (auto simp: month_part_def)
qed

lemma mod_period: "n dvd (400 :: int) \<Longrightarrow> (y mod 400 + 1) mod n = (y + 1) mod n"
  by (subst (1 2) mod_add_left_eq [symmetric]) (simp only: mod_mod_cancel)

lemma leap_period: "leap (y mod 400 + 1) = leap (y + 1)"
proof -
  have "(4 :: int) dvd 400" "(100 :: int) dvd 400" "(400 :: int) dvd 400" by simp_all
  from this [THEN mod_period, of y] show ?thesis unfolding leap_def by (simp only:)
qed

lemma CivilFromDays_civil:
  assumes "in_month d"
  shows "CivilFromDays (civil (dt_year d) (dt_month d) (dt_day d) + 719468) = d"
proof -
  define y m where "y = dt_year d" and "m = dt_month d"
  define y' where "y' = y - (if m \<le> 2 then 1 else 0)"
  define r doy where "r = y' mod 400" and "doy = year_day m (dt_day d)"
  have v: "1 \<le> m" "m \<le> 12" "1 \<le> dt_day d" "dt_day d \<le> month_days y m"
    using assms by (simp_all add: in_month_def y_def m_def)
  note mp = month_parts [OF v(1-4), folded doy_def]
  have e: "era_date r doy"
    using mp(1-3) leap_period [of y'] by (auto simp: era_date_def r_def y'_def)
  define n where "n = era_day r doy"
  note n = year_of_era [OF e, folded n_def]
  have c: "civil y m (dt_day d) + 719468 = y' div 400 * 146097 + n"
    using civil_era [of y'] unfolding civil_def Let_def y'_def [symmetric] month_part_def [symmetric] n_def era_day_def r_def doy_def year_day_def
    by (simp only: diff_add_eq diff_diff_eq add_diff_eq add.assoc)
  have era: "(y' div 400 * 146097 + n) div 146097 = y' div 400" using n(1,2) by simp
  have doe: "y' div 400 * 146097 + n - y' div 400 * 146097 = n" by simp
  define V where "V = n - n div 1460 + n div 36524 - n div 146096"
  have V: "V div 365 = r" "0 \<le> V" "V < 146000"
    using n(3) div_bounds [of 365 V] e unfolding V_def [symmetric] era_date_def by simp_all
  have "365 * r + r div 4 - r div 100 = n - doy" by (simp add: n_def era_day_def)
  then have doy: "n - (365 * r + r div 4 - r div 100) = doy" by simp
  have day: "doy - (153 * month_part m + 2) div 5 + 1 = dt_day d" by (simp add: doy_def year_day_def)
  have year: "r + y' div 400 * 400 = y'" by (simp add: r_def)
  have month: "(if month_part m < 10 then month_part m + 3 else month_part m - 9) = m"
    using v(1,2) by (auto simp: month_part_def)
  have u: "u32 n = n" "u32 V = V" "u32 doy = doy" "u32 (5 * doy + 2) = 5 * doy + 2" "u32 (153 * month_part m + 2) = 153 * month_part m + 2"
    "u32 (dt_day d) = dt_day d"
    using n(1,2) V mp v(3,4) by (simp_all add: month_days_def split: if_splits)
  have y: "y' + (if m \<le> 2 then 1 else 0) = y" by (simp add: y'_def)
  have fl: "(if x \<ge> 0 then x else x - 146096) sdiv 146097 = x div 146097" for x :: int by (rule floor_sdiv) simp_all
  have "CivilFromDays (civil y m (dt_day d) + 719468) = \<lparr>dt_year = y, dt_month = m, dt_day = dt_day d\<rparr>"
    unfolding CivilFromDays_def Let_def c fl era doe u(1) V_def [symmetric] u(2) V(1) doy u(3,4) mp(4) u(5) day u(6) year month y ..
  then show ?thesis by (simp add: y_def m_def)
qed


section \<open>Day numbers count the days\<close>

definition next_day :: "Date \<Rightarrow> Date" where
  "next_day d =
     (if dt_day d < month_days (dt_year d) (dt_month d) then d\<lparr>dt_day := dt_day d + 1\<rparr>
      else if dt_month d < 12 then d\<lparr>dt_month := dt_month d + 1, dt_day := 1\<rparr>
      else d\<lparr>dt_year := dt_year d + 1, dt_month := 1, dt_day := 1\<rparr>)"

definition date_number :: "Date \<Rightarrow> int" where
  "date_number d = civil (dt_year d) (dt_month d) (dt_day d)"

lemma civil_parts: "civil y m d = civil y m 1 + d - 1"
  by (simp add: civil_def Let_def)

lemma div_succ:
  assumes "0 < n"
  shows "(z + 1) div n = z div n + (if (z + 1) mod n = 0 then 1 else (0 :: int))"
proof -
  define q r where "q = (z + 1) div n" and "r = (z + 1) mod n"
  have z: "z + 1 = n * q + r" "0 \<le> r" "r < n" using assms by (simp_all add: q_def r_def)
  have "z div n = (if r = 0 then q - 1 else q)"
    using z by (intro int_div_pos_eq [where r = "if r = 0 then n - 1 else r - 1"]) (auto simp: algebra_simps)
  then show ?thesis unfolding q_def [symmetric] r_def [symmetric] by simp
qed

lemma leap_next: "year_start y = year_start (y - 1) + 365 + (if leap y then 1 else 0)"
proof -
  define a b c where "a \<longleftrightarrow> y mod 4 = 0" and "b \<longleftrightarrow> y mod 100 = 0" and "c \<longleftrightarrow> y mod 400 = 0"
  define p q r where "p = (y - 1) div 4" and "q = (y - 1) div 100" and "r = (y - 1) div 400"
  have "c \<Longrightarrow> b" "b \<Longrightarrow> a"
    unfolding a_def b_def c_def dvd_eq_mod_eq_0 [symmetric] by (rule dvd_trans; simp)+
  moreover have "y div 4 = p + (if a then 1 else 0)" "y div 100 = q + (if b then 1 else 0)" "y div 400 = r + (if c then 1 else 0)"
    using div_succ [of 4 "y - 1"] div_succ [of 100 "y - 1"] div_succ [of 400 "y - 1"]
    unfolding a_def b_def c_def p_def q_def r_def by (simp_all only: diff_add_cancel zero_less_numeral simp_thms)
  ultimately show ?thesis
    unfolding year_start_def leap_def a_def [symmetric] b_def [symmetric] c_def [symmetric] p_def [symmetric] q_def [symmetric]
      r_def [symmetric] by (cases a; cases b; cases c) simp_all
qed

lemma civil_next_month:
  assumes "1 \<le> m" "m \<le> 11"
  shows "civil y (m + 1) 1 = civil y m 1 + month_days y m"
proof -
  have "m \<in> {1, 2, 3, 4, 5, 6, 7, 8, 9, 10, 11}" using months [of m] assms by auto
  then show ?thesis
    unfolding insert_iff empty_iff using leap_next [of y] by (elim disjE) (simp_all add: civil_def Let_def month_days_def)
qed

lemma civil_next_year: "civil (y + 1) 1 1 = civil y 12 1 + 31"
  by (simp add: civil_def Let_def)

lemma month_days_bounds: "28 \<le> month_days y m" "month_days y m \<le> 31"
  by (simp_all add: month_days_def)

lemma next_day_number:
  assumes "in_month d"
  shows "date_number (next_day d) = date_number d + 1" "in_month (next_day d)"
proof -
  have d: "1 \<le> dt_month d" "dt_month d \<le> 12" "1 \<le> dt_day d" "dt_day d \<le> month_days (dt_year d) (dt_month d)"
    using assms by (simp_all add: in_month_def)
  show "date_number (next_day d) = date_number d + 1"
    using civil_next_month [of "dt_month d" "dt_year d"] civil_next_year [of "dt_year d"] d
      civil_parts [of "dt_year d" "dt_month d" "dt_day d"] civil_parts [of "dt_year d" "dt_month d" "dt_day d + 1"]
    by (cases "dt_month d = 12") (auto simp: next_day_def date_number_def month_days_def)
  show "in_month (next_day d)"
    using d month_days_bounds(1) [of "dt_year d" "dt_month d + 1"] month_days_bounds(1) [of "dt_year d + 1" 1]
    by (auto simp: next_day_def in_month_def)
qed

lemma date_of_nat: "\<exists>d. in_month d \<and> date_number d = int n"
proof (induction n)
  case 0
  have "in_month \<lparr>dt_year = 1970, dt_month = 1, dt_day = 1\<rparr> \<and> date_number \<lparr>dt_year = 1970, dt_month = 1, dt_day = 1\<rparr> = 0"
    by (simp add: in_month_def month_days_def date_number_def civil_def year_start_def)
  then show ?case by auto
next
  case (Suc n)
  then show ?case using next_day_number by (metis of_nat_Suc add.commute)
qed

lemma civil_cycle: "civil (y - 400 * k) m d = civil y m d - 146097 * k"
proof -
  have "year_start (z - 400 * k) = year_start z - 146097 * k" for z
  proof -
    have "z - 400 * k = z + (- k) * 400" by simp
    then have "(z - 400 * k) div 400 = z div 400 - k" "(z - 400 * k) mod 400 = z mod 400"
      using div_mult_self1 [of 400 z "- k"] mod_mult_self1 [of z "- k" 400] by (simp_all only:)
    then show ?thesis unfolding civil_era by (simp only: left_diff_distrib)
  qed
  then show ?thesis by (simp add: civil_def Let_def diff_right_commute)
qed

lemma leap_cycle: "leap (y - 400 * k) = leap y"
proof -
  have "(4 :: int) dvd 400 * k" "(100 :: int) dvd 400 * k" "(400 :: int) dvd 400 * k" by (simp_all add: dvd_mult2)
  then show ?thesis unfolding leap_def by (simp only: dvd_eq_mod_eq_0 [symmetric] dvd_diff_left_iff)
qed

lemma date_of_number: "\<exists>d. in_month d \<and> date_number d = n"
proof -
  define k where "k = \<bar>n\<bar>"
  have "0 \<le> n + 146097 * k" by (simp add: k_def)
  then obtain d where d: "in_month d" "date_number d = n + 146097 * k" using date_of_nat [of "nat (n + 146097 * k)"] by auto
  have "month_days (dt_year d - 400 * k) = month_days (dt_year d)" by (intro ext) (simp only: month_days_def leap_cycle)
  then have "in_month (d\<lparr>dt_year := dt_year d - 400 * k\<rparr>)" using d(1) by (simp add: in_month_def)
  moreover have "date_number (d\<lparr>dt_year := dt_year d - 400 * k\<rparr>) = n" using d(2) by (simp add: date_number_def civil_cycle)
  ultimately show ?thesis by blast
qed

lemma ToSysDays_number: "ToSysDays d = Inr n \<longleftrightarrow> valid_date d \<and> n = date_number d"
proof (cases "valid_date d")
  case True
  then have "dt_day d \<le> 31" using month_days_bounds(2) [of "dt_year d" "dt_month d"] by (simp add: valid_date_def in_month_def)
  then have "DaysFromCivil (dt_year d) (dt_month d) (dt_day d) = date_number d"
    using True unfolding date_number_def by (intro DaysFromCivil_civil) (auto simp: valid_date_def in_month_def)
  then show ?thesis using True ValidateDate_valid [of d] by (auto simp: ToSysDays_def)
next
  case False
  then show ?thesis using ValidateDate_valid [of d] by (auto simp: ToSysDays_def)
qed

lemma CivilFromDays_number: "in_month d \<Longrightarrow> CivilFromDays (date_number d + 719468) = d"
  unfolding date_number_def by (rule CivilFromDays_civil)

lemma valid_number:
  assumes "valid_date d"
  shows "date_number d + 719468 \<le> 2 ^ 63 - 1"
proof -
  define y where "y = dt_year d - (if dt_month d \<le> 2 then 1 else 0)"
  have m: "1 \<le> dt_month d" "dt_month d \<le> 12" "dt_day d \<le> 31"
    using assms month_days_bounds(2) [of "dt_year d" "dt_month d"] by (simp_all add: valid_date_def in_month_def)
  have y: "- 1000000000 \<le> y" "y \<le> 999999999"
    using assms by (auto simp: valid_date_def year_ok_def kMinimumYear_def kMaximumYear_def y_def)
  have "y div 4 \<le> 999999999 div 4" "- 1000000000 div 100 \<le> y div 100" "y div 400 \<le> 999999999 div 400"
    using y by (intro zdiv_mono1; simp)+
  moreover have "(153 * (if dt_month d > 2 then dt_month d - 3 else dt_month d + 9) + 2) div 5 \<le> (153 * 11 + 2) div 5"
    using m(2) by (intro zdiv_mono1) auto
  ultimately show ?thesis
    using y(2) m(3) unfolding date_number_def civil_def Let_def y_def [symmetric] year_start_def by simp
qed

lemma FromSysDays_number: "FromSysDays n = Inr d \<longleftrightarrow> valid_date d \<and> n = date_number d"
proof (cases "n + 719468 > 2 ^ 63 - 1")
  case True
  then show ?thesis using valid_number [of d] by (auto simp: FromSysDays_def)
next
  case False
  obtain d' where d': "in_month d'" "date_number d' = n" using date_of_number by blast
  have f: "FromSysDays n = (if year_ok (dt_year d') then Inr d' else InvalidTemporal ''year is out of range'')"
    using CivilFromDays_number [OF d'(1)] d'(2) False by (simp add: FromSysDays_def Let_def year_ok_def not_less)
  have "d = d'" if "valid_date d" "n = date_number d"
    using CivilFromDays_number [of d] CivilFromDays_number [OF d'(1)] d'(2) that by (simp add: valid_date_def)
  then show ?thesis using f d' by (auto simp: InvalidTemporal_def valid_date_def split: if_splits)
qed


section \<open>Years and weeks\<close>

lemma civil_month_up: "1 \<le> m \<Longrightarrow> m \<le> 12 \<longrightarrow> civil y 1 1 \<le> civil y m 1"
proof (induction m rule: int_ge_induct)
  case (step m)
  then show ?case using civil_next_month [of m y] month_days_bounds(1) [of y m] by linarith
qed simp

lemma civil_month_down: "m \<le> 12 \<Longrightarrow> 1 \<le> m \<longrightarrow> civil y m 1 + month_days y m \<le> civil (y + 1) 1 1"
proof (induction m rule: int_le_induct)
  case base
  then show ?case using civil_next_year [of y] by (simp add: month_days_def)
next
  case (step m)
  then show ?case using civil_next_month [of "m - 1" y] month_days_bounds(1) [of y m] by fastforce
qed

lemma date_in_year:
  assumes "in_month d"
  shows "civil (dt_year d) 1 1 \<le> date_number d" "date_number d < civil (dt_year d + 1) 1 1"
  using assms civil_month_up [of "dt_month d" "dt_year d"] civil_month_down [of "dt_month d" "dt_year d"] civil_parts [of "dt_year d" "dt_month d" "dt_day d"]
  by (auto simp: in_month_def date_number_def)

lemma year_length: "civil (y + 1) 1 1 = civil y 1 1 + (if leap y then 366 else 365)"
  using leap_next [of y] by (simp add: civil_def Let_def)

lemma year_mono: "y \<le> z \<Longrightarrow> civil y 1 1 \<le> civil z 1 1"
proof -
  have "civil y 1 1 \<le> civil (y + int n) 1 1" for n
  proof (induction n)
    case (Suc n)
    then show ?case using year_length [of "y + int n"] by (simp add: ac_simps)
  qed simp
  from this [of "nat (z - y)"] show "y \<le> z \<Longrightarrow> civil y 1 1 \<le> civil z 1 1" by simp
qed

lemma year_of_number:
  assumes "in_month d" "civil y 1 1 \<le> date_number d" "date_number d < civil (y + 1) 1 1"
  shows "dt_year d = y"
proof (rule ccontr)
  assume "dt_year d \<noteq> y"
  then consider "dt_year d + 1 \<le> y" | "y + 1 \<le> dt_year d" by linarith
  then show False using date_in_year [OF assms(1)] assms(2,3) year_mono by cases (smt (verit))+
qed

lemma january_first: "date_number \<lparr>dt_year = y, dt_month = 1, dt_day = k\<rparr> = civil y 1 1 + k - 1"
  using civil_parts [of y 1 k] by (simp add: date_number_def)

lemma january_valid: "1 \<le> k \<Longrightarrow> k \<le> 31 \<Longrightarrow> valid_date \<lparr>dt_year = y, dt_month = 1, dt_day = k\<rparr> \<longleftrightarrow> year_ok y"
  by (simp add: valid_date_def in_month_def month_days_def)

lemma valid_in_month [simp]: "valid_date d \<Longrightarrow> in_month d"
  by (simp add: valid_date_def)

lemma valid_year [simp]: "valid_date d \<Longrightarrow> year_ok (dt_year d)"
  by (simp add: valid_date_def)

lemma january_number: "1 \<le> k \<Longrightarrow> k \<le> 31 \<Longrightarrow> year_ok y \<Longrightarrow>
    ToSysDays \<lparr>dt_year = y, dt_month = 1, dt_day = k\<rparr> = Inr (civil y 1 1 + k - 1)"
  by (simp add: ToSysDays_number january_valid january_first)

lemma january_refused: "1 \<le> k \<Longrightarrow> k \<le> 31 \<Longrightarrow> \<not> year_ok y \<Longrightarrow>
    \<exists>e. ToSysDays \<lparr>dt_year = y, dt_month = 1, dt_day = k\<rparr> = Inl e"
  using ToSysDays_number [of "\<lparr>dt_year = y, dt_month = 1, dt_day = k\<rparr>"] january_valid [of k y]
  by (cases "ToSysDays \<lparr>dt_year = y, dt_month = 1, dt_day = k\<rparr>") auto

lemma OrdinalDay_number:
  "OrdinalDay d = Inr k \<longleftrightarrow> valid_date d \<and> k = date_number d - civil (dt_year d) 1 1 + 1"
proof (cases "valid_date d")
  case True
  then have "ToSysDays d = Inr (date_number d)" by (simp add: ToSysDays_number)
  then show ?thesis using True january_number [of 1 "dt_year d"] by (auto simp: OrdinalDay_def)
next
  case False
  then show ?thesis using ToSysDays_number [of d] by (auto simp: OrdinalDay_def)
qed

lemma DateFromOrdinal_number:
  "DateFromOrdinal y k = Inr d \<longleftrightarrow>
     1 \<le> k \<and> k \<le> (if leap y then 366 else 365) \<and> year_ok y \<and> valid_date d \<and> date_number d = civil y 1 1 + k - 1"
  using january_number [of 1 y] january_refused [of 1 y]
  by (cases "year_ok y") (auto simp: DateFromOrdinal_def InvalidTemporal_def FromSysDays_number Let_def)

text \<open>The Monday of the week of a day.\<close>

definition monday :: "int \<Rightarrow> int" where
  "monday n = n - (n + 3) mod 7"

lemma monday_bounds: "monday n \<le> n" "n < monday n + 7"
  using pos_mod_bound [of 7 "n + 3"] pos_mod_sign [of 7 "n + 3"] by (simp_all add: monday_def)

lemma monday_sevenths: "\<exists>k. monday n = 7 * k - 3"
proof
  show "monday n = 7 * ((n + 3) div 7) - 3" using mult_div_mod_eq [of 7 "n + 3"] unfolding monday_def by linarith
qed

lemma weekday_monday: "IsoWeekday n = n - monday n + 1"
  by (simp add: IsoWeekday_def monday_def)

text \<open>The week is the one of its Thursday: it lies in the year of the Thursday and counts from the week of 4 January.\<close>

lemma IsoWeekComponents_number:
  "IsoWeekComponents d = Inr w \<longleftrightarrow> valid_date d \<and>
     (\<exists>t. valid_date t \<and> date_number t = monday (date_number d) + 3 \<and>
       w = \<lparr>iw_year = dt_year t, iw_week = (date_number d - monday (civil (dt_year t) 1 1 + 3)) sdiv 7 + 1,
            iw_weekday = date_number d - monday (date_number d) + 1\<rparr>)"
proof (cases "valid_date d")
  case True
  let ?n = "monday (date_number d) + 3"
  have "date_number d + (4 - IsoWeekday (date_number d)) = ?n" "ToSysDays d = Inr (date_number d)"
    using True by (simp_all add: weekday_monday ToSysDays_number)
  then have I: "IsoWeekComponents d = bindR (FromSysDays ?n) (\<lambda>t.
      bindR (ToSysDays \<lparr>dt_year = dt_year t, dt_month = 1, dt_day = 4\<rparr>) (\<lambda>j.
        Inr \<lparr>iw_year = dt_year t, iw_week = (date_number d - monday j) sdiv 7 + 1,
             iw_weekday = date_number d - monday (date_number d) + 1\<rparr>))"
    unfolding IsoWeekComponents_def Let_def by (simp only: bindR_Inr) (simp add: weekday_monday)
  show ?thesis
  proof (cases "FromSysDays ?n")
    case (Inl e)
    then have "\<not> (valid_date t \<and> date_number t = ?n)" for t using FromSysDays_number [of ?n t] by auto
    then show ?thesis unfolding I Inl bindR_Inl by blast
  next
    case (Inr t)
    then have t: "valid_date t" "date_number t = ?n" using FromSysDays_number by auto
    then have u: "t' = t" if "valid_date t'" "date_number t' = ?n" for t' using that Inr FromSysDays_number [of ?n t'] by simp
    have "IsoWeekComponents d = Inr \<lparr>iw_year = dt_year t, iw_week = (date_number d - monday (civil (dt_year t) 1 1 + 3)) sdiv 7 + 1,
        iw_weekday = date_number d - monday (date_number d) + 1\<rparr>"
      using january_number [of 4 "dt_year t"] t(1) unfolding I Inr by (simp add: add.commute)
    then show ?thesis using True t u by (metis sum.inject(2))
  qed
next
  case False
  then show ?thesis using ToSysDays_number [of d] by (cases "ToSysDays d") (auto simp: IsoWeekComponents_def)
qed

lemma sdiv_nonneg: "0 \<le> x \<Longrightarrow> x sdiv 7 = (x :: int) div 7"
  by (cases "x = 0") (simp_all add: signed_divide_int_def sgn_if)

lemma week_of_year:
  assumes "in_month t" "date_number t = monday n + 3"
  defines "w \<equiv> (n - monday (civil (dt_year t) 1 1 + 3)) sdiv 7 + 1"
  shows "1 \<le> w" "w \<le> 53" "monday (civil (dt_year t) 1 1 + 3) + (w - 1) * 7 = monday n"
proof -
  let ?j = "civil (dt_year t) 1 1 + 3"
  obtain a b where ab: "monday n = 7 * a - 3" "monday ?j = 7 * b - 3" using monday_sevenths by metis
  have r: "?j - 3 \<le> monday n + 3" "monday n + 3 < ?j - 3 + 366"
    using date_in_year [OF assms(1)] year_length [of "dt_year t"] assms(2) by (auto split: if_splits)
  have "b \<le> a" "a \<le> b + 52" using r ab monday_bounds [of ?j] by linarith+
  moreover have "(n - monday ?j) div 7 = a - b" using ab monday_bounds [of n] by (intro int_div_pos_eq [of _ _ _ "n - monday n"]) auto
  moreover have "0 \<le> n - monday ?j" using \<open>b \<le> a\<close> ab monday_bounds [of n] by linarith
  ultimately show "1 \<le> w" "w \<le> 53" "monday ?j + (w - 1) * 7 = monday n" using ab by (simp_all add: w_def sdiv_nonneg)
qed

section \<open>Properties\<close>

text \<open>
  C31: Dates and day numbers are two representations of the same thing. \<open>ToSysDays\<close> accepts exactly the dates of the
  proleptic Gregorian calendar whose year is within \<open>kMinimumYear\<close> and \<open>kMaximumYear\<close>; it maps a date to a number
  exactly when \<open>FromSysDays\<close> maps the number back to the date, so the conversions are inverse to each other in both
  directions, the years before 0 included; and day 0 is 1 January 1970.
\<close>

theorem civil_round_trip:
  "(ToSysDays d = Inr n \<longleftrightarrow> FromSysDays n = Inr d) \<and> ((\<exists>k. ToSysDays d = Inr k) \<longleftrightarrow> valid_date d) \<and>
   ToSysDays \<lparr>dt_year = 1970, dt_month = 1, dt_day = 1\<rparr> = Inr 0"
proof -
  have "valid_date \<lparr>dt_year = 1970, dt_month = 1, dt_day = 1\<rparr>" "date_number \<lparr>dt_year = 1970, dt_month = 1, dt_day = 1\<rparr> = 0"
    by (simp_all add: valid_date_def in_month_def month_days_def date_number_def civil_def year_start_def year_ok_def
      kMinimumYear_def kMaximumYear_def)
  then have "ToSysDays \<lparr>dt_year = 1970, dt_month = 1, dt_day = 1\<rparr> = Inr 0" using ToSysDays_number by simp
  then show ?thesis using ToSysDays_number [of d] FromSysDays_number [of n d] by blast
qed

text \<open>
  C32: Day numbers count days: the day after a date, in the month, at the end of a month, on 28 and 29 February and
  at the end of a year, has the next number, as long as its year is in range.
\<close>

theorem day_numbers_count:
  assumes "ToSysDays d = Inr n" "year_ok (dt_year (next_day d))"
  shows "ToSysDays (next_day d) = Inr (n + 1) \<and> FromSysDays (n + 1) = Inr (next_day d)"
proof -
  have d: "valid_date d" "n = date_number d" using assms(1) ToSysDays_number by blast+
  then have "valid_date (next_day d)" "n + 1 = date_number (next_day d)"
    using next_day_number [OF valid_in_month] assms(2) unfolding valid_date_def by auto
  then show ?thesis using ToSysDays_number FromSysDays_number by blast
qed

theorem day_numbers_count_witness:
  "ToSysDays \<lparr>dt_year = 2024, dt_month = 2, dt_day = 28\<rparr> = Inr 19781 \<and>
   ToSysDays \<lparr>dt_year = 2024, dt_month = 2, dt_day = 29\<rparr> = Inr 19782 \<and>
   FromSysDays 19782 = Inr \<lparr>dt_year = 2024, dt_month = 2, dt_day = 29\<rparr>"
proof -
  let ?d = "\<lparr>dt_year = 2024, dt_month = 2, dt_day = 28\<rparr>"
  have "valid_date ?d" "date_number ?d = 19781"
    by (simp_all add: valid_date_def in_month_def month_days_def date_number_def civil_def year_start_def year_ok_def
      kMinimumYear_def kMaximumYear_def)
  then have t: "ToSysDays ?d = Inr 19781" using ToSysDays_number by simp
  have n: "next_day ?d = \<lparr>dt_year = 2024, dt_month = 2, dt_day = 29\<rparr>" by (simp add: next_day_def month_days_def leap_def)
  then have "year_ok (dt_year (next_day ?d))" by (simp add: year_ok_def kMinimumYear_def kMaximumYear_def)
  then show ?thesis using day_numbers_count [OF t] t n by simp
qed

text \<open>
  C33: Ordinal days: \<open>OrdinalDay\<close> gives a date the number \<open>k\<close> exactly when \<open>DateFromOrdinal\<close> finds the date as day
  \<open>k\<close> of the date's year; a number that is not a day of the year is refused.
\<close>

theorem ordinal_round_trip:
  "(dt_year d = y \<and> OrdinalDay d = Inr k) = (DateFromOrdinal y k = Inr d)"
proof
  assume l: "dt_year d = y \<and> OrdinalDay d = Inr k"
  then have v: "valid_date d" "k = date_number d - civil y 1 1 + 1" by (auto simp: OrdinalDay_number)
  then show "DateFromOrdinal y k = Inr d"
    using l date_in_year [of d] year_length [of y] valid_year [of d] by (simp add: DateFromOrdinal_number)
next
  assume "DateFromOrdinal y k = Inr d"
  then have v: "1 \<le> k" "k \<le> (if leap y then 366 else 365)" "valid_date d" "date_number d = civil y 1 1 + k - 1"
    by (simp_all add: DateFromOrdinal_number)
  then have "dt_year d = y" using year_length [of y] by (intro year_of_number) auto
  then show "dt_year d = y \<and> OrdinalDay d = Inr k" using v by (simp add: OrdinalDay_number)
qed

text \<open>
  C34: ISO weeks: \<open>IsoWeekComponents\<close> gives a date the week \<open>w\<close> of the week year \<open>y\<close> and the weekday \<open>k\<close> exactly when
  \<open>DateFromIsoWeek\<close> finds the date from them. The check of \<open>DateFromIsoWeek\<close> that rejects a result with other
  components rejects no week that a date has, and every week it accepts is the week of the date.
\<close>

theorem iso_week_round_trip:
  "(IsoWeekComponents d = Inr \<lparr>iw_year = y, iw_week = w, iw_weekday = k\<rparr>) = (DateFromIsoWeek y w k = Inr d)"
proof
  assume l: "IsoWeekComponents d = Inr \<lparr>iw_year = y, iw_week = w, iw_weekday = k\<rparr>"
  then obtain t where t: "valid_date d" "valid_date t" "date_number t = monday (date_number d) + 3" "y = dt_year t"
      "w = (date_number d - monday (civil y 1 1 + 3)) sdiv 7 + 1" "k = date_number d - monday (date_number d) + 1"
    by (auto simp: IsoWeekComponents_number)
  note wk = week_of_year [OF valid_in_month [OF t(2)] t(3)]
  have b: "\<not> (w < 1 \<or> w > 53 \<or> k < 1 \<or> k > 7)"
    using wk(1,2) monday_bounds [of "date_number d"] unfolding t(4-6) by auto
  have "monday (civil y 1 1 + 3) + (w - 1) * 7 = monday (date_number d)" using wk(3) unfolding t(4,5) .
  then have "FromSysDays (civil y 1 1 + 3 - (IsoWeekday (civil y 1 1 + 3) - 1) + ((w - 1) * 7 + k - 1)) = Inr d"
    unfolding FromSysDays_number weekday_monday t(6) using t(1) by linarith
  moreover have "ToSysDays \<lparr>dt_year = y, dt_month = 1, dt_day = 4\<rparr> = Inr (civil y 1 1 + 3)"
    using january_number [of 4 y] valid_year [OF t(2)] unfolding t(4) by simp
  ultimately show "DateFromIsoWeek y w k = Inr d"
    using b l unfolding DateFromIsoWeek_def Let_def by (simp only: bindR_Inr if_False) simp
next
  assume "DateFromIsoWeek y w k = Inr d"
  then show "IsoWeekComponents d = Inr \<lparr>iw_year = y, iw_week = w, iw_weekday = k\<rparr>"
    by (auto simp: DateFromIsoWeek_def Let_def InvalidTemporal_def split: if_splits)
qed

end
