(* ===== verification/BoltPrint.thy ===== *)
theory BoltPrint
  imports PackMessage Calendar
begin

text \<open>
  The text of Bolt values in the log (\<open>src/bolt/to_string.h\<close>) and the text of points in time that it uses
  (\<open>src/value/temporal.cc\<close>). A value becomes a JSON value, which Boost writes: \<open>serialize\<close>, a parameter here. What
  matters beyond the log is that \<open>Print\<close> throws for some values, because the reader of a connection calls it
  while it handles a message. \<open>int64_t\<close> arithmetic that overflows is undefined, and so is \<open>std::abs\<close> of the least
  \<open>int\<close>. The path type of the client library has no place in \<open>any\<close>, so its text is left out.
\<close>

section \<open>Points in time\<close>

definition int32_cast :: "int \<Rightarrow> int" where
  "int32_cast i = (i + 2 ^ 31) mod 2 ^ 32 - 2 ^ 31"

definition checked64 :: "int \<Rightarrow> int res" where
  "checked64 i = (if int64 i then Inr i else Inl (Undefined ''signed overflow''))"

text \<open>\<open>std::setw\<close> with the fill character \<open>0\<close>.\<close>

definition setw :: "nat \<Rightarrow> string \<Rightarrow> string" where
  "setw n s = replicate (n - length s) CHR ''0'' @ s"

definition FormatOffset :: "int \<Rightarrow> string res" where
  "FormatOffset offset_seconds =
     (if offset_seconds = 0 then Inr ''Z''
      else if offset_seconds = - (2 ^ 31) then Inl (Undefined ''abs'')
      else let sign = (if offset_seconds < 0 then ''-'' else ''+'');
               remaining = \<bar>offset_seconds\<bar>;
               hours = remaining div 3600;
               minutes = remaining mod 3600 div 60;
               seconds = remaining mod 3600 mod 60
           in Inr (sign @ setw 2 (show_int hours) @ '':'' @ setw 2 (show_int minutes) @
                (if seconds \<noteq> 0 then '':'' @ setw 2 (show_int seconds) else [])))"

definition FormatYear :: "int \<Rightarrow> string" where
  "FormatYear year = (if year < 0 then ''-'' else if year > 9999 then ''+'' else []) @ setw 4 (show_int \<bar>year\<bar>)"

definition FormatFraction :: "int \<Rightarrow> string res" where
  "FormatFraction nanosecond =
     (if nanosecond = 0 then Inr []
      else if nanosecond = - (2 ^ 31) then Inl (Undefined ''abs'')
      else Inr (rev (dropWhile (\<lambda>c. c = CHR ''0'') (rev (setw 9 (show_int \<bar>nanosecond\<bar>))))))"

definition FormatDate :: "Date \<Rightarrow> string res" where
  "FormatDate date =
     bindR (ToSysDays date) (\<lambda>_.
       Inr (FormatYear (dt_year date) @ ''-'' @ setw 2 (show_int (dt_month date)) @ ''-'' @ setw 2 (show_int (dt_day date))))"

definition FormatLocalTime :: "LocalTime \<Rightarrow> string res" where
  "FormatLocalTime time =
     (let out = setw 2 (show_int (lt_hour time)) @ '':'' @ setw 2 (show_int (lt_minute time)) in
      if lt_has_seconds time \<or> lt_second time \<noteq> 0 \<or> lt_nanosecond time \<noteq> 0
      then bindR (FormatFraction (lt_nanosecond time)) (\<lambda>fraction.
        Inr (out @ '':'' @ setw 2 (show_int (lt_second time)) @ (if fraction = [] then [] else ''.'' @ fraction)))
      else Inr out)"

definition zone_suffix :: "string \<Rightarrow> string" where
  "zone_suffix timezone = (if timezone = [] then [] else ''['' @ timezone @ '']'')"

definition FormatTime :: "Time \<Rightarrow> string res" where
  "FormatTime time =
     bindR (FormatLocalTime (tm_local_time time)) (\<lambda>local.
       bindR (FormatOffset (tm_utc_offset_seconds time)) (\<lambda>off. Inr (local @ off @ zone_suffix (tm_timezone time))))"

definition FormatLocalDateTime :: "LocalDateTime \<Rightarrow> string res" where
  "FormatLocalDateTime date_time =
     bindR (FormatDate (ld_date date_time)) (\<lambda>date.
       bindR (FormatLocalTime (ld_time date_time)) (\<lambda>time. Inr (date @ ''T'' @ time)))"

definition FormatDateTime :: "DateTime \<Rightarrow> string res" where
  "FormatDateTime date_time =
     bindR (FormatLocalDateTime (dz_local_date_time date_time)) (\<lambda>local.
       bindR (FormatOffset (dz_utc_offset_seconds date_time)) (\<lambda>off. Inr (local @ off @ zone_suffix (dz_timezone date_time))))"

definition FormatDuration :: "Duration \<Rightarrow> string res" where
  "FormatDuration duration =
     (let years = du_months duration sdiv 12;
          months = du_months duration smod 12;
          negative_time = du_seconds duration < 0
      in bindR (if negative_time then checked64 (- (du_seconds duration + (if du_nanoseconds duration > 0 then 1 else 0)))
                else Inr (du_seconds duration)) (\<lambda>total.
           let nanoseconds = (if negative_time \<and> du_nanoseconds duration > 0 then 1000000000 - du_nanoseconds duration
                              else du_nanoseconds duration);
               hours = total sdiv 3600;
               minutes = (total smod 3600) sdiv 60;
               seconds = (total smod 3600) smod 60;
               sign = (if negative_time then ''-'' else []);
               number = (\<lambda>n unit. if n \<noteq> 0 then show_int n @ unit else []);
               out = ''P'' @ number years ''Y'' @ number months ''M'' @ number (du_days duration) ''D''
           in if hours \<noteq> 0 \<or> minutes \<noteq> 0 \<or> seconds \<noteq> 0 \<or> du_nanoseconds duration \<noteq> 0 \<or>
                 years = 0 \<and> months = 0 \<and> du_days duration = 0
              then let out' = out @ ''T'' @ (if hours \<noteq> 0 then sign @ show_int hours @ ''H'' else []) @
                         (if minutes \<noteq> 0 then sign @ show_int minutes @ ''M'' else [])
                   in if seconds \<noteq> 0 \<or> nanoseconds \<noteq> 0 \<or> hours = 0 \<and> minutes = 0
                      then bindR (FormatFraction nanoseconds) (\<lambda>fraction.
                        Inr (out' @ sign @ show_int seconds @ (if fraction = [] then [] else ''.'' @ fraction) @ ''S''))
                      else Inr out'
              else Inr out))"

section \<open>From the protocol\<close>

definition DateFromEpochDays :: "int \<Rightarrow> Date res" where
  "DateFromEpochDays days =
     bindR (checked64 (days + 719468)) (\<lambda>shifted.
       let date = CivilFromDays shifted in
       if dt_year date < - (2 ^ 31) \<or> dt_year date > 2 ^ 31 - 1
       then Inl (Thrown ''InvalidParameter'' ''Bolt date is outside the supported year range'') else Inr date)"

definition LocalTimeFromNanoseconds :: "int \<Rightarrow> LocalTime" where
  "LocalTimeFromNanoseconds nanoseconds =
     (let kNanosecondsPerDay = 86400 * 1000000000;
          rest = nanoseconds smod kNanosecondsPerDay;
          time = (if rest < 0 then rest + kNanosecondsPerDay else rest);
          seconds = time div 1000000000
      in \<lparr>lt_hour = seconds div 3600, lt_minute = seconds div 60 mod 60, lt_second = seconds mod 60,
          lt_nanosecond = time mod 1000000000, lt_has_seconds = True\<rparr>)"

definition detail_LocalDateTimeFromEpoch :: "int \<Rightarrow> int \<Rightarrow> LocalDateTime res" where
  "detail_LocalDateTimeFromEpoch seconds nanoseconds =
     bindR (checked64 (seconds + nanoseconds sdiv 1000000000)) (\<lambda>s1.
       let n1 = nanoseconds smod 1000000000 in
       bindR (if n1 < 0 then checked64 (s1 - 1) else Inr s1) (\<lambda>s2.
         let n2 = (if n1 < 0 then n1 + 1000000000 else n1);
             days = s2 sdiv 86400;
             second_of_day = s2 smod 86400;
             days' = (if second_of_day < 0 then days - 1 else days);
             second_of_day' = (if second_of_day < 0 then second_of_day + 86400 else second_of_day)
         in bindR (DateFromEpochDays days') (\<lambda>date.
              Inr \<lparr>ld_date = date, ld_time = LocalTimeFromNanoseconds (second_of_day' * 1000000000 + n2)\<rparr>)))"

section \<open>Values\<close>

datatype json = JNull | JBool bool | JInt int | JDouble nat | JString string | JArray "json list" | JObject "(string \<times> json) list"

definition UnsupportedType :: "'a res" where
  "UnsupportedType = Inl (Thrown ''InvalidParameter'' ''Unsupported type'')"

definition json_text :: "string res \<Rightarrow> json res" where
  "json_text m = bindR m (\<lambda>s. Inr (JString s))"

definition text_items :: "(string \<times> string) list \<Rightarrow> string" where
  "text_items m = concat (map (\<lambda>(i, k, v). (if i > 0 then '','' else []) @ k @ '':'' @ v) (enumerate 0 m))"

fun ToJsonObj :: "(json \<Rightarrow> string) \<Rightarrow> any \<Rightarrow> json res"
and ToJsonItems :: "(json \<Rightarrow> string) \<Rightarrow> any list \<Rightarrow> json list res"
and ToJsonPairs :: "(json \<Rightarrow> string) \<Rightarrow> (string \<times> any) list \<Rightarrow> (string \<times> json) list res"
and ToJsonNode :: "(json \<Rightarrow> string) \<Rightarrow> node \<Rightarrow> json res"
and ToJsonRelationship :: "(json \<Rightarrow> string) \<Rightarrow> relationship \<Rightarrow> json res"
where
  "ToJsonObj serialize ANone = Inr JNull"
| "ToJsonObj serialize (AByteArray b) = Inr (JString (''<bytes:'' @ show_nat (length b) @ ''>''))"
| "ToJsonObj serialize (AInt64 i) = Inr (JInt i)"
| "ToJsonObj serialize (ABool b) = Inr (JBool b)"
| "ToJsonObj serialize (AFloat d) = Inr (JDouble d)"
| "ToJsonObj serialize (ADouble d) = Inr (JDouble d)"
| "ToJsonObj serialize (AString s) = Inr (JString s)"
| "ToJsonObj serialize (ACString s) = Inr (JString s)"
| "ToJsonObj serialize (ANode n) = ToJsonNode serialize n"
| "ToJsonObj serialize (ARelationship r) = ToJsonRelationship serialize r"
| "ToJsonObj serialize (ADate days) = json_text (bindR (DateFromEpochDays days) FormatDate)"
| "ToJsonObj serialize (ADateTime s n z) =
     json_text (bindR (checked64 (s + z)) (\<lambda>t. bindR (detail_LocalDateTimeFromEpoch t n) (\<lambda>l.
       FormatDateTime \<lparr>dz_local_date_time = l, dz_utc_offset_seconds = int32_cast z, dz_timezone = []\<rparr>)))"
| "ToJsonObj serialize (ALocalDateTime s n) = json_text (bindR (detail_LocalDateTimeFromEpoch s n) FormatLocalDateTime)"
| "ToJsonObj serialize (AList xs) = bindR (ToJsonItems serialize xs) (\<lambda>js. Inr (JArray js))"
| "ToJsonObj serialize (AMap m) = bindR (ToJsonPairs serialize m) (\<lambda>ms. Inr (JObject ms))"
| "ToJsonObj serialize (ALocalTime n) = json_text (FormatLocalTime (LocalTimeFromNanoseconds n))"
| "ToJsonObj serialize (ATime n z) =
     json_text (FormatTime \<lparr>tm_local_time = LocalTimeFromNanoseconds n, tm_utc_offset_seconds = int32_cast z, tm_timezone = []\<rparr>)"
| "ToJsonObj serialize (ADuration m d s n) =
     json_text (FormatDuration \<lparr>du_months = m, du_days = d, du_seconds = s, du_nanoseconds = int32_cast n\<rparr>)"
| "ToJsonObj serialize _ = UnsupportedType"
| "ToJsonItems serialize [] = Inr []"
| "ToJsonItems serialize (x # xs) = bindR (ToJsonObj serialize x) (\<lambda>j. bindR (ToJsonItems serialize xs) (\<lambda>js. Inr (j # js)))"
| "ToJsonPairs serialize [] = Inr []"
| "ToJsonPairs serialize ((k, x) # m) =
     bindR (ToJsonObj serialize x) (\<lambda>j. bindR (ToJsonPairs serialize m) (\<lambda>ms. Inr ((k, j) # ms)))"
| "ToJsonNode serialize (PackMessage.Node i eid labels props) =
     bindR (ToJsonPairs serialize props) (\<lambda>ms.
       Inr (JString (''('' @ concat (map (\<lambda>l. '':'' @ l) labels) @ '' {'' @
         text_items (map (\<lambda>(k, j). (k, serialize j)) ms) @ ''})'')))"
| "ToJsonRelationship serialize (PackMessage.Relationship i eid si sei ei eei t props) =
     bindR (ToJsonPairs serialize props) (\<lambda>ms.
       Inr (JString (''[:'' @ t @ '' {'' @ text_items (map (\<lambda>(k, j). (k, serialize j)) ms) @ ''}]'')))"

definition Print :: "(json \<Rightarrow> string) \<Rightarrow> any \<Rightarrow> string res" where
  "Print serialize boltType =
     bindR (ToJsonObj serialize boltType) (\<lambda>j. case j of JString s \<Rightarrow> Inr s | _ \<Rightarrow> Inr (serialize j))"

section \<open>Which values can be printed\<close>

lemma isl_bindR: "isl (bindR m f) \<longleftrightarrow> isl m \<or> isl (f (projr m))"
  by (cases m) simp_all

text \<open>Whether \<open>Print\<close> throws does not depend on how Boost writes JSON.\<close>

lemma ToJson_fails:
  "isl (ToJsonObj f x) = isl (ToJsonObj g x)" "isl (ToJsonItems f xs) = isl (ToJsonItems g xs)"
  "isl (ToJsonPairs f m) = isl (ToJsonPairs g m)" "isl (ToJsonNode f n) = isl (ToJsonNode g n)"
  "isl (ToJsonRelationship f r) = isl (ToJsonRelationship g r)"
  by (induction f x and f xs and f m and f n and f r rule: ToJsonObj_ToJsonItems_ToJsonPairs_ToJsonNode_ToJsonRelationship.induct)
    (simp_all add: isl_bindR, (metis sum.collapse(2))+)

definition printable :: "any \<Rightarrow> bool" where
  "printable x \<longleftrightarrow> \<not> isl (ToJsonObj (\<lambda>_. []) x)"

lemma Print_printable: "printable x \<longleftrightarrow> (\<exists>s. Print serialize x = Inr s)"
  using ToJson_fails(1) [of serialize x "\<lambda>_. []"]
  by (cases "ToJsonObj serialize x") (simp_all add: printable_def Print_def split: json.split)

lemma fraction_prints: "- (2 ^ 31) < n \<Longrightarrow> \<exists>s. FormatFraction n = Inr s"
  by (simp add: FormatFraction_def)

lemma time_prints: "\<exists>s. FormatLocalTime (LocalTimeFromNanoseconds n) = Inr s"
proof -
  have "- (2 ^ 31) < i mod 1000000000" for i :: int
    by (rule less_le_trans [of _ 0]) simp_all
  then have "- (2 ^ 31) < lt_nanosecond (LocalTimeFromNanoseconds n)"
    by (simp only: LocalTimeFromNanoseconds_def Let_def LocalTime.simps)
  then obtain s where "FormatFraction (lt_nanosecond (LocalTimeFromNanoseconds n)) = Inr s"
    using fraction_prints by blast
  then show ?thesis by (simp add: FormatLocalTime_def Let_def)
qed

text \<open>A day prints when it has a valid date.\<close>

lemma day_prints:
  assumes "int64 n"
  shows "(\<exists>s. bindR (DateFromEpochDays n) FormatDate = Inr s) \<longleftrightarrow> (\<exists>d. FromSysDays n = Inr d)"
proof (cases "n + 719468 < 2 ^ 63")
  case True
  obtain d where d: "in_month d" "date_number d = n" using date_of_number by blast
  have c: "CivilFromDays (n + 719468) = d" using CivilFromDays_number [OF d(1)] d(2) by simp
  have "(\<exists>s. FormatDate d = Inr s) \<longleftrightarrow> valid_date d"
    using ToSysDays_number [of d] by (cases "ToSysDays d") (auto simp: FormatDate_def)
  moreover have "dt_year d \<ge> - (2 ^ 31) \<and> dt_year d \<le> 2 ^ 31 - 1" if "valid_date d"
    using that by (simp add: valid_date_def year_ok_def kMinimumYear_def kMaximumYear_def)
  moreover have "(\<exists>d. FromSysDays n = Inr d) \<longleftrightarrow> valid_date d"
    using d c True by (auto simp: FromSysDays_def Let_def valid_date_def year_ok_def InvalidTemporal_def)
  ultimately show ?thesis using assms True c by (auto simp: DateFromEpochDays_def checked64_def Let_def)
next
  case False
  then show ?thesis by (simp add: DateFromEpochDays_def checked64_def FromSysDays_def)
qed

lemma printable_simps [simp]:
  "printable ANone" "printable (ABool b)" "printable (AInt64 i)" "printable (ADouble d)" "printable (AString s)" "printable (AByteArray s)"
  "printable (ALocalTime n)"
  "printable (AList xs) \<longleftrightarrow> (\<forall>x \<in> set xs. printable x)"
  "printable (AMap m) \<longleftrightarrow> (\<forall>(k, x) \<in> set m. printable x)"
  "\<not> printable (APoint2D px py srid)" "\<not> printable (APoint3D px py pz srid)" "\<not> printable (ADateTimeZoneId t n z)"
  "\<not> printable (ALegacyDateTime t n off)" "\<not> printable (ALegacyDateTimeZoneId t n z)"
proof -
  show "printable (ALocalTime n)" using time_prints [of n] by (auto simp: printable_def json_text_def)
  have "isl (ToJsonItems (\<lambda>_. []) xs) \<longleftrightarrow> \<not> (\<forall>x \<in> set xs. printable x)"
    by (induction xs) (auto simp: printable_def isl_bindR)
  then show "printable (AList xs) \<longleftrightarrow> (\<forall>x \<in> set xs. printable x)" by (simp add: printable_def isl_bindR)
  have "isl (ToJsonPairs (\<lambda>_. []) m) \<longleftrightarrow> \<not> (\<forall>(k, x) \<in> set m. printable x)"
    by (induction m) (auto simp: printable_def isl_bindR)
  then show "printable (AMap m) \<longleftrightarrow> (\<forall>(k, x) \<in> set m. printable x)" by (simp add: printable_def isl_bindR)
qed (simp_all add: printable_def UnsupportedType_def)

lemma printable_date: "int64 n \<Longrightarrow> printable (ADate n) \<longleftrightarrow> (\<exists>d. FromSysDays n = Inr d)"
  using day_prints [of n] by (cases "bindR (DateFromEpochDays n) FormatDate") (auto simp: printable_def json_text_def)

end
