(* ===== verification/Connection.thy ===== *)
theory Connection
  imports BoltRoundTrip BoltPrint "HOL-Library.Sublist"
begin

text \<open>
  The server side of a Bolt connection (\<open>src/bolt/connection.h\<close>, \<open>src/bolt/connection.cc\<close>): the handshake, the
  reader that joins chunks to messages and hands them to the message handler, and the queue of responses. Every
  completion handler of the code is a function on the connection; the operation it starts next is the field
  \<open>cn_wait\<close>, and what the transport delivers is an argument. The socket itself, the WebSocket framing and the
  scheduling of the completion handlers belong to the Boost libraries.
\<close>

section \<open>Version negotiation\<close>

definition kSupportedBoltMajor :: int where
  "kSupportedBoltMajor = 4"

definition kMinSupportedBoltMinor :: int where
  "kMinSupportedBoltMinor = 0"

definition kMaxSupportedBoltMinor :: int where
  "kMaxSupportedBoltMinor = 4"

text \<open>A proposal is four bytes: a reserved byte, the range, the minor and the major version.\<close>

definition GetSupportedBoltMinor :: "string \<Rightarrow> int option" where
  "GetSupportedBoltMinor proposal =
     (let major = of_char (proposal ! 3); max_minor = of_char (proposal ! 2); range = of_char (proposal ! 1) in
      if major \<noteq> kSupportedBoltMajor then None
      else let min_minor = (if range > max_minor then 0 else max_minor - range) in
      if max_minor < kMinSupportedBoltMinor \<or> min_minor > kMaxSupportedBoltMinor then None
      else let selected_minor = (if max_minor < kMaxSupportedBoltMinor then max_minor else kMaxSupportedBoltMinor) in
      if selected_minor < min_minor then None else Some selected_minor)"

definition SetSelectedBoltVersion :: "int \<Rightarrow> string" where
  "SetSelectedBoltVersion minor = [byte 0, byte 0, byte (to_uint 8 minor), byte (to_uint 8 kSupportedBoltMajor)]"

definition select_minor :: "string \<Rightarrow> int" where
  "select_minor buffer16 =
     foldl (\<lambda>selected i. case GetSupportedBoltMinor (drop (4 * i) buffer16) of
         Some candidate \<Rightarrow> if candidate > selected then candidate else selected
       | None \<Rightarrow> selected) (- 1) [0..<4]"

section \<open>The connection\<close>

datatype Protocol = ProtocolNone | Socket | WebSocket

text \<open>The completion handler that runs next, with the number of bytes it waits for.\<close>

datatype wait = WaitNothing | WaitMagic | WaitAccept | WaitIdentification | WaitVersion | WaitWritten | WaitChunkSize | WaitChunk nat

text \<open>What has been posted to the IO service.\<close>

datatype task = RespondTask string | CloseTask

text \<open>
  Three fields are history: \<open>cn_accepted\<close> holds the responses that were taken into the queue, \<open>cn_written\<close> those that
  were given to the transport, and \<open>cn_notices\<close> counts the calls of the close handler. \<open>cn_answer\<close> is the version
  the server answered with, \<open>cn_got\<close> is the part of a read of the socket that has arrived. A chunk is appended to \<open>cn_chunk\<close> when it has been read; the code makes room for it before.
\<close>

record 's BoltConnection =
  cn_closed :: bool
  cn_close_handler :: "('s \<Rightarrow> 's) option"
  cn_close_notified :: bool
  cn_notices :: nat
  cn_protocol :: Protocol
  cn_minor :: int
  cn_chunk :: string
  cn_max_message_size :: nat
  cn_debug :: bool
  cn_queue :: "string list"
  cn_send_buffers :: "string list"
  cn_answer :: string
  cn_accepted :: "string list"
  cn_written :: "string list"
  cn_got :: string
  cn_ws_size :: nat
  cn_ws_read :: string
  cn_wait :: wait
  cn_posted :: "task list"
  cn_context :: "'s option"

text \<open>
  The close handler is a closure over the context of the connection, so it is a function on the context. A message handler changes the connection and may end with an exception.
\<close>

type_synonym 's handler = "'s BoltConnection \<Rightarrow> nat \<Rightarrow> any list \<Rightarrow> fault option \<times> 's BoltConnection"

definition kDefaultMaxBoltMessageSize :: nat where
  "kDefaultMaxBoltMessageSize = 64 * 2 ^ 20"

definition new_connection :: "'s BoltConnection" where
  "new_connection = \<lparr>cn_closed = False, cn_close_handler = None, cn_close_notified = False, cn_notices = 0,
     cn_protocol = ProtocolNone, cn_minor = - 1, cn_chunk = [], cn_max_message_size = kDefaultMaxBoltMessageSize, cn_debug = False,
     cn_queue = [], cn_send_buffers = [], cn_answer = [], cn_accepted = [], cn_written = [], cn_got = [], cn_ws_size = 0, cn_ws_read = [], cn_wait = WaitNothing,
     cn_posted = [], cn_context = None\<rparr>"

definition Connection_Close :: "'s BoltConnection \<Rightarrow> 's BoltConnection" where
  "Connection_Close c = c\<lparr>cn_closed := True\<rparr>"

definition BoltConnection_Close :: "'s BoltConnection \<Rightarrow> 's BoltConnection" where
  "BoltConnection_Close c =
     (let c1 = Connection_Close c; c2 = c1\<lparr>cn_close_notified := True\<rparr>
      in case cn_close_handler c1 of
           Some f \<Rightarrow> if \<not> cn_close_notified c1 then c2\<lparr>cn_notices := cn_notices c2 + 1, cn_context := map_option f (cn_context c2)\<rparr> else c2
         | None \<Rightarrow> c2)"

definition SetCloseHandler :: "('s \<Rightarrow> 's) \<Rightarrow> 's BoltConnection \<Rightarrow> 's BoltConnection" where
  "SetCloseHandler f c = c\<lparr>cn_close_handler := Some f\<rparr>"

definition PostClose :: "'s BoltConnection \<Rightarrow> 's BoltConnection" where
  "PostClose c = c\<lparr>cn_posted := cn_posted c @ [CloseTask]\<rparr>"

section \<open>Responses\<close>

text \<open>Up to five messages of the queue become the buffers of one write.\<close>

fun fill_buffers :: "string list \<Rightarrow> string list \<Rightarrow> string list" where
  "fill_buffers [] bufs = bufs"
| "fill_buffers (m # q) bufs = (let bufs' = bufs @ [m] in if length bufs' \<ge> 5 then bufs' else fill_buffers q bufs')"

definition DoSend :: "'s BoltConnection \<Rightarrow> 's BoltConnection" where
  "DoSend c = (let bufs = fill_buffers (cn_queue c) (cn_send_buffers c)
               in c\<lparr>cn_send_buffers := bufs, cn_written := cn_written c @ bufs\<rparr>)"

text \<open>The completion handler of that write.\<close>

definition SendDone :: "bool \<Rightarrow> 's BoltConnection \<Rightarrow> 's BoltConnection" where
  "SendDone ec c =
     (if ec then BoltConnection_Close (c\<lparr>cn_queue := []\<rparr>)
      else let c' = c\<lparr>cn_queue := drop (length (cn_send_buffers c)) (cn_queue c), cn_send_buffers := []\<rparr>
           in if cn_queue c' \<noteq> [] then DoSend c' else c')"

definition Respond :: "string \<Rightarrow> 's BoltConnection \<Rightarrow> 's BoltConnection" where
  "Respond str c =
     (if cn_closed c then c
      else let c' = c\<lparr>cn_queue := cn_queue c @ [str], cn_accepted := cn_accepted c @ [str]\<rparr> in if cn_queue c = [] then DoSend c' else c')"

definition PostResponse :: "string \<Rightarrow> 's BoltConnection \<Rightarrow> 's BoltConnection" where
  "PostResponse str c = (if cn_closed c then c else c\<lparr>cn_posted := cn_posted c @ [RespondTask str]\<rparr>)"

text \<open>The IO service runs the first task that was posted.\<close>

definition run_posted :: "'s BoltConnection \<Rightarrow> 's BoltConnection" where
  "run_posted c =
     (case cn_posted c of [] \<Rightarrow> c
      | RespondTask str # ts \<Rightarrow> Respond str (c\<lparr>cn_posted := ts\<rparr>)
      | CloseTask # ts \<Rightarrow> BoltConnection_Close (c\<lparr>cn_posted := ts\<rparr>))"

section \<open>Reading\<close>

definition bolt_magic :: string where
  "bolt_magic = [byte 0x60, byte 0x60, byte 0xB0, byte 0x17]"

definition ws_magic :: string where
  "ws_magic = ''GET ''"

definition WebSocketAsyncRead :: "nat \<Rightarrow> wait \<Rightarrow> 's BoltConnection \<Rightarrow> 's BoltConnection" where
  "WebSocketAsyncRead n w c = c\<lparr>cn_ws_size := n, cn_ws_read := [], cn_wait := w\<rparr>"

text \<open>\<open>async_read\<close> of the socket or \<open>WebSocketAsyncRead\<close>, whichever the protocol says.\<close>

definition start_read :: "nat \<Rightarrow> wait \<Rightarrow> 's BoltConnection \<Rightarrow> 's BoltConnection" where
  "start_read n w c = (if cn_protocol c = Socket then c\<lparr>cn_wait := w\<rparr> else WebSocketAsyncRead n w c)"

definition BoltConnection_Start :: "bool \<Rightarrow> 's BoltConnection \<Rightarrow> 's BoltConnection" where
  "BoltConnection_Start ec c = (if ec then BoltConnection_Close c else c\<lparr>cn_wait := WaitMagic\<rparr>)"

definition ReadMagicDone :: "bool \<Rightarrow> string \<Rightarrow> 's BoltConnection \<Rightarrow> 's BoltConnection" where
  "ReadMagicDone ec buffer4 c =
     (if ec then BoltConnection_Close c
      else if buffer4 = bolt_magic then c\<lparr>cn_protocol := Socket, cn_wait := WaitVersion\<rparr>
      else if buffer4 = ws_magic then c\<lparr>cn_protocol := WebSocket, cn_wait := WaitAccept\<rparr>
      else BoltConnection_Close c)"

definition WebSocketAcceptDone :: "bool \<Rightarrow> 's BoltConnection \<Rightarrow> 's BoltConnection" where
  "WebSocketAcceptDone ec c = (if ec then BoltConnection_Close c else WebSocketAsyncRead 4 WaitIdentification c)"

definition ReadBoltIdentificationDone :: "bool \<Rightarrow> string \<Rightarrow> 's BoltConnection \<Rightarrow> 's BoltConnection" where
  "ReadBoltIdentificationDone ec buffer4 c =
     (if ec then BoltConnection_Close c
      else if buffer4 = bolt_magic then WebSocketAsyncRead 16 WaitVersion c
      else BoltConnection_Close c)"

definition ReadVersionNegotiationDone :: "bool \<Rightarrow> string \<Rightarrow> 's BoltConnection \<Rightarrow> 's BoltConnection" where
  "ReadVersionNegotiationDone ec buffer16 c =
     (if ec then BoltConnection_Close c
      else let selected_minor = select_minor buffer16 in
      if selected_minor < 0 then BoltConnection_Close c
      else c\<lparr>cn_minor := selected_minor, cn_answer := SetSelectedBoltVersion selected_minor, cn_wait := WaitWritten\<rparr>)"

definition WriteResponseDone :: "bool \<Rightarrow> 's BoltConnection \<Rightarrow> 's BoltConnection" where
  "WriteResponseDone ec c = (if ec then BoltConnection_Close c else start_read 2 WaitChunkSize c)"

text \<open>The fields of a message. An error of the unpacker and an exception of the hydrator both close the connection.\<close>

definition unpacked :: "Unpacker \<Rightarrow> Unpacker res" where
  "unpacked u = (case up_err u of None \<Rightarrow> Inr u | Some e \<Rightarrow> Inl (Thrown ''Invalid Bolt message'' e))"

fun read_fields :: "nat \<Rightarrow> nat \<Rightarrow> Unpacker \<Rightarrow> (any list \<times> Unpacker) res" where
  "read_fields f 0 u = Inr ([], u)"
| "read_fields f (Suc n) u =
     bindR (unpacked (Unpacker_Next u)) (\<lambda>u1. bindR (ServerHydrator f u1) (\<lambda>(x, u2). bindR (unpacked u2) (\<lambda>u3.
       bindR (read_fields f n u3) (\<lambda>(xs, u4). Inr (x # xs, u4)))))"

text \<open>
  Every field takes a byte at least, and the nesting of the values is bounded by the bytes, so the length of the
  message bounds the recursion of the hydrator.
\<close>

definition Unpacker0 :: Unpacker where
  "Unpacker0 = \<lparr>up_buf = [], up_off = 0, up_len = 0, up_mrk = Marker0, up_err = None, up_curr = TUndef\<rparr>"

text \<open>
  The line of \<open>LOG_DEBUG\<close> evaluates \<open>Print\<close> only at the level debug. The line is written to the log; what counts
  here is that \<open>Print\<close> may throw, and that does not depend on how the JSON is written (\<open>Print_printable\<close>).
\<close>

definition log_fields :: "bool \<Rightarrow> any list \<Rightarrow> unit res" where
  "log_fields debug xs = (if debug then bindR (Print (\<lambda>_. []) (AList xs)) (\<lambda>_. Inr ()) else Inr ())"

text \<open>
  The code reserves room for as many fields as the message says it has before it reads the first one. The model
  takes this allocation to succeed.
\<close>

definition read_message :: "bool \<Rightarrow> string \<Rightarrow> (nat \<times> any list) res" where
  "read_message debug msg =
     (let u0 = Unpacker_Next (Unpacker_Reset msg Unpacker0); (len, u1) = Unpacker_Len u0; (t, u2) = Unpacker_StructTag u1
      in bindR (unpacked u2) (\<lambda>u3. bindR (read_fields (length msg + 2) len u3) (\<lambda>(xs, _).
           bindR (log_fields debug xs) (\<lambda>_. Inr (t, xs)))))"

text \<open>A message that is complete goes to the handler; what is left is a chunk of the next one.\<close>

definition next_chunk :: "nat \<Rightarrow> 's BoltConnection \<Rightarrow> 's BoltConnection" where
  "next_chunk n c =
     (if length (cn_chunk c) + n > cn_max_message_size c then BoltConnection_Close c else start_read n (WaitChunk n) c)"

definition ReadChunkSizeDone :: "'s handler \<Rightarrow> bool \<Rightarrow> string \<Rightarrow> 's BoltConnection \<Rightarrow> 's BoltConnection" where
  "ReadChunkSizeDone handle ec buf c =
     (if ec then BoltConnection_Close c
      else let chunk_size = unbe buf in
      if chunk_size = 0 \<and> cn_chunk c \<noteq> [] then
        (case read_message (cn_debug c) (cn_chunk c) of
           Inl e \<Rightarrow> BoltConnection_Close c
         | Inr (t, xs) \<Rightarrow>
             (case handle c t xs of
                (Some e, c') \<Rightarrow> BoltConnection_Close c'
              | (None, c') \<Rightarrow> if cn_closed c' then c' else next_chunk chunk_size (c'\<lparr>cn_chunk := []\<rparr>)))
      else next_chunk chunk_size c)"

definition ReadChunkDone :: "bool \<Rightarrow> string \<Rightarrow> 's BoltConnection \<Rightarrow> 's BoltConnection" where
  "ReadChunkDone ec buf c =
     (if ec then BoltConnection_Close c else start_read 2 WaitChunkSize (c\<lparr>cn_chunk := cn_chunk c @ buf\<rparr>))"

section \<open>Completion handlers\<close>

text \<open>The number of bytes a pending read waits for.\<close>

fun wanted :: "wait \<Rightarrow> nat option" where
  "wanted WaitMagic = Some 4"
| "wanted WaitIdentification = Some 4"
| "wanted WaitVersion = Some 16"
| "wanted WaitChunkSize = Some 2"
| "wanted (WaitChunk n) = Some n"
| "wanted _ = None"

definition completed :: "'s handler \<Rightarrow> bool \<Rightarrow> string \<Rightarrow> 's BoltConnection \<Rightarrow> 's BoltConnection" where
  "completed handle ec buf c =
     (let c' = c\<lparr>cn_wait := WaitNothing\<rparr> in
      case cn_wait c of
        WaitNothing \<Rightarrow> c
      | WaitMagic \<Rightarrow> ReadMagicDone ec buf c'
      | WaitAccept \<Rightarrow> WebSocketAcceptDone ec c'
      | WaitIdentification \<Rightarrow> ReadBoltIdentificationDone ec buf c'
      | WaitVersion \<Rightarrow> ReadVersionNegotiationDone ec buf c'
      | WaitWritten \<Rightarrow> WriteResponseDone ec c'
      | WaitChunkSize \<Rightarrow> ReadChunkSizeDone handle ec buf c'
      | WaitChunk n \<Rightarrow> ReadChunkDone ec buf c')"

definition WebSocketReadSomeDone :: "'s handler \<Rightarrow> bool \<Rightarrow> string \<Rightarrow> 's BoltConnection \<Rightarrow> 's BoltConnection" where
  "WebSocketReadSomeDone handle ec buf c =
     (if ec then BoltConnection_Close (c\<lparr>cn_wait := WaitNothing\<rparr>)
      else let c' = c\<lparr>cn_ws_read := cn_ws_read c @ buf\<rparr>
           in if length (cn_ws_read c') < cn_ws_size c' then c' else completed handle ec (cn_ws_read c') c')"

text \<open>
  A byte arrives. A read of the socket completes when it has all its bytes, which is what \<open>async_read\<close> promises; a
  read of the WebSocket is continued by the code. A read of no bytes completes at once.
\<close>

definition settle :: "'s handler \<Rightarrow> 's BoltConnection \<Rightarrow> 's BoltConnection" where
  "settle handle c = (if wanted (cn_wait c) = Some 0 \<and> \<not> cn_closed c then completed handle False [] c else c)"

definition on_socket :: "'s BoltConnection \<Rightarrow> bool" where
  "on_socket c \<longleftrightarrow> cn_protocol c \<noteq> WebSocket"

definition arrive :: "'s handler \<Rightarrow> char \<Rightarrow> 's BoltConnection \<Rightarrow> 's BoltConnection" where
  "arrive handle b c =
     (case wanted (cn_wait c) of None \<Rightarrow> c
      | Some n \<Rightarrow>
          if cn_closed c then c
          else if on_socket c then
            (let got = cn_got c @ [b]
             in if length got < n then c\<lparr>cn_got := got\<rparr> else settle handle (completed handle False got (c\<lparr>cn_got := []\<rparr>)))
          else settle handle (WebSocketReadSomeDone handle False [b] c))"

abbreviation feed :: "'s handler \<Rightarrow> string \<Rightarrow> 's BoltConnection \<Rightarrow> 's BoltConnection" where
  "feed handle \<equiv> fold (arrive handle)"

section \<open>Version negotiation is right\<close>

text \<open>A minor version that a proposal covers and the server supports.\<close>

definition acceptable :: "string \<Rightarrow> int \<Rightarrow> bool" where
  "acceptable p m \<longleftrightarrow> of_char (p ! 3) = (4 :: int) \<and> of_char (p ! 2) - of_char (p ! 1) \<le> m \<and> m \<le> of_char (p ! 2) \<and> 0 \<le> m \<and> m \<le> 4"

lemma of_char_nonneg [simp]: "(0 :: int) \<le> of_char c"
  by (metis of_nat_of_char of_nat_0_le_iff)

lemma GetSupportedBoltMinor_spec:
  "case GetSupportedBoltMinor p of None \<Rightarrow> \<forall>m. \<not> acceptable p m
   | Some m \<Rightarrow> acceptable p m \<and> (\<forall>m'. acceptable p m' \<longrightarrow> m' \<le> m)"
proof -
  have "(0 :: int) \<le> of_char (p ! 1)" "(0 :: int) \<le> of_char (p ! 2)" by simp_all
  then show ?thesis
    by (auto simp: GetSupportedBoltMinor_def acceptable_def Let_def kSupportedBoltMajor_def kMinSupportedBoltMinor_def
        kMaxSupportedBoltMinor_def)
qed

definition best :: "string list \<Rightarrow> int \<Rightarrow> bool" where
  "best ps m \<longleftrightarrow> (if m < 0 then m = - 1 \<and> (\<forall>p \<in> set ps. \<forall>m'. \<not> acceptable p m')
     else (\<exists>p \<in> set ps. acceptable p m) \<and> (\<forall>p \<in> set ps. \<forall>m'. acceptable p m' \<longrightarrow> m' \<le> m))"

lemma best_step:
  assumes "best ps m"
  shows "best (ps @ [p]) (case GetSupportedBoltMinor p of Some c \<Rightarrow> if c > m then c else m | None \<Rightarrow> m)"
proof (cases "GetSupportedBoltMinor p")
  case None
  then show ?thesis using assms GetSupportedBoltMinor_spec [of p] by (auto simp: best_def)
next
  case (Some c)
  then have c: "acceptable p c" "\<And>m'. acceptable p m' \<Longrightarrow> m' \<le> c" "0 \<le> c"
    using GetSupportedBoltMinor_spec [of p] by (auto simp: acceptable_def)
  then show ?thesis using assms Some by (cases "c > m"; cases "m < 0") (force simp: best_def)+
qed


lemma select_minor_best: "best (map (\<lambda>i. drop (4 * i) buf) [0..<4]) (select_minor buf)"
proof -
  have "best (map (\<lambda>i. drop (4 * i) buf) [0..<n]) (foldl (\<lambda>selected i. case GetSupportedBoltMinor (drop (4 * i) buf) of
         Some candidate \<Rightarrow> if candidate > selected then candidate else selected | None \<Rightarrow> selected) (- 1) [0..<n])" for n
    by (induction n) (simp_all add: best_step, simp add: best_def)
  then show ?thesis by (simp add: select_minor_def del: upt_rec_numeral)
qed

text \<open>C29: The handshake selects the greatest minor version of Bolt 4 that one of the four proposals covers and the
  server supports, and answers with it; when no proposal covers one the connection is closed.\<close>

theorem version_negotiation:
  "let proposals = set (map (\<lambda>i. drop (4 * i) buf) [0..<4]); c' = ReadVersionNegotiationDone False buf c
   in if \<exists>p \<in> proposals. \<exists>m. acceptable p m
      then (\<exists>p \<in> proposals. acceptable p (cn_minor c')) \<and> (\<forall>p \<in> proposals. \<forall>m. acceptable p m \<longrightarrow> m \<le> cn_minor c') \<and>
        c' = c\<lparr>cn_minor := cn_minor c', cn_answer := [byte 0, byte 0, byte (nat (cn_minor c')), byte 4],
               cn_wait := WaitWritten\<rparr>
      else c' = BoltConnection_Close c"
proof -
  have b: "best (map (\<lambda>i. drop (4 * i) buf) [0..<4]) (select_minor buf)" by (rule select_minor_best)
  show ?thesis
  proof (cases "select_minor buf < 0")
    case True
    then show ?thesis
      using b unfolding best_def Let_def by (simp add: ReadVersionNegotiationDone_def del: upt_rec_numeral)
  next
    case False
    then obtain p where "acceptable p (select_minor buf)" using b unfolding best_def by auto
    then have "to_uint 8 (select_minor buf) = nat (select_minor buf)" "to_uint 8 kSupportedBoltMajor = 4"
      by (auto simp: acceptable_def to_uint_def kSupportedBoltMajor_def)
    with False b show ?thesis
      unfolding best_def Let_def
      by (simp add: ReadVersionNegotiationDone_def SetSelectedBoltVersion_def Let_def del: upt_rec_numeral) blast
  qed
qed


theorem version_negotiation_witness:
  "let buf = map byte [0, 0, 1, 4, 0, 2, 4, 4, 0, 0, 0, 3, 0, 0, 0, 0];
       proposals = set (map (\<lambda>i. drop (4 * i) buf) [0..<4]);
       c' = ReadVersionNegotiationDone False buf (new_connection :: unit BoltConnection)
   in (\<exists>p \<in> proposals. acceptable p (cn_minor c')) \<and> cn_minor c' = 4 \<and>
      c' = new_connection\<lparr>cn_minor := 4, cn_answer := [byte 0, byte 0, byte 4, byte 4], cn_wait := WaitWritten\<rparr>"
proof -
  let ?buf = "map byte [0, 0, 1, 4, 0, 2, 4, 4, 0, 0, 0, 3, 0, 0, 0, 0]" and ?c = "new_connection :: unit BoltConnection"
  have m: "select_minor ?buf = 4" by code_simp
  have a: "acceptable (drop (4 * 1) ?buf) 4" by code_simp
  have "drop (4 * 1) ?buf \<in> set (map (\<lambda>i. drop (4 * i) ?buf) [0..<4])"
    unfolding set_map set_upt by (rule image_eqI [OF refl]) simp
  then have "\<exists>p \<in> set (map (\<lambda>i. drop (4 * i) ?buf) [0..<4]). \<exists>m. acceptable p m"
    using a by blast
  moreover have "cn_minor (ReadVersionNegotiationDone False ?buf ?c) = 4"
    using m by (simp add: ReadVersionNegotiationDone_def Let_def)
  ultimately show ?thesis
    using version_negotiation [of ?buf ?c] unfolding Let_def by (simp add: new_connection_def del: upt_rec_numeral list.map)
qed

section \<open>Messages are delivered\<close>

text \<open>A connection between two messages, or between two chunks, on a socket.\<close>

definition ready :: "'s BoltConnection \<Rightarrow> bool" where
  "ready c \<longleftrightarrow> \<not> cn_closed c \<and> cn_protocol c = Socket \<and> cn_wait c = WaitChunkSize \<and> cn_got c = []"

lemma feed_partial:
  assumes "wanted (cn_wait c) = Some n" "\<not> cn_closed c" "on_socket c" "length (cn_got c) + length s < n"
  shows "feed h s c = c\<lparr>cn_got := cn_got c @ s\<rparr>"
  using assms
proof (induction s arbitrary: c)
  case (Cons b s)
  have "arrive h b c = c\<lparr>cn_got := cn_got c @ [b]\<rparr>" using Cons.prems by (simp add: arrive_def)
  then show ?case using Cons.prems Cons.IH [of "c\<lparr>cn_got := cn_got c @ [b]\<rparr>"] by (simp add: on_socket_def)
qed simp

lemma feed_read:
  assumes "wanted (cn_wait c) = Some n" "\<not> cn_closed c" "on_socket c" "cn_got c = []" "length s = n" "0 < n"
  shows "feed h s c = settle h (completed h False s c)"
proof -
  obtain s' b where s: "s = s' @ [b]" using assms(5,6) by (cases s rule: rev_cases) auto
  have "feed h s' c = c\<lparr>cn_got := s'\<rparr>" using feed_partial [OF assms(1-3)] assms(4,5) s by simp
  moreover have "arrive h b (c\<lparr>cn_got := s'\<rparr>) = settle h (completed h False (s' @ [b]) (c\<lparr>cn_got := []\<rparr>))"
    using assms s by (simp add: arrive_def on_socket_def)
  moreover have "c\<lparr>cn_got := []\<rparr> = c" using assms(4) by simp
  ultimately show ?thesis using s by simp
qed

lemma ready_wanted: "ready c \<Longrightarrow> wanted (cn_wait c) = Some 2 \<and> \<not> cn_closed c \<and> on_socket c \<and> cn_got c = []"
  by (simp add: ready_def on_socket_def)

lemma feed_chunk:
  assumes "ready c" "0 < length s" "length s \<le> 0xffff" "length (cn_chunk c) + length s \<le> cn_max_message_size c"
  shows "feed h (be 2 (length s) @ s) c = c\<lparr>cn_chunk := cn_chunk c @ s\<rparr>"
    "ready (c\<lparr>cn_chunk := cn_chunk c @ s\<rparr>)"
proof -
  note c = assms(1) [unfolded ready_def]
  have n: "unbe (be 2 (length s)) = length s" using assms(3) by (simp add: unbe_be)
  let ?c = "c\<lparr>cn_wait := WaitChunk (length s)\<rparr>"
  have "feed h (be 2 (length s)) c = settle h (completed h False (be 2 (length s)) c)"
    using ready_wanted [OF assms(1)] by (intro feed_read) auto
  also have "\<dots> = ?c"
    using c assms(2,4) n by (simp add: completed_def ReadChunkSizeDone_def next_chunk_def start_read_def settle_def)
  finally have 1: "feed h (be 2 (length s)) c = ?c" .
  have "feed h s ?c = settle h (completed h False s ?c)"
    using c assms(2) by (intro feed_read) (auto simp: on_socket_def)
  also have "\<dots> = c\<lparr>cn_chunk := cn_chunk c @ s\<rparr>"
    using c by (simp add: completed_def ReadChunkDone_def start_read_def settle_def)
  finally show "feed h (be 2 (length s) @ s) c = c\<lparr>cn_chunk := cn_chunk c @ s\<rparr>" using 1 by simp
  show "ready (c\<lparr>cn_chunk := cn_chunk c @ s\<rparr>)" using c by (simp add: ready_def)
qed


text \<open>What the reader does with the message it has joined.\<close>

definition delivered :: "'s handler \<Rightarrow> 's BoltConnection \<Rightarrow> 's BoltConnection" where
  "delivered h c =
     (let c1 = c\<lparr>cn_wait := WaitNothing\<rparr> in
      case read_message (cn_debug c) (cn_chunk c) of Inl e \<Rightarrow> BoltConnection_Close c1
      | Inr (t, xs) \<Rightarrow>
          (case h c1 t xs of (Some e, c') \<Rightarrow> BoltConnection_Close c'
           | (None, c') \<Rightarrow> if cn_closed c' then c' else c'\<lparr>cn_chunk := [], cn_wait := WaitChunkSize\<rparr>))"

text \<open>
  What the reader relies on: a handler does not touch the protocol, the pending read or the message size limit, and
  keeps the queue of responses in order.
\<close>

definition leaves_reader :: "'s BoltConnection \<Rightarrow> 's BoltConnection \<Rightarrow> bool" where
  "leaves_reader c c' \<longleftrightarrow> cn_protocol c' = cn_protocol c \<and> cn_wait c' = cn_wait c \<and> cn_got c' = cn_got c \<and> cn_chunk c' = cn_chunk c \<and>
     cn_max_message_size c' = cn_max_message_size c \<and> cn_ws_size c' = cn_ws_size c \<and> cn_ws_read c' = cn_ws_read c"

lemma Close_reader [simp]: "leaves_reader c (BoltConnection_Close c)" "cn_closed (BoltConnection_Close c)"
  by (simp_all add: BoltConnection_Close_def Connection_Close_def leaves_reader_def Let_def split: option.split)

lemma settle_idle: "cn_wait c = WaitNothing \<Longrightarrow> settle h c = c" "cn_wait c = WaitNothing \<Longrightarrow> settle h (BoltConnection_Close c) = BoltConnection_Close c"
  using Close_reader(1) [of c] by (simp_all add: settle_def leaves_reader_def)

lemma feed_end:
  assumes "ready c" "cn_chunk c \<noteq> []" "\<And>d t xs. leaves_reader d (snd (h d t xs))"
  shows "feed h [byte 0, byte 0] c = delivered h c"
proof -
  note c = assms(1) [unfolded ready_def]
  let ?c1 = "c\<lparr>cn_wait := WaitNothing\<rparr>"
  have "feed h [byte 0, byte 0] c = settle h (completed h False [byte 0, byte 0] c)"
    using ready_wanted [OF assms(1)] by (intro feed_read) auto
  also have "\<dots> = settle h (ReadChunkSizeDone h False [byte 0, byte 0] ?c1)" using c by (simp add: completed_def)
  also have "\<dots> = delivered h c"
  proof (cases "read_message (cn_debug c) (cn_chunk c)")
    case (Inl e)
    then show ?thesis using assms(2) by (simp add: ReadChunkSizeDone_def delivered_def settle_idle)
  next
    case (Inr m)
    obtain t xs where m: "m = (t, xs)" by (cases m)
    obtain e c' where h: "h ?c1 t xs = (e, c')" by (cases "h ?c1 t xs")
    have c': "cn_wait c' = WaitNothing" "cn_protocol c' = Socket"
      using assms(3) [of ?c1 t xs] h c by (simp_all add: leaves_reader_def)
    show ?thesis
    proof (cases e)
      case None
      then show ?thesis
        using assms(2) Inr m h c'
        by (simp add: ReadChunkSizeDone_def delivered_def next_chunk_def start_read_def completed_def ReadChunkDone_def settle_idle)
          (simp add: settle_def completed_def ReadChunkDone_def start_read_def)
    next
      case (Some x)
      then show ?thesis using assms(2) Inr m h c' by (simp add: ReadChunkSizeDone_def delivered_def settle_idle)
    qed
  qed
  finally show ?thesis .
qed

lemma be_full: "be 2 0xffff = [byte 0xff, byte 0xff]"
  using char_of_mod_256 [of "65535 :: nat"] by (simp add: numeral_2_eq_2)

lemma feed_message:
  assumes "ready c" "msg \<noteq> []" "length (cn_chunk c) + length msg \<le> cn_max_message_size c" "\<And>d t xs. leaves_reader d (snd (h d t xs))"
  shows "feed h (chunked msg) c = delivered h (c\<lparr>cn_chunk := cn_chunk c @ msg\<rparr>)"
  using assms(1-3)
proof (induction msg arbitrary: c rule: chunked.induct)
  case (1 msg)
  show ?case
  proof (cases "length msg > 0xffff")
    case True
    let ?s = "take 0xffff msg" and ?c = "c\<lparr>cn_chunk := cn_chunk c @ take 0xffff msg\<rparr>"
    have len: "length ?s = 0xffff" using True by simp
    have m: "chunked msg = (be 2 (length ?s) @ ?s) @ chunked (drop 0xffff msg)"
      unfolding len be_full using True by (subst chunked.simps) simp
    have "feed h (be 2 (length ?s) @ ?s) c = ?c" "ready ?c"
      using feed_chunk [of c ?s] "1.prems" len by simp_all
    then have "feed h (chunked msg) c = feed h (chunked (drop 0xffff msg)) ?c" using m by simp
    also have "\<dots> = delivered h (?c\<lparr>cn_chunk := cn_chunk ?c @ drop 0xffff msg\<rparr>)"
      using "1.IH" [OF True \<open>ready ?c\<close>] True "1.prems" by simp
    also have "?c\<lparr>cn_chunk := cn_chunk ?c @ drop 0xffff msg\<rparr> = c\<lparr>cn_chunk := cn_chunk c @ msg\<rparr>" by simp
    finally show ?thesis .
  next
    case False
    then have "chunked msg = (be 2 (length msg) @ msg) @ [byte 0, byte 0]" by (subst chunked.simps) simp
    then show ?thesis
      using feed_chunk(1) [of c msg h] feed_chunk(2) [of c msg] feed_end [of "c\<lparr>cn_chunk := cn_chunk c @ msg\<rparr>" h] "1.prems" False assms(4) by simp
  qed
qed

lemma bindR_assoc: "bindR (bindR m f) g = bindR m (\<lambda>x. bindR (f x) g)"
  by (cases m) simp_all

lemma struct_len:
  assumes "ahead u (byte (0xb0 + n) # r)" "n < 0x10"
  shows "Unpacker_Len (Unpacker_Next u) = (n, Unpacker_Next u)"
  using ahead_Next(2) [OF assms(1)] assms(2)
  by (simp add: markers_def short_marker_def Unpacker_Len_def to_uint_def)

lemma reads_item:
  assumes "reads s (\<lambda>u. ServerHydrator f (Unpacker_Next u)) x" "s \<noteq> []"
  shows "reads s (\<lambda>u. bindR (unpacked (Unpacker_Next u)) (\<lambda>u1. bindR (ServerHydrator f u1) (\<lambda>(x, u2). bindR (unpacked u2) (\<lambda>u3. Inr (x, u3))))) x"
proof (rule readsI)
  fix u assume u: "ahead u s" "up_err u = None"
  obtain b r where "s = b # r" using assms(2) by (cases s) auto
  then have "up_err (Unpacker_Next u) = None" using ahead_Next(1) [of u b r] u by (simp add: moved_def)
  moreover obtain v where "ServerHydrator f (Unpacker_Next u) = Inr (x, v)" "moved u (length s) v" "up_err v = None"
    using assms(1) u unfolding reads_def moved_def by metis
  ultimately show "\<exists>v. bindR (unpacked (Unpacker_Next u)) (\<lambda>u1. bindR (ServerHydrator f u1) (\<lambda>(x, u2). bindR (unpacked u2) (\<lambda>u3. Inr (x, u3))))
      = Inr (x, v) \<and> moved u (length s) v"
    by (simp add: unpacked_def)
qed

lemma reads_fields:
  "\<forall>x \<in> set xs. wire x \<and> length (packed x) \<le> f \<Longrightarrow> reads (concat (map packed xs)) (read_fields f (length xs)) (map received xs)"
proof (induction xs)
  case Nil
  then show ?case by (simp add: reads_def moved_def)
next
  case (Cons x xs)
  let ?item = "\<lambda>u. bindR (unpacked (Unpacker_Next u)) (\<lambda>u1. bindR (ServerHydrator f u1) (\<lambda>(x, u2). bindR (unpacked u2) (\<lambda>u3. Inr (x, u3))))"
  have item: "reads (packed x) ?item (received x)"
    using Cons.prems hydrated_packed [of x f] packed_positive [of x] by (intro reads_item) auto
  have rest: "reads (concat (map packed xs)) (read_fields f (length xs)) (map received xs)" using Cons by simp
  have "reads (packed x @ concat (map packed xs)) (\<lambda>u. bindR (?item u) (\<lambda>(x, u3). bindR (read_fields f (length xs) u3) (\<lambda>(xs, u4). Inr (x # xs, u4))))
      (received x # map received xs)"
    by (rule reads_bind [OF item], rule reads_bind_last [OF rest])
  moreover have "(\<lambda>u. bindR (?item u) (\<lambda>(x, u3). bindR (read_fields f (length xs) u3) (\<lambda>(xs, u4). Inr (x # xs, u4)))) = read_fields f (length (x # xs))"
    by (rule ext) (simp add: case_prod_beta' bindR_assoc)
  ultimately show ?case by (simp del: read_fields.simps)
qed

lemma log_fields_printable: "log_fields debug xs = Inr () \<longleftrightarrow> (debug \<longrightarrow> (\<forall>x \<in> set xs. printable x))"
  using Print_printable [of "AList xs" "\<lambda>_. []"] by (cases "Print (\<lambda>_. []) (AList xs)") (simp_all add: log_fields_def)

lemma read_message_packed:
  assumes "t < 0x100" "length xs < 0x10" "\<forall>x \<in> set xs. wire x" "length (struct_bytes (byte t) (map packed xs)) < 2 ^ 32"
  shows "read_message debug (struct_bytes (byte t) (map packed xs)) =
    bindR (log_fields debug (map received xs)) (\<lambda>_. Inr (t, map received xs))"
proof -
  let ?m = "struct_bytes (byte t) (map packed xs)" and ?u = "Unpacker_Reset (struct_bytes (byte t) (map packed xs)) Unpacker0"
  have a: "ahead ?u (byte (0xb0 + length xs) # byte t # concat (map packed xs))" "up_err ?u = None"
    using ahead_Reset(1) [OF assms(4), of Unpacker0] ahead_Reset(2) by (simp_all add: struct_bytes_def)
  have n: "Unpacker_Len (Unpacker_Next ?u) = (length xs, Unpacker_Next ?u)" by (rule struct_len [OF a(1) assms(2)])
  obtain v where v: "Unpacker_StructTag (Unpacker_Next ?u) = (t, v)" "ahead v (concat (map packed xs))" "up_err v = None"
    using struct_ahead(2) [OF a(1) assms(2,1) a(2)] by blast
  have "length (packed x) \<le> length ?m + 2" if "x \<in> set xs" for x
    using concat_member_length [of "packed x" "map packed xs"] that by (simp add: struct_bytes_def)
  then have "reads (concat (map packed xs)) (read_fields (length ?m + 2) (length xs)) (map received xs)"
    using assms(3) by (intro reads_fields) auto
  then obtain w where "read_fields (length ?m + 2) (length xs) v = Inr (map received xs, w)"
    using v(2,3) unfolding reads_def by blast
  then show ?thesis using n v by (simp add: read_message_def unpacked_def Let_def)
qed


section \<open>The reader and its handler\<close>

text \<open>
  The contract between the reader and the handler of the messages: the handler answers through the queue of responses,
  closes the connection or changes its own context; it leaves the reader as it is.
\<close>

locale message_handler =
  fixes handle :: "'s handler"
  assumes leaves_reader: "leaves_reader c (snd (handle c t xs))"
begin

text \<open>
  A message that is complete is handed to the handler, unless the line of the log that comes first throws.
\<close>

lemma message_delivered:
  assumes "ready c" "cn_chunk c = []" "t < 0x100" "length xs < 0x10" "\<forall>x \<in> set xs. wire x"
    and "length (struct_bytes (byte t) (map packed xs)) < 2 ^ 32"
    and "length (struct_bytes (byte t) (map packed xs)) \<le> cn_max_message_size c"
  defines "c' \<equiv> c\<lparr>cn_chunk := struct_bytes (byte t) (map packed xs), cn_wait := WaitNothing\<rparr>"
  shows "feed handle (chunked (struct_bytes (byte t) (map packed xs))) c =
    (if cn_debug c \<and> \<not> (\<forall>x \<in> set xs. printable (received x)) then BoltConnection_Close c'
     else case handle c' t (map received xs) of
       (Some e, d) \<Rightarrow> BoltConnection_Close d
     | (None, d) \<Rightarrow> if cn_closed d then d else d\<lparr>cn_chunk := [], cn_wait := WaitChunkSize\<rparr>)"
proof -
  have "struct_bytes (byte t) (map packed xs) \<noteq> []" by (simp add: struct_bytes_def)
  then have f: "feed handle (chunked (struct_bytes (byte t) (map packed xs))) c = delivered handle (c\<lparr>cn_chunk := struct_bytes (byte t) (map packed xs)\<rparr>)"
    using feed_message [OF assms(1)] assms(2,7) leaves_reader by simp
  note m = read_message_packed [OF assms(3-6), of "cn_debug c"]
  have l: "log_fields (cn_debug c) (map received xs) = Inr () \<longleftrightarrow> \<not> (cn_debug c \<and> \<not> (\<forall>x \<in> set xs. printable (received x)))"
    using log_fields_printable [of "cn_debug c" "map received xs"] by simp
  show ?thesis
  proof (cases "cn_debug c \<and> \<not> (\<forall>x \<in> set xs. printable (received x))")
    case True
    then obtain e where "log_fields (cn_debug c) (map received xs) = Inl e"
      using l by (cases "log_fields (cn_debug c) (map received xs)") auto
    then show ?thesis unfolding if_P [OF True] f using m by (simp add: delivered_def c'_def)
  next
    case False
    then have "log_fields (cn_debug c) (map received xs) = Inr ()" using l by blast
    then show ?thesis unfolding if_not_P [OF False] f using m by (simp add: delivered_def c'_def)
  qed
qed

lemma request_delivered:
  assumes "ready c" "cn_chunk c = []" "t < 0x100" "length xs < 0x10" "\<forall>x \<in> set xs. wire x"
    and "length (struct_bytes (byte t) (map packed xs)) < 2 ^ 32"
    and "length (struct_bytes (byte t) (map packed xs)) \<le> cn_max_message_size c"
    and "cn_debug c \<Longrightarrow> \<forall>x \<in> set xs. printable (received x)"
  defines "c' \<equiv> c\<lparr>cn_chunk := struct_bytes (byte t) (map packed xs), cn_wait := WaitNothing\<rparr>"
  shows "feed handle (chunked (struct_bytes (byte t) (map packed xs))) c =
    (case handle c' t (map received xs) of
       (Some e, d) \<Rightarrow> BoltConnection_Close d
     | (None, d) \<Rightarrow> if cn_closed d then d else d\<lparr>cn_chunk := [], cn_wait := WaitChunkSize\<rparr>)"
  unfolding c'_def using message_delivered [OF assms(1-7)] assms(8) by auto

text \<open>A handler that does not close the connection leaves it ready for the next message.\<close>

lemma request_ready:
  assumes "ready c" "handle (c\<lparr>cn_chunk := m, cn_wait := WaitNothing\<rparr>) t xs = (None, d)" "\<not> cn_closed d"
  shows "ready (d\<lparr>cn_chunk := [], cn_wait := WaitChunkSize\<rparr>)"
  using leaves_reader [of "c\<lparr>cn_chunk := m, cn_wait := WaitNothing\<rparr>" t xs] assms by (simp add: ready_def leaves_reader_def)

end

text \<open>What the client sends for a query.\<close>

lemma AppendRun_bytes:
  assumes "length cypher < 2 ^ 31" "wire (AMap params)" "wire (AMap meta)"
  defines "msg \<equiv> struct_bytes (byte (BoltMsg_code Msg_Run)) (map packed [AString cypher, AMap params, AMap meta])"
  assumes "length (chunked msg) + 2 < 2 ^ 31"
  shows "returns (AppendRun cypher params meta PackStream_Reset) (\<lambda>ps. pk_buf (ps_packer ps) = chunked msg)"
proof -
  have "(\<lambda>p. bindR (PackX (AMap params) (Packer_String cypher (Packer_StructHeader (BoltMsg_code Msg_Run) 3 p))) (PackX (AMap meta))) p
      = Inr (append_buf msg p)" for p
    using PackX_packed [OF assms(2)] PackX_packed [OF assms(3)] assms(1)
    by (simp add: pack_appends struct_bytes_def msg_def append_buf_def del: PackX.simps packed.simps) simp
  from message_chunked [OF this, of PackStream_Reset] show ?thesis
    using assms(5) by (auto simp: AppendRun_def PackStream_Reset_def returns_def)
qed


section \<open>What holds of every connection\<close>

definition sending_ok :: "'s BoltConnection \<Rightarrow> bool" where
  "sending_ok c \<longleftrightarrow> (cn_queue c \<noteq> [] \<longrightarrow> prefix (cn_send_buffers c) (cn_queue c) \<and> cn_send_buffers c \<noteq> [] \<and> length (cn_send_buffers c) \<le> 5) \<and>
     (cn_queue c = [] \<longrightarrow> \<not> cn_closed c \<longrightarrow> cn_send_buffers c = []) \<and>
     (cn_queue c \<noteq> [] \<or> \<not> cn_closed c \<longrightarrow> cn_written c @ drop (length (cn_send_buffers c)) (cn_queue c) = cn_accepted c) \<and>
     prefix (cn_written c) (cn_accepted c)"

definition reader_ok :: "'s BoltConnection \<Rightarrow> bool" where
  "reader_ok c \<longleftrightarrow> length (cn_chunk c) \<le> cn_max_message_size c \<and>
     (\<forall>n. cn_wait c = WaitChunk n \<longrightarrow> length (cn_chunk c) + n \<le> cn_max_message_size c)"

definition closing_ok :: "'s BoltConnection \<Rightarrow> bool" where
  "closing_ok c \<longleftrightarrow> cn_close_notified c = cn_closed c \<and> cn_notices c = (if cn_closed c \<and> cn_close_handler c \<noteq> None then 1 else 0)"

definition connection_ok :: "'s BoltConnection \<Rightarrow> bool" where
  "connection_ok c \<longleftrightarrow> sending_ok c \<and> reader_ok c \<and> closing_ok c"

lemmas connection_ok_defs = connection_ok_def sending_ok_def reader_ok_def closing_ok_def

lemma fill_buffers_take: "length bufs < 5 \<Longrightarrow> fill_buffers q bufs = bufs @ take (5 - length bufs) q"
proof (induction q arbitrary: bufs)
  case (Cons m q)
  show ?case
  proof (cases "length bufs = 4")
    case False
    then have "5 - length bufs = Suc (5 - length (bufs @ [m]))" using Cons.prems by simp
    then show ?thesis using False Cons.prems Cons.IH [of "bufs @ [m]"] by simp
  qed simp
qed simp

lemma new_connection_ok: "connection_ok new_connection"
  by (simp add: connection_ok_defs new_connection_def)

lemma Close_ok: "connection_ok c \<Longrightarrow> connection_ok (BoltConnection_Close c)"
  by (auto simp: connection_ok_defs BoltConnection_Close_def Connection_Close_def Let_def split: option.splits)

lemma Close_ok_wait: "connection_ok c \<Longrightarrow> connection_ok (BoltConnection_Close (c\<lparr>cn_wait := w\<rparr>))" if "\<And>n. w \<noteq> WaitChunk n"
  using that by (intro Close_ok) (auto simp: connection_ok_defs)

lemma DoSend_ok:
  assumes "reader_ok c" "closing_ok c" "cn_queue c \<noteq> []" "cn_send_buffers c = []" "cn_written c @ cn_queue c = cn_accepted c"
  shows "connection_ok (DoSend c)"
proof -
  have "DoSend c = c\<lparr>cn_send_buffers := take 5 (cn_queue c), cn_written := cn_written c @ take 5 (cn_queue c)\<rparr>"
    using assms(4) by (simp add: DoSend_def fill_buffers_take Let_def)
  moreover have "drop (length (take 5 (cn_queue c))) (cn_queue c) = drop 5 (cn_queue c)" by (simp add: min_def)
  moreover have "cn_accepted c = (cn_written c @ take 5 (cn_queue c)) @ drop 5 (cn_queue c)" using assms(5) by simp
  ultimately show ?thesis using assms(1-3) by (auto simp: connection_ok_defs take_is_prefix)
qed

lemma Respond_ok: "connection_ok c \<Longrightarrow> connection_ok (Respond m c)"
proof (cases "cn_closed c \<or> cn_queue c \<noteq> []")
  case True
  assume "connection_ok c"
  then show ?thesis
    using True by (cases "cn_closed c") (auto simp: Respond_def connection_ok_defs Let_def dest: prefix_length_le)
next
  case False
  assume c: "connection_ok c"
  have "connection_ok (DoSend (c\<lparr>cn_queue := [m], cn_accepted := cn_accepted c @ [m]\<rparr>))"
    using c False by (intro DoSend_ok) (auto simp: connection_ok_defs)
  then show ?thesis using False by (simp add: Respond_def)
qed

lemma SendDone_fail_ok: "connection_ok c \<Longrightarrow> connection_ok (BoltConnection_Close (c\<lparr>cn_queue := []\<rparr>))"
  by (cases "cn_closed c"; cases "cn_close_handler c")
    (simp_all add: connection_ok_defs BoltConnection_Close_def Connection_Close_def)

lemma SendDone_ok: "connection_ok c \<Longrightarrow> cn_queue c \<noteq> [] \<Longrightarrow> connection_ok (SendDone ec c)"
proof (cases ec)
  case True
  assume "connection_ok c"
  then show ?thesis using True SendDone_fail_ok by (simp add: SendDone_def)
next
  case False
  assume c: "connection_ok c" "cn_queue c \<noteq> []"
  let ?c = "c\<lparr>cn_queue := drop (length (cn_send_buffers c)) (cn_queue c), cn_send_buffers := []\<rparr>"
  have w: "cn_written ?c @ cn_queue ?c = cn_accepted ?c" "prefix (cn_written ?c) (cn_accepted ?c)" "reader_ok ?c" "closing_ok ?c"
    using c by (simp_all add: connection_ok_def sending_ok_def reader_ok_def closing_ok_def)
  show ?thesis
  proof (cases "cn_queue ?c = []")
    case True
    then have "connection_ok ?c" using w by (simp add: connection_ok_def sending_ok_def)
    then show ?thesis using False True by (simp add: SendDone_def)
  next
    case q: False
    have "connection_ok (DoSend ?c)" using w q by (intro DoSend_ok) simp_all
    then show ?thesis using False q by (simp add: SendDone_def)
  qed
qed

lemma wait_ok: "connection_ok c \<Longrightarrow> (\<And>n. w = WaitChunk n \<Longrightarrow> length (cn_chunk c) + n \<le> cn_max_message_size c) \<Longrightarrow> connection_ok (c\<lparr>cn_wait := w\<rparr>)"
  by (auto simp: connection_ok_defs)

lemma fields_ok [simp]:
  "connection_ok (c\<lparr>cn_protocol := p\<rparr>) = connection_ok c" "connection_ok (c\<lparr>cn_got := g\<rparr>) = connection_ok c"
  "connection_ok (c\<lparr>cn_ws_size := n\<rparr>) = connection_ok c" "connection_ok (c\<lparr>cn_ws_read := g\<rparr>) = connection_ok c"
  "connection_ok (c\<lparr>cn_minor := m\<rparr>) = connection_ok c" "connection_ok (c\<lparr>cn_answer := g\<rparr>) = connection_ok c"
  "connection_ok (c\<lparr>cn_posted := ts\<rparr>) = connection_ok c" "connection_ok (c\<lparr>cn_context := x\<rparr>) = connection_ok c"
  by (simp_all add: connection_ok_defs)

lemma start_read_ok:
  assumes "connection_ok c" "\<And>n. w = WaitChunk n \<Longrightarrow> length (cn_chunk c) + n \<le> cn_max_message_size c"
  shows "connection_ok (start_read k w c)"
  using wait_ok [OF assms] wait_ok [of "c\<lparr>cn_ws_size := k, cn_ws_read := []\<rparr>" w] assms
  by (simp add: start_read_def WebSocketAsyncRead_def)

lemma next_chunk_ok: "connection_ok c \<Longrightarrow> connection_ok (next_chunk n c)"
  by (auto simp: next_chunk_def Close_ok intro!: start_read_ok)

lemma chunk_ok: "connection_ok c \<Longrightarrow> length s \<le> cn_max_message_size c \<Longrightarrow> (\<And>n. cn_wait c \<noteq> WaitChunk n) \<Longrightarrow> connection_ok (c\<lparr>cn_chunk := s\<rparr>)"
  by (auto simp: connection_ok_defs)

lemma handshake_ok:
  "connection_ok c \<Longrightarrow> connection_ok (ReadMagicDone ec b c)" "connection_ok c \<Longrightarrow> connection_ok (WebSocketAcceptDone ec c)"
  "connection_ok c \<Longrightarrow> connection_ok (ReadBoltIdentificationDone ec b c)" "connection_ok c \<Longrightarrow> connection_ok (ReadVersionNegotiationDone ec b c)"
  "connection_ok c \<Longrightarrow> connection_ok (WriteResponseDone ec c)"
  by (auto simp: ReadMagicDone_def WebSocketAcceptDone_def ReadBoltIdentificationDone_def ReadVersionNegotiationDone_def WriteResponseDone_def
      WebSocketAsyncRead_def Let_def intro: Close_ok wait_ok start_read_ok)

text \<open>
  The events of a connection: bytes arrive, a read or a write fails, the WebSocket or the answer to the handshake is
  done, a write of responses ends, a posted task runs, other threads post responses or the end of the connection
  and change the context, which is theirs, and the level of the log changes.
\<close>

inductive conn_step :: "'s handler \<Rightarrow> 's BoltConnection \<Rightarrow> 's BoltConnection \<Rightarrow> bool" for h where
  byte: "conn_step h c (arrive h b c)"
| read_fails: "conn_step h c (completed h True [] c)"
| accepted: "cn_wait c = WaitAccept \<Longrightarrow> conn_step h c (completed h False [] c)"
| answered: "cn_wait c = WaitWritten \<Longrightarrow> conn_step h c (completed h False [] c)"
| sent: "cn_queue c \<noteq> [] \<Longrightarrow> conn_step h c (SendDone ec c)"
| posted: "conn_step h c (run_posted c)"
| post_response: "conn_step h c (PostResponse m c)"
| post_close: "conn_step h c (PostClose c)"
| other: "conn_step h c (c\<lparr>cn_context := x\<rparr>)"
| log_level: "conn_step h c (c\<lparr>cn_debug := b\<rparr>)"

definition conn_reach :: "'s handler \<Rightarrow> 's BoltConnection \<Rightarrow> bool" where
  "conn_reach h c \<longleftrightarrow> (\<exists>ec. (conn_step h)\<^sup>*\<^sup>* (BoltConnection_Start ec new_connection) c)"

text \<open>A read that has just been started, and the state between two events.\<close>

definition fresh :: "'s BoltConnection \<Rightarrow> bool" where
  "fresh c \<longleftrightarrow> (\<not> cn_closed c \<longrightarrow> cn_got c = [] \<and>
     (\<forall>n. wanted (cn_wait c) = Some n \<longrightarrow> on_socket c \<or> cn_ws_size c = n \<and> cn_ws_read c = []))"

definition pending_ok :: "'s BoltConnection \<Rightarrow> bool" where
  "pending_ok c \<longleftrightarrow> (\<not> cn_closed c \<longrightarrow>
     (case wanted (cn_wait c) of None \<Rightarrow> cn_got c = []
      | Some n \<Rightarrow> 0 < n \<and> (if on_socket c then length (cn_got c) < n else cn_got c = [] \<and> cn_ws_size c = n \<and> length (cn_ws_read c) < n)))"

lemma fresh_closed [simp]: "cn_closed c \<Longrightarrow> fresh c" "cn_closed c \<Longrightarrow> pending_ok c"
  by (simp_all add: fresh_def pending_ok_def)

lemma fresh_start:
  assumes "cn_got c = []" "wanted w = Some n"
  shows "fresh (start_read n w c)" "fresh (WebSocketAsyncRead n w c)"
  using assms by (auto simp: fresh_def start_read_def WebSocketAsyncRead_def on_socket_def)

lemma fresh_handshake:
  assumes "cn_got c = []"
  shows "fresh (ReadMagicDone False b c)" "fresh (WebSocketAcceptDone False c)" "fresh (ReadBoltIdentificationDone False b c)"
    "fresh (WriteResponseDone False c)" "fresh (ReadChunkDone False b c)" "fresh (next_chunk n c)"
  using assms by (simp_all add: ReadMagicDone_def WebSocketAcceptDone_def ReadBoltIdentificationDone_def WriteResponseDone_def
      ReadChunkDone_def next_chunk_def fresh_start) (simp add: fresh_def on_socket_def)

lemma fresh_version: "cn_got c = [] \<Longrightarrow> fresh (ReadVersionNegotiationDone False b c)"
  by (simp add: ReadVersionNegotiationDone_def Let_def) (simp add: fresh_def)

lemma leaves_pending: "leaves_reader c d \<Longrightarrow> (cn_closed c \<Longrightarrow> cn_closed d) \<Longrightarrow> pending_ok c \<Longrightarrow> pending_ok d"
  by (cases "wanted (cn_wait c)") (auto simp: leaves_reader_def pending_ok_def on_socket_def)

lemma send_leaves:
  "leaves_reader c (Respond m c)" "cn_closed (Respond m c) = cn_closed c" "leaves_reader c (SendDone ec c)" "cn_closed c \<Longrightarrow> cn_closed (SendDone ec c)"
  "leaves_reader c (PostResponse m c)" "cn_closed (PostResponse m c) = cn_closed c" "leaves_reader c (PostClose c)"
  "cn_closed (PostClose c) = cn_closed c"
  by (auto simp: leaves_reader_def Respond_def DoSend_def SendDone_def PostResponse_def PostClose_def BoltConnection_Close_def Connection_Close_def Let_def split: option.splits)

lemma posted_leaves: "leaves_reader c (run_posted c)" "cn_closed c \<Longrightarrow> cn_closed (run_posted c)"
  using send_leaves(1,2) [where c = "c\<lparr>cn_posted := ts\<rparr>" for ts] Close_reader(1) [of "c\<lparr>cn_posted := ts\<rparr>" for ts]
  by (auto simp: run_posted_def leaves_reader_def split: list.split task.split)

lemma posted_ok: "connection_ok c \<Longrightarrow> connection_ok (run_posted c)" "connection_ok c \<Longrightarrow> connection_ok (PostResponse m c)"
  "connection_ok c \<Longrightarrow> connection_ok (PostClose c)"
  by (auto simp: run_posted_def PostResponse_def PostClose_def Respond_ok Close_ok split: list.split task.split)

lemma start_ok: "connection_ok (BoltConnection_Start ec new_connection) \<and> pending_ok (BoltConnection_Start ec new_connection)"
proof
  show "connection_ok (BoltConnection_Start ec new_connection)"
    by (auto simp: BoltConnection_Start_def intro: Close_ok wait_ok new_connection_ok)
  show "pending_ok (BoltConnection_Start ec new_connection)"
    by (cases ec) (simp_all add: BoltConnection_Start_def pending_ok_def new_connection_def on_socket_def)
qed

locale answering_handler = message_handler +
  assumes answers: "connection_ok c \<Longrightarrow> \<not> cn_closed c \<Longrightarrow> connection_ok (snd (handle c t xs))"
begin

lemma ReadChunkSizeDone_ok:
  assumes "connection_ok c" "\<not> cn_closed c" "cn_wait c = WaitNothing"
  shows "connection_ok (ReadChunkSizeDone handle ec b c)"
proof (cases "read_message (cn_debug c) (cn_chunk c)")
  case (Inr m)
  obtain t xs where m: "m = (t, xs)" by (cases m)
  obtain e d where h: "handle c t xs = (e, d)" by (cases "handle c t xs")
  have d: "connection_ok d" "cn_wait d = WaitNothing"
    using answers [OF assms(1,2), of t xs] leaves_reader [of c t xs] h assms(3) by (simp_all add: leaves_reader_def)
  then have "connection_ok (next_chunk n (d\<lparr>cn_chunk := []\<rparr>))" for n by (intro next_chunk_ok chunk_ok) simp_all
  then show ?thesis
    using d(1) Inr m h assms(1) by (cases e) (simp_all add: ReadChunkSizeDone_def Let_def Close_ok next_chunk_ok)
qed (use assms(1) in \<open>simp add: ReadChunkSizeDone_def Let_def Close_ok next_chunk_ok\<close>)

lemma ReadChunkDone_ok:
  assumes "connection_ok c" "\<not> ec \<Longrightarrow> length (cn_chunk c) + length b \<le> cn_max_message_size c" "cn_wait c = WaitNothing"
  shows "connection_ok (ReadChunkDone ec b c)"
  using assms by (auto simp: ReadChunkDone_def Close_ok intro!: start_read_ok chunk_ok)

lemma completed_ok:
  assumes "connection_ok c" "\<not> ec \<Longrightarrow> \<not> cn_closed c" "\<not> ec \<Longrightarrow> wanted (cn_wait c) = None \<or> wanted (cn_wait c) = Some (length b)"
  shows "connection_ok (completed handle ec b c)"
proof -
  have c': "connection_ok (c\<lparr>cn_wait := WaitNothing\<rparr>)" by (rule wait_ok [OF assms(1)]) simp
  show ?thesis
  proof (cases "cn_wait c")
    case WaitChunkSize
    then show ?thesis
      using ReadChunkSizeDone_ok [OF c'] assms(2) Close_ok [OF c'] by (cases ec) (simp_all add: completed_def, simp add: ReadChunkSizeDone_def)
  next
    case (WaitChunk n)
    then have "length (cn_chunk c) + n \<le> cn_max_message_size c" using assms(1) by (simp add: connection_ok_defs)
    then show ?thesis using WaitChunk assms(3) ReadChunkDone_ok [OF c', of ec b] by (auto simp: completed_def)
  qed (simp_all add: completed_def assms(1) handshake_ok [OF c'])
qed

lemma settle_ok: "connection_ok c \<Longrightarrow> connection_ok (settle handle c)"
  using completed_ok [of c False "[]"] by (simp add: settle_def)

lemma fresh_size:
  assumes "cn_got c = []"
  shows "fresh (ReadChunkSizeDone handle False b c)"
proof (cases "read_message (cn_debug c) (cn_chunk c)")
  case (Inr m)
  obtain t xs where m: "m = (t, xs)" by (cases m)
  obtain e d where h: "handle c t xs = (e, d)" by (cases "handle c t xs")
  have "cn_got d = []" using leaves_reader [of c t xs] h assms by (simp add: leaves_reader_def)
  then have "fresh (next_chunk n (d\<lparr>cn_chunk := []\<rparr>))" for n by (intro fresh_handshake) simp
  then show ?thesis using Inr m h fresh_handshake(6) [OF assms] by (cases e) (simp_all add: ReadChunkSizeDone_def Let_def)
qed (simp add: ReadChunkSizeDone_def Let_def fresh_handshake(6) [OF assms])

lemma completed_fresh:
  assumes "cn_got c = []"
  shows "fresh (completed handle False b c)"
proof -
  have "cn_got (c\<lparr>cn_wait := WaitNothing\<rparr>) = []" using assms by simp
  note this [THEN fresh_size] this [THEN fresh_version] fresh_handshake [OF this]
  then show ?thesis by (cases "cn_wait c") (simp_all add: completed_def, simp add: fresh_def assms)
qed

lemma settle_pending:
  assumes "fresh c"
  shows "pending_ok (settle handle c)"
proof (cases "wanted (cn_wait c) = Some 0 \<and> \<not> cn_closed c")
  case True
  then have "cn_wait c = WaitChunk 0" by (cases "cn_wait c") simp_all
  then show ?thesis
    using True assms
    by (cases "cn_protocol c") (simp_all add: settle_def completed_def ReadChunkDone_def start_read_def WebSocketAsyncRead_def
        fresh_def pending_ok_def on_socket_def Let_def)
next
  case False
  then show ?thesis using assms by (auto simp: settle_def fresh_def pending_ok_def split: option.split)
qed

lemma arrive_ok:
  assumes "connection_ok c" "pending_ok c"
  shows "connection_ok (arrive handle b c) \<and> pending_ok (arrive handle b c)"
proof (cases "wanted (cn_wait c)")
  case (Some n)
  have whole: "connection_ok (settle handle (completed handle False s d)) \<and> pending_ok (settle handle (completed handle False s d))"
    if "connection_ok d" "\<not> cn_closed d" "cn_got d = []" "wanted (cn_wait d) = Some (length s)" for s d
    using that completed_fresh [THEN settle_pending, of d s] settle_ok [OF completed_ok [of d False s]] by simp
  consider "cn_closed c" | "\<not> cn_closed c" "on_socket c" | "\<not> cn_closed c" "\<not> on_socket c" by blast
  then show ?thesis
  proof cases
    case 2
    then have "length (cn_got c @ [b]) \<le> n" using assms(2) Some by (simp add: pending_ok_def)
    then show ?thesis
      using 2 Some assms whole [of "c\<lparr>cn_got := []\<rparr>" "cn_got c @ [b]"]
      by (auto simp: arrive_def pending_ok_def on_socket_def Let_def)
  next
    case 3
    then have w: "cn_got c = []" "cn_ws_size c = n" "length (cn_ws_read c) < n" using assms(2) Some by (simp_all add: pending_ok_def)
    let ?d = "c\<lparr>cn_ws_read := cn_ws_read c @ [b]\<rparr>"
    show ?thesis
    proof (cases "length (cn_ws_read ?d) < n")
      case True
      then have "settle handle ?d = ?d" using Some w(3) by (simp add: settle_def)
      then show ?thesis using 3 Some True w assms(1) by (simp add: arrive_def WebSocketReadSomeDone_def pending_ok_def on_socket_def)
    next
      case False
      then show ?thesis
        using 3 Some w assms(1) whole [of ?d "cn_ws_read ?d"] by (simp add: arrive_def WebSocketReadSomeDone_def)
    qed
  qed (use Some assms in \<open>simp add: arrive_def\<close>)
qed (use assms in \<open>simp add: arrive_def\<close>)

lemma step_ok:
  "conn_step handle c d \<Longrightarrow> connection_ok c \<Longrightarrow> pending_ok c \<Longrightarrow> connection_ok d \<and> pending_ok d"
proof (induction rule: conn_step.induct)
  case (byte c b)
  then show ?case by (rule arrive_ok)
next
  case (read_fails c)
  have "cn_wait c \<noteq> WaitNothing \<Longrightarrow> cn_closed (completed handle True [] c)"
    by (cases "cn_wait c") (simp_all add: completed_def ReadMagicDone_def WebSocketAcceptDone_def ReadBoltIdentificationDone_def
        ReadVersionNegotiationDone_def WriteResponseDone_def ReadChunkSizeDone_def ReadChunkDone_def)
  moreover have "cn_wait c = WaitNothing \<Longrightarrow> completed handle True [] c = c" by (simp add: completed_def)
  ultimately show ?case using read_fails completed_ok [of c True "[]"] by (cases "cn_wait c = WaitNothing") auto
next
  case (sent c ec)
  then show ?case using SendDone_ok leaves_pending [OF send_leaves(3,4)] by blast
next
  case (posted c)
  then show ?case using posted_ok(1) leaves_pending [OF posted_leaves] by blast
next
  case (post_response c m)
  then show ?case using posted_ok(2) leaves_pending [OF send_leaves(5)] send_leaves(6) by blast
next
  case (post_close c)
  then show ?case using posted_ok(3) leaves_pending [OF send_leaves(7)] send_leaves(8) by blast
next
  case (other c x)
  have "leaves_reader c (c\<lparr>cn_context := x\<rparr>)" by (simp add: leaves_reader_def)
  then show ?case using other leaves_pending [of c "c\<lparr>cn_context := x\<rparr>"] by simp
next
  case (log_level c b)
  have "leaves_reader c (c\<lparr>cn_debug := b\<rparr>)" "connection_ok (c\<lparr>cn_debug := b\<rparr>)"
    using log_level(1) by (simp_all add: leaves_reader_def connection_ok_defs)
  then show ?case using log_level leaves_pending [of c "c\<lparr>cn_debug := b\<rparr>"] by simp
next
  case (accepted c)
  then show ?case
    using handshake_ok(2) [OF wait_ok, of c WaitNothing False]
    by (simp add: completed_def) (simp add: pending_ok_def WebSocketAcceptDone_def WebSocketAsyncRead_def on_socket_def)
next
  case (answered c)
  then show ?case
    using handshake_ok(5) [OF wait_ok, of c WaitNothing False]
    by (simp add: completed_def) (simp add: pending_ok_def WriteResponseDone_def start_read_def WebSocketAsyncRead_def on_socket_def)
qed

lemma reach_ok:
  assumes "conn_reach handle c"
  shows "connection_ok c"
proof -
  obtain ec where r: "(conn_step handle)\<^sup>*\<^sup>* (BoltConnection_Start ec new_connection) c" using assms by (auto simp: conn_reach_def)
  then have "connection_ok c \<and> pending_ok c" by (induction rule: rtranclp_induct) (use start_ok step_ok in blast)+
  then show ?thesis by simp
qed

end

end
