(* ===== verification/BoltConvert.thy ===== *)
theory BoltConvert
  imports BoltRoundTrip Calendar "HOL-Library.List_Lexorder" "HOL-Library.Char_ord"
begin

text \<open>
  The conversion between the values of the query language and the values of the Bolt protocol
  (\<open>src/server/bolt_handler.cc\<close>): query parameters come in by \<open>ConvertParameter\<close>, result rows go out by \<open>ConvertRow\<close>.
  A parameter of the model is \<open>zoned\<close>, the call of \<open>ConstructDateTime\<close> that finds the offset of a named time zone in
  the time zone database. The calendar of \<open>std::chrono\<close> is the one of \<open>Calendar\<close> for the years its \<open>year\<close> can hold;
  the library leaves the result unspecified for all others.
\<close>

section \<open>Points in time\<close>

definition chrono_year :: "int \<Rightarrow> bool" where
  "chrono_year y \<longleftrightarrow> - 32767 \<le> y \<and> y \<le> 32767"

text \<open>\<open>year_month_day{sys_days{days{n}}}\<close> and \<open>sys_days{year / month / day}\<close>.\<close>

definition year_month_day :: "int \<Rightarrow> Date res" where
  "year_month_day n =
     (case FromSysDays n of Inl e \<Rightarrow> Inl (Undefined ''year_month_day'')
      | Inr d \<Rightarrow> if chrono_year (dt_year d) then Inr d else Inl (Undefined ''year_month_day''))"

definition sys_days :: "Date \<Rightarrow> int res" where
  "sys_days d =
     (if chrono_year (dt_year d) \<and> 1 \<le> dt_month d \<and> dt_month d \<le> 12 \<and> 0 \<le> dt_day d \<and> dt_day d \<le> 255
      then Inr (DaysFromCivil (dt_year d) (dt_month d) 1 + (dt_day d - 1)) else Inl (Undefined ''sys_days''))"

definition InputError :: "string \<Rightarrow> 'a res" where
  "InputError msg = Inl (Thrown ''InputError'' msg)"

definition LocalDateTimeFromEpoch :: "int \<Rightarrow> int \<Rightarrow> LocalDateTime res" where
  "LocalDateTimeFromEpoch seconds nanoseconds =
     (let day = seconds div 86400; time = seconds - day * 86400
      in bindR (year_month_day day) (\<lambda>date. Inr \<lparr>ld_date = date,
           ld_time = \<lparr>lt_hour = time div 3600, lt_minute = time mod 3600 div 60, lt_second = time mod 60,
             lt_nanosecond = nanoseconds, lt_has_seconds = True\<rparr>\<rparr>))"

definition LocalDateTimeToEpochSeconds :: "LocalDateTime \<Rightarrow> int res" where
  "LocalDateTimeToEpochSeconds v =
     bindR (sys_days (ld_date v)) (\<lambda>day. let time = ld_time v in
       Inr (day * 86400 + lt_hour time * 3600 + lt_minute time * 60 + lt_second time))"

definition ParameterNanosecond :: "int \<Rightarrow> int res" where
  "ParameterNanosecond v =
     (if v < 0 \<or> v \<ge> 1000000000 then InputError ''parameter nanosecond is out of range'' else Inr v)"

definition ParameterUtcOffset :: "int \<Rightarrow> int res" where
  "ParameterUtcOffset v =
     (if v < - (18 * 60 * 60) \<or> v > 18 * 60 * 60 then InputError ''parameter UTC offset is out of range'' else Inr v)"

definition AddParameterUtcOffset :: "int \<Rightarrow> int \<Rightarrow> int res" where
  "AddParameterUtcOffset seconds offset =
     (if offset > 0 \<and> seconds > (2 ^ 63 - 1) - offset \<or> offset < 0 \<and> seconds < - (2 ^ 63) - offset
      then InputError ''datetime parameter seconds are out of range'' else Inr (seconds + offset))"

text \<open>\<open>UtcDateTimeFromEpoch\<close> and \<open>ConstructDateTimeFromEpoch\<close> of \<open>src/value/temporal.cc\<close>, for two integers.\<close>

definition UtcDateTimeFromEpoch :: "int \<Rightarrow> int \<Rightarrow> LocalDateTime res" where
  "UtcDateTimeFromEpoch epoch_seconds nanosecond =
     (let days = epoch_seconds sdiv 86400; second_of_day = epoch_seconds smod 86400;
          days' = (if second_of_day < 0 then days - 1 else days);
          second_of_day' = (if second_of_day < 0 then second_of_day + 86400 else second_of_day);
          hour = second_of_day' sdiv 3600; rest = second_of_day' smod 3600
      in bindR (FromSysDays days') (\<lambda>date. Inr \<lparr>ld_date = date,
           ld_time = \<lparr>lt_hour = hour, lt_minute = rest sdiv 60, lt_second = rest smod 60, lt_nanosecond = nanosecond,
             lt_has_seconds = True\<rparr>\<rparr>))"

definition ConstructDateTimeFromEpoch :: "Value \<Rightarrow> Value \<Rightarrow> Value res" where
  "ConstructDateTimeFromEpoch seconds nanoseconds =
     (if seconds = VNull \<or> nanoseconds = VNull then Inr VNull
      else case (seconds, nanoseconds) of
        (VInteger s, VInteger n) \<Rightarrow>
          bindR (CheckedInt n 0 999999999 ''nanosecond'') (\<lambda>fraction.
          bindR (UtcDateTimeFromEpoch s fraction) (\<lambda>local.
            Inr (VDateTime \<lparr>dz_local_date_time = local, dz_utc_offset_seconds = 0, dz_timezone = []\<rparr>)))
      | _ \<Rightarrow> InvalidTemporal ''datetime.fromepoch() arguments must be integers'')"

section \<open>Parameters\<close>

type_synonym zoned = "Value \<Rightarrow> string \<Rightarrow> Value res"

definition NamedZoneDateTimeParameter :: "zoned \<Rightarrow> int \<Rightarrow> int \<Rightarrow> string \<Rightarrow> bool \<Rightarrow> Value res" where
  "NamedZoneDateTimeParameter zoned seconds nanoseconds timezone seconds_are_utc =
     (if timezone = [] then InputError ''datetime parameter timezone is empty''
      else bindR (ParameterNanosecond nanoseconds) (\<lambda>fraction.
        let source = (if seconds_are_utc then ConstructDateTimeFromEpoch (VInteger seconds) (VInteger nanoseconds)
                      else bindR (LocalDateTimeFromEpoch seconds fraction) (\<lambda>l. Inr (VLocalDateTime l)))
        in case bindR source (\<lambda>v. zoned v timezone) of
             Inl (Thrown code msg) \<Rightarrow> InputError (''invalid datetime parameter: '' @ msg)
           | r \<Rightarrow> r))"

definition DurationParameter :: "int \<Rightarrow> int \<Rightarrow> int \<Rightarrow> int \<Rightarrow> Duration res" where
  "DurationParameter months days seconds nanos =
     (let carry = nanos sdiv 1000000000; fraction = nanos smod 1000000000;
          carry' = (if fraction < 0 then carry - 1 else carry);
          fraction' = (if fraction < 0 then fraction + 1000000000 else fraction)
      in if carry' > 0 \<and> seconds > (2 ^ 63 - 1) - carry' \<or> carry' < 0 \<and> seconds < - (2 ^ 63) - carry'
         then InputError ''duration parameter seconds are out of range''
         else Inr \<lparr>du_months = months, du_days = days, du_seconds = seconds + carry', du_nanoseconds = fraction'\<rparr>)"

definition LocalTimeParameter :: "int \<Rightarrow> LocalTime res" where
  "LocalTimeParameter nanos =
     (if nanos < 0 \<or> nanos \<ge> 86400 * 1000000000 then InputError ''local time parameter is out of range''
      else let seconds = nanos div 1000000000
           in Inr \<lparr>lt_hour = seconds div 3600, lt_minute = seconds mod 3600 div 60, lt_second = seconds mod 60,
                lt_nanosecond = nanos mod 1000000000, lt_has_seconds = True\<rparr>)"

definition PointParameter :: "nat \<Rightarrow> nat list \<Rightarrow> Value res" where
  "PointParameter spatialRefId coordinates =
     (if spatialRefId > 2 ^ 31 - 1 then InputError ''point parameter SRID is out of range''
      else Inr (VPoint \<lparr>pt_srid = int spatialRefId, pt_coordinates = coordinates\<rparr>))"

text \<open>\<open>emplace\<close> of a map that is ordered by its keys: an entry that is there is kept.\<close>

fun map_emplace :: "string \<Rightarrow> 'a \<Rightarrow> (string \<times> 'a) list \<Rightarrow> (string \<times> 'a) list" where
  "map_emplace k v [] = [(k, v)]"
| "map_emplace k v ((k', v') # m) =
     (if k < k' then (k, v) # (k', v') # m else if k = k' then (k', v') # m else (k', v') # map_emplace k v m)"

text \<open>
  The function tests the type of its argument; what no test names is refused. Where two arguments of a call can both
  be refused the first one decides, though the language leaves that order open.
\<close>

fun ConvertParameter :: "zoned \<Rightarrow> any \<Rightarrow> Value res"
and ConvertParameters :: "zoned \<Rightarrow> any list \<Rightarrow> Value list res"
and ConvertEntries :: "zoned \<Rightarrow> (string \<times> any) list \<Rightarrow> (string \<times> Value) list \<Rightarrow> (string \<times> Value) list res" where
  "ConvertParameter zoned ANone = Inr VNull"
| "ConvertParameter zoned (AByteArray s) = InputError ''Cypher byte-array parameters are not supported''"
| "ConvertParameter zoned (AString s) = Inr (VString s)"
| "ConvertParameter zoned (AInt64 i) = Inr (VInteger i)"
| "ConvertParameter zoned (ADouble d) = Inr (VDouble d)"
| "ConvertParameter zoned (ABool b) = Inr (VBool b)"
| "ConvertParameter zoned (AList xs) = bindR (ConvertParameters zoned xs) (\<lambda>vs. Inr (VList vs))"
| "ConvertParameter zoned (AMap m) = bindR (ConvertEntries zoned m []) (\<lambda>m'. Inr (VMap m'))"
| "ConvertParameter zoned (ADate days) = bindR (year_month_day days) (\<lambda>d. Inr (VDate d))"
| "ConvertParameter zoned (ALocalTime nanos) = bindR (LocalTimeParameter nanos) (\<lambda>t. Inr (VLocalTime t))"
| "ConvertParameter zoned (ATime nanos tz) =
     bindR (LocalTimeParameter nanos) (\<lambda>t. bindR (ParameterUtcOffset tz) (\<lambda>offset.
       Inr (VTime \<lparr>tm_local_time = t, tm_utc_offset_seconds = offset, tm_timezone = []\<rparr>)))"
| "ConvertParameter zoned (ALocalDateTime seconds nanos) =
     bindR (ParameterNanosecond nanos) (\<lambda>n. bindR (LocalDateTimeFromEpoch seconds n) (\<lambda>l. Inr (VLocalDateTime l)))"
| "ConvertParameter zoned (ADateTime seconds nanos tz) =
     bindR (ParameterUtcOffset tz) (\<lambda>offset. bindR (AddParameterUtcOffset seconds offset) (\<lambda>s.
     bindR (ParameterNanosecond nanos) (\<lambda>n. bindR (LocalDateTimeFromEpoch s n) (\<lambda>l.
       Inr (VDateTime \<lparr>dz_local_date_time = l, dz_utc_offset_seconds = offset, dz_timezone = []\<rparr>)))))"
| "ConvertParameter zoned (ALegacyDateTime seconds nanos tz) =
     bindR (ParameterNanosecond nanos) (\<lambda>n. bindR (LocalDateTimeFromEpoch seconds n) (\<lambda>l.
     bindR (ParameterUtcOffset tz) (\<lambda>offset.
       Inr (VDateTime \<lparr>dz_local_date_time = l, dz_utc_offset_seconds = offset, dz_timezone = []\<rparr>))))"
| "ConvertParameter zoned (ADateTimeZoneId seconds nanos tz) = NamedZoneDateTimeParameter zoned seconds nanos tz True"
| "ConvertParameter zoned (ALegacyDateTimeZoneId seconds nanos tz) = NamedZoneDateTimeParameter zoned seconds nanos tz False"
| "ConvertParameter zoned (ADuration months days seconds nanos) =
     bindR (DurationParameter months days seconds nanos) (\<lambda>d. Inr (VDuration d))"
| "ConvertParameter zoned (APoint2D x y srid) = PointParameter srid [x, y]"
| "ConvertParameter zoned (APoint3D x y z srid) = PointParameter srid [x, y, z]"
| "ConvertParameter zoned _ = InputError ''Unexpected cypher parameter type''"
| "ConvertParameters zoned [] = Inr []"
| "ConvertParameters zoned (x # xs) =
     bindR (ConvertParameter zoned x) (\<lambda>v. bindR (ConvertParameters zoned xs) (\<lambda>vs. Inr (v # vs)))"
| "ConvertEntries zoned [] acc = Inr acc"
| "ConvertEntries zoned ((k, x) # m) acc =
     bindR (ConvertParameter zoned x) (\<lambda>v. ConvertEntries zoned m (map_emplace k v acc))"

section \<open>Results\<close>

definition ValueError :: "string \<Rightarrow> 'a res" where
  "ValueError msg = Inl (Thrown ''ValueError'' msg)"

definition LocalTime_nanoseconds :: "LocalTime \<Rightarrow> int" where
  "LocalTime_nanoseconds t = (lt_hour t * 3600 + lt_minute t * 60 + lt_second t) * 1000000000 + lt_nanosecond t"

definition ConvertPoint :: "Point \<Rightarrow> any res" where
  "ConvertPoint p =
     (case pt_coordinates p of
        [x, y] \<Rightarrow> Inr (APoint2D x y (to_uint 32 (pt_srid p)))
      | [x, y, z] \<Rightarrow> Inr (APoint3D x y z (to_uint 32 (pt_srid p)))
      | _ \<Rightarrow> ValueError ''Point should have 2 or 3 coordinates'')"

definition ConvertDateTime :: "DateTime \<Rightarrow> any res" where
  "ConvertDateTime d =
     bindR (LocalDateTimeToEpochSeconds (dz_local_date_time d)) (\<lambda>seconds.
       let nanos = lt_nanosecond (ld_time (dz_local_date_time d)) in
       if dz_timezone d \<noteq> [] then Inr (ADateTimeZoneId (seconds - dz_utc_offset_seconds d) nanos (dz_timezone d))
       else Inr (ADateTime seconds nanos (dz_utc_offset_seconds d)))"

text \<open>The indices of a path: the relationship, backwards as a negative number, then the node it leads to.\<close>

definition path_indices :: "nat \<Rightarrow> ValueTypes.Relationship \<Rightarrow> ValueTypes.Node \<Rightarrow> ValueTypes.Node \<Rightarrow> int list" where
  "path_indices i r a b =
     (let forward = vr_start_node_id r = vn_id a \<and> vr_end_node_id r = vn_id b
      in [if forward then int (i + 1) else - int (i + 1), int (i + 1)])"

fun ConvertValue :: "Value \<Rightarrow> any res"
and ConvertItems :: "Value list \<Rightarrow> any list res"
and ConvertMap :: "(string \<times> Value) list \<Rightarrow> (string \<times> any) list res"
and ConvertNode :: "ValueTypes.Node \<Rightarrow> node res"
and ConvertNodes :: "ValueTypes.Node option list \<Rightarrow> node list res"
and ConvertRelationship :: "ValueTypes.Relationship \<Rightarrow> relationship res"
and ConvertRelationships :: "nat \<Rightarrow> ValueTypes.Node option list \<Rightarrow> ValueTypes.Relationship option list \<Rightarrow> (relnode list \<times> int list) res" where
  "ConvertValue VNull = Inr ANone"
| "ConvertValue (VBool b) = Inr (ABool b)"
| "ConvertValue (VInteger i) = Inr (AInt64 i)"
| "ConvertValue (VDouble d) = Inr (ADouble d)"
| "ConvertValue (VString s) = Inr (AString s)"
| "ConvertValue (VList vs) = bindR (ConvertItems vs) (\<lambda>xs. Inr (AList xs))"
| "ConvertValue (VMap m) = bindR (ConvertMap m) (\<lambda>m'. Inr (AMap m'))"
| "ConvertValue (VNode n) = bindR (ConvertNode n) (\<lambda>n'. Inr (ANode n'))"
| "ConvertValue (VRelationship r) = bindR (ConvertRelationship r) (\<lambda>r'. Inr (ARelationship r'))"
| "ConvertValue (VPath nodes rels) =
     bindR (ConvertNodes nodes) (\<lambda>ns. bindR (ConvertRelationships 0 nodes rels) (\<lambda>(rs, ixs). Inr (AInternalPath ns rs ixs)))"
| "ConvertValue (VDate d) = bindR (sys_days d) (\<lambda>n. Inr (ADate n))"
| "ConvertValue (VLocalTime t) = Inr (ALocalTime (LocalTime_nanoseconds t))"
| "ConvertValue (VTime t) = Inr (ATime (LocalTime_nanoseconds (tm_local_time t)) (tm_utc_offset_seconds t))"
| "ConvertValue (VLocalDateTime l) =
     bindR (LocalDateTimeToEpochSeconds l) (\<lambda>s. Inr (ALocalDateTime s (lt_nanosecond (ld_time l))))"
| "ConvertValue (VDateTime d) = ConvertDateTime d"
| "ConvertValue (VDuration d) = Inr (ADuration (du_months d) (du_days d) (du_seconds d) (du_nanoseconds d))"
| "ConvertValue (VPoint p) = ConvertPoint p"
| "ConvertItems [] = Inr []"
| "ConvertItems (v # vs) = bindR (ConvertValue v) (\<lambda>x. bindR (ConvertItems vs) (\<lambda>xs. Inr (x # xs)))"
| "ConvertMap [] = Inr []"
| "ConvertMap ((k, v) # m) = bindR (ConvertValue v) (\<lambda>x. bindR (ConvertMap m) (\<lambda>m'. Inr ((k, x) # m')))"
| "ConvertNode (ValueTypes.Node i labels props) =
     bindR (ConvertMap props) (\<lambda>m. Inr (PackMessage.Node i (show_int i) labels m))"
| "ConvertNodes [] = Inr []"
| "ConvertNodes (None # ns) = ValueError ''Path contains a null node''"
| "ConvertNodes (Some n # ns) = bindR (ConvertNode n) (\<lambda>x. bindR (ConvertNodes ns) (\<lambda>xs. Inr (x # xs)))"
| "ConvertRelationship (ValueTypes.Relationship i s e type_id type props) =
     bindR (ConvertMap props) (\<lambda>m. Inr (PackMessage.Relationship i (show_int i) s (show_int s) e (show_int e) type m))"
| "ConvertRelationships i nodes [] = Inr ([], [])"
| "ConvertRelationships i nodes (None # rs) = ValueError ''Path has an invalid relationship''"
| "ConvertRelationships i nodes (Some (ValueTypes.Relationship n s e type_id type props) # rs) =
     (if i + 1 \<ge> length nodes then ValueError ''Path has an invalid relationship''
      else bindR (ConvertMap props) (\<lambda>m.
        case (nodes ! i, nodes ! (i + 1)) of
          (Some a, Some b) \<Rightarrow>
            bindR (ConvertRelationships (i + 1) nodes rs) (\<lambda>(xs, ixs).
              Inr (RelNode n (show_int n) type m # xs, path_indices i (ValueTypes.Relationship n s e type_id type props) a b @ ixs))
        | _ \<Rightarrow> Inl (Undefined ''null node'')))"

definition ConvertRow :: "Value list \<Rightarrow> any list res" where
  "ConvertRow row = ConvertItems row"

section \<open>The round trip\<close>

text \<open>The values that a client can send back: scalars, containers, points in time with a UTC offset, durations and points.\<close>

definition time_ok :: "LocalTime \<Rightarrow> bool" where
  "time_ok t \<longleftrightarrow> 0 \<le> lt_hour t \<and> lt_hour t \<le> 23 \<and> 0 \<le> lt_minute t \<and> lt_minute t \<le> 59 \<and> 0 \<le> lt_second t \<and> lt_second t \<le> 59 \<and>
     0 \<le> lt_nanosecond t \<and> lt_nanosecond t < 1000000000 \<and> lt_has_seconds t"

definition date_ok :: "Date \<Rightarrow> bool" where
  "date_ok d \<longleftrightarrow> chrono_year (dt_year d) \<and> in_month d"

definition offset_ok :: "int \<Rightarrow> bool" where
  "offset_ok z \<longleftrightarrow> - 64800 \<le> z \<and> z \<le> 64800"

fun returnable :: "Value \<Rightarrow> bool" where
  "returnable VNull = True"
| "returnable (VBool b) = True"
| "returnable (VInteger i) = True"
| "returnable (VDouble d) = True"
| "returnable (VString s) = True"
| "returnable (VList vs) = (\<forall>v \<in> set vs. returnable v)"
| "returnable (VMap m) = (sorted (map fst m) \<and> distinct (map fst m) \<and> (\<forall>(k, v) \<in> set m. returnable v))"
| "returnable (VDate d) = date_ok d"
| "returnable (VLocalTime t) = time_ok t"
| "returnable (VTime t) = (time_ok (tm_local_time t) \<and> offset_ok (tm_utc_offset_seconds t) \<and> tm_timezone t = [])"
| "returnable (VLocalDateTime l) = (date_ok (ld_date l) \<and> time_ok (ld_time l))"
| "returnable (VDateTime d) =
     (date_ok (ld_date (dz_local_date_time d)) \<and> time_ok (ld_time (dz_local_date_time d)) \<and>
      offset_ok (dz_utc_offset_seconds d) \<and> dz_timezone d = [])"
| "returnable (VDuration d) = (int64 (du_seconds d) \<and> 0 \<le> du_nanoseconds d \<and> du_nanoseconds d < 1000000000)"
| "returnable (VPoint p) = ((length (pt_coordinates p) = 2 \<or> length (pt_coordinates p) = 3) \<and> 0 \<le> pt_srid p \<and> pt_srid p < 2 ^ 31)"
| "returnable _ = False"


lemma div_mod_parts: "0 \<le> r \<Longrightarrow> r < n \<Longrightarrow> (q * n + r) div n = q \<and> (q * n + r) mod n = (r :: int)"
  by (simp add: div_pos_pos_trivial mod_pos_pos_trivial)

definition day_second :: "LocalTime \<Rightarrow> int" where
  "day_second t = lt_hour t * 3600 + lt_minute t * 60 + lt_second t"

lemma day_second_parts:
  assumes "time_ok t"
  shows "0 \<le> day_second t" "day_second t < 86400" "day_second t div 3600 = lt_hour t"
    "day_second t mod 3600 div 60 = lt_minute t" "day_second t mod 60 = lt_second t"
proof -
  have t: "0 \<le> lt_hour t" "lt_hour t \<le> 23" "0 \<le> lt_minute t" "lt_minute t \<le> 59" "0 \<le> lt_second t" "lt_second t \<le> 59"
    using assms by (simp_all add: time_ok_def)
  then show "0 \<le> day_second t" "day_second t < 86400" by (simp_all add: day_second_def)
  have "day_second t = lt_hour t * 3600 + (lt_minute t * 60 + lt_second t)" by (simp add: day_second_def)
  then have "day_second t div 3600 = lt_hour t" "day_second t mod 3600 = lt_minute t * 60 + lt_second t"
    using div_mod_parts [of "lt_minute t * 60 + lt_second t" 3600 "lt_hour t"] t by simp_all
  then show "day_second t div 3600 = lt_hour t" "day_second t mod 3600 div 60 = lt_minute t"
    using div_mod_parts [of "lt_second t" 60 "lt_minute t"] t by simp_all
  have "day_second t = (lt_hour t * 60 + lt_minute t) * 60 + lt_second t" by (simp add: day_second_def)
  moreover have "lt_second t < 60" using t by simp
  ultimately show "day_second t mod 60 = lt_second t" using div_mod_parts t(5) by metis
qed

lemma time_eta: "time_ok t \<Longrightarrow>
    \<lparr>lt_hour = lt_hour t, lt_minute = lt_minute t, lt_second = lt_second t, lt_nanosecond = lt_nanosecond t, lt_has_seconds = True\<rparr> = t"
  by (cases t) (simp add: time_ok_def)

lemma time_back:
  assumes "time_ok t"
  shows "LocalTimeParameter (LocalTime_nanoseconds t) = Inr t"
proof -
  note d = day_second_parts [OF assms]
  have n: "0 \<le> lt_nanosecond t" "lt_nanosecond t < 1000000000" using assms by (simp_all add: time_ok_def)
  define N where "N = LocalTime_nanoseconds t"
  have N: "N = day_second t * 1000000000 + lt_nanosecond t" by (simp add: N_def LocalTime_nanoseconds_def day_second_def)
  have q: "N div 1000000000 = day_second t" "N mod 1000000000 = lt_nanosecond t"
    using div_mod_parts [OF n, of "day_second t"] N by simp_all
  have "0 \<le> N" "N < 86400 * 1000000000" using N n d(1,2) by simp_all
  then show ?thesis
    using q d time_eta [OF assms] unfolding LocalTimeParameter_def Let_def N_def [symmetric] by simp
qed

lemma date_back:
  assumes "date_ok d"
  shows "sys_days d = Inr (date_number d)" "year_month_day (date_number d) = Inr d"
proof -
  have v: "valid_date d"
    using assms by (simp add: date_ok_def valid_date_def year_ok_def chrono_year_def kMinimumYear_def kMaximumYear_def)
  then have "FromSysDays (date_number d) = Inr d" by (simp only: FromSysDays_number)
  then show "year_month_day (date_number d) = Inr d" using assms by (simp add: year_month_day_def date_ok_def)
  have m: "1 \<le> dt_month d" "dt_month d \<le> 12" "1 \<le> dt_day d" "dt_day d \<le> 31"
    using assms month_days_bounds(2) [of "dt_year d" "dt_month d"] by (simp_all add: date_ok_def in_month_def)
  then have "DaysFromCivil (dt_year d) (dt_month d) 1 + (dt_day d - 1) = date_number d"
    using DaysFromCivil_civil [of "dt_month d" 1 "dt_year d"] civil_parts [of "dt_year d" "dt_month d" "dt_day d"]
    by (simp add: date_number_def)
  then show "sys_days d = Inr (date_number d)" using m assms by (simp add: sys_days_def date_ok_def)
qed

lemma date_bounds: "date_ok d \<Longrightarrow> - 13000000 < date_number d \<and> date_number d < 13000000"
proof -
  assume d: "date_ok d"
  then have y: "- 32767 \<le> dt_year d" "dt_year d + 1 \<le> 32768" "in_month d" by (simp_all add: date_ok_def chrono_year_def)
  have "civil (- 32767) 1 1 > - 13000000" "civil 32768 1 1 < 13000000" by (simp_all add: civil_def year_start_def)
  then show ?thesis using date_in_year [OF y(3)] year_mono [OF y(1)] year_mono [OF y(2)] by linarith
qed

lemma stamp_back:
  assumes "date_ok (ld_date l)" "time_ok (ld_time l)"
  obtains s where "LocalDateTimeToEpochSeconds l = Inr s" "LocalDateTimeFromEpoch s (lt_nanosecond (ld_time l)) = Inr l"
    "- (2 ^ 62) < s" "s < 2 ^ 62"
proof
  let ?n = "date_number (ld_date l)" and ?t = "day_second (ld_time l)"
  note d = day_second_parts [OF assms(2)]
  show "LocalDateTimeToEpochSeconds l = Inr (?n * 86400 + ?t)"
    using date_back(1) [OF assms(1)] by (simp add: LocalDateTimeToEpochSeconds_def day_second_def Let_def)
  have "(?n * 86400 + ?t) div 86400 = ?n" using div_mod_parts [OF d(1,2)] by blast
  then show "LocalDateTimeFromEpoch (?n * 86400 + ?t) (lt_nanosecond (ld_time l)) = Inr l"
    using date_back(2) [OF assms(1)] d time_eta [OF assms(2)] unfolding LocalDateTimeFromEpoch_def Let_def by (cases l) simp
  show "- (2 ^ 62) < ?n * 86400 + ?t" "?n * 86400 + ?t < 2 ^ 62"
    using date_bounds [OF assms(1)] d(1,2) by simp_all
qed


lemma map_emplace_last: "\<forall>k' \<in> set (map fst acc). k' < k \<Longrightarrow> map_emplace k v acc = acc @ [(k, v)]"
  by (induction acc) (auto dest: less_not_sym)

lemma duration_back:
  assumes "0 \<le> n" "n < 1000000000" "int64 s"
  shows "DurationParameter m d s n = Inr \<lparr>du_months = m, du_days = d, du_seconds = s, du_nanoseconds = n\<rparr>"
proof -
  have "n sdiv 1000000000 = 0" "n smod 1000000000 = n"
    using assms(1,2) by (cases "n = 0"; simp add: signed_divide_int_def signed_modulo_int_def sgn_if)+
  then show ?thesis using assms(1) by (simp add: DurationParameter_def)
qed

lemma items_back:
  assumes "\<And>v. v \<in> set vs \<Longrightarrow> \<exists>x. ConvertValue v = Inr x \<and> ConvertParameter zoned (received x) = Inr v"
  shows "\<exists>xs. ConvertItems vs = Inr xs \<and> ConvertParameters zoned (map received xs) = Inr vs"
  using assms
proof (induction vs)
  case (Cons v vs)
  obtain x where "ConvertValue v = Inr x" "ConvertParameter zoned (received x) = Inr v" using Cons.prems [of v] by auto
  moreover obtain xs where "ConvertItems vs = Inr xs" "ConvertParameters zoned (map received xs) = Inr vs" using Cons by auto
  ultimately show ?case by (intro exI [of _ "x # xs"]) simp
qed simp

lemma entries_back:
  assumes "\<And>k v. (k, v) \<in> set m \<Longrightarrow> \<exists>x. ConvertValue v = Inr x \<and> ConvertParameter zoned (received x) = Inr v"
    and "sorted (map fst (acc @ m))" "distinct (map fst (acc @ m))"
  shows "\<exists>m'. ConvertMap m = Inr m' \<and> ConvertEntries zoned (map (\<lambda>(k, x). (k, received x)) m') acc = Inr (acc @ m)"
  using assms
proof (induction m arbitrary: acc)
  case (Cons e m)
  obtain k v where e: "e = (k, v)" by (cases e)
  obtain x where x: "ConvertValue v = Inr x" "ConvertParameter zoned (received x) = Inr v" using Cons.prems(1) [of k v] e by auto
  have "k' < k" if "k' \<in> set (map fst acc)" for k'
  proof -
    have "k' \<le> k" using that Cons.prems(2) e by (force simp: sorted_append)
    moreover have "k' \<noteq> k" using that Cons.prems(3) e by auto
    ultimately show ?thesis by simp
  qed
  then have "\<forall>k' \<in> set (map fst acc). k' < k" by blast
  then have "map_emplace k v acc = acc @ [(k, v)]" by (rule map_emplace_last)
  moreover obtain m' where "ConvertMap m = Inr m'"
      "ConvertEntries zoned (map (\<lambda>(k, x). (k, received x)) m') (acc @ [(k, v)]) = Inr ((acc @ [(k, v)]) @ m)"
    using Cons.IH [of "acc @ [(k, v)]"] Cons.prems e by auto
  ultimately show ?case using x e by (intro exI [of _ "(k, x) # m'"]) simp
qed simp

lemma point_back:
  assumes "length (pt_coordinates p) = 2 \<or> length (pt_coordinates p) = 3" "0 \<le> pt_srid p" "pt_srid p < 2 ^ 31"
  shows "\<exists>x. ConvertPoint p = Inr x \<and> ConvertParameter zoned (received x) = Inr (VPoint p)"
proof -
  have "int (to_uint 32 (pt_srid p)) = pt_srid p" "to_uint 32 (pt_srid p) \<le> 2147483647" using assms(2,3) by (simp_all add: to_uint_def)
  moreover obtain cs where "pt_coordinates p = cs" "(\<exists>x y. cs = [x, y]) \<or> (\<exists>x y z. cs = [x, y, z])"
    using assms(1) by (auto simp: numeral_2_eq_2 numeral_3_eq_3 length_Suc_conv)
  ultimately show ?thesis by (cases p) (auto simp: ConvertPoint_def PointParameter_def)
qed

lemma date_time_back:
  assumes "date_ok (ld_date (dz_local_date_time d))" "time_ok (ld_time (dz_local_date_time d))" "offset_ok (dz_utc_offset_seconds d)" "dz_timezone d = []"
  shows "\<exists>x. ConvertDateTime d = Inr x \<and> ConvertParameter zoned (received x) = Inr (VDateTime d)"
proof -
  obtain s where s: "LocalDateTimeToEpochSeconds (dz_local_date_time d) = Inr s"
      "LocalDateTimeFromEpoch s (lt_nanosecond (ld_time (dz_local_date_time d))) = Inr (dz_local_date_time d)" "- (2 ^ 62) < s" "s < 2 ^ 62"
    using stamp_back [OF assms(1,2)] by blast
  have "AddParameterUtcOffset (s - dz_utc_offset_seconds d) (dz_utc_offset_seconds d) = Inr s"
    using s(3,4) by (simp add: AddParameterUtcOffset_def)
  then show ?thesis
    using s(1,2) assms(2-4) by (cases d) (simp add: ConvertDateTime_def ParameterUtcOffset_def ParameterNanosecond_def offset_ok_def time_ok_def)
qed

text \<open>
  C35: A value that the server returns to a client can be sent back as a parameter and is the same value again: the conversion
  of the result to the protocol, what the other side receives of it, and the conversion of the parameter compose to
  the identity, without an error. This holds for the scalars, for lists, for maps whose keys are in order and
  distinct, and for these temporal and spatial values: dates of the calendar with a year from -32767 to 32767, which is what \<open>std::chrono::year\<close>
  holds; times of day that carry seconds, with a nanosecond below a billion; times and date-times with a UTC
  offset of at most eighteen hours and no named time zone; durations with 64-bit seconds and a nanosecond from 0 to below a
  billion; points with two or three coordinates and a reference system number from 0 to \<open>2 ^ 31 - 1\<close>. The values left out are not
  all foreign to the query language: its dates reach the year 999999999, and beyond 32767 the conversion to the protocol is
  unspecified.
\<close>

theorem parameter_round_trip:
  assumes "returnable v"
  shows "\<exists>x. ConvertValue v = Inr x \<and> ConvertParameter zoned (received x) = Inr v"
  using assms
proof (induction v rule: returnable.induct)
  case (6 vs)
  then obtain xs where "ConvertItems vs = Inr xs" "ConvertParameters zoned (map received xs) = Inr vs" using items_back [of vs zoned] by auto
  then show ?case by simp
next
  case (7 m)
  then have "\<exists>x. ConvertValue v = Inr x \<and> ConvertParameter zoned (received x) = Inr v" if "(k, v) \<in> set m" for k v
    using that by fastforce
  then obtain m' where "ConvertMap m = Inr m'" "ConvertEntries zoned (map (\<lambda>(k, x). (k, received x)) m') [] = Inr m"
    using entries_back [of m zoned "[]"] 7(2) by auto
  then show ?case by simp
next
  case (11 l)
  then obtain s where "LocalDateTimeToEpochSeconds l = Inr s" "LocalDateTimeFromEpoch s (lt_nanosecond (ld_time l)) = Inr l"
    using stamp_back [of l] by auto
  then show ?case using 11 by (simp add: ParameterNanosecond_def time_ok_def)
next
  case (12 d)
  then show ?case using date_time_back [of d] by simp
next
  case (14 p)
  then show ?case using point_back [of p] by simp
qed (auto simp: date_back time_back duration_back ParameterUtcOffset_def offset_ok_def)

theorem parameter_round_trip_witness:
  "\<exists>x. ConvertValue (VList [VMap [(''a'', VDate \<lparr>dt_year = 2024, dt_month = 2, dt_day = 29\<rparr>), (''b'', VNull)], VInteger 7]) = Inr x \<and>
     ConvertParameter (\<lambda>v z. Inr v) (received x) =
       Inr (VList [VMap [(''a'', VDate \<lparr>dt_year = 2024, dt_month = 2, dt_day = 29\<rparr>), (''b'', VNull)], VInteger 7])"
  by (rule parameter_round_trip) (simp add: date_ok_def chrono_year_def in_month_def month_days_def leap_def)

end
