(* ===== verification/Session.thy ===== *)
theory Session
  imports Connection BoltConvert RawNode
begin

text \<open>
  The sessions of the Bolt server (\<open>src/server/bolt_session.h\<close>, \<open>src/server/bolt_handler.cc\<close>). The message handler
  runs on the IO thread of a connection: it answers \<open>HELLO\<close>, counts the interrupts of \<open>RESET\<close>, and puts every
  request on the strand of the session. A worker takes the requests from the strand one by one and answers them.

  The worker and the IO thread share the connection. The state of a worker holds the connection, and \<open>wk_io\<close> lists
  what the IO thread does to the connection before each point where the worker looks at the shared state.

  The graph database and the query runtime are the parameter \<open>Engine\<close>: every operation that the session calls is a
  function on their state, which may raise any exception.
\<close>

section \<open>The session\<close>

datatype SessionState = READY | STREAMING | TX_READY | TX_STREAMING | FAILED | DEFUNCT

text \<open>Graphs, transactions and result cursors are named by numbers.\<close>

record ActiveBoltQuery =
  aq_graph_name :: string
  aq_cypher :: string
  aq_graph_db :: "nat option"
  aq_transaction :: "nat option"
  aq_result :: "nat option"
  aq_buffered_row :: "Value list option"
  aq_transaction_closed :: bool

record ActiveBoltTransaction =
  at_graph_name :: string
  at_read_only :: bool
  at_raft_term :: "u64 option"
  at_transaction_time :: int
  at_graph_db :: "nat option"
  at_transaction :: "nat option"
  at_queries :: "(int \<times> ActiveBoltQuery) list"
  at_next_query_id :: int

text \<open>\<open>ss_cancelled\<close> is the cancellation token that the running query watches.\<close>

record BoltSession =
  ss_active_query :: "ActiveBoltQuery option"
  ss_active_transaction :: "ActiveBoltTransaction option"
  ss_cancelled :: bool
  ss_ps :: PackStream
  ss_user :: string
  ss_state :: SessionState
  ss_remaining_interrupts :: nat
  ss_utc_patch :: bool
  ss_python_driver :: bool
  ss_routing_enabled :: bool

definition RequestInterrupt :: "BoltSession \<Rightarrow> BoltSession" where
  "RequestInterrupt s = s\<lparr>ss_remaining_interrupts := ss_remaining_interrupts s + 1, ss_cancelled := True\<rparr>"

definition HasInterrupt :: "BoltSession \<Rightarrow> bool" where
  "HasInterrupt s \<longleftrightarrow> ss_remaining_interrupts s \<noteq> 0"

text \<open>The result says whether no interrupt is left.\<close>

definition ConsumeInterrupt :: "BoltSession \<Rightarrow> bool \<times> BoltSession" where
  "ConsumeInterrupt s =
     (let current = ss_remaining_interrupts s
      in if current \<noteq> 0 then (current = 1, s\<lparr>ss_remaining_interrupts := current - 1\<rparr>) else (True, s))"

text \<open>What is posted to the strand: a request with its fields, or the end of the session.\<close>

datatype strand_task = MessageTask nat "any list" | AbortTask

record BoltSessionContext =
  cx_session :: BoltSession
  cx_strand :: "strand_task list"

type_synonym conn = "BoltSessionContext BoltConnection"

section \<open>The engine\<close>

record NodeInfo =
  ni_id :: nat
  ni_ip :: string
  ni_bolt_port :: int
  ni_is_leader :: bool
  ni_is_learner :: bool

datatype QueryTarget = SystemTarget | TransactionTarget nat

record QueryOptions =
  qo_read_only :: bool
  qo_explicit_transaction :: bool
  qo_transaction_time :: "int option"
  qo_parameters :: "(string \<times> Value) list"

text \<open>
  \<open>en_raft_status\<close> is \<open>None\<close> for a graph without Raft; \<open>en_address\<close> parses an IP address: \<open>None\<close> for an error or an
  unspecified address, otherwise whether it is a version 6 address. A cursor has \<open>None\<close> for a next row at its end.
  \<open>en_rows\<close> bounds the rows that one unlimited request reads.
\<close>

record 'w Engine =
  en_OpenGraph :: "string \<Rightarrow> 'w \<Rightarrow> nat res \<times> 'w"
  en_raft_status :: "nat \<Rightarrow> 'w \<Rightarrow> BasicStatus option"
  en_nodes :: "nat \<Rightarrow> 'w \<Rightarrow> NodeInfo list res"
  en_address :: "string \<Rightarrow> bool option"
  en_local_endpoint :: "string \<times> int"
  en_BeginTransaction :: "nat \<Rightarrow> 'w \<Rightarrow> nat res \<times> 'w"
  en_Commit :: "nat \<Rightarrow> 'w \<Rightarrow> unit res \<times> 'w"
  en_Rollback :: "nat \<Rightarrow> 'w \<Rightarrow> unit res \<times> 'w"
  en_active :: "nat \<Rightarrow> 'w \<Rightarrow> bool"
  en_Execute :: "QueryTarget \<Rightarrow> string \<Rightarrow> QueryOptions \<Rightarrow> 'w \<Rightarrow> nat res \<times> 'w"
  en_Columns :: "nat \<Rightarrow> 'w \<Rightarrow> string list"
  en_Next :: "nat \<Rightarrow> 'w \<Rightarrow> Value list option res \<times> 'w"
  en_now :: "'w \<Rightarrow> int"
  en_zoned :: zoned
  en_rows :: nat

section \<open>The worker\<close>

record 'w worker =
  wk_conn :: conn
  wk_world :: 'w
  wk_io :: "(conn \<Rightarrow> conn) list"

type_synonym ('w, 'a) act = "'w worker \<Rightarrow> 'a res \<times> 'w worker"

definition bindW :: "('w, 'a) act \<Rightarrow> ('a \<Rightarrow> ('w, 'b) act) \<Rightarrow> ('w, 'b) act" where
  "bindW m f = (\<lambda>w. case m w of (Inl e, w') \<Rightarrow> (Inl e, w') | (Inr x, w') \<Rightarrow> f x w')"

definition returnW :: "'a \<Rightarrow> ('w, 'a) act" where
  "returnW x = (\<lambda>w. (Inr x, w))"

definition liftW :: "'a res \<Rightarrow> ('w, 'a) act" where
  "liftW r = (\<lambda>w. (r, w))"

definition callW :: "('w \<Rightarrow> 'a res \<times> 'w) \<Rightarrow> ('w, 'a) act" where
  "callW f = (\<lambda>w. let (r, world) = f (wk_world w) in (r, w\<lparr>wk_world := world\<rparr>))"

definition RG_CHECK :: "bool \<Rightarrow> string \<Rightarrow> string \<Rightarrow> unit res" where
  "RG_CHECK c code msg = (if c then Inr () else Inl (Thrown code msg))"

text \<open>The session that the worker runs; a connection with requests on its strand has one.\<close>

definition session :: "'w worker \<Rightarrow> BoltSession option" where
  "session w = map_option cx_session (cn_context (wk_conn w))"

definition set_session :: "(BoltSession \<Rightarrow> BoltSession) \<Rightarrow> ('w, unit) act" where
  "set_session f = (\<lambda>w. (Inr (), w\<lparr>wk_conn := (wk_conn w)\<lparr>cn_context := map_option (cx_session_update f) (cn_context (wk_conn w))\<rparr>\<rparr>))"

definition get_session :: "('w, BoltSession) act" where
  "get_session = (\<lambda>w. case session w of Some s \<Rightarrow> (Inr s, w) | None \<Rightarrow> (Inl (Undefined ''no session''), w))"

definition on_conn :: "(conn \<Rightarrow> conn) \<Rightarrow> ('w, unit) act" where
  "on_conn f = (\<lambda>w. (Inr (), w\<lparr>wk_conn := f (wk_conn w)\<rparr>))"

text \<open>The IO thread moves on until the worker looks at the shared state.\<close>

definition observe :: "('w, unit) act" where
  "observe = (\<lambda>w. case wk_io w of [] \<Rightarrow> (Inr (), w) | f # fs \<Rightarrow> (Inr (), w\<lparr>wk_conn := f (wk_conn w), wk_io := fs\<rparr>))"

definition has_closed :: "('w, bool) act" where
  "has_closed = (\<lambda>w. (Inr (cn_closed (wk_conn w)), w))"

text \<open>\<open>catch (const common::Exception&)\<close> and \<open>catch (const std::exception&)\<close>; everything else ends the process.\<close>

definition catchW :: "('w, unit) act \<Rightarrow> (string \<Rightarrow> string \<Rightarrow> ('w, unit) act) \<Rightarrow> ('w, unit) act" where
  "catchW m h = (\<lambda>w. case m w of
     (Inl (Thrown code msg), w') \<Rightarrow> h code msg w'
   | (Inl (OutOfRange what), w') \<Rightarrow> h ''UnknownError'' what w'
   | r \<Rightarrow> r)"

text \<open>A local object whose destructor runs when an exception leaves its block.\<close>

definition unwindW :: "('w, unit) act \<Rightarrow> ('w, 'a) act \<Rightarrow> ('w, 'a) act" where
  "unwindW cleanup m = (\<lambda>w. case m w of (Inl e, w') \<Rightarrow> (Inl e, snd (cleanup w')) | r \<Rightarrow> r)"

section \<open>Queries and transactions\<close>

text \<open>A rollback whose exception is logged and dropped.\<close>

definition rollback_if_active :: "'w Engine \<Rightarrow> nat \<Rightarrow> ('w, unit) act" where
  "rollback_if_active E t = (\<lambda>w. if en_active E t (wk_world w) then (Inr (), w\<lparr>wk_world := snd (en_Rollback E t (wk_world w))\<rparr>) else (Inr (), w))"

definition ActiveBoltQuery_Commit :: "'w Engine \<Rightarrow> ActiveBoltQuery \<Rightarrow> ('w, unit) act" where
  "ActiveBoltQuery_Commit E q =
     (case aq_transaction q of
        Some t \<Rightarrow> if \<not> aq_transaction_closed q then callW (en_Commit E t) else returnW ()
      | None \<Rightarrow> returnW ())"

definition ActiveBoltQuery_Rollback :: "'w Engine \<Rightarrow> ActiveBoltQuery \<Rightarrow> ('w, unit) act" where
  "ActiveBoltQuery_Rollback E q =
     (case aq_transaction q of
        Some t \<Rightarrow> if \<not> aq_transaction_closed q then rollback_if_active E t else returnW ()
      | None \<Rightarrow> returnW ())"

definition ActiveBoltTransaction_Commit :: "'w Engine \<Rightarrow> ActiveBoltTransaction \<Rightarrow> ('w, unit) act" where
  "ActiveBoltTransaction_Commit E t =
     bindW (liftW (RG_CHECK (at_queries t = []) ''InternalError'' ''cannot commit a Bolt transaction with open cursors'')) (\<lambda>_.
       case at_transaction t of Some x \<Rightarrow> callW (en_Commit E x) | None \<Rightarrow> returnW ())"

definition ActiveBoltTransaction_Rollback :: "'w Engine \<Rightarrow> ActiveBoltTransaction \<Rightarrow> ('w, unit) act" where
  "ActiveBoltTransaction_Rollback E t =
     bindW (foldr (\<lambda>(i, q) m. bindW (ActiveBoltQuery_Rollback E q) (\<lambda>_. m)) (at_queries t) (returnW ())) (\<lambda>_.
       case at_transaction t of Some x \<Rightarrow> rollback_if_active E x | None \<Rightarrow> returnW ())"

section \<open>Answers\<close>

definition FlushSessionBuffer :: "('w, unit) act" where
  "FlushSessionBuffer =
     bindW get_session (\<lambda>s. let buf = pk_buf (ps_packer (ss_ps s)) in
       if buf = [] then returnW ()
       else bindW (on_conn (PostResponse buf)) (\<lambda>_. set_session (ss_ps_update (\<lambda>_. PackStream_Reset))))"

definition AbortSession :: "'w Engine \<Rightarrow> ('w, unit) act" where
  "AbortSession E =
     bindW get_session (\<lambda>s.
     bindW (case ss_active_query s of Some q \<Rightarrow> ActiveBoltQuery_Rollback E q | None \<Rightarrow> returnW ()) (\<lambda>_.
     bindW (case ss_active_transaction s of Some t \<Rightarrow> ActiveBoltTransaction_Rollback E t | None \<Rightarrow> returnW ()) (\<lambda>_.
       set_session (\<lambda>s. s\<lparr>ss_active_query := None, ss_active_transaction := None, ss_ps := PackStream_Reset\<rparr>))))"

definition IsExplicitTransactionRequest :: "nat \<Rightarrow> bool" where
  "IsExplicitTransactionRequest type \<longleftrightarrow> type = BoltMsg_code Msg_Begin \<or> type = BoltMsg_code Msg_Commit \<or> type = BoltMsg_code Msg_Rollback"

definition IsSessionRequest :: "nat \<Rightarrow> bool" where
  "IsSessionRequest type \<longleftrightarrow> type = BoltMsg_code Msg_Run \<or> type = BoltMsg_code Msg_PullN \<or> type = BoltMsg_code Msg_DiscardN \<or>
     type = BoltMsg_code Msg_Route \<or> IsExplicitTransactionRequest type"

definition IsResetMessage :: "nat \<Rightarrow> bool" where
  "IsResetMessage type \<longleftrightarrow> type = BoltMsg_code Msg_Reset"

text \<open>The names of the requests in the texts of errors.\<close>

definition BoltMsg_ToString :: "nat \<Rightarrow> string" where
  "BoltMsg_ToString type =
     (if type = BoltMsg_code Msg_Reset then ''BoltMsg Reset'' else if type = BoltMsg_code Msg_Run then ''BoltMsg Run''
      else if type = BoltMsg_code Msg_DiscardN then ''BoltMsg DiscardN'' else if type = BoltMsg_code Msg_PullN then ''BoltMsg PullN''
      else if type = BoltMsg_code Msg_Record then ''BoltMsg Record'' else if type = BoltMsg_code Msg_Success then ''BoltMsg Success''
      else if type = BoltMsg_code Msg_Ignored then ''BoltMsg Ignored'' else if type = BoltMsg_code Msg_Failure then ''BoltMsg Failure''
      else if type = BoltMsg_code Msg_Hello then ''BoltMsg Hello'' else if type = BoltMsg_code Msg_Logon then ''BoltMsg Logon''
      else if type = BoltMsg_code Msg_Logoff then ''BoltMsg Logoff'' else if type = BoltMsg_code Msg_Goodbye then ''BoltMsg Goodbye''
      else if type = BoltMsg_code Msg_Begin then ''BoltMsg Begin'' else if type = BoltMsg_code Msg_Commit then ''BoltMsg Commit''
      else if type = BoltMsg_code Msg_Rollback then ''BoltMsg Rollback'' else if type = BoltMsg_code Msg_Route then ''BoltMsg Route''
      else if type = BoltMsg_code Msg_Telemetry then ''BoltMsg Telemetry'' else ''Unkown bolt msg'')"

text \<open>A message is packed into a stream of its own and posted.\<close>

definition post_message :: "(PackStream \<Rightarrow> PackStream res) \<Rightarrow> ('w, unit) act" where
  "post_message pack = bindW (liftW (pack PackStream_Reset)) (\<lambda>ps. on_conn (PostResponse (pk_buf (ps_packer ps))))"

definition PostSuccess :: "('w, unit) act" where
  "PostSuccess = post_message AppendSuccessEmpty"

definition PostIgnored :: "('w, unit) act" where
  "PostIgnored = post_message AppendIgnored"

definition bolt_code :: "string \<Rightarrow> string" where
  "bolt_code code =
     (if code = ''NotLeader'' then ''Neo.ClientError.Cluster.NotALeader''
      else if code = ''RaftUnavailable'' then ''Neo.TransientError.General.DatabaseUnavailable''
      else if code = ''NoSuchGraph'' then ''Neo.ClientError.Database.DatabaseNotFound''
      else if code = ''WriteInReadOnlyTransaction'' then ''Neo.ClientError.Statement.AccessMode''
      else code)"

definition PostFailure :: "string \<Rightarrow> string \<Rightarrow> ('w, unit) act" where
  "PostFailure code msg = post_message (AppendFailure [(''code'', ACString (bolt_code code)), (''message'', AString msg)])"

text \<open>The result says whether the request is over.\<close>

definition IgnoreInterruptedOrClosedRequest :: "('w, bool) act" where
  "IgnoreInterruptedOrClosedRequest =
     bindW observe (\<lambda>_. bindW has_closed (\<lambda>closed.
       if closed then returnW True
       else bindW get_session (\<lambda>s.
         if HasInterrupt s then bindW PostIgnored (\<lambda>_. returnW True) else returnW False)))"

definition set_state :: "SessionState \<Rightarrow> ('w, unit) act" where
  "set_state st = set_session (ss_state_update (\<lambda>_. st))"

definition FailSession :: "'w Engine \<Rightarrow> string \<Rightarrow> string \<Rightarrow> ('w, unit) act" where
  "FailSession E code msg =
     bindW (AbortSession E) (\<lambda>_. bindW IgnoreInterruptedOrClosedRequest (\<lambda>over.
       if over then returnW () else bindW (PostFailure code msg) (\<lambda>_. set_state FAILED)))"

definition CloseProtocolError :: "'w Engine \<Rightarrow> ('w, unit) act" where
  "CloseProtocolError E = bindW (AbortSession E) (\<lambda>_. bindW (set_state DEFUNCT) (\<lambda>_. on_conn PostClose))"

definition ProcessRecoverableState :: "'w Engine \<Rightarrow> nat \<Rightarrow> ('w, unit) act" where
  "ProcessRecoverableState E type = (if IsSessionRequest type then PostIgnored else CloseProtocolError E)"

definition FailUnsupportedRequest :: "'w Engine \<Rightarrow> string \<Rightarrow> ('w, unit) act" where
  "FailUnsupportedRequest E feature =
     FailSession E ''Unimplemented'' (''The '' @ feature @ '' feature is not currently supported for Bolt connections.'')"

section \<open>Routing\<close>

definition kDefaultDatabaseName :: string where
  "kDefaultDatabaseName = ''default''"

definition kSystemDatabaseName :: string where
  "kSystemDatabaseName = ''system''"

definition RoutingAddress :: "'w Engine \<Rightarrow> string \<Rightarrow> int \<Rightarrow> string res" where
  "RoutingAddress E host port =
     (let fail = Inl (Thrown ''InvalidParameter'' (''invalid Bolt routing endpoint ['' @ host @ '']:'' @ show_int port)) in
      case en_address E host of None \<Rightarrow> fail
      | Some v6 \<Rightarrow> if \<not> (0 < port \<and> port \<le> 65535) then fail
                   else Inr (if v6 then ''['' @ host @ '']:'' @ show_int port else host @ '':'' @ show_int port))"

text \<open>\<open>std::any_cast\<close> of a pointer, for the types that requests carry.\<close>

definition as_string :: "any \<Rightarrow> string option" where
  "as_string x = (case x of AString s \<Rightarrow> Some s | _ \<Rightarrow> None)"

definition as_int :: "any \<Rightarrow> int option" where
  "as_int x = (case x of AInt64 i \<Rightarrow> Some i | _ \<Rightarrow> None)"

definition as_list :: "any \<Rightarrow> any list option" where
  "as_list x = (case x of AList xs \<Rightarrow> Some xs | _ \<Rightarrow> None)"

definition as_map :: "any \<Rightarrow> (string \<times> any) list option" where
  "as_map x = (case x of AMap m \<Rightarrow> Some m | _ \<Rightarrow> None)"

definition need :: "'a option \<Rightarrow> string \<Rightarrow> string \<Rightarrow> 'a res" where
  "need x code msg = (case x of Some y \<Rightarrow> Inr y | None \<Rightarrow> Inl (Thrown code msg))"

definition database_name :: "any \<Rightarrow> string res" where
  "database_name database =
     (if database = ANone then Inr kDefaultDatabaseName
      else bindR (need (as_string database) ''InputError'' ''ROUTE database name must be a string or null'') (\<lambda>name.
        Inr (if name = [] then kDefaultDatabaseName else name)))"

fun check_routing :: "(string \<times> any) list \<Rightarrow> unit res" where
  "check_routing [] = Inr ()"
| "check_routing ((k, v) # m) =
     bindR (need (as_string v) ''InputError'' (''ROUTE routing context ['' @ k @ ''] must be a string'')) (\<lambda>_. check_routing m)"

definition check_bookmarks :: "any list \<Rightarrow> string \<Rightarrow> unit res" where
  "check_bookmarks bs msg =
     bindR (RG_CHECK (\<forall>b \<in> set bs. as_string b \<noteq> None) ''InputError'' msg) (\<lambda>_.
       RG_CHECK (bs = []) ''Unimplemented'' ''Bolt bookmarks are not supported'')"

definition check_impersonation :: "(string \<times> any) list \<Rightarrow> unit res" where
  "check_impersonation extra =
     (case map_of extra ''imp_user'' of None \<Rightarrow> Inr ()
      | Some user \<Rightarrow> RG_CHECK (user = ANone) ''Unimplemented'' ''Bolt user impersonation is not supported'')"

definition RouteDatabase :: "any list \<Rightarrow> int \<Rightarrow> string res" where
  "RouteDatabase xs minor_version =
     bindR (RG_CHECK (length xs = 3) ''InputError'' ''ROUTE requires routing context, bookmarks and database metadata'') (\<lambda>_.
     let kinds = ''ROUTE routing context must be a map and bookmarks must be a list'' in
     bindR (need (as_map (xs ! 0)) ''InputError'' kinds) (\<lambda>routing.
     bindR (need (as_list (xs ! 1)) ''InputError'' kinds) (\<lambda>bookmarks.
     bindR (check_routing routing) (\<lambda>_.
     bindR (check_bookmarks bookmarks ''ROUTE bookmarks must contain strings'') (\<lambda>_.
       if minor_version \<ge> 4 then
         bindR (need (as_map (xs ! 2)) ''InputError'' ''ROUTE database metadata must be a map'') (\<lambda>extra.
         bindR (check_impersonation extra) (\<lambda>_.
           case map_of extra ''db'' of None \<Rightarrow> Inr kDefaultDatabaseName | Some db \<Rightarrow> database_name db))
       else database_name (xs ! 2))))))"

record RoutingTable =
  rt_timeToLive :: int
  rt_databaseName :: string
  rt_routers :: "string list"
  rt_readers :: "string list"
  rt_writers :: "string list"

text \<open>The nodes of the group in the order of the message; the routers are ordered by the id of their node.\<close>

fun route_nodes :: "'w Engine \<Rightarrow> NodeInfo list \<Rightarrow> (nat \<times> string) list \<times> string list \<Rightarrow> ((nat \<times> string) list \<times> string list) res" where
  "route_nodes E [] acc = Inr acc"
| "route_nodes E (n # ns) (routers, leaders) =
     bindR (RoutingAddress E (ni_ip n) (ni_bolt_port n)) (\<lambda>address.
       route_nodes E ns (if ni_id n \<in> set (map fst routers) then routers else insort_key fst (ni_id n, address) routers,
         if ni_is_leader n \<and> \<not> ni_is_learner n then leaders @ [address] else leaders))"

definition routing_table :: "'w Engine \<Rightarrow> string \<Rightarrow> nat option \<Rightarrow> 'w \<Rightarrow> RoutingTable res" where
  "routing_table E graph_name graph w =
     (let here = bindR (RoutingAddress E (fst (en_local_endpoint E)) (snd (en_local_endpoint E))) (\<lambda>address.
            Inr \<lparr>rt_timeToLive = 10, rt_databaseName = graph_name, rt_routers = [address], rt_readers = [address], rt_writers = [address]\<rparr>)
      in case graph of None \<Rightarrow> here
         | Some g \<Rightarrow> if en_raft_status E g w = None then here
             else bindR (en_nodes E g w) (\<lambda>nodes. bindR (route_nodes E nodes ([], [])) (\<lambda>(routers, leaders).
               Inr \<lparr>rt_timeToLive = 10, rt_databaseName = graph_name, rt_routers = map snd routers, rt_readers = leaders, rt_writers = leaders\<rparr>)))"

definition route_reply :: "RoutingTable \<Rightarrow> int \<Rightarrow> (string \<times> any) list" where
  "route_reply t minor =
     (let server = (\<lambda>role addresses. AMap [(''role'', AString role), (''addresses'', AStrings addresses)]);
          servers = AList [server ''ROUTE'' (rt_routers t), server ''READ'' (rt_readers t), server ''WRITE'' (rt_writers t)];
          rt = [(''ttl'', AInt64 (rt_timeToLive t)), (''servers'', servers)] @ (if minor \<ge> 4 then [(''db'', AString (rt_databaseName t))] else [])
      in [(''rt'', AMap rt)])"

definition get_minor :: "('w, int) act" where
  "get_minor = (\<lambda>w. (Inr (cn_minor (wk_conn w)), w))"

definition ProcessRoute :: "'w Engine \<Rightarrow> any list \<Rightarrow> ('w, unit) act" where
  "ProcessRoute E xs =
     catchW
       (bindW get_minor (\<lambda>minor. bindW (liftW (RouteDatabase xs minor)) (\<lambda>graph_name.
        bindW (if graph_name = kSystemDatabaseName then returnW None
               else bindW (callW (en_OpenGraph E graph_name)) (\<lambda>g. returnW (Some g))) (\<lambda>graph.
        bindW (\<lambda>w. (routing_table E graph_name graph (wk_world w), w)) (\<lambda>table.
          post_message (AppendSuccess (route_reply table minor)))))))
       (FailSession E)"


section \<open>Transactions\<close>

record TransactionMetadata =
  tm_graph :: string
  tm_read_only :: bool

definition if_given :: "(string \<times> any) list \<Rightarrow> string \<Rightarrow> (any \<Rightarrow> 'a res) \<Rightarrow> 'a \<Rightarrow> 'a res" where
  "if_given extra key f none = (case map_of extra key of Some x \<Rightarrow> f x | None \<Rightarrow> Inr none)"

definition check_timeout :: "any \<Rightarrow> unit res" where
  "check_timeout x =
     bindR (need (as_int x) ''InputError'' ''tx_timeout metadata should be a non-negative integer'') (\<lambda>timeout.
     bindR (RG_CHECK (timeout \<ge> 0) ''InputError'' ''tx_timeout metadata should be a non-negative integer'') (\<lambda>_.
       RG_CHECK (timeout = 0) ''Unimplemented'' ''Bolt transaction timeouts are not supported''))"

definition read_mode :: "any \<Rightarrow> bool res" where
  "read_mode x =
     (let msg = ''mode metadata should be '' @ [CHR 0x27] @ ''r'' @ [CHR 0x27] @ '' or '' @ [CHR 0x27] @ ''w'' @ [CHR 0x27] in
      bindR (need (as_string x) ''InputError'' msg) (\<lambda>mode.
      bindR (RG_CHECK (mode = ''r'' \<or> mode = ''w'') ''InputError'' msg) (\<lambda>_. Inr (mode = ''r''))))"

definition ParseTransactionMetadata :: "(string \<times> any) list \<Rightarrow> string \<Rightarrow> bool \<Rightarrow> TransactionMetadata res" where
  "ParseTransactionMetadata extra default_graph default_read_only =
     bindR (if_given extra ''db'' (\<lambda>x. bindR (need (as_string x) ''InputError'' ''db metadata should be a string'') (\<lambda>db.
              Inr (if db = [] then default_graph else db))) default_graph) (\<lambda>graph.
     bindR (if_given extra ''mode'' read_mode default_read_only) (\<lambda>read_only.
     bindR (if_given extra ''bookmarks'' (\<lambda>x. bindR (need (as_list x) ''InputError'' ''bookmarks metadata should be a list'') (\<lambda>bs.
              check_bookmarks bs ''bookmarks should contain strings'')) ()) (\<lambda>_.
     bindR (check_impersonation extra) (\<lambda>_.
     bindR (if_given extra ''tx_timeout'' check_timeout ()) (\<lambda>_.
     bindR (if_given extra ''tx_metadata'' (\<lambda>x. RG_CHECK (as_map x \<noteq> None) ''InputError'' ''tx_metadata metadata should be a map'') ()) (\<lambda>_.
       Inr \<lparr>tm_graph = graph, tm_read_only = read_only\<rparr>))))))"

definition CheckGraphLeader :: "'w Engine \<Rightarrow> nat \<Rightarrow> string \<Rightarrow> bool \<Rightarrow> u64 option \<Rightarrow> 'w \<Rightarrow> u64 option res" where
  "CheckGraphLeader E graph_db graph read_only transaction_term w =
     (case en_raft_status E graph_db w of None \<Rightarrow> Inr None
      | Some basic \<Rightarrow>
          let code = (if read_only then ''RaftUnavailable'' else ''NotLeader''); trm = hs_term (bs_hardState basic) in
          bindR (RG_CHECK (ss_raftState (bs_softState basic) = StateLeader \<and> ss_lead (bs_softState basic) = bs_id basic) code
                   (''this node is not the leader for graph ['' @ graph @ '']'')) (\<lambda>_.
          bindR (RG_CHECK (transaction_term = None \<or> transaction_term = Some trm) code
                   (''leadership changed during transaction for graph ['' @ graph @ '']'')) (\<lambda>_. Inr (Some trm))))"

definition checkLeader :: "'w Engine \<Rightarrow> nat \<Rightarrow> string \<Rightarrow> bool \<Rightarrow> u64 option \<Rightarrow> ('w, u64 option) act" where
  "checkLeader E g graph read_only trm = (\<lambda>w. (CheckGraphLeader E g graph read_only trm (wk_world w), w))"

definition CheckTransactionLeader :: "'w Engine \<Rightarrow> ActiveBoltTransaction \<Rightarrow> ('w, unit) act" where
  "CheckTransactionLeader E t =
     (case at_graph_db t of
        Some g \<Rightarrow> bindW (checkLeader E g (at_graph_name t) (at_read_only t) (at_raft_term t)) (\<lambda>_. returnW ())
      | None \<Rightarrow> returnW ())"

text \<open>The transaction that \<open>BEGIN\<close> opens, before it belongs to the session.\<close>

definition new_transaction :: "'w Engine \<Rightarrow> TransactionMetadata \<Rightarrow> ('w, ActiveBoltTransaction) act" where
  "new_transaction E md =
     bindW (\<lambda>w. (Inr \<lparr>at_graph_name = tm_graph md, at_read_only = tm_read_only md, at_raft_term = None,
              at_transaction_time = en_now E (wk_world w), at_graph_db = None, at_transaction = None, at_queries = [],
              at_next_query_id = 0\<rparr>, w)) (\<lambda>t.
       if tm_graph md \<noteq> kSystemDatabaseName then
         bindW (callW (en_OpenGraph E (tm_graph md))) (\<lambda>g.
         bindW (checkLeader E g (tm_graph md) (tm_read_only md) None) (\<lambda>trm.
         bindW (callW (en_BeginTransaction E g)) (\<lambda>x.
           returnW (t\<lparr>at_graph_db := Some g, at_raft_term := trm, at_transaction := Some x\<rparr>))))
       else returnW t)"

definition ProcessBegin :: "'w Engine \<Rightarrow> any list \<Rightarrow> ('w, unit) act" where
  "ProcessBegin E xs =
     catchW
       (bindW (liftW (bindR (RG_CHECK (length xs = 1) ''InputError'' ''BEGIN requires one metadata map'') (\<lambda>_.
          bindR (need (as_map (xs ! 0)) ''InputError'' ''BEGIN metadata should be a map'') (\<lambda>extra.
            ParseTransactionMetadata extra kDefaultDatabaseName False)))) (\<lambda>md.
        bindW (new_transaction E md) (\<lambda>t.
        bindW IgnoreInterruptedOrClosedRequest (\<lambda>over.
          if over then ActiveBoltTransaction_Rollback E t
          else bindW (set_session (\<lambda>s. s\<lparr>ss_active_transaction := Some t, ss_state := TX_READY\<rparr>)) (\<lambda>_. PostSuccess)))))
       (FailSession E)"

definition ProcessCommitOrRollback :: "'w Engine \<Rightarrow> nat \<Rightarrow> any list \<Rightarrow> ('w, unit) act" where
  "ProcessCommitOrRollback E type xs =
     catchW
       (bindW (liftW (RG_CHECK (xs = []) ''InputError'' (BoltMsg_ToString type @ '' takes no fields''))) (\<lambda>_.
        bindW get_session (\<lambda>s.
          case ss_active_transaction s of
            None \<Rightarrow> liftW (Inl (Thrown ''InternalError'' ''Bolt transaction state requires an active transaction''))
          | Some t \<Rightarrow>
              bindW IgnoreInterruptedOrClosedRequest (\<lambda>over.
                if over then AbortSession E
                else bindW (if type = BoltMsg_code Msg_Commit
                            then bindW (CheckTransactionLeader E t) (\<lambda>_. ActiveBoltTransaction_Commit E t)
                            else ActiveBoltTransaction_Rollback E t) (\<lambda>_.
                  bindW (set_session (\<lambda>s. s\<lparr>ss_active_transaction := None, ss_state := READY\<rparr>)) (\<lambda>_. PostSuccess))))))
       (FailSession E)"

section \<open>Results\<close>

record PullOrDiscardMetadata =
  pd_n :: int
  pd_qid :: int

definition ExtractPullOrDiscardMetadata :: "nat \<Rightarrow> any list \<Rightarrow> PullOrDiscardMetadata res" where
  "ExtractPullOrDiscardMetadata type xs =
     (let say = (\<lambda>what. BoltMsg_ToString type @ what); input = ''InputError'' in
      bindR (RG_CHECK (length xs = 1) input (say ('' msg fields size error, size: '' @ show_nat (length xs)))) (\<lambda>_.
      bindR (need (as_map (xs ! 0)) input (say '' metadata should be a map'')) (\<lambda>metadata.
      bindR (need (map_of metadata ''n'') input (say '' metadata should contain n'')) (\<lambda>x.
      bindR (need (as_int x) input (say '' n should be an integer'')) (\<lambda>n.
      bindR (RG_CHECK (n = - 1 \<or> n > 0) input (say '' n should be -1 or a positive integer'')) (\<lambda>_.
        case map_of metadata ''qid'' of None \<Rightarrow> Inr \<lparr>pd_n = n, pd_qid = - 1\<rparr>
        | Some y \<Rightarrow>
            bindR (need (as_int y) input (say '' qid should be -1 or a non-negative integer'')) (\<lambda>qid.
            bindR (RG_CHECK (qid \<ge> - 1) input (say '' qid should be -1 or a non-negative integer'')) (\<lambda>_.
              Inr \<lparr>pd_n = n, pd_qid = qid\<rparr>))))))))"

text \<open>The query of a request: the one of the session or one of the transaction.\<close>

definition find_query :: "int option \<Rightarrow> BoltSession \<Rightarrow> ActiveBoltQuery option" where
  "find_query qid s =
     (case qid of None \<Rightarrow> ss_active_query s
      | Some i \<Rightarrow> (case ss_active_transaction s of None \<Rightarrow> None | Some t \<Rightarrow> map_of (at_queries t) i))"

definition update_query :: "int option \<Rightarrow> (ActiveBoltQuery \<Rightarrow> ActiveBoltQuery) \<Rightarrow> BoltSession \<Rightarrow> BoltSession" where
  "update_query qid f s =
     (case qid of None \<Rightarrow> s\<lparr>ss_active_query := map_option f (ss_active_query s)\<rparr>
      | Some i \<Rightarrow> s\<lparr>ss_active_transaction := map_option (at_queries_update (map (\<lambda>(k, q). (k, if k = i then f q else q)))) (ss_active_transaction s)\<rparr>)"

definition next_row :: "'w Engine \<Rightarrow> int option \<Rightarrow> nat \<Rightarrow> ('w, Value list option) act" where
  "next_row E qid cursor =
     bindW get_session (\<lambda>s.
       case find_query qid s of
         Some q \<Rightarrow> (case aq_buffered_row q of
           Some row \<Rightarrow> bindW (set_session (update_query qid (aq_buffered_row_update (\<lambda>_. None)))) (\<lambda>_. returnW (Some row))
         | None \<Rightarrow> callW (en_Next E cursor))
       | None \<Rightarrow> liftW (Inl (Undefined ''no query'')))"

definition append_record :: "Value list \<Rightarrow> ('w, unit) act" where
  "append_record row =
     bindW get_session (\<lambda>s. bindW (liftW (bindR (ConvertRow row) (\<lambda>xs. AppendRecord xs (ss_ps s)))) (\<lambda>ps.
     bindW (set_session (ss_ps_update (\<lambda>_. ps))) (\<lambda>_.
       if length (pk_buf (ps_packer ps)) > 1024 then FlushSessionBuffer else returnW ())))"

text \<open>
  The loop over the rows. The result is \<open>None\<close> when the request is over and the number that remains otherwise; the
  fuel is what is asked for, or the bound \<open>en_rows\<close> for a request without a limit.
\<close>

fun pull_rows :: "nat \<Rightarrow> 'w Engine \<Rightarrow> nat \<Rightarrow> int option \<Rightarrow> nat \<Rightarrow> bool \<Rightarrow> int \<Rightarrow> ('w, int option) act" where
  "pull_rows fuel E type qid cursor unlimited remaining =
     (if \<not> (unlimited \<or> remaining > 0) then returnW (Some remaining)
      else case fuel of 0 \<Rightarrow> liftW (Inl NoFuel)
      | Suc fuel' \<Rightarrow>
          bindW IgnoreInterruptedOrClosedRequest (\<lambda>over.
            if over then bindW (AbortSession E) (\<lambda>_. returnW None)
            else bindW (next_row E qid cursor) (\<lambda>row.
              case row of None \<Rightarrow> returnW (Some remaining)
              | Some r \<Rightarrow>
                  bindW (if type = BoltMsg_code Msg_PullN then append_record r else returnW ()) (\<lambda>_.
                    pull_rows fuel' E type qid cursor unlimited (if unlimited then remaining else remaining - 1)))))"

declare pull_rows.simps [simp del]

text \<open>The row after the last one is read ahead.\<close>

definition look_ahead :: "'w Engine \<Rightarrow> int option \<Rightarrow> nat \<Rightarrow> ('w, unit) act" where
  "look_ahead E qid cursor =
     bindW (callW (en_Next E cursor)) (\<lambda>row.
       case row of None \<Rightarrow> returnW () | Some r \<Rightarrow> set_session (update_query qid (aq_buffered_row_update (\<lambda>_. Some r))))"

definition append_summary :: "(PackStream \<Rightarrow> PackStream res) \<Rightarrow> ('w, unit) act" where
  "append_summary pack =
     bindW get_session (\<lambda>s. bindW (liftW (pack (ss_ps s))) (\<lambda>ps. set_session (ss_ps_update (\<lambda>_. ps))))"

text \<open>The end of a result: the query of a transaction is dropped, the query of the session is committed.\<close>

definition end_of_result :: "'w Engine \<Rightarrow> int option \<Rightarrow> ('w, unit) act" where
  "end_of_result E qid =
     bindW (case qid of
       Some i \<Rightarrow> set_session (\<lambda>s. case ss_active_transaction s of None \<Rightarrow> s
         | Some t \<Rightarrow> let queries = filter (\<lambda>(k, q). k \<noteq> i) (at_queries t)
                     in s\<lparr>ss_active_transaction := Some (t\<lparr>at_queries := queries\<rparr>), ss_state := if queries = [] then TX_READY else TX_STREAMING\<rparr>)
     | None \<Rightarrow> bindW get_session (\<lambda>s. case ss_active_query s of None \<Rightarrow> liftW (Inl (Undefined ''no query''))
         | Some q \<Rightarrow> bindW (ActiveBoltQuery_Commit E q) (\<lambda>_. set_session (\<lambda>s. s\<lparr>ss_active_query := None, ss_state := READY\<rparr>)))) (\<lambda>_.
     bindW (append_summary AppendSuccessEmpty) (\<lambda>_. FlushSessionBuffer))"

definition pull_from :: "'w Engine \<Rightarrow> nat \<Rightarrow> int option \<Rightarrow> nat \<Rightarrow> int \<Rightarrow> ('w, unit) act" where
  "pull_from E type qid cursor n =
     bindW (pull_rows (if n < 0 then en_rows E else nat n) E type qid cursor (n < 0) n) (\<lambda>remaining.
       case remaining of None \<Rightarrow> returnW ()
       | Some r \<Rightarrow>
           bindW (if \<not> n < 0 \<and> r = 0 then look_ahead E qid cursor else returnW ()) (\<lambda>_.
           bindW IgnoreInterruptedOrClosedRequest (\<lambda>over.
             if over then AbortSession E
             else bindW get_session (\<lambda>s.
               if (case find_query qid s of Some q \<Rightarrow> aq_buffered_row q \<noteq> None | None \<Rightarrow> False) then
                 bindW (append_summary (AppendSuccessHasMore True)) (\<lambda>_.
                 bindW (set_state (if qid \<noteq> None then TX_STREAMING else STREAMING)) (\<lambda>_. FlushSessionBuffer))
               else bindW IgnoreInterruptedOrClosedRequest (\<lambda>over. if over then AbortSession E else end_of_result E qid)))))"

definition ProcessPullOrDiscard :: "'w Engine \<Rightarrow> nat \<Rightarrow> any list \<Rightarrow> ('w, unit) act" where
  "ProcessPullOrDiscard E type xs =
     catchW
       (bindW (liftW (ExtractPullOrDiscardMetadata type xs)) (\<lambda>md. bindW get_session (\<lambda>s.
        bindW (case ss_active_transaction s of
            Some t \<Rightarrow> bindW (CheckTransactionLeader E t) (\<lambda>_.
              let qid = (if pd_qid md = - 1 then at_next_query_id t - 1 else pd_qid md) in
              bindW (liftW (RG_CHECK (map_of (at_queries t) qid \<noteq> None) ''InputError''
                (BoltMsg_ToString type @ '' refers to an unknown result stream ['' @ show_int qid @ '']''))) (\<lambda>_. returnW (Some qid)))
          | None \<Rightarrow> bindW (liftW (RG_CHECK (pd_qid md = - 1) ''InputError'' ''auto-commit results do not have a qid'')) (\<lambda>_. returnW None)) (\<lambda>qid.
          case (case find_query qid s of Some q \<Rightarrow> aq_result q | None \<Rightarrow> None) of
            None \<Rightarrow> liftW (Inl (Thrown ''InputError'' (BoltMsg_ToString type @ '' requires an active result stream'')))
          | Some cursor \<Rightarrow> pull_from E type qid cursor (pd_n md)))))
       (FailSession E)"

section \<open>Queries\<close>

text \<open>The cursor of a new query; the types of fields that do not fit are left out of the error.\<close>

definition start_query :: "'w Engine \<Rightarrow> TransactionMetadata \<Rightarrow> QueryOptions \<Rightarrow> ActiveBoltTransaction option \<Rightarrow> bool \<Rightarrow> string \<Rightarrow> ('w, ActiveBoltQuery) act" where
  "start_query E md options transaction routing cypher =
     (let q = \<lparr>aq_graph_name = tm_graph md, aq_cypher = cypher, aq_graph_db = None, aq_transaction = None, aq_result = None,
            aq_buffered_row = None, aq_transaction_closed = False\<rparr>
      in if tm_graph md = kSystemDatabaseName then
           bindW (callW (en_Execute E SystemTarget cypher options)) (\<lambda>c. returnW (q\<lparr>aq_result := Some c\<rparr>))
         else case transaction of
           Some t \<Rightarrow>
             (case at_transaction t of None \<Rightarrow> liftW (Inl (Undefined ''no transaction''))
              | Some x \<Rightarrow> bindW (callW (en_Execute E (TransactionTarget x) cypher options)) (\<lambda>c. returnW (q\<lparr>aq_result := Some c\<rparr>)))
         | None \<Rightarrow>
             bindW (callW (en_OpenGraph E (tm_graph md))) (\<lambda>g.
             bindW (if routing then checkLeader E g (tm_graph md) (tm_read_only md) None else returnW None) (\<lambda>_.
             bindW (callW (en_BeginTransaction E g)) (\<lambda>x.
             let q' = q\<lparr>aq_graph_db := Some g, aq_transaction := Some x\<rparr> in
             unwindW (ActiveBoltQuery_Rollback E q')
               (bindW (callW (en_Execute E (TransactionTarget x) cypher options)) (\<lambda>c. returnW (q'\<lparr>aq_result := Some c\<rparr>)))))))"

definition columns :: "'w Engine \<Rightarrow> ActiveBoltQuery \<Rightarrow> ('w, string list) act" where
  "columns E q = (\<lambda>w. (Inr (case aq_result q of Some c \<Rightarrow> en_Columns E c (wk_world w) | None \<Rightarrow> []), w))"

text \<open>The query becomes part of the session, and its columns are the answer.\<close>

definition publish_query :: "'w Engine \<Rightarrow> ActiveBoltQuery \<Rightarrow> ('w, unit) act" where
  "publish_query E q =
     bindW (columns E q) (\<lambda>names. bindW get_session (\<lambda>s.
       case ss_active_transaction s of
         Some t \<Rightarrow>
           bindW (liftW (RG_CHECK (at_next_query_id t < 2 ^ 63 - 1) ''OutOfRange'' ''too many queries in a Bolt transaction'')) (\<lambda>_.
           let qid = at_next_query_id t; t1 = t\<lparr>at_next_query_id := qid + 1\<rparr> in
           bindW (set_session (ss_active_transaction_update (\<lambda>_. Some t1))) (\<lambda>_.
           bindW (liftW (AppendSuccess [(''fields'', AStrings names), (''qid'', AInt64 qid)] PackStream_Reset)) (\<lambda>ps.
           bindW (set_session (\<lambda>s. s\<lparr>ss_active_transaction := Some (t1\<lparr>at_queries := at_queries t @ [(qid, q)]\<rparr>), ss_state := TX_STREAMING\<rparr>)) (\<lambda>_.
             on_conn (PostResponse (pk_buf (ps_packer ps)))))))
       | None \<Rightarrow>
           bindW (liftW (AppendSuccessFields names PackStream_Reset)) (\<lambda>ps.
           bindW (set_session (\<lambda>s. s\<lparr>ss_active_query := Some q, ss_state := STREAMING\<rparr>)) (\<lambda>_.
             on_conn (PostResponse (pk_buf (ps_packer ps)))))))"

definition run_fields :: "any list \<Rightarrow> (string \<times> (string \<times> any) list \<times> (string \<times> any) list) res" where
  "run_fields xs =
     (let kinds = ''Run msg fields should be (string, map, map)'' in
      bindR (RG_CHECK (length xs = 3) ''InputError'' (''Run msg fields size error, size: '' @ show_nat (length xs))) (\<lambda>_.
      bindR (need (as_string (xs ! 0)) ''InputError'' kinds) (\<lambda>cypher.
      bindR (need (as_map (xs ! 1)) ''InputError'' kinds) (\<lambda>params.
      bindR (need (as_map (xs ! 2)) ''InputError'' kinds) (\<lambda>extra. Inr (cypher, params, extra))))))"

definition ProcessRun :: "'w Engine \<Rightarrow> any list \<Rightarrow> ('w, unit) act" where
  "ProcessRun E xs =
     catchW
       (bindW (liftW (run_fields xs)) (\<lambda>(cypher, params, extra).
        bindW get_session (\<lambda>s. let transaction = ss_active_transaction s in
        bindW (liftW (ParseTransactionMetadata extra
           (case transaction of Some t \<Rightarrow> at_graph_name t | None \<Rightarrow> kDefaultDatabaseName)
           (case transaction of Some t \<Rightarrow> at_read_only t | None \<Rightarrow> False))) (\<lambda>md.
        bindW (case transaction of
            Some t \<Rightarrow> bindW (liftW (RG_CHECK (tm_graph md = at_graph_name t \<and> tm_read_only md = at_read_only t) ''InputError''
                ''RUN cannot change the database or access mode of a transaction'')) (\<lambda>_. CheckTransactionLeader E t)
          | None \<Rightarrow> returnW ()) (\<lambda>_.
        bindW (liftW (ConvertEntries (en_zoned E) params [])) (\<lambda>parameters.
        bindW (start_query E md
           \<lparr>qo_read_only = tm_read_only md, qo_explicit_transaction = (transaction \<noteq> None),
            qo_transaction_time = map_option at_transaction_time transaction, qo_parameters = parameters\<rparr>
           transaction (ss_routing_enabled s) cypher) (\<lambda>q.
        bindW IgnoreInterruptedOrClosedRequest (\<lambda>over.
          if over then bindW (ActiveBoltQuery_Rollback E q) (\<lambda>_. AbortSession E)
          else unwindW (ActiveBoltQuery_Rollback E q) (publish_query E q)))))))))
       (FailSession E)"

section \<open>The state machine\<close>

definition ProcessReadyState :: "'w Engine \<Rightarrow> nat \<Rightarrow> any list \<Rightarrow> ('w, unit) act" where
  "ProcessReadyState E type xs =
     (if type = BoltMsg_code Msg_Begin then ProcessBegin E xs
      else if type = BoltMsg_code Msg_Route then
        bindW get_minor (\<lambda>minor. if minor < 3 then FailUnsupportedRequest E ''routing before Bolt 4.3'' else ProcessRoute E xs)
      else if type = BoltMsg_code Msg_Run then ProcessRun E xs
      else CloseProtocolError E)"

definition ProcessStreamingState :: "'w Engine \<Rightarrow> nat \<Rightarrow> any list \<Rightarrow> ('w, unit) act" where
  "ProcessStreamingState E type xs =
     (if type = BoltMsg_code Msg_PullN \<or> type = BoltMsg_code Msg_DiscardN then ProcessPullOrDiscard E type xs
      else CloseProtocolError E)"

definition ProcessTransactionState :: "'w Engine \<Rightarrow> SessionState \<Rightarrow> nat \<Rightarrow> any list \<Rightarrow> ('w, unit) act" where
  "ProcessTransactionState E state type xs =
     (if type = BoltMsg_code Msg_Run then ProcessRun E xs
      else if state = TX_STREAMING \<and> (type = BoltMsg_code Msg_PullN \<or> type = BoltMsg_code Msg_DiscardN) then ProcessPullOrDiscard E type xs
      else if state = TX_READY \<and> (type = BoltMsg_code Msg_Commit \<or> type = BoltMsg_code Msg_Rollback) then ProcessCommitOrRollback E type xs
      else CloseProtocolError E)"

definition reset_session :: "('w, unit) act" where
  "reset_session =
     bindW get_session (\<lambda>s. let (last, s') = ConsumeInterrupt s in
     bindW (set_session (\<lambda>_. s')) (\<lambda>_.
       if last then bindW (set_session (\<lambda>s. s\<lparr>ss_cancelled := False, ss_state := READY\<rparr>)) (\<lambda>_. PostSuccess)
       else PostIgnored))"

definition ProcessBoltMessage :: "'w Engine \<Rightarrow> nat \<Rightarrow> any list \<Rightarrow> ('w, unit) act" where
  "ProcessBoltMessage E type xs =
     bindW observe (\<lambda>_. bindW get_session (\<lambda>s.
       if HasInterrupt s then
         bindW (AbortSession E) (\<lambda>_. if IsResetMessage type then reset_session else PostIgnored)
       else case ss_state s of
         FAILED \<Rightarrow> ProcessRecoverableState E type
       | READY \<Rightarrow> ProcessReadyState E type xs
       | STREAMING \<Rightarrow> ProcessStreamingState E type xs
       | TX_READY \<Rightarrow> ProcessTransactionState E TX_READY type xs
       | TX_STREAMING \<Rightarrow> ProcessTransactionState E TX_STREAMING type xs
       | DEFUNCT \<Rightarrow> CloseProtocolError E))"

text \<open>The tasks that are posted to the strand.\<close>

definition message_task :: "'w Engine \<Rightarrow> nat \<Rightarrow> any list \<Rightarrow> ('w, unit) act" where
  "message_task E type xs =
     bindW observe (\<lambda>_. bindW has_closed (\<lambda>closed.
     bindW (if \<not> closed then ProcessBoltMessage E type xs else returnW ()) (\<lambda>_.
     bindW observe (\<lambda>_. bindW has_closed (\<lambda>closed. if closed then AbortSession E else returnW ())))))"

definition pop_task :: "conn \<Rightarrow> (strand_task \<times> conn) option" where
  "pop_task c =
     (case cn_context c of None \<Rightarrow> None
      | Some cx \<Rightarrow> (case cx_strand cx of [] \<Rightarrow> None
          | k # ks \<Rightarrow> Some (k, c\<lparr>cn_context := Some (cx\<lparr>cx_strand := ks\<rparr>)\<rparr>)))"

text \<open>A strand runs its tasks one after another, in the order they were posted.\<close>

definition run_strand :: "'w Engine \<Rightarrow> ('w, unit) act" where
  "run_strand E = (\<lambda>w.
     case pop_task (wk_conn w) of None \<Rightarrow> (Inr (), w)
     | Some (MessageTask type xs, c) \<Rightarrow> message_task E type xs (w\<lparr>wk_conn := c\<rparr>)
     | Some (AbortTask, c) \<Rightarrow> AbortSession E (w\<lparr>wk_conn := c\<rparr>))"

section \<open>The message handler\<close>

text \<open>The pool refuses tasks once it is stopped.\<close>

record Server =
  sv_stopped :: bool
  sv_conn_id :: nat

definition Post :: "Server \<Rightarrow> strand_task \<Rightarrow> BoltSessionContext \<Rightarrow> bool \<times> BoltSessionContext" where
  "Post sv k cx = (if sv_stopped sv then (False, cx) else (True, cx\<lparr>cx_strand := cx_strand cx @ [k]\<rparr>))"

definition EnqueueSessionMessage :: "Server \<Rightarrow> nat \<Rightarrow> any list \<Rightarrow> conn \<Rightarrow> conn" where
  "EnqueueSessionMessage sv type xs c =
     (case cn_context c of None \<Rightarrow> c
      | Some cx \<Rightarrow> let (posted, cx') = Post sv (MessageTask type xs) cx; c' = c\<lparr>cn_context := Some cx'\<rparr>
                  in if posted then c' else BoltConnection_Close c')"

text \<open>The members of a session before \<open>HELLO\<close> sets them; \<open>state\<close> has no initial value and is set there.\<close>

definition new_session :: BoltSession where
  "new_session = \<lparr>ss_active_query = None, ss_active_transaction = None, ss_cancelled = False, ss_ps = PackStream_Reset,
     ss_user = [], ss_state = READY, ss_remaining_interrupts = 0, ss_utc_patch = False, ss_python_driver = False,
     ss_routing_enabled = False\<rparr>"

definition session_closed :: "Server \<Rightarrow> BoltSessionContext \<Rightarrow> BoltSessionContext" where
  "session_closed sv cx = snd (Post sv AbortTask (cx\<lparr>cx_session := RequestInterrupt (cx_session cx)\<rparr>))"

definition respond_message :: "(PackStream \<Rightarrow> PackStream res) \<Rightarrow> conn \<Rightarrow> fault option \<times> conn" where
  "respond_message pack c =
     (case pack PackStream_Reset of Inl e \<Rightarrow> (Some e, c) | Inr ps \<Rightarrow> (None, Respond (pk_buf (ps_packer ps)) c))"

definition refuse_hello :: "string \<Rightarrow> conn \<Rightarrow> fault option \<times> conn" where
  "refuse_hello msg c =
     (case respond_message (AppendFailure [(''code'', ACString ''error''), (''message'', AString msg)]) c of
        (Some e, c') \<Rightarrow> (Some e, c') | (None, c') \<Rightarrow> (None, BoltConnection_Close c'))"

definition hello_session :: "string \<Rightarrow> (string \<times> any) list \<Rightarrow> BoltSession" where
  "hello_session user val = new_session\<lparr>
     ss_python_driver := (case map_of val ''user_agent'' of None \<Rightarrow> False
       | Some x \<Rightarrow> (case as_string x of Some a \<Rightarrow> prefix ''neo4j-python'' a | None \<Rightarrow> False)),
     ss_utc_patch := (map_of val ''patch_bolt'' = Some (AList [AString ''utc''])),
     ss_state := READY, ss_user := user, ss_routing_enabled := (map_of val ''routing'' \<noteq> None)\<rparr>"

definition hello_reply :: "Server \<Rightarrow> BoltSession \<Rightarrow> (string \<times> any) list" where
  "hello_reply sv s =
     [(''connection_id'', AString (''bolt'' @ show_nat (sv_conn_id sv))), (''server'', ACString ''Neo4j/rocksgraph'')] @
     (if ss_utc_patch s then [(''patch_bolt'', AStrings [''utc''])] else [])"

definition quoted :: "string \<Rightarrow> string" where
  "quoted s = [CHR 0x27] @ s @ [CHR 0x27]"

definition handle_hello :: "Server \<Rightarrow> any list \<Rightarrow> conn \<Rightarrow> fault option \<times> conn" where
  "handle_hello sv xs c =
     (if cn_context c \<noteq> None then (None, BoltConnection_Close c)
      else if length xs \<noteq> 1 then refuse_hello ''Hello msg fields size error'' c
      else case as_map (xs ! 0) of
        None \<Rightarrow> refuse_hello ''Hello msg metadata should be a map'' c
      | Some val \<Rightarrow>
          if map_of val ''principal'' = None \<or> map_of val ''credentials'' = None
          then refuse_hello (''Miss '' @ quoted ''principal'' @ '' or '' @ quoted ''credentials'' @ '' in Hello msg'') c
          else case (as_string (the (map_of val ''principal'')), as_string (the (map_of val ''credentials''))) of
            (Some user, Some credentials) \<Rightarrow>
              let s = hello_session user val
              in respond_message (AppendSuccess (hello_reply sv s))
                   (SetCloseHandler (session_closed sv) (c\<lparr>cn_context := Some \<lparr>cx_session = s, cx_strand = []\<rparr>\<rparr>))
          | _ \<Rightarrow> refuse_hello (quoted ''principal'' @ '' and '' @ quoted ''credentials'' @ '' in Hello msg should be strings'') c)"

definition NewBoltHandler :: "Server \<Rightarrow> BoltSessionContext handler" where
  "NewBoltHandler sv c type xs =
     (if type = BoltMsg_code Msg_Hello then handle_hello sv xs c
      else if type = BoltMsg_code Msg_Goodbye then (None, BoltConnection_Close c)
      else if IsSessionRequest type \<or> IsResetMessage type then
        (case cn_context c of None \<Rightarrow> (None, BoltConnection_Close c)
         | Some cx \<Rightarrow>
             let cx' = (if IsResetMessage type then cx\<lparr>cx_session := RequestInterrupt (cx_session cx)\<rparr> else cx)
             in (None, EnqueueSessionMessage sv type xs (c\<lparr>cn_context := Some cx'\<rparr>)))
      else (None, BoltConnection_Close c))"

end
