(* ===== verification/SessionIO.thy ===== *)
theory SessionIO
  imports Session
begin

text \<open>
  The IO side of a Bolt session: the message handler satisfies the contract of the reader, so the theorems on
  connections hold for it, and nothing the IO thread does touches the session but for the count of its interrupts and
  the tasks it puts on the strand.
\<close>

section \<open>The message handler keeps the contract of the reader\<close>

lemma leaves_reader_refl [simp]: "leaves_reader c c"
  by (simp add: leaves_reader_def)

lemma leaves_reader_trans: "leaves_reader c d \<Longrightarrow> leaves_reader d e \<Longrightarrow> leaves_reader c e"
  by (simp add: leaves_reader_def)

lemma leaves_reader_context [simp]:
  "leaves_reader c (c\<lparr>cn_context := x\<rparr>)" "leaves_reader c (SetCloseHandler f c)"
  "leaves_reader c (SetCloseHandler f (c\<lparr>cn_context := x\<rparr>))"
  by (simp_all add: leaves_reader_def SetCloseHandler_def)

lemma respond_leaves: "leaves_reader c d \<Longrightarrow> leaves_reader c (snd (respond_message pack d))"
  by (auto simp: respond_message_def intro: leaves_reader_trans send_leaves(1) split: sum.split)

lemma refuse_leaves: "leaves_reader c (snd (refuse_hello msg c))"
proof -
  obtain e d where d: "respond_message (AppendFailure [(''code'', ACString ''error''), (''message'', AString msg)]) c = (e, d)" by fastforce
  then have "leaves_reader c d" using respond_leaves [OF leaves_reader_refl, of c] by (metis snd_conv)
  then show ?thesis using d by (cases e) (auto simp: refuse_hello_def intro: leaves_reader_trans Close_reader(1))
qed

lemma enqueue_leaves: "leaves_reader c (EnqueueSessionMessage sv type xs (c\<lparr>cn_context := x\<rparr>))"
  by (auto simp: EnqueueSessionMessage_def Post_def intro: leaves_reader_trans leaves_reader_context(1) Close_reader(1) split: option.split)

lemma hello_cases:
  obtains "handle_hello sv xs c = (None, BoltConnection_Close c)" "cn_context c \<noteq> None"
  | msg where "handle_hello sv xs c = refuse_hello msg c" "cn_context c = None"
  | user val s where "handle_hello sv xs c = respond_message (AppendSuccess (hello_reply sv s))
      (SetCloseHandler (session_closed sv) (c\<lparr>cn_context := Some \<lparr>cx_session = s, cx_strand = []\<rparr>\<rparr>))"
      "s = hello_session user val" "cn_context c = None"
proof (cases "cn_context c")
  case None
  have "(\<exists>msg. handle_hello sv xs c = refuse_hello msg c) \<or> (\<exists>user val. handle_hello sv xs c =
      respond_message (AppendSuccess (hello_reply sv (hello_session user val)))
      (SetCloseHandler (session_closed sv) (c\<lparr>cn_context := Some \<lparr>cx_session = hello_session user val, cx_strand = []\<rparr>\<rparr>)))"
    using None by (simp add: handle_hello_def Let_def split: list.split any.split option.split) blast
  then show thesis using that(2,3) None by blast
qed (use that(1) in \<open>simp add: handle_hello_def\<close>)

lemma hello_leaves: "leaves_reader c (snd (handle_hello sv xs c))"
  by (cases rule: hello_cases [of sv xs c]) (auto simp: refuse_leaves respond_leaves)

lemma handler_leaves: "leaves_reader c (snd (NewBoltHandler sv c type xs))"
  by (auto simp: NewBoltHandler_def hello_leaves enqueue_leaves Let_def split: option.split)

lemma close_handler_ok: "connection_ok c \<Longrightarrow> \<not> cn_closed c \<Longrightarrow> connection_ok (SetCloseHandler f c)"
  by (simp add: connection_ok_defs SetCloseHandler_def)

lemma respond_ok: "connection_ok c \<Longrightarrow> connection_ok (snd (respond_message pack c))"
  by (simp add: respond_message_def Respond_ok split: sum.split)

lemma refuse_ok: "connection_ok c \<Longrightarrow> connection_ok (snd (refuse_hello msg c))"
proof -
  assume c: "connection_ok c"
  obtain e d where d: "respond_message (AppendFailure [(''code'', ACString ''error''), (''message'', AString msg)]) c = (e, d)" by fastforce
  then have "connection_ok d" using respond_ok [OF c] by (metis snd_conv)
  then show ?thesis using d by (cases e) (simp_all add: refuse_hello_def Close_ok)
qed

lemma handler_ok:
  assumes "connection_ok c" "\<not> cn_closed c"
  shows "connection_ok (snd (NewBoltHandler sv c type xs))"
proof -
  have "connection_ok (snd (handle_hello sv xs c))"
    by (cases rule: hello_cases [of sv xs c]) (use assms in \<open>auto simp: refuse_ok Close_ok intro!: respond_ok close_handler_ok\<close>)
  moreover have "connection_ok (EnqueueSessionMessage sv type xs (c\<lparr>cn_context := x\<rparr>))" for x
    using assms by (auto simp: EnqueueSessionMessage_def Post_def Close_ok split: option.split)
  ultimately show ?thesis using assms by (auto simp: NewBoltHandler_def Let_def Close_ok split: option.split)
qed

interpretation bolt: answering_handler "NewBoltHandler sv" for sv
  by unfold_locales (rule handler_leaves, erule (1) handler_ok)


section \<open>What the IO thread does to a session\<close>

inductive io_step :: "Server \<Rightarrow> conn \<Rightarrow> conn \<Rightarrow> bool" for sv where
  byte: "io_step sv c (arrive (NewBoltHandler sv) b c)"
| read_fails: "io_step sv c (completed (NewBoltHandler sv) True [] c)"
| accepted: "cn_wait c = WaitAccept \<Longrightarrow> io_step sv c (completed (NewBoltHandler sv) False [] c)"
| answered: "cn_wait c = WaitWritten \<Longrightarrow> io_step sv c (completed (NewBoltHandler sv) False [] c)"
| sent: "cn_queue c \<noteq> [] \<Longrightarrow> io_step sv c (SendDone ec c)"
| posted: "io_step sv c (run_posted c)"
| log_level: "io_step sv c (c\<lparr>cn_debug := b\<rparr>)"

lemma io_conn_step: "io_step sv c d \<Longrightarrow> conn_step (NewBoltHandler sv) c d"
  by (induction rule: io_step.induct) (auto intro: conn_step.intros)

text \<open>The responses that have been taken into the queue or posted to it, and the requests to reset on the strand.\<close>

fun responses :: "task list \<Rightarrow> string list" where
  "responses [] = []"
| "responses (RespondTask s # ts) = s # responses ts"
| "responses (CloseTask # ts) = responses ts"

definition stream :: "'s BoltConnection \<Rightarrow> string list" where
  "stream c = cn_accepted c @ responses (cn_posted c)"

definition closing :: "'s BoltConnection \<Rightarrow> bool" where
  "closing c \<longleftrightarrow> cn_closed c \<or> CloseTask \<in> set (cn_posted c)"

fun reset_task :: "strand_task \<Rightarrow> bool" where
  "reset_task (MessageTask type xs) \<longleftrightarrow> IsResetMessage type"
| "reset_task AbortTask \<longleftrightarrow> False"

definition resets :: "BoltSessionContext \<Rightarrow> nat" where
  "resets cx = length (filter reset_task (cx_strand cx))"

definition interrupts :: "BoltSessionContext \<Rightarrow> nat" where
  "interrupts cx = ss_remaining_interrupts (cx_session cx)"

definition same_session :: "BoltSession \<Rightarrow> BoltSession \<Rightarrow> bool" where
  "same_session s s' \<longleftrightarrow> (\<exists>n b. ss_remaining_interrupts s \<le> n \<and> s' = s\<lparr>ss_remaining_interrupts := n, ss_cancelled := b\<rparr>)"

text \<open>
  Interrupts and tasks are added, and every request to reset comes with its interrupt; while the connection is open
  every interrupt has its request on the strand, and the session is not told to end.
\<close>

definition ctx_moved :: "bool \<Rightarrow> BoltSessionContext \<Rightarrow> BoltSessionContext \<Rightarrow> bool" where
  "ctx_moved closed cx cx' \<longleftrightarrow> same_session (cx_session cx) (cx_session cx') \<and> prefix (cx_strand cx) (cx_strand cx') \<and>
     interrupts cx + resets cx' \<le> interrupts cx' + resets cx \<and>
     (closed \<or> interrupts cx' + resets cx = interrupts cx + resets cx' \<and>
       (AbortTask \<in> set (cx_strand cx') \<longrightarrow> AbortTask \<in> set (cx_strand cx)))"

definition started :: "BoltSessionContext \<Rightarrow> bool" where
  "started cx \<longleftrightarrow> (\<exists>user val. cx = \<lparr>cx_session = hello_session user val, cx_strand = []\<rparr>)"

definition handler_set :: "Server \<Rightarrow> conn \<Rightarrow> bool" where
  "handler_set sv c \<longleftrightarrow> cn_close_handler c = (if cn_context c = None then None else Some (session_closed sv)) \<and>
     cn_close_notified c = cn_closed c"

text \<open>The end of the session is on its strand, unless the pool takes no more tasks.\<close>

definition told :: "Server \<Rightarrow> BoltSessionContext \<Rightarrow> bool" where
  "told sv cx \<longleftrightarrow> sv_stopped sv \<or> AbortTask \<in> set (cx_strand cx)"

definition io_kept :: "Server \<Rightarrow> conn \<Rightarrow> conn \<Rightarrow> bool" where
  "io_kept sv c d \<longleftrightarrow> (handler_set sv c \<longrightarrow> handler_set sv d \<and> (cn_closed c \<longrightarrow> cn_closed d) \<and> (closing c \<longrightarrow> closing d) \<and>
     (case cn_context c of
        None \<Rightarrow> (\<forall>cx'. cn_context d = Some cx' \<longrightarrow> (\<exists>cx. started cx \<and> ctx_moved (cn_closed d) cx cx') \<and> (cn_closed d \<longrightarrow> told sv cx'))
      | Some cx \<Rightarrow> \<exists>cx'. cn_context d = Some cx' \<and> ctx_moved (cn_closed d) cx cx' \<and> (cn_closed d \<or> stream d = stream c) \<and>
          (cn_closed d \<longrightarrow> cn_closed c \<or> told sv cx')))"

lemma same_session_trans: "same_session s t \<Longrightarrow> same_session t u \<Longrightarrow> same_session s u"
proof -
  assume "same_session s t" "same_session t u"
  then obtain n b m a where "ss_remaining_interrupts s \<le> n" "t = s\<lparr>ss_remaining_interrupts := n, ss_cancelled := b\<rparr>"
      "ss_remaining_interrupts t \<le> m" "u = t\<lparr>ss_remaining_interrupts := m, ss_cancelled := a\<rparr>"
    unfolding same_session_def by blast
  then have "ss_remaining_interrupts s \<le> m" "u = s\<lparr>ss_remaining_interrupts := m, ss_cancelled := a\<rparr>" by simp_all
  then show ?thesis unfolding same_session_def by blast
qed

lemma same_session_refl [simp]: "same_session s s"
  unfolding same_session_def by (rule exI [of _ "ss_remaining_interrupts s"], rule exI [of _ "ss_cancelled s"]) simp

lemma ctx_moved_refl [simp]: "ctx_moved b cx cx"
  by (simp add: ctx_moved_def)

lemma ctx_moved_trans:
  assumes "ctx_moved a cx cy" "ctx_moved b cy cz" "a \<Longrightarrow> b"
  shows "ctx_moved b cx cz"
proof -
  have "same_session (cx_session cx) (cx_session cz)" "prefix (cx_strand cx) (cx_strand cz)"
    using assms(1,2) same_session_trans prefix_order.trans unfolding ctx_moved_def by blast+
  moreover have "b \<or> interrupts cz + resets cx = interrupts cx + resets cz" using assms unfolding ctx_moved_def by linarith
  moreover have "interrupts cx + resets cz \<le> interrupts cz + resets cx" using assms unfolding ctx_moved_def by linarith
  moreover have "b \<or> (AbortTask \<in> set (cx_strand cz) \<longrightarrow> AbortTask \<in> set (cx_strand cx))" using assms unfolding ctx_moved_def by blast
  ultimately show ?thesis unfolding ctx_moved_def by blast
qed

lemma io_keptD:
  assumes "io_kept sv c d" "handler_set sv c"
  shows "handler_set sv d" "cn_closed c \<Longrightarrow> cn_closed d" "closing c \<Longrightarrow> closing d"
    "cn_context c = Some cx \<Longrightarrow> \<exists>cx'. cn_context d = Some cx' \<and> ctx_moved (cn_closed d) cx cx' \<and> (cn_closed d \<or> stream d = stream c) \<and>
       (cn_closed d \<longrightarrow> cn_closed c \<or> told sv cx')"
    "cn_context c = None \<Longrightarrow> cn_context d = Some cy \<Longrightarrow> (\<exists>cx. started cx \<and> ctx_moved (cn_closed d) cx cy) \<and> (cn_closed d \<longrightarrow> told sv cy)"
  using assms unfolding io_kept_def by (simp_all split: option.splits)

lemma told_moved: "told sv cx \<Longrightarrow> ctx_moved b cx cx' \<Longrightarrow> told sv cx'"
  by (auto simp: told_def ctx_moved_def prefix_def)

lemma io_kept_trans:
  assumes "io_kept sv c d" "io_kept sv d e"
  shows "io_kept sv c e"
  unfolding io_kept_def
proof (intro impI conjI)
  assume h: "handler_set sv c"
  note cd = io_keptD [OF assms(1) h]
  note de = io_keptD [OF assms(2) cd(1)]
  note tr = ctx_moved_trans [OF _ _ de(2)]
  show "handler_set sv e" "cn_closed c \<Longrightarrow> cn_closed e" "closing c \<Longrightarrow> closing e" using cd de by blast+
  show "case cn_context c of
       None \<Rightarrow> (\<forall>cx'. cn_context e = Some cx' \<longrightarrow> (\<exists>cx. started cx \<and> ctx_moved (cn_closed e) cx cx') \<and> (cn_closed e \<longrightarrow> told sv cx'))
     | Some cx \<Rightarrow> \<exists>cx'. cn_context e = Some cx' \<and> ctx_moved (cn_closed e) cx cx' \<and> (cn_closed e \<or> stream e = stream c) \<and>
         (cn_closed e \<longrightarrow> cn_closed c \<or> told sv cx')"
  proof (cases "cn_context c")
    case None
    have "(\<exists>cx. started cx \<and> ctx_moved (cn_closed e) cx cz) \<and> (cn_closed e \<longrightarrow> told sv cz)" if e: "cn_context e = Some cz" for cz
    proof (cases "cn_context d")
      case (Some cy)
      obtain cx where x: "started cx" "ctx_moved (cn_closed d) cx cy" "cn_closed d \<longrightarrow> told sv cy" using cd(5) [OF None Some] by blast
      have z: "ctx_moved (cn_closed e) cy cz" "cn_closed e \<longrightarrow> cn_closed d \<or> told sv cz" using de(4) [OF Some] e by auto
      have "ctx_moved (cn_closed e) cx cz" using tr [OF x(2) z(1)] by blast
      then show ?thesis using x z(2) told_moved [OF _ z(1)] by blast
    qed (use de(5) e in blast)
    then show ?thesis using None by simp
  next
    case (Some cx)
    then obtain cy where y: "cn_context d = Some cy" "ctx_moved (cn_closed d) cx cy" "cn_closed d \<or> stream d = stream c"
        "cn_closed d \<longrightarrow> cn_closed c \<or> told sv cy" using cd(4) by blast
    then obtain cz where z: "cn_context e = Some cz" "ctx_moved (cn_closed e) cy cz" "cn_closed e \<or> stream e = stream d"
        "cn_closed e \<longrightarrow> cn_closed d \<or> told sv cz" using de(4) by blast
    then show ?thesis using Some y tr [OF y(2)] de(2) told_moved [OF _ z(2)] by auto
  qed
qed

lemma io_kept_frame:
  assumes "cn_closed d = cn_closed c" "cn_close_handler d = cn_close_handler c" "cn_context d = cn_context c" "stream d = stream c"
    "cn_posted d = cn_posted c" "cn_close_notified d = cn_close_notified c"
  shows "io_kept sv c d"
  using assms by (auto simp: io_kept_def handler_set_def closing_def split: option.split)

lemma io_kept_refl [simp]: "io_kept sv c c"
  by (rule io_kept_frame) simp_all

lemma same_session_interrupt [simp]: "same_session s (RequestInterrupt s)"
  unfolding same_session_def RequestInterrupt_def
  by (rule exI [of _ "ss_remaining_interrupts s + 1"], rule exI [of _ True]) simp

lemma interrupts_requested [simp]: "ss_remaining_interrupts (RequestInterrupt s) = ss_remaining_interrupts s + 1"
  by (simp add: RequestInterrupt_def)

lemma close_moved: "ctx_moved True cx (session_closed sv cx)"
  by (simp add: ctx_moved_def session_closed_def Post_def interrupts_def resets_def)

lemma close_told: "told sv (session_closed sv cx)"
  by (simp add: told_def session_closed_def Post_def)

lemma io_kept_Close: "io_kept sv c (BoltConnection_Close c)"
  using close_moved close_told by (auto simp: io_kept_def handler_set_def closing_def BoltConnection_Close_def Connection_Close_def Let_def split: option.split)

lemma io_kept_SendDone: "io_kept sv c (SendDone ec c)"
proof -
  have "io_kept sv c (BoltConnection_Close (c\<lparr>cn_queue := []\<rparr>))"
    by (rule io_kept_trans [OF io_kept_frame io_kept_Close]) (simp_all add: stream_def)
  then show ?thesis by (auto simp: SendDone_def DoSend_def Let_def stream_def intro: io_kept_frame)
qed

lemma io_kept_posted: "io_kept sv c (run_posted c)"
proof (cases "cn_posted c")
  case (Cons k ts)
  show ?thesis
  proof (cases k)
    case (RespondTask s)
    then show ?thesis
      using Cons by (auto simp: run_posted_def Respond_def DoSend_def Let_def io_kept_def handler_set_def closing_def stream_def split: option.split)
  next
    case CloseTask
    then show ?thesis using CloseTask Cons close_moved close_told
      by (auto simp: run_posted_def io_kept_def handler_set_def closing_def BoltConnection_Close_def Connection_Close_def Let_def split: option.split)
  qed
qed (simp add: run_posted_def)


lemma enqueue_kept:
  assumes "cn_context c = Some cx" "\<not> cn_closed c"
    and cx'_def: "cx' = (if IsResetMessage type then cx\<lparr>cx_session := RequestInterrupt (cx_session cx)\<rparr> else cx)"
  shows "io_kept sv c (EnqueueSessionMessage sv type xs (c\<lparr>cn_context := Some cx'\<rparr>))"
proof -
  have s: "same_session (cx_session cx) (cx_session cx')" "cx_strand cx' = cx_strand cx" by (simp_all add: cx'_def)
  have i: "interrupts cx' = interrupts cx + (if IsResetMessage type then 1 else 0)" by (simp add: cx'_def interrupts_def)
  then have "ctx_moved True cx cx'" using s by (simp add: ctx_moved_def resets_def)
  then have m: "ctx_moved True cx (session_closed sv cx')" by (rule ctx_moved_trans [OF _ close_moved]) simp
  show ?thesis
  proof (cases "sv_stopped sv")
    case True
    have "BoltConnection_Close (c\<lparr>cn_context := Some cx'\<rparr>) = c\<lparr>cn_closed := True, cn_close_notified := True, cn_notices := cn_notices c + 1,
        cn_context := Some (session_closed sv cx')\<rparr>" if "handler_set sv c"
      using that assms(1,2) by (simp add: handler_set_def BoltConnection_Close_def Connection_Close_def)
    then show ?thesis using True assms(1,2) m close_told
      by (auto simp: EnqueueSessionMessage_def Post_def io_kept_def handler_set_def closing_def)
  next
    case False
    have "ctx_moved False cx (cx'\<lparr>cx_strand := cx_strand cx @ [MessageTask type xs]\<rparr>)"
      using s i by (simp add: ctx_moved_def resets_def interrupts_def)
    then show ?thesis using False assms(1,2) s(2) by (simp add: EnqueueSessionMessage_def Post_def io_kept_def handler_set_def closing_def stream_def)
  qed
qed

lemma respond_kept:
  assumes "cn_context c = None"
  shows "io_kept sv c (snd (respond_message pack c))"
  using assms by (auto simp: respond_message_def io_kept_def handler_set_def closing_def Respond_def DoSend_def Let_def split: sum.split)

lemma hello_kept:
  assumes "\<not> cn_closed c"
  shows "io_kept sv c (snd (handle_hello sv xs c))"
proof (cases rule: hello_cases [of sv xs c])
  case 1
  then show ?thesis by (simp add: io_kept_Close)
next
  case (2 msg)
  have "io_kept sv c (snd (respond_message (AppendFailure [(''code'', ACString ''error''), (''message'', AString msg)]) c))"
    using 2(2) by (rule respond_kept)
  then show ?thesis using 2(1) io_kept_trans [OF _ io_kept_Close]
    by (auto simp: refuse_hello_def split: option.split prod.split)
next
  case (3 user val s)
  then have "started \<lparr>cx_session = s, cx_strand = []\<rparr>" by (auto simp: started_def)
  then show ?thesis
    using 3 assms ctx_moved_refl by (auto simp: respond_message_def io_kept_def handler_set_def SetCloseHandler_def closing_def Respond_def DoSend_def Let_def split: sum.split)
qed

lemma handler_kept: "\<not> cn_closed c \<Longrightarrow> io_kept sv c (snd (NewBoltHandler sv c type xs))"
proof (cases "cn_context c")
  case (Some cx)
  assume o: "\<not> cn_closed c"
  from enqueue_kept [OF Some this refl, of sv type xs] show ?thesis
    using Some o by (simp add: NewBoltHandler_def hello_kept io_kept_Close Let_def)
qed (simp add: NewBoltHandler_def hello_kept io_kept_Close)

text \<open>The reader changes nothing else.\<close>

lemma io_kept_updates:
  "io_kept sv c (c\<lparr>cn_wait := w\<rparr>)" "io_kept sv c (c\<lparr>cn_chunk := b\<rparr>)" "io_kept sv c (c\<lparr>cn_got := b\<rparr>)" "io_kept sv c (c\<lparr>cn_ws_read := b\<rparr>)"
  "io_kept sv c (start_read n w c)" "io_kept sv c (c\<lparr>cn_debug := d\<rparr>)"
  by (auto simp: start_read_def WebSocketAsyncRead_def stream_def intro!: io_kept_frame)

lemma next_chunk_kept: "io_kept sv c (next_chunk n c)"
  by (simp add: next_chunk_def io_kept_Close io_kept_updates)

lemma handshake_kept:
  "io_kept sv c (ReadMagicDone ec b c)" "io_kept sv c (WebSocketAcceptDone ec c)" "io_kept sv c (ReadBoltIdentificationDone ec b c)"
  "io_kept sv c (ReadVersionNegotiationDone ec b c)" "io_kept sv c (WriteResponseDone ec c)"
  by (auto simp: ReadMagicDone_def WebSocketAcceptDone_def ReadBoltIdentificationDone_def ReadVersionNegotiationDone_def WriteResponseDone_def
      WebSocketAsyncRead_def stream_def Let_def io_kept_Close io_kept_updates intro!: io_kept_frame)

lemma ReadChunkDone_kept: "io_kept sv c (ReadChunkDone ec b c)"
  by (auto simp: ReadChunkDone_def io_kept_Close intro: io_kept_trans [OF io_kept_updates(2) io_kept_updates(5)])

lemma ReadChunkSizeDone_kept:
  assumes "\<not> cn_closed c \<or> ec"
  shows "io_kept sv c (ReadChunkSizeDone (NewBoltHandler sv) ec b c)"
proof (cases "read_message (cn_debug c) (cn_chunk c)")
  case (Inr m)
  obtain t xs where m: "m = (t, xs)" by (cases m)
  obtain e d where h: "NewBoltHandler sv c t xs = (e, d)" by (cases "NewBoltHandler sv c t xs")
  have d: "\<not> ec \<Longrightarrow> io_kept sv c d" using handler_kept [of c sv t xs] assms h by simp
  have "io_kept sv c (next_chunk n (d\<lparr>cn_chunk := []\<rparr>))" "io_kept sv c (BoltConnection_Close d)" if "\<not> ec" for n
    by (rule io_kept_trans [OF d [OF that] io_kept_trans [OF io_kept_updates(2) next_chunk_kept]], rule io_kept_trans [OF d [OF that] io_kept_Close])
  then show ?thesis using d Inr m h by (cases e) (simp_all add: ReadChunkSizeDone_def Let_def next_chunk_kept io_kept_Close)
qed (simp add: ReadChunkSizeDone_def Let_def next_chunk_kept io_kept_Close)

lemma completed_kept:
  assumes "\<not> cn_closed c \<or> ec \<or> cn_wait c \<noteq> WaitChunkSize"
  shows "io_kept sv c (completed (NewBoltHandler sv) ec b c)"
proof -
  note w = io_kept_trans [OF io_kept_updates(1)]
  have "io_kept sv c (ReadChunkSizeDone (NewBoltHandler sv) ec b (c\<lparr>cn_wait := WaitNothing\<rparr>))" if "cn_wait c = WaitChunkSize"
    by (rule w, rule ReadChunkSizeDone_kept) (use assms that in simp)
  then show ?thesis
    by (cases "cn_wait c") (simp_all add: completed_def, (rule w, rule handshake_kept ReadChunkDone_kept)+)
qed

lemma settle_kept: "io_kept sv c (settle (NewBoltHandler sv) c)"
  using completed_kept [of c False] by (simp add: settle_def)

lemma arrive_kept: "io_kept sv c (arrive (NewBoltHandler sv) b c)"
proof -
  have 1: "io_kept sv c (settle (NewBoltHandler sv) (completed (NewBoltHandler sv) False s (c\<lparr>cn_got := []\<rparr>)))" if "\<not> cn_closed c" for s
    by (rule io_kept_trans [OF io_kept_updates(3)], rule io_kept_trans [OF completed_kept settle_kept]) (use that in simp)
  have "io_kept sv c (WebSocketReadSomeDone (NewBoltHandler sv) False [b] c)" if "\<not> cn_closed c"
  proof -
    have "io_kept sv c (completed (NewBoltHandler sv) False s (c\<lparr>cn_ws_read := t\<rparr>))" for s t
      by (rule io_kept_trans [OF io_kept_updates(4) completed_kept]) (use that in simp)
    then show ?thesis by (auto simp: WebSocketReadSomeDone_def Let_def io_kept_updates)
  qed
  then show ?thesis
    using 1 by (auto simp: arrive_def Let_def io_kept_updates split: option.split intro: io_kept_trans [OF _ settle_kept])
qed

lemma io_step_kept: "io_step sv c d \<Longrightarrow> io_kept sv c d"
  by (induction rule: io_step.induct) (auto simp: arrive_kept completed_kept io_kept_SendDone io_kept_posted io_kept_updates(6))


section \<open>Connections with sessions\<close>

lemma chunked_length: "length s \<le> length (chunked s)"
  by (induction s rule: chunked.induct) (subst chunked.simps, auto)

lemma run_handled:
  assumes "cn_context c = Some cx" "\<not> sv_stopped sv"
  shows "NewBoltHandler sv c (BoltMsg_code Msg_Run) xs =
    (None, c\<lparr>cn_context := Some (cx\<lparr>cx_strand := cx_strand cx @ [MessageTask (BoltMsg_code Msg_Run) xs]\<rparr>)\<rparr>)"
  using assms by (simp add: NewBoltHandler_def IsSessionRequest_def IsResetMessage_def EnqueueSessionMessage_def Post_def)





text \<open>
  C38: Whatever bytes arrive, whatever fails, and whatever the workers post, for every reachable state of a connection
  with the server's message handler: what has been given to the transport is a prefix of the responses that were
  accepted, in their order and without repetition; while the connection is open, what is written and what is still
  queued are together all that was accepted; a message being received is never longer than the limit, not even with the
  chunk that has been announced; and the close handler has run exactly once if the connection is closed and has one,
  and not at all otherwise.
\<close>

theorem connection_invariant:
  assumes "conn_reach (NewBoltHandler sv) c"
  shows "prefix (cn_written c) (cn_accepted c) \<and>
    (cn_closed c \<or> cn_written c @ drop (length (cn_send_buffers c)) (cn_queue c) = cn_accepted c) \<and>
    length (cn_chunk c) \<le> cn_max_message_size c \<and>
    (case cn_wait c of WaitChunk n \<Rightarrow> length (cn_chunk c) + n \<le> cn_max_message_size c | _ \<Rightarrow> True) \<and>
    cn_notices c = (if cn_closed c \<and> cn_close_handler c \<noteq> None then 1 else 0)"
  using bolt.reach_ok [OF assms] by (auto simp: connection_ok_defs split: wait.split)

theorem connection_invariant_witness:
  "let c = feed (NewBoltHandler \<lparr>sv_stopped = False, sv_conn_id = 7\<rparr>) (bolt_magic @ ''xx'') (BoltConnection_Start False new_connection)
   in cn_wait c = WaitVersion \<and> cn_got c = ''xx'' \<and> prefix (cn_written c) (cn_accepted c) \<and> length (cn_chunk c) \<le> cn_max_message_size c \<and> cn_notices c = 0"
proof -
  let ?h = "NewBoltHandler \<lparr>sv_stopped = False, sv_conn_id = 7\<rparr>" and ?s = "BoltConnection_Start False new_connection"
  have "(conn_step ?h)\<^sup>*\<^sup>* c (feed ?h bs c)" for bs c
    by (induction bs arbitrary: c) (auto intro: conn_step.byte converse_rtranclp_into_rtranclp)
  then have "conn_reach ?h (feed ?h (bolt_magic @ ''xx'') ?s)" unfolding conn_reach_def by blast
  from connection_invariant [OF this] show ?thesis
    by (simp add: BoltConnection_Start_def new_connection_def bolt_magic_def arrive_def settle_def completed_def ReadMagicDone_def on_socket_def)
qed

end
