(* ===== verification/SessionInv.thy ===== *)
theory SessionInv
  imports SessionIO
begin

text \<open>
  The worker side of a Bolt session. A small logic for the actions of a worker, with a postcondition for the return and
  one for an exception; its assertions are stable under what the IO thread does between two looks at the shared state.
  With it, every operation of \<open>Session\<close> is shown to answer with records and one summary and to leave a session whose
  state agrees with the query and the transaction it holds.
\<close>

section \<open>A logic for actions\<close>

definition ends :: "('a \<Rightarrow> 'w worker \<Rightarrow> bool) \<Rightarrow> ('w worker \<Rightarrow> bool) \<Rightarrow> 'a res \<times> 'w worker \<Rightarrow> bool" where
  "ends Q X r \<longleftrightarrow> (case fst r of Inr x \<Rightarrow> Q x (snd r) | Inl _ \<Rightarrow> X (snd r))"

definition valid :: "('w worker \<Rightarrow> bool) \<Rightarrow> ('w, 'a) act \<Rightarrow> ('a \<Rightarrow> 'w worker \<Rightarrow> bool) \<Rightarrow> ('w worker \<Rightarrow> bool) \<Rightarrow> bool" where
  "valid P m Q X \<longleftrightarrow> (\<forall>w. P w \<longrightarrow> ends Q X (m w))"

lemma ends_simps [simp]: "ends Q X (Inr x, w) = Q x w" "ends Q X (Inl e, w) = X w"
  by (simp_all add: ends_def)

lemma ends_mono: "ends Q X r \<Longrightarrow> (\<And>x w. Q x w \<Longrightarrow> Q' x w) \<Longrightarrow> (\<And>w. X w \<Longrightarrow> X' w) \<Longrightarrow> ends Q' X' r"
  by (cases r; cases "fst r") auto

lemma validI: "(\<And>w. P w \<Longrightarrow> ends Q X (m w)) \<Longrightarrow> valid P m Q X"
  by (simp add: valid_def)

lemma validD: "valid P m Q X \<Longrightarrow> P w \<Longrightarrow> ends Q X (m w)"
  by (simp add: valid_def)

lemma v_bind:
  assumes "valid P m R X" "\<And>x. valid (R x) (f x) Q X"
  shows "valid P (bindW m f) Q X"
proof (rule validI)
  fix w assume "P w"
  from validD [OF assms(1) this] show "ends Q X (bindW m f w)"
    using validD [OF assms(2)] by (cases "m w"; cases "fst (m w)") (auto simp: bindW_def)
qed

lemma v_mono: "valid P m Q X \<Longrightarrow> (\<And>w. P' w \<Longrightarrow> P w) \<Longrightarrow> (\<And>x w. Q x w \<Longrightarrow> Q' x w) \<Longrightarrow> (\<And>w. X w \<Longrightarrow> X' w) \<Longrightarrow> valid P' m Q' X'"
  by (rule validI, rule ends_mono, erule validD) simp_all

lemma v_pre: "valid P m Q X \<Longrightarrow> (\<And>w. P' w \<Longrightarrow> P w) \<Longrightarrow> valid P' m Q X"
  by (erule v_mono)

lemma v_post: "valid P m Q X \<Longrightarrow> (\<And>x w. Q x w \<Longrightarrow> Q' x w) \<Longrightarrow> valid P m Q' X"
  by (erule v_mono)

lemma v_if: "(b \<Longrightarrow> valid P m Q X) \<Longrightarrow> (\<not> b \<Longrightarrow> valid P n Q X) \<Longrightarrow> valid P (if b then m else n) Q X"
  by simp

lemma v_option:
  "(x = None \<Longrightarrow> valid P m Q X) \<Longrightarrow> (\<And>y. x = Some y \<Longrightarrow> valid P (f y) Q X) \<Longrightarrow> valid P (case x of None \<Rightarrow> m | Some y \<Rightarrow> f y) Q X"
  by (cases x) simp_all

lemma v_catch:
  assumes "valid P m Q X" "\<And>code msg. valid X (h code msg) Q X"
  shows "valid P (catchW m h) Q X"
proof (rule validI)
  fix w assume "P w"
  from validD [OF assms(1) this] show "ends Q X (catchW m h w)"
    using validD [OF assms(2)] by (cases "m w"; cases "fst (m w)") (auto simp: catchW_def split: fault.split)
qed

lemma v_unwind:
  assumes "valid P m Q X" "valid X c (\<lambda>_. X) X"
  shows "valid P (unwindW c m) Q X"
proof (rule validI)
  fix w assume "P w"
  have c: "X v \<Longrightarrow> X (snd (c v))" for v using validD [OF assms(2), of v] by (cases "c v"; cases "fst (c v)") auto
  from validD [OF assms(1) \<open>P w\<close>] show "ends Q X (unwindW c m w)"
    using c by (cases "m w"; cases "fst (m w)") (auto simp: unwindW_def)
qed

section \<open>Assertions\<close>

text \<open>
  \<open>base\<close> is what always holds of a worker. \<open>at k R\<close>: every request to reset on the strand and \<open>k\<close> that are being worked
  on have their interrupts, and unless the connection is being closed there are no other interrupts and the session and
  the responses so far satisfy \<open>R\<close>. When the connection has been closed, the end of the session is on the strand.
\<close>

definition base :: "Server \<Rightarrow> 'w worker \<Rightarrow> bool" where
  "base sv w \<longleftrightarrow> handler_set sv (wk_conn w) \<and> (\<forall>f \<in> set (wk_io w). \<forall>c. io_kept sv c (f c))"

definition accounted :: "nat \<Rightarrow> BoltSessionContext \<Rightarrow> bool" where
  "accounted k cx \<longleftrightarrow> interrupts cx = resets cx + k \<and> AbortTask \<notin> set (cx_strand cx)"

type_synonym assertion = "BoltSession \<Rightarrow> string list \<Rightarrow> bool"

definition at :: "Server \<Rightarrow> nat \<Rightarrow> assertion \<Rightarrow> 'w worker \<Rightarrow> bool" where
  "at sv k R w \<longleftrightarrow> base sv w \<and> (\<exists>cx. cn_context (wk_conn w) = Some cx \<and> resets cx + k \<le> interrupts cx \<and>
     (cn_closed (wk_conn w) \<longrightarrow> told sv cx) \<and> (closing (wk_conn w) \<or> accounted k cx \<and> R (cx_session cx) (stream (wk_conn w))))"

definition io_stable :: "assertion \<Rightarrow> bool" where
  "io_stable R \<longleftrightarrow> (\<forall>s s' S. R s S \<longrightarrow> same_session s s' \<longrightarrow> R s' S)"

lemma same_session_fields:
  assumes "same_session s s'"
  shows "ss_active_query s' = ss_active_query s" "ss_active_transaction s' = ss_active_transaction s" "ss_ps s' = ss_ps s"
    "ss_state s' = ss_state s" "ss_remaining_interrupts s \<le> ss_remaining_interrupts s'"
  using assms by (auto simp: same_session_def)

lemma at_mono: "at sv k R w \<Longrightarrow> (\<And>s S. R s S \<Longrightarrow> R' s S) \<Longrightarrow> at sv k R' w"
  by (auto simp: at_def)

lemma at_io:
  assumes "at sv k R w" "io_stable R" "io_kept sv (wk_conn w) d" "set fs \<subseteq> set (wk_io w)"
  shows "at sv k R (w\<lparr>wk_conn := d, wk_io := fs\<rparr>)"
proof -
  obtain cx where cx: "cn_context (wk_conn w) = Some cx" "closing (wk_conn w) \<or> accounted k cx \<and> R (cx_session cx) (stream (wk_conn w))"
      "resets cx + k \<le> interrupts cx" "cn_closed (wk_conn w) \<longrightarrow> told sv cx"
    using assms(1) by (auto simp: at_def)
  have h: "handler_set sv (wk_conn w)" using assms(1) by (simp add: at_def base_def)
  note d = io_keptD [OF assms(3) h]
  obtain cx' where cx': "cn_context d = Some cx'" "ctx_moved (cn_closed d) cx cx'" "cn_closed d \<or> stream d = stream (wk_conn w)"
      "cn_closed d \<longrightarrow> cn_closed (wk_conn w) \<or> told sv cx'"
    using d(4) [OF cx(1)] by blast
  have "closing d \<or> accounted k cx' \<and> R (cx_session cx') (stream d)"
  proof (rule disjCI)
    assume "\<not> (accounted k cx' \<and> R (cx_session cx') (stream d))"
    moreover have "R (cx_session cx) S \<Longrightarrow> R (cx_session cx') S" for S
      using assms(2) cx'(2) unfolding io_stable_def ctx_moved_def by blast
    moreover have "accounted k cx \<Longrightarrow> \<not> cn_closed d \<Longrightarrow> accounted k cx'"
      using cx'(2) unfolding accounted_def ctx_moved_def by auto
    ultimately show "closing d" using cx(2) cx'(3) d(3) by (auto simp: closing_def)
  qed
  moreover have "resets cx' + k \<le> interrupts cx'" using cx(3) cx'(2) unfolding ctx_moved_def by linarith
  moreover have "cn_closed d \<longrightarrow> told sv cx'" using cx(4) cx'(4) told_moved [OF _ cx'(2)] by blast
  ultimately show ?thesis using assms(1,4) cx' d(1) by (auto simp: at_def base_def)
qed

lemma v_observe:
  fixes X :: "'w worker \<Rightarrow> bool"
  assumes "io_stable R"
  shows "valid (at sv k R) observe (\<lambda>_. at sv k R) X"
proof (rule validI)
  fix w :: "'w worker" assume a: "at sv k R w"
  show "ends (\<lambda>_. at sv k R) X (observe w)"
  proof (cases "wk_io w")
    case (Cons f fs)
    then have "io_kept sv (wk_conn w) (f (wk_conn w))" using a by (simp add: at_def base_def)
    from at_io [OF a assms this, of fs] show ?thesis using Cons by (auto simp: observe_def)
  qed (use a in \<open>simp add: observe_def\<close>)
qed

lemma v_get: "valid (at sv k R) get_session (\<lambda>s. at sv k (\<lambda>s' S. s' = s \<and> R s S)) X"
  by (auto simp: valid_def get_session_def session_def at_def)

lemma v_set:
  fixes X :: "'w worker \<Rightarrow> bool"
  assumes "\<And>s S. R s S \<Longrightarrow> R' (f s) S" "\<And>s. ss_remaining_interrupts (f s) = ss_remaining_interrupts s"
  shows "valid (at sv k R) (set_session f) (\<lambda>_. at sv k R') X"
proof (rule validI)
  fix w :: "'w worker" assume "at sv k R w"
  then show "ends (\<lambda>_. at sv k R') X (set_session f w)"
    using assms by (auto simp: set_session_def at_def base_def handler_set_def accounted_def interrupts_def resets_def stream_def closing_def told_def)
qed

lemma v_call: "(\<And>s S. R s S \<Longrightarrow> R' s S) \<Longrightarrow> valid (at sv k R) (callW f) (\<lambda>_. at sv k R) (at sv k R')"
  by (fastforce simp: valid_def ends_def callW_def at_def base_def split: prod.split sum.split)

lemma v_lift:
  assumes "\<And>s S. R s S \<Longrightarrow> R' s S"
  shows "valid (at sv k R) (liftW r) (\<lambda>x. at sv k (\<lambda>s S. r = Inr x \<and> R s S)) (at sv k R')"
  using at_mono [OF _ assms] by (cases r) (auto simp: valid_def liftW_def)

lemma v_read:
  assumes "\<And>s S. R s S \<Longrightarrow> R' s S"
  shows "valid (at sv k R) (\<lambda>w. (r w, w)) (\<lambda>_. at sv k R) (at sv k R')"
  using at_mono [OF _ assms] by (auto simp: valid_def ends_def split: sum.split)

lemma v_pass: "(\<And>s S. R s S \<Longrightarrow> R' s S) \<Longrightarrow> valid (at sv k R) (returnW x) (\<lambda>y. at sv k (\<lambda>s S. y = x \<and> R' s S)) X"
  by (auto simp: valid_def returnW_def elim: at_mono)

lemma v_done: "(\<And>s S. R s S \<Longrightarrow> R' s S) \<Longrightarrow> valid (at sv k R) (returnW x) (\<lambda>_. at sv k R') X"
  by (auto simp: valid_def returnW_def elim: at_mono)

lemma v_from: "valid (at sv k R) m Q X \<Longrightarrow> (\<And>s S. R' s S \<Longrightarrow> R s S) \<Longrightarrow> valid (at sv k R') m Q X"
  by (auto elim!: v_mono at_mono)

lemma v_known: "(c \<Longrightarrow> valid (at sv k R) m Q X) \<Longrightarrow> valid (at sv k (\<lambda>_ _. False)) m Q X \<Longrightarrow> valid (at sv k (\<lambda>s S. c \<and> R s S)) m Q X"
  by (cases c) simp_all

lemma v_closed: "valid (at sv k R) has_closed (\<lambda>b. at sv k (\<lambda>s S. R s S \<and> \<not> b)) X"
  by (auto simp: valid_def has_closed_def at_def closing_def)

lemma responses_append [simp]: "responses (xs @ ys) = responses xs @ responses ys"
  by (induction xs rule: responses.induct) simp_all

lemma v_respond:
  "valid (at sv k R) (on_conn (PostResponse b)) (\<lambda>_. at sv k (\<lambda>s S. \<exists>S0. S = S0 @ [b] \<and> R s S0)) X"
  by (auto simp: valid_def on_conn_def at_def base_def handler_set_def PostResponse_def stream_def closing_def)

lemma v_post_close: "valid (at sv k R) (on_conn PostClose) (\<lambda>_. at sv k R') X"
  by (auto simp: valid_def on_conn_def at_def base_def handler_set_def PostClose_def closing_def)

text \<open>A rollback always returns, and changes the engine only.\<close>

definition sure :: "('w, unit) act \<Rightarrow> bool" where
  "sure m \<longleftrightarrow> (\<forall>w. \<exists>world. m w = (Inr (), w\<lparr>wk_world := world\<rparr>))"

lemma same_world [simp]: "\<exists>world. w = w\<lparr>wk_world := world\<rparr>"
  by (rule exI [of _ "wk_world w"]) simp

lemma sure_bind:
  assumes "sure m" "sure n"
  shows "sure (bindW m (\<lambda>_. n))"
  unfolding sure_def
proof
  fix w
  obtain a where 1: "m w = (Inr (), w\<lparr>wk_world := a\<rparr>)" using assms(1) unfolding sure_def by blast
  obtain b where "n (w\<lparr>wk_world := a\<rparr>) = (Inr (), w\<lparr>wk_world := a\<rparr>\<lparr>wk_world := b\<rparr>)" using assms(2) unfolding sure_def by blast
  then show "\<exists>world. bindW m (\<lambda>_. n) w = (Inr (), w\<lparr>wk_world := world\<rparr>)" using 1 by (simp add: bindW_def) blast
qed

lemma sure_return: "sure (returnW ())"
  by (simp add: sure_def returnW_def)

lemma sure_option: "sure m \<Longrightarrow> (\<And>y. sure (f y)) \<Longrightarrow> sure (case x of None \<Rightarrow> m | Some y \<Rightarrow> f y)"
  by (cases x) simp_all

lemma sure_rollback: "sure (rollback_if_active E t)"
  by (auto simp: sure_def rollback_if_active_def)

lemma sure_query_rollback: "sure (ActiveBoltQuery_Rollback E q)"
  by (auto simp: ActiveBoltQuery_Rollback_def sure_rollback sure_return split: option.split)

lemma sure_transaction_rollback: "sure (ActiveBoltTransaction_Rollback E t)"
proof -
  have "sure (foldr (\<lambda>(i, q) m. bindW (ActiveBoltQuery_Rollback E q) (\<lambda>_. m)) qs (returnW ()))" for qs
    by (induction qs) (auto intro: sure_return sure_bind sure_query_rollback)
  then show ?thesis unfolding ActiveBoltTransaction_Rollback_def by (intro sure_bind sure_option sure_rollback sure_return)
qed

lemma v_sure:
  assumes "sure m"
  shows "valid (at sv k R) m (\<lambda>_. at sv k R) X"
proof (rule validI)
  fix w :: "'a worker" assume "at sv k R w"
  moreover obtain world where "m w = (Inr (), w\<lparr>wk_world := world\<rparr>)" using assms unfolding sure_def by blast
  ultimately show "ends (\<lambda>_. at sv k R) X (m w)" by (simp add: at_def base_def)
qed

lemmas v_query_rollback = v_sure [OF sure_query_rollback]

lemmas v_transaction_rollback = v_sure [OF sure_transaction_rollback]

section \<open>Answers\<close>

text \<open>
  The responses to a request: buffers of records, which only \<open>PULL\<close> has, and then one buffer that ends with the summary.
\<close>

inductive summary :: "(PackStream \<Rightarrow> PackStream res) \<Rightarrow> bool" where
  "summary AppendSuccessEmpty"
| "summary (AppendSuccess m)"
| "summary (AppendSuccessFields names)"
| "summary (AppendSuccessHasMore b)"
| "summary AppendIgnored"
| "summary (AppendFailure m)"

definition records :: "nat \<Rightarrow> PackStream \<Rightarrow> bool" where
  "records type ps \<longleftrightarrow> (\<exists>rows. AppendRecords rows PackStream_Reset = Inr ps \<and> (rows = [] \<or> type = BoltMsg_code Msg_PullN))"

definition answer :: "nat \<Rightarrow> string \<Rightarrow> bool" where
  "answer type b \<longleftrightarrow> (\<exists>ps pack ps'. records type ps \<and> summary pack \<and> pack ps = Inr ps' \<and> b = pk_buf (ps_packer ps'))"

definition begun :: "nat \<Rightarrow> string list \<Rightarrow> string list \<Rightarrow> bool" where
  "begun type S0 S \<longleftrightarrow> (\<exists>bs. S = S0 @ bs \<and> (\<forall>b \<in> set bs. \<exists>ps. records type ps \<and> b = pk_buf (ps_packer ps) \<and> b \<noteq> []))"

definition answered :: "nat \<Rightarrow> string list \<Rightarrow> string list \<Rightarrow> bool" where
  "answered type S0 S \<longleftrightarrow> (\<exists>S1 b. begun type S0 S1 \<and> S = S1 @ [b] \<and> answer type b)"

lemma records_Reset [simp]: "records type PackStream_Reset"
  unfolding records_def by (rule exI [of _ "[]"]) (simp add: AppendRecords_def)

lemma begun_refl [simp]: "begun type S S"
  by (simp add: begun_def)

lemma begun_flush: "begun type S0 S \<Longrightarrow> records type ps \<Longrightarrow> pk_buf (ps_packer ps) \<noteq> [] \<Longrightarrow> begun type S0 (S @ [pk_buf (ps_packer ps)])"
  unfolding begun_def by force

lemma answer_alone: "summary pack \<Longrightarrow> pack PackStream_Reset = Inr ps \<Longrightarrow> answer type (pk_buf (ps_packer ps))"
  using records_Reset unfolding answer_def by blast

lemma answeredI: "begun type S0 S \<Longrightarrow> answer type b \<Longrightarrow> answered type S0 (S @ [b])"
  unfolding answered_def by blast

section \<open>Sessions between requests\<close>

definition transaction_ok :: "ActiveBoltTransaction \<Rightarrow> bool" where
  "transaction_ok t \<longleftrightarrow> distinct (map fst (at_queries t)) \<and>
     (\<forall>(i, q) \<in> set (at_queries t). 0 \<le> i \<and> i < at_next_query_id t \<and> aq_result q \<noteq> None) \<and> 0 \<le> at_next_query_id t"

definition agrees :: "BoltSession \<Rightarrow> bool" where
  "agrees s \<longleftrightarrow> (case ss_state s of
     READY \<Rightarrow> ss_active_query s = None \<and> ss_active_transaction s = None
   | STREAMING \<Rightarrow> (\<exists>q. ss_active_query s = Some q \<and> aq_result q \<noteq> None) \<and> ss_active_transaction s = None
   | TX_READY \<Rightarrow> ss_active_query s = None \<and> (\<exists>t. ss_active_transaction s = Some t \<and> transaction_ok t \<and> at_queries t = [])
   | TX_STREAMING \<Rightarrow> ss_active_query s = None \<and> (\<exists>t. ss_active_transaction s = Some t \<and> transaction_ok t \<and> at_queries t \<noteq> [])
   | FAILED \<Rightarrow> ss_active_query s = None \<and> ss_active_transaction s = None
   | DEFUNCT \<Rightarrow> False)"

definition quiescent :: "BoltSession \<Rightarrow> bool" where
  "quiescent s \<longleftrightarrow> ss_ps s = PackStream_Reset \<and> (HasInterrupt s \<or> agrees s)"

definition finished :: "nat \<Rightarrow> string list \<Rightarrow> assertion" where
  "finished type S0 s S \<longleftrightarrow> answered type S0 S \<and> quiescent s"

definition failing :: "nat \<Rightarrow> string list \<Rightarrow> assertion" where
  "failing type S0 s S \<longleftrightarrow> begun type S0 S"

definition waiting :: "string list \<Rightarrow> (BoltSession \<Rightarrow> bool) \<Rightarrow> assertion" where
  "waiting S0 P s S \<longleftrightarrow> S = S0 \<and> ss_ps s = PackStream_Reset \<and> P s"

lemma agrees_same: "same_session s s' \<Longrightarrow> agrees s' = agrees s"
  by (simp add: agrees_def same_session_fields cong: SessionState.case_cong)

lemma HasInterrupt_same: "same_session s s' \<Longrightarrow> HasInterrupt s \<Longrightarrow> HasInterrupt s'"
  using same_session_fields(5) [of s s'] by (auto simp: HasInterrupt_def)

lemma quiescent_same: "same_session s s' \<Longrightarrow> quiescent s \<Longrightarrow> quiescent s'"
  using agrees_same HasInterrupt_same by (auto simp: quiescent_def same_session_fields)

lemma failing_stable [simp]: "io_stable (failing type S0)"
  by (simp add: io_stable_def failing_def)

lemma finished_stable [simp]: "io_stable (finished type S0)"
  using quiescent_same by (auto simp: io_stable_def finished_def)

lemma waiting_stable: "(\<And>s s'. same_session s s' \<Longrightarrow> P s \<Longrightarrow> P s') \<Longrightarrow> io_stable (waiting S0 P)"
  by (auto simp: io_stable_def waiting_def same_session_fields)

lemma waiting_failing: "waiting S0 P s S \<Longrightarrow> failing type S0 s S"
  by (simp add: waiting_def failing_def)

lemma v_post_message:
  assumes "summary pack" "\<And>s S. R s S \<Longrightarrow> R' s S"
  shows "valid (at sv k R) (post_message pack) (\<lambda>_. at sv k (\<lambda>s S. \<exists>S1 b. S = S1 @ [b] \<and> answer type b \<and> R s S1)) (at sv k R')"
  unfolding post_message_def
proof (rule v_bind, rule v_lift)
  fix ps
  show "valid (at sv k (\<lambda>s S. pack PackStream_Reset = Inr ps \<and> R s S)) (on_conn (PostResponse (pk_buf (ps_packer ps))))
          (\<lambda>_. at sv k (\<lambda>s S. \<exists>S1 b. S = S1 @ [b] \<and> answer type b \<and> R s S1)) (at sv k R')"
    by (rule v_post, rule v_respond) (auto elim!: at_mono dest: answer_alone [OF assms(1), of _ type])
qed (rule assms(2))

definition cleared :: "BoltSession \<Rightarrow> BoltSession" where
  "cleared s = s\<lparr>ss_active_query := None, ss_active_transaction := None, ss_ps := PackStream_Reset\<rparr>"

lemma v_abort: "valid (at sv k R) (AbortSession E) (\<lambda>_. at sv k (\<lambda>s S. \<exists>s0. s = cleared s0 \<and> R s0 S)) X"
  unfolding AbortSession_def
proof (rule v_bind, rule v_get, rule v_bind, rule v_option, rule v_done, assumption, rule v_query_rollback,
    rule v_bind, rule v_option, rule v_done, assumption, rule v_transaction_rollback)
  fix s
  show "valid (at sv k (\<lambda>s' S. s' = s \<and> R s S))
          (set_session (\<lambda>s. s\<lparr>ss_active_query := None, ss_active_transaction := None, ss_ps := PackStream_Reset\<rparr>))
          (\<lambda>_. at sv k (\<lambda>s S. \<exists>s0. s = cleared s0 \<and> R s0 S)) X"
    by (rule v_set) (auto simp: cleared_def)
qed

definition overtaken :: "nat \<Rightarrow> assertion \<Rightarrow> assertion" where
  "overtaken type R s S \<longleftrightarrow> HasInterrupt s \<and> (\<exists>S1 b. S = S1 @ [b] \<and> answer type b \<and> R s S1)"

lemma v_ignore:
  assumes "io_stable R"
  shows "valid (at sv k R) IgnoreInterruptedOrClosedRequest (\<lambda>over. at sv k (if over then overtaken type R else R)) (at sv k R)"
  unfolding IgnoreInterruptedOrClosedRequest_def
proof (rule v_bind, rule v_observe [OF assms], rule v_bind, rule v_closed, rule v_if)
  fix closed
  show "valid (at sv k (\<lambda>s S. R s S \<and> \<not> closed)) (returnW True) (\<lambda>over. at sv k (if over then overtaken type R else R)) (at sv k R)" if closed
    using that by (auto simp: valid_def returnW_def elim: at_mono)
  show "valid (at sv k (\<lambda>s S. R s S \<and> \<not> closed)) (bindW get_session (\<lambda>s. if HasInterrupt s then bindW PostIgnored (\<lambda>_. returnW True) else returnW False))
      (\<lambda>over. at sv k (if over then overtaken type R else R)) (at sv k R)"
  proof (rule v_bind, rule v_get, rule v_if)
    fix s
    assume "HasInterrupt s"
    then show "valid (at sv k (\<lambda>s' S. s' = s \<and> R s S \<and> \<not> closed)) (bindW PostIgnored (\<lambda>_. returnW True))
        (\<lambda>over. at sv k (if over then overtaken type R else R)) (at sv k R)"
      unfolding PostIgnored_def
      by (intro v_bind [OF v_post_message [where type = type]] summary.intros)
        (auto simp: valid_def returnW_def overtaken_def elim: at_mono)
  qed (auto simp: valid_def returnW_def elim: at_mono)
qed

lemma v_over:
  "valid (at sv k (overtaken type (failing type S0))) (AbortSession E) (\<lambda>_. at sv k (finished type S0)) X"
  by (rule v_post, rule v_abort)
    (auto elim!: at_mono simp: overtaken_def failing_def finished_def quiescent_def cleared_def HasInterrupt_def intro: answeredI)

lemma overtaken_mono: "overtaken type R s S \<Longrightarrow> (\<And>s S. R s S \<Longrightarrow> R' s S) \<Longrightarrow> overtaken type R' s S"
  by (auto simp: overtaken_def)

lemma v_unless_over:
  assumes "io_stable R" "\<And>s S. R s S \<Longrightarrow> failing type S0 s S"
    and "valid (at sv k R) m (\<lambda>_. at sv k (finished type S0)) (at sv k (failing type S0))"
  shows "valid (at sv k R) (bindW IgnoreInterruptedOrClosedRequest (\<lambda>over. if over then AbortSession E else m))
    (\<lambda>_. at sv k (finished type S0)) (at sv k (failing type S0))"
proof (rule v_bind)
  show "valid (at sv k R) IgnoreInterruptedOrClosedRequest (\<lambda>over. at sv k (if over then overtaken type R else R)) (at sv k (failing type S0))"
    by (rule v_mono [OF v_ignore [OF assms(1)]]) (auto elim: at_mono intro: assms(2))
  fix over
  show "valid (at sv k (if over then overtaken type R else R)) (if over then AbortSession E else m)
      (\<lambda>_. at sv k (finished type S0)) (at sv k (failing type S0))"
    using assms(3) by (auto intro: v_from [OF v_over] overtaken_mono assms(2))
qed

definition emptied :: "nat \<Rightarrow> string list \<Rightarrow> assertion" where
  "emptied type S0 s S \<longleftrightarrow> begun type S0 S \<and> ss_ps s = PackStream_Reset \<and> ss_active_query s = None \<and> ss_active_transaction s = None"

lemma emptied_stable [simp]: "io_stable (emptied type S0)"
  by (auto simp: io_stable_def emptied_def same_session_fields)

lemma v_fail:
  "valid (at sv k (failing type S0)) (FailSession E code msg) (\<lambda>_. at sv k (finished type S0)) (at sv k (failing type S0))"
proof -
  have e: "valid (at sv k (failing type S0)) (AbortSession E) (\<lambda>_. at sv k (emptied type S0)) (at sv k (failing type S0))"
    by (rule v_post, rule v_abort) (auto elim!: at_mono simp: emptied_def failing_def cleared_def)
  have i: "valid (at sv k (emptied type S0)) IgnoreInterruptedOrClosedRequest
      (\<lambda>over. at sv k (if over then overtaken type (emptied type S0) else emptied type S0)) (at sv k (failing type S0))"
    by (rule v_mono [OF v_ignore [OF emptied_stable]]) (auto elim: at_mono simp: failing_def emptied_def)
  have p: "valid (at sv k (emptied type S0)) (PostFailure code msg)
      (\<lambda>_. at sv k (\<lambda>s S. \<exists>S1 b. S = S1 @ [b] \<and> answer type b \<and> emptied type S0 s S1)) (at sv k (failing type S0))"
    unfolding PostFailure_def by (rule v_post_message) (auto intro: summary.intros simp: failing_def emptied_def)
  have s: "valid (at sv k (\<lambda>s S. \<exists>S1 b. S = S1 @ [b] \<and> answer type b \<and> emptied type S0 s S1)) (set_state FAILED)
      (\<lambda>_. at sv k (finished type S0)) (at sv k (failing type S0))"
    unfolding set_state_def by (rule v_set) (auto simp: emptied_def finished_def quiescent_def agrees_def intro: answeredI)
  have o: "valid (at sv k (overtaken type (emptied type S0))) (returnW ()) (\<lambda>_. at sv k (finished type S0)) (at sv k (failing type S0))"
    by (rule v_done) (auto simp: overtaken_def emptied_def finished_def quiescent_def intro: answeredI)
  show ?thesis unfolding FailSession_def
    by (rule v_bind [OF e v_bind [OF i]]) (auto intro: o v_bind [OF p s])
qed

lemmas v_handler = v_catch [OF _ v_fail]

lemma v_close: "valid (at sv k R) (CloseProtocolError E) (\<lambda>_. at sv k R') X"
  unfolding CloseProtocolError_def set_state_def
  by (rule v_bind, rule v_abort, rule v_bind, rule v_set [where R' = "\<lambda>_ _. True"], simp, simp, rule v_post_close)

section \<open>Requests\<close>

text \<open>An action that leaves the connection alone; its result satisfies a predicate.\<close>

definition detached :: "('w, 'a) act \<Rightarrow> ('a \<Rightarrow> bool) \<Rightarrow> bool" where
  "detached m \<phi> \<longleftrightarrow> (\<forall>w. (\<exists>world. snd (m w) = w\<lparr>wk_world := world\<rparr>) \<and> (case fst (m w) of Inr x \<Rightarrow> \<phi> x | Inl _ \<Rightarrow> True))"

lemma detached_basic:
  "detached (callW f) (\<lambda>_. True)" "detached (\<lambda>w. (r w, w)) (\<lambda>_. True)"
  "detached (columns E q) (\<lambda>_. True)" "detached get_minor (\<lambda>_. True)" "detached (checkLeader E g n ro trm) (\<lambda>_. True)"
  "detached (liftW u) (\<lambda>x. u = Inr x)" "detached (returnW v) (\<lambda>x. x = v)"
  by (auto simp: detached_def callW_def columns_def get_minor_def checkLeader_def liftW_def returnW_def split: prod.split sum.split)

lemma detached_mono: "detached m \<phi> \<Longrightarrow> (\<And>x. \<phi> x \<Longrightarrow> \<psi> x) \<Longrightarrow> detached m \<psi>"
  by (auto simp: detached_def split: sum.splits)

lemma detached_bind:
  assumes "detached m \<phi>" "\<And>x. \<phi> x \<Longrightarrow> detached (f x) \<psi>"
  shows "detached (bindW m f) \<psi>"
  unfolding detached_def
proof
  fix w
  obtain r w1 where m: "m w = (r, w1)" by (cases "m w")
  then obtain world where w1: "w1 = w\<lparr>wk_world := world\<rparr>" using assms(1) unfolding detached_def by (metis snd_conv)
  show "(\<exists>world. snd (bindW m f w) = w\<lparr>wk_world := world\<rparr>) \<and> (case fst (bindW m f w) of Inr x \<Rightarrow> \<psi> x | Inl _ \<Rightarrow> True)"
  proof (cases r)
    case (Inr x)
    then have "\<phi> x" using assms(1) m unfolding detached_def by (metis fst_conv sum.case(2))
    from assms(2) [OF this] obtain world2 where "snd (f x w1) = w1\<lparr>wk_world := world2\<rparr>" "case fst (f x w1) of Inr x \<Rightarrow> \<psi> x | Inl _ \<Rightarrow> True"
      unfolding detached_def by blast
    then show ?thesis using m Inr w1 by (auto simp: bindW_def)
  qed (use m w1 in \<open>auto simp: bindW_def\<close>)
qed

lemma v_detached:
  assumes "detached m \<phi>" "\<And>s S. R s S \<Longrightarrow> R' s S"
  shows "valid (at sv k R) m (\<lambda>x w. \<phi> x \<and> at sv k R w) (at sv k R')"
proof (rule validI)
  fix w :: "'a worker" assume a: "at sv k R w"
  obtain r w1 where m: "m w = (r, w1)" by (cases "m w")
  then obtain world where "w1 = w\<lparr>wk_world := world\<rparr>" using assms(1) unfolding detached_def by (metis snd_conv)
  with a have "at sv k R w1" by (simp add: at_def base_def)
  moreover have "r = Inr x \<Longrightarrow> \<phi> x" for x using assms(1) m unfolding detached_def by (metis fst_conv sum.case(2))
  ultimately show "ends (\<lambda>x w. \<phi> x \<and> at sv k R w) (at sv k R') (m w)"
    using m at_mono [OF _ assms(2)] by (cases r) auto
qed

lemma v_then:
  assumes "detached m \<phi>" "\<And>s S. R s S \<Longrightarrow> R' s S" "\<And>x. \<phi> x \<Longrightarrow> valid (at sv k R) (f x) Q (at sv k R')"
  shows "valid (at sv k R) (bindW m f) Q (at sv k R')"
  using assms(3) by (intro v_bind [OF v_detached [OF assms(1,2)]]) (auto simp: valid_def)

lemma detached_option: "(x = None \<Longrightarrow> detached m \<phi>) \<Longrightarrow> (\<And>y. x = Some y \<Longrightarrow> detached (f y) \<phi>) \<Longrightarrow> detached (case x of None \<Rightarrow> m | Some y \<Rightarrow> f y) \<phi>"
  by (cases x) simp_all

lemma detached_if: "(b \<Longrightarrow> detached m \<phi>) \<Longrightarrow> (\<not> b \<Longrightarrow> detached n \<phi>) \<Longrightarrow> detached (if b then m else n) \<phi>"
  by simp

lemma detached_unit: "detached (returnW v) (\<lambda>_. True)"
  by (rule detached_mono [OF detached_basic(7)]) simp

lemma detached_sure:
  assumes "sure m"
  shows "detached m (\<lambda>_. True)"
  unfolding detached_def
proof
  fix w
  obtain world where "m w = (Inr (), w\<lparr>wk_world := world\<rparr>)" using assms unfolding sure_def by blast
  then show "(\<exists>world. snd (m w) = w\<lparr>wk_world := world\<rparr>) \<and> (case fst (m w) of Inr x \<Rightarrow> True | Inl _ \<Rightarrow> True)" by auto
qed

lemmas detached_queries = detached_sure [OF sure_query_rollback]

lemma detached_commit: "detached (ActiveBoltQuery_Commit E q) (\<lambda>_. True)"
  by (auto simp: ActiveBoltQuery_Commit_def detached_basic(1) detached_unit split: option.split)

lemma detached_transaction:
  "detached (ActiveBoltTransaction_Rollback E t) (\<lambda>_. True)" "detached (ActiveBoltTransaction_Commit E t) (\<lambda>_. True)"
  "detached (CheckTransactionLeader E t) (\<lambda>_. True)"
proof -
  show "detached (ActiveBoltTransaction_Rollback E t) (\<lambda>_. True)" by (rule detached_sure [OF sure_transaction_rollback])
  show "detached (ActiveBoltTransaction_Commit E t) (\<lambda>_. True)" unfolding ActiveBoltTransaction_Commit_def
    by (rule detached_bind [OF detached_basic(6)]) (intro detached_option detached_unit detached_basic(1))
  show "detached (CheckTransactionLeader E t) (\<lambda>_. True)" unfolding CheckTransactionLeader_def
    by (intro detached_option detached_bind [OF detached_basic(5)] detached_unit)
qed

lemma detached_unwind: "detached m \<phi> \<Longrightarrow> detached c (\<lambda>_. True) \<Longrightarrow> detached (unwindW c m) \<phi>"
  unfolding detached_def
proof (intro allI)
  fix w assume m: "\<forall>w. (\<exists>world. snd (m w) = w\<lparr>wk_world := world\<rparr>) \<and> (case fst (m w) of Inr x \<Rightarrow> \<phi> x | Inl _ \<Rightarrow> True)"
    and c: "\<forall>w. (\<exists>world. snd (c w) = w\<lparr>wk_world := world\<rparr>) \<and> (case fst (c w) of Inr x \<Rightarrow> True | Inl _ \<Rightarrow> True)"
  obtain r w1 where r: "m w = (r, w1)" by (cases "m w")
  then obtain world where w1: "w1 = w\<lparr>wk_world := world\<rparr>" using m by (metis snd_conv)
  obtain world2 where c1: "snd (c w1) = w1\<lparr>wk_world := world2\<rparr>" using c by blast
  show "(\<exists>world. snd (unwindW c m w) = w\<lparr>wk_world := world\<rparr>) \<and> (case fst (unwindW c m w) of Inr x \<Rightarrow> \<phi> x | Inl _ \<Rightarrow> True)"
    using r w1 c1 spec [OF m, of w] by (cases r) (auto simp: unwindW_def)
qed

lemma v_answer:
  assumes "summary pack" "\<And>s. ss_ps s = PackStream_Reset \<Longrightarrow> P s \<Longrightarrow> quiescent s"
  shows "valid (at sv k (waiting S0 P)) (post_message pack) (\<lambda>_. at sv k (finished type S0)) (at sv k (failing type S0))"
proof (rule v_post, rule v_post_message [OF assms(1) waiting_failing, where type = type])
  fix u w
  assume "at sv k (\<lambda>s S. \<exists>S1 b. S = S1 @ [b] \<and> answer type b \<and> waiting S0 P s S1) w"
  then show "at sv k (finished type S0) w"
    by (rule at_mono) (use assms(2) answeredI [OF begun_refl] in \<open>auto simp: waiting_def finished_def\<close>)
qed

lemma v_success: "valid (at sv k (waiting S0 agrees)) PostSuccess (\<lambda>_. at sv k (finished type S0)) (at sv k (failing type S0))"
  unfolding PostSuccess_def by (rule v_answer) (auto intro: summary.intros simp: quiescent_def)

lemma v_route:
  "valid (at sv k (waiting S0 quiescent)) (ProcessRoute E xs) (\<lambda>_. at sv k (finished type S0)) (at sv k (failing type S0))"
  unfolding ProcessRoute_def
  by (intro v_handler v_then [OF detached_basic(4)] v_then [OF detached_basic(6)] v_then [OF detached_if [where \<phi> = "\<lambda>_. True"]] v_then [OF detached_basic(2)] v_answer
      detached_unit detached_bind [OF detached_basic(1)] summary.intros) (simp_all add: waiting_failing)

definition ready_session :: "BoltSession \<Rightarrow> bool" where
  "ready_session s \<longleftrightarrow> ss_state s = READY \<and> agrees s"

lemma detached_new_transaction: "detached (new_transaction E md) (\<lambda>t. transaction_ok t \<and> at_queries t = [])"
proof -
  have "detached (\<lambda>w. (Inr \<lparr>at_graph_name = tm_graph md, at_read_only = tm_read_only md, at_raft_term = None,
      at_transaction_time = en_now E (wk_world w), at_graph_db = None, at_transaction = None, at_queries = [], at_next_query_id = 0\<rparr>, w))
      (\<lambda>t. at_queries t = [] \<and> at_next_query_id t = 0)"
    by (simp add: detached_def)
  then show ?thesis unfolding new_transaction_def
    by (rule detached_bind) (intro detached_if detached_bind [OF detached_basic(1)] detached_bind [OF detached_basic(5)]
        detached_mono [OF detached_basic(7)], auto simp: transaction_ok_def)
qed

lemma v_begin:
  "valid (at sv k (waiting S0 ready_session)) (ProcessBegin E xs) (\<lambda>_. at sv k (finished type S0)) (at sv k (failing type S0))"
  unfolding ProcessBegin_def
proof (intro v_handler v_then [OF detached_basic(6)] v_then [OF detached_new_transaction] waiting_failing)
  fix t assume t: "transaction_ok t \<and> at_queries t = []"
  have st: "io_stable (waiting S0 ready_session)"
    by (rule waiting_stable) (auto simp: ready_session_def agrees_same same_session_fields)
  have o: "valid (at sv k (overtaken type (waiting S0 ready_session))) (ActiveBoltTransaction_Rollback E t) (\<lambda>_. at sv k (finished type S0)) (at sv k (failing type S0))"
    by (rule v_post, rule v_transaction_rollback)
      (auto elim!: at_mono simp: overtaken_def waiting_def finished_def quiescent_def answeredI)
  have b: "valid (at sv k (waiting S0 ready_session)) (set_session (\<lambda>s. s\<lparr>ss_active_transaction := Some t, ss_state := TX_READY\<rparr>))
      (\<lambda>_. at sv k (waiting S0 agrees)) (at sv k (failing type S0))"
    by (rule v_set) (use t in \<open>auto simp: waiting_def ready_session_def agrees_def\<close>)
  show "valid (at sv k (waiting S0 ready_session)) (bindW IgnoreInterruptedOrClosedRequest (\<lambda>over.
       if over then ActiveBoltTransaction_Rollback E t
       else bindW (set_session (\<lambda>s. s\<lparr>ss_active_transaction := Some t, ss_state := TX_READY\<rparr>)) (\<lambda>_. PostSuccess)))
     (\<lambda>_. at sv k (finished type S0)) (at sv k (failing type S0))"
    by (rule v_bind, rule v_mono [OF v_ignore [OF st, where type = type]], assumption, assumption)
      (auto elim: at_mono intro: waiting_failing o v_bind [OF b v_success])
qed

definition no_query :: "BoltSession \<Rightarrow> bool" where
  "no_query s \<longleftrightarrow> ss_active_query s = None"

lemma no_query_stable [simp]: "io_stable (waiting S0 no_query)"
  by (rule waiting_stable) (simp add: no_query_def same_session_fields)

lemma v_end_transaction:
  "valid (at sv k (waiting S0 no_query)) (ProcessCommitOrRollback E type xs) (\<lambda>_. at sv k (finished type S0)) (at sv k (failing type S0))"
  unfolding ProcessCommitOrRollback_def
proof (rule v_handler, rule v_then [OF detached_basic(6) waiting_failing], assumption, rule v_bind, rule v_get, rule v_option)
  fix s :: BoltSession
  let ?R = "\<lambda>s' S. s' = s \<and> waiting S0 no_query s S"
  show "valid (at sv k ?R) (liftW (Inl e)) (\<lambda>_. at sv k (finished type S0)) (at sv k (failing type S0))" for e
    by (rule v_post, rule v_lift) (auto intro: waiting_failing elim: at_mono)
  fix t
  have c: "detached (if b then bindW (CheckTransactionLeader E t) (\<lambda>_. ActiveBoltTransaction_Commit E t) else ActiveBoltTransaction_Rollback E t) (\<lambda>_. True)" for b
    by (intro detached_if detached_bind [OF detached_transaction(3)] detached_transaction)
  have e: "valid (at sv k (waiting S0 no_query)) (set_session (\<lambda>s. s\<lparr>ss_active_transaction := None, ss_state := READY\<rparr>))
      (\<lambda>_. at sv k (waiting S0 agrees)) (at sv k (failing type S0))"
    by (rule v_set) (auto simp: waiting_def no_query_def agrees_def)
  show "valid (at sv k ?R) (bindW IgnoreInterruptedOrClosedRequest (\<lambda>over. if over then AbortSession E
      else bindW (if type = BoltMsg_code Msg_Commit then bindW (CheckTransactionLeader E t) (\<lambda>_. ActiveBoltTransaction_Commit E t)
                  else ActiveBoltTransaction_Rollback E t) (\<lambda>_.
           bindW (set_session (\<lambda>s. s\<lparr>ss_active_transaction := None, ss_state := READY\<rparr>)) (\<lambda>_. PostSuccess))))
     (\<lambda>_. at sv k (finished type S0)) (at sv k (failing type S0))"
    by (rule v_from [of _ _ "waiting S0 no_query"], intro v_unless_over v_then [OF c] v_bind [OF e v_success]) (auto intro: waiting_failing)
qed

text \<open>A session that may run a query.\<close>

definition runnable :: "BoltSession \<Rightarrow> bool" where
  "runnable s \<longleftrightarrow> ss_active_query s = None \<and> (\<forall>t. ss_active_transaction s = Some t \<longrightarrow> transaction_ok t)"

lemma runnable_stable [simp]: "io_stable (waiting S0 runnable)"
  by (rule waiting_stable) (simp add: runnable_def same_session_fields)

lemma detached_start_query: "detached (start_query E md opts transaction routing cypher) (\<lambda>q. aq_result q \<noteq> None)"
  unfolding start_query_def Let_def
  by (intro detached_if detached_option detached_bind [OF detached_basic(1)] detached_mono [OF detached_basic(7)] detached_mono [OF detached_basic(6)]
      detached_bind [OF detached_if [OF detached_basic(5) detached_unit]] detached_unwind detached_queries) simp_all

lemma v_reply:
  assumes "summary pack" "pack PackStream_Reset = Inr ps"
  shows "valid (at sv k (waiting S0 agrees)) (on_conn (PostResponse (pk_buf (ps_packer ps)))) (\<lambda>_. at sv k (finished type S0)) X"
  by (rule v_post, rule v_respond)
    (use answeredI [OF begun_refl answer_alone [OF assms]] in \<open>auto elim!: at_mono simp: waiting_def finished_def quiescent_def\<close>)

lemma transaction_ok_query:
  assumes "transaction_ok t" "aq_result q \<noteq> None"
  shows "transaction_ok (t\<lparr>at_next_query_id := at_next_query_id t + 1, at_queries := at_queries t @ [(at_next_query_id t, q)]\<rparr>)"
proof -
  have "at_next_query_id t \<notin> fst ` set (at_queries t)" using assms(1) by (force simp: transaction_ok_def)
  then show ?thesis using assms by (fastforce simp: transaction_ok_def)
qed

lemma v_publish:
  assumes "aq_result q \<noteq> None"
  shows "valid (at sv k (waiting S0 runnable)) (publish_query E q) (\<lambda>_. at sv k (finished type S0)) (at sv k (failing type S0))"
  unfolding publish_query_def
proof (rule v_then [OF detached_basic(3) waiting_failing], assumption, rule v_bind, rule v_get, rule v_option)
  fix names and s :: BoltSession
  let ?R = "\<lambda>s' S. s' = s \<and> waiting S0 runnable s S" and ?X = "at sv k (failing type S0)" and ?Q = "\<lambda>_::unit. at sv k (finished type S0)"
  have x: "?R s' S \<Longrightarrow> failing type S0 s' S" for s' S by (auto intro: waiting_failing)
  show "valid (at sv k ?R) (bindW (liftW (AppendSuccessFields names PackStream_Reset)) (\<lambda>ps.
      bindW (set_session (\<lambda>s. s\<lparr>ss_active_query := Some q, ss_state := STREAMING\<rparr>)) (\<lambda>_. on_conn (PostResponse (pk_buf (ps_packer ps)))))) ?Q ?X"
    if "ss_active_transaction s = None"
    by (rule v_then [OF detached_basic(6) x], assumption, rule v_bind, rule v_set [where R' = "waiting S0 agrees"])
      (use that assms in \<open>auto simp: waiting_def agrees_def intro: v_reply summary.intros\<close>)
  fix t assume t: "ss_active_transaction s = Some t"
  let ?t = "t\<lparr>at_next_query_id := at_next_query_id t + 1\<rparr>" and ?P = "\<lambda>s'. transaction_ok t \<and> no_query s'"
  have 1: "valid (at sv k ?R) (set_session (ss_active_transaction_update (\<lambda>_. Some ?t))) (\<lambda>_. at sv k (waiting S0 ?P)) ?X"
    by (rule v_set) (use t in \<open>auto simp: waiting_def runnable_def no_query_def\<close>)
  have 2: "valid (at sv k (waiting S0 ?P)) (set_session (\<lambda>s. s\<lparr>ss_active_transaction := Some (?t\<lparr>at_queries := at_queries t @ [(at_next_query_id t, q)]\<rparr>),
      ss_state := TX_STREAMING\<rparr>)) (\<lambda>_. at sv k (waiting S0 agrees)) ?X"
    by (rule v_set) (use transaction_ok_query [OF _ assms, of t] in \<open>auto simp: waiting_def agrees_def no_query_def\<close>)
  show "valid (at sv k ?R) (bindW (liftW (RG_CHECK (at_next_query_id t < 2 ^ 63 - 1) ''OutOfRange'' ''too many queries in a Bolt transaction'')) (\<lambda>_.
      let qid = at_next_query_id t; t1 = t\<lparr>at_next_query_id := qid + 1\<rparr> in
      bindW (set_session (ss_active_transaction_update (\<lambda>_. Some t1))) (\<lambda>_.
      bindW (liftW (AppendSuccess [(''fields'', AStrings names), (''qid'', AInt64 qid)] PackStream_Reset)) (\<lambda>ps.
      bindW (set_session (\<lambda>s. s\<lparr>ss_active_transaction := Some (t1\<lparr>at_queries := at_queries t @ [(qid, q)]\<rparr>), ss_state := TX_STREAMING\<rparr>)) (\<lambda>_.
        on_conn (PostResponse (pk_buf (ps_packer ps)))))))) ?Q ?X"
    unfolding Let_def
    by (rule v_then [OF detached_basic(6) x], assumption, rule v_bind [OF 1], rule v_then [OF detached_basic(6) waiting_failing], assumption,
        rule v_bind [OF 2]) (auto intro: v_reply summary.intros)
qed

lemma v_run:
  "valid (at sv k (waiting S0 runnable)) (ProcessRun E xs) (\<lambda>_. at sv k (finished type S0)) (at sv k (failing type S0))"
  unfolding ProcessRun_def
proof (rule v_handler, rule v_then [OF detached_basic(6) waiting_failing], assumption)
  fix x :: "string \<times> (string \<times> any) list \<times> (string \<times> any) list"
  obtain cypher params extra where x: "x = (cypher, params, extra)" by (cases x)
  have c: "detached (case tr of Some t \<Rightarrow> bindW (liftW (g t)) (\<lambda>_. CheckTransactionLeader E t) | None \<Rightarrow> returnW ()) (\<lambda>_. True)"
    for tr and g :: "ActiveBoltTransaction \<Rightarrow> unit res"
    by (intro detached_option detached_bind [OF detached_basic(6)] detached_transaction detached_unit)
  have o: "valid (at sv k (overtaken type (waiting S0 runnable))) (bindW (ActiveBoltQuery_Rollback E q) (\<lambda>_. AbortSession E))
      (\<lambda>_. at sv k (finished type S0)) (at sv k (failing type S0))" for q
    by (rule v_bind, rule v_query_rollback, rule v_from [OF v_over]) (erule overtaken_mono, rule waiting_failing)
  have i: "valid (at sv k (waiting S0 runnable)) IgnoreInterruptedOrClosedRequest
      (\<lambda>over. at sv k (if over then overtaken type (waiting S0 runnable) else waiting S0 runnable)) (at sv k (failing type S0))"
    by (rule v_mono [OF v_ignore [OF runnable_stable]]) (auto elim: at_mono intro: waiting_failing)
  have u: "valid (at sv k (waiting S0 runnable)) (unwindW (ActiveBoltQuery_Rollback E q) (publish_query E q))
      (\<lambda>_. at sv k (finished type S0)) (at sv k (failing type S0))" if "aq_result q \<noteq> None" for q
    by (rule v_unwind [OF v_publish [OF that] v_query_rollback])
  show "valid (at sv k (waiting S0 runnable)) ((\<lambda>(cypher, params, extra).
        bindW get_session (\<lambda>s. let transaction = ss_active_transaction s in
        bindW (liftW (ParseTransactionMetadata extra
           (case transaction of Some t \<Rightarrow> at_graph_name t | None \<Rightarrow> kDefaultDatabaseName)
           (case transaction of Some t \<Rightarrow> at_read_only t | None \<Rightarrow> False))) (\<lambda>md.
        bindW (case transaction of
            Some t \<Rightarrow> bindW (liftW (RG_CHECK (tm_graph md = at_graph_name t \<and> tm_read_only md = at_read_only t) ''InputError''
                ''RUN cannot change the database or access mode of a transaction'')) (\<lambda>_. CheckTransactionLeader E t)
          | None \<Rightarrow> returnW ()) (\<lambda>_.
        bindW (liftW (ConvertEntries (en_zoned E) params [])) (\<lambda>parameters.
        bindW (start_query E md
           \<lparr>qo_read_only = tm_read_only md, qo_explicit_transaction = (transaction \<noteq> None),
            qo_transaction_time = map_option at_transaction_time transaction, qo_parameters = parameters\<rparr>
           transaction (ss_routing_enabled s) cypher) (\<lambda>q.
        bindW IgnoreInterruptedOrClosedRequest (\<lambda>over.
          if over then bindW (ActiveBoltQuery_Rollback E q) (\<lambda>_. AbortSession E)
          else unwindW (ActiveBoltQuery_Rollback E q) (publish_query E q)))))))) x)
     (\<lambda>_. at sv k (finished type S0)) (at sv k (failing type S0))"
    unfolding x prod.case Let_def
    by (rule v_bind, rule v_get, rule v_from [of _ _ "waiting S0 runnable"],
        intro v_then [OF detached_basic(6)] v_then [OF c] v_then [OF detached_start_query] v_bind [OF i])
      (auto intro: waiting_failing o u)
qed

section \<open>Results\<close>

definition on_stream :: "int option \<Rightarrow> BoltSession \<Rightarrow> bool" where
  "on_stream qid s \<longleftrightarrow> (case qid of
     None \<Rightarrow> ss_active_transaction s = None \<and> (\<exists>q. ss_active_query s = Some q \<and> aq_result q \<noteq> None)
   | Some i \<Rightarrow> ss_active_query s = None \<and> (\<exists>t. ss_active_transaction s = Some t \<and> transaction_ok t \<and> map_of (at_queries t) i \<noteq> None))"

definition pulling :: "nat \<Rightarrow> string list \<Rightarrow> (BoltSession \<Rightarrow> bool) \<Rightarrow> assertion" where
  "pulling type S0 P s S \<longleftrightarrow> begun type S0 S \<and> records type (ss_ps s) \<and> P s"

definition concluded :: "nat \<Rightarrow> string list \<Rightarrow> (BoltSession \<Rightarrow> bool) \<Rightarrow> assertion" where
  "concluded type S0 P s S \<longleftrightarrow> begun type S0 S \<and> answer type (pk_buf (ps_packer (ss_ps s))) \<and> pk_buf (ps_packer (ss_ps s)) \<noteq> [] \<and> P s"

lemma pulling_failing: "pulling type S0 P s S \<Longrightarrow> failing type S0 s S"
  by (simp add: pulling_def failing_def)

lemma pulling_stable [simp]: "io_stable (pulling type S0 (on_stream qid))"
  by (auto simp: io_stable_def pulling_def on_stream_def same_session_fields split: option.splits)

lemma foldR_snoc: "foldR f (xs @ [x]) a = bindR (foldR f xs a) (f x)"
  by (induction xs arbitrary: a) (auto simp: bindR_def split: sum.split)

lemma records_snoc: "records type ps \<Longrightarrow> AppendRecord xs ps = Inr ps' \<Longrightarrow> type = BoltMsg_code Msg_PullN \<Longrightarrow> records type ps'"
  unfolding records_def AppendRecords_def by (metis foldR_snoc bindR_Inr)

lemma message_nonempty: "message f ps = Inr ps' \<Longrightarrow> pk_buf (ps_packer ps') \<noteq> []"
  by (auto simp: message_def PackStream_End_def Chunker_EndMessage_def Let_def bindR_def split: sum.splits option.splits if_splits prod.splits)

lemma summary_nonempty: "summary pack \<Longrightarrow> pack ps = Inr ps' \<Longrightarrow> pk_buf (ps_packer ps') \<noteq> []"
  by (induction rule: summary.induct)
    (simp_all add: AppendSuccessEmpty_def AppendSuccess_def AppendSuccessFields_def AppendSuccessHasMore_def AppendIgnored_def AppendFailure_def
      AppendStructMessage_def AppendEmptyMessage_def message_nonempty)

lemma on_stream_ps [simp]: "on_stream qid (s\<lparr>ss_ps := ps\<rparr>) = on_stream qid s"
  by (auto simp: on_stream_def split: option.split)

lemma agrees_ps [simp]: "agrees (s\<lparr>ss_ps := ps\<rparr>) = agrees s"
  by (simp add: agrees_def cong: SessionState.case_cong)

lemma v_flush:
  assumes "\<And>s. P s \<Longrightarrow> P (s\<lparr>ss_ps := PackStream_Reset\<rparr>)"
  shows "valid (at sv k (pulling type S0 P)) FlushSessionBuffer (\<lambda>_. at sv k (pulling type S0 P)) X"
  unfolding FlushSessionBuffer_def Let_def
proof (rule v_bind, rule v_get, rule v_if)
  fix s :: BoltSession
  let ?R = "\<lambda>s' S. s' = s \<and> pulling type S0 P s S"
  show "valid (at sv k ?R) (returnW ()) (\<lambda>_. at sv k (pulling type S0 P)) X" by (rule v_done) auto
  assume "pk_buf (ps_packer (ss_ps s)) \<noteq> []"
  then show "valid (at sv k ?R) (bindW (on_conn (PostResponse (pk_buf (ps_packer (ss_ps s))))) (\<lambda>_. set_session (ss_ps_update (\<lambda>_. PackStream_Reset))))
      (\<lambda>_. at sv k (pulling type S0 P)) X"
    by (intro v_bind [OF v_respond] v_set) (auto simp: pulling_def assms begun_flush)
qed

lemma v_flush_summary: "valid (at sv k (concluded type S0 agrees)) FlushSessionBuffer (\<lambda>_. at sv k (finished type S0)) X"
  unfolding FlushSessionBuffer_def Let_def
proof (rule v_bind, rule v_get, rule v_if)
  fix s :: BoltSession
  let ?R = "\<lambda>s' S. s' = s \<and> concluded type S0 agrees s S"
  show "valid (at sv k ?R) (returnW ()) (\<lambda>_. at sv k (finished type S0)) X" if "pk_buf (ps_packer (ss_ps s)) = []"
    by (rule v_done) (use that in \<open>auto simp: concluded_def\<close>)
  show "valid (at sv k ?R) (bindW (on_conn (PostResponse (pk_buf (ps_packer (ss_ps s))))) (\<lambda>_. set_session (ss_ps_update (\<lambda>_. PackStream_Reset))))
      (\<lambda>_. at sv k (finished type S0)) X"
    by (intro v_bind [OF v_respond] v_set) (auto simp: concluded_def finished_def quiescent_def answeredI)
qed

lemma v_append_summary:
  assumes "summary pack" "\<And>s ps. P s \<Longrightarrow> P (s\<lparr>ss_ps := ps\<rparr>)"
  shows "valid (at sv k (pulling type S0 P)) (append_summary pack) (\<lambda>_. at sv k (concluded type S0 P)) (at sv k (failing type S0))"
  unfolding append_summary_def
proof (rule v_bind, rule v_get)
  fix s :: BoltSession
  let ?R = "\<lambda>s' S. s' = s \<and> pulling type S0 P s S"
  show "valid (at sv k ?R) (bindW (liftW (pack (ss_ps s))) (\<lambda>ps. set_session (ss_ps_update (\<lambda>_. ps)))) (\<lambda>_. at sv k (concluded type S0 P)) (at sv k (failing type S0))"
  proof (rule v_then [OF detached_basic(6)])
    fix ps assume "pack (ss_ps s) = Inr ps"
    then show "valid (at sv k ?R) (set_session (ss_ps_update (\<lambda>_. ps))) (\<lambda>_. at sv k (concluded type S0 P)) (at sv k (failing type S0))"
      using assms summary_nonempty [OF assms(1)] by (intro v_set) (auto simp: pulling_def concluded_def answer_def)
  qed (auto intro: pulling_failing)
qed

lemma v_append_record:
  assumes "type = BoltMsg_code Msg_PullN"
  shows "valid (at sv k (pulling type S0 (on_stream qid))) (append_record row) (\<lambda>_. at sv k (pulling type S0 (on_stream qid))) (at sv k (failing type S0))"
  unfolding append_record_def
proof (rule v_bind, rule v_get)
  fix s :: BoltSession
  let ?P = "pulling type S0 (on_stream qid)"
  let ?R = "\<lambda>s' S. s' = s \<and> ?P s S"
  show "valid (at sv k ?R) (bindW (liftW (bindR (ConvertRow row) (\<lambda>xs. AppendRecord xs (ss_ps s)))) (\<lambda>ps.
      bindW (set_session (ss_ps_update (\<lambda>_. ps))) (\<lambda>_. if length (pk_buf (ps_packer ps)) > 1024 then FlushSessionBuffer else returnW ())))
      (\<lambda>_. at sv k ?P) (at sv k (failing type S0))"
  proof (rule v_then [OF detached_basic(6)])
    fix ps assume "bindR (ConvertRow row) (\<lambda>xs. AppendRecord xs (ss_ps s)) = Inr ps"
    then have "records type (ss_ps s) \<Longrightarrow> records type ps"
      using records_snoc [OF _ _ assms] by (auto simp: bindR_def split: sum.splits)
    then have "valid (at sv k ?R) (set_session (ss_ps_update (\<lambda>_. ps))) (\<lambda>_. at sv k ?P) (at sv k (failing type S0))"
      by (intro v_set) (auto simp: pulling_def)
    then show "valid (at sv k ?R) (bindW (set_session (ss_ps_update (\<lambda>_. ps))) (\<lambda>_. if length (pk_buf (ps_packer ps)) > 1024 then FlushSessionBuffer else returnW ()))
        (\<lambda>_. at sv k ?P) (at sv k (failing type S0))"
      by (rule v_bind) (auto intro: v_flush v_done)
  qed (auto intro: pulling_failing)
qed

lemma map_of_update: "map_of (map (\<lambda>(k, q). (k, if k = i then f q else q)) qs) j = (if j = i then map_option f (map_of qs j) else map_of qs j)"
  by (induction qs) auto

lemma on_stream_update:
  assumes "on_stream qid s" "\<And>q. aq_result (f q) = aq_result q"
  shows "on_stream qid (update_query qid f s)"
proof (cases qid)
  case (Some i)
  have "transaction_ok (at_queries_update (map (\<lambda>(k, q). (k, if k = i then f q else q))) t)" if "transaction_ok t" for t
    using that assms(2) by (fastforce simp: transaction_ok_def case_prod_beta o_def)
  then show ?thesis using assms(1) Some by (auto simp: on_stream_def update_query_def map_of_update)
qed (use assms in \<open>auto simp: on_stream_def update_query_def\<close>)

lemma update_query_fields [simp]:
  "ss_ps (update_query qid f s) = ss_ps s" "ss_remaining_interrupts (update_query qid f s) = ss_remaining_interrupts s"
  by (simp_all add: update_query_def split: option.split)

abbreviation pulls :: "Server \<Rightarrow> nat \<Rightarrow> nat \<Rightarrow> string list \<Rightarrow> int option \<Rightarrow> 'w worker \<Rightarrow> bool" where
  "pulls sv k type S0 qid \<equiv> at sv k (pulling type S0 (on_stream qid))"

lemma v_buffer:
  "valid (at sv k (pulling type S0 (on_stream qid))) (set_session (update_query qid (aq_buffered_row_update g))) (\<lambda>_. pulls sv k type S0 qid) X"
  by (rule v_set) (auto simp: pulling_def intro: on_stream_update)

lemma v_next_row: "valid (pulls sv k type S0 qid) (next_row E qid cursor) (\<lambda>_. pulls sv k type S0 qid) (at sv k (failing type S0))"
  unfolding next_row_def
proof (rule v_bind, rule v_get, rule v_from [of _ _ "pulling type S0 (on_stream qid)"])
  fix s
  show "valid (pulls sv k type S0 qid) (case find_query qid s of
       Some q \<Rightarrow> (case aq_buffered_row q of
         Some row \<Rightarrow> bindW (set_session (update_query qid (aq_buffered_row_update (\<lambda>_. None)))) (\<lambda>_. returnW (Some row))
       | None \<Rightarrow> callW (en_Next E cursor))
     | None \<Rightarrow> liftW (Inl (Undefined ''no query''))) (\<lambda>_. pulls sv k type S0 qid) (at sv k (failing type S0))"
    by (intro v_option v_bind [OF v_buffer] v_done v_call v_post [OF v_lift]) (auto intro: pulling_failing elim: at_mono)
qed auto

lemma v_look_ahead: "valid (pulls sv k type S0 qid) (look_ahead E qid cursor) (\<lambda>_. pulls sv k type S0 qid) (at sv k (failing type S0))"
  unfolding look_ahead_def by (intro v_bind [OF v_call] v_option v_done v_buffer) (auto intro: pulling_failing)

lemma v_pull_rows:
  "valid (pulls sv k type S0 qid) (pull_rows fuel E type qid cursor unlimited remaining)
     (\<lambda>r. at sv k (if r = None then finished type S0 else pulling type S0 (on_stream qid))) (at sv k (failing type S0))"
proof (induction fuel arbitrary: remaining)
  case 0
  have "valid (pulls sv k type S0 qid) (liftW (Inl NoFuel)) Q (at sv k (failing type S0))" for Q :: "int option \<Rightarrow> 'a worker \<Rightarrow> bool"
    by (auto simp: valid_def liftW_def elim: at_mono intro: pulling_failing)
  then show ?case by (subst pull_rows.simps) (auto simp: valid_def returnW_def)
next
  case (Suc fuel)
  let ?Q = "\<lambda>r. at sv k (if r = None then finished type S0 else pulling type S0 (on_stream qid))" and ?X = "at sv k (failing type S0)"
  have i: "valid (pulls sv k type S0 qid) IgnoreInterruptedOrClosedRequest
      (\<lambda>over. at sv k (if over then overtaken type (failing type S0) else pulling type S0 (on_stream qid))) ?X"
    by (rule v_mono [OF v_ignore [OF pulling_stable, where type = type]]) (auto elim!: at_mono overtaken_mono intro: pulling_failing)
  have a: "valid (at sv k (overtaken type (failing type S0))) (bindW (AbortSession E) (\<lambda>_. returnW None)) ?Q ?X"
    by (rule v_bind [OF v_over]) (auto simp: valid_def returnW_def)
  have r: "valid (pulls sv k type S0 qid) (if type = BoltMsg_code Msg_PullN then append_record r else returnW ()) (\<lambda>_. pulls sv k type S0 qid) ?X" for r
    by (rule v_if) (auto intro: v_append_record v_done)
  have n: "valid (pulls sv k type S0 qid) (returnW (Some remaining)) ?Q ?X" by (auto simp: valid_def returnW_def)
  have l: "valid (pulls sv k type S0 qid) (bindW (next_row E qid cursor) (\<lambda>row. case row of None \<Rightarrow> returnW (Some remaining)
      | Some r \<Rightarrow> bindW (if type = BoltMsg_code Msg_PullN then append_record r else returnW ()) (\<lambda>_.
          pull_rows fuel E type qid cursor unlimited (if unlimited then remaining else remaining - 1)))) ?Q ?X"
    by (rule v_bind [OF v_next_row], rule v_option, rule n, rule v_bind [OF r], rule Suc.IH)
  show ?case unfolding pull_rows.simps [of "Suc fuel"] nat.case
    by (rule v_if, rule n, rule v_bind [OF i], rule v_if) (simp_all only: if_True if_False a l)
qed

lemma v_end_of_result:
  "valid (pulls sv k type S0 qid) (end_of_result E qid) (\<lambda>_. at sv k (finished type S0)) (at sv k (failing type S0))"
  unfolding end_of_result_def
proof (rule v_bind)
  let ?X = "at sv k (failing type S0)" and ?A = "at sv k (pulling type S0 agrees)"
  have s: "valid (pulls sv k type S0 (Some i)) (set_session (\<lambda>s. case ss_active_transaction s of None \<Rightarrow> s
      | Some t \<Rightarrow> let queries = filter (\<lambda>(k, q). k \<noteq> i) (at_queries t)
                  in s\<lparr>ss_active_transaction := Some (t\<lparr>at_queries := queries\<rparr>), ss_state := if queries = [] then TX_READY else TX_STREAMING\<rparr>)) (\<lambda>_. ?A) ?X" for i
    by (rule v_set) (auto simp: pulling_def on_stream_def agrees_def transaction_ok_def Let_def distinct_map_filter split: option.split)
  have n: "valid (pulls sv k type S0 None) (bindW get_session (\<lambda>s. case ss_active_query s of None \<Rightarrow> liftW (Inl (Undefined ''no query''))
      | Some q \<Rightarrow> bindW (ActiveBoltQuery_Commit E q) (\<lambda>_. set_session (\<lambda>s. s\<lparr>ss_active_query := None, ss_state := READY\<rparr>)))) (\<lambda>_. ?A) ?X"
    by (rule v_bind, rule v_get, rule v_from [of _ _ "pulling type S0 (on_stream None)"],
        intro v_option v_then [OF detached_commit] v_set v_post [OF v_lift])
      (auto intro: pulling_failing elim: at_mono simp: pulling_def on_stream_def agrees_def)
  show "valid (pulls sv k type S0 qid) (case qid of
       Some i \<Rightarrow> set_session (\<lambda>s. case ss_active_transaction s of None \<Rightarrow> s
         | Some t \<Rightarrow> let queries = filter (\<lambda>(k, q). k \<noteq> i) (at_queries t)
                     in s\<lparr>ss_active_transaction := Some (t\<lparr>at_queries := queries\<rparr>), ss_state := if queries = [] then TX_READY else TX_STREAMING\<rparr>)
     | None \<Rightarrow> bindW get_session (\<lambda>s. case ss_active_query s of None \<Rightarrow> liftW (Inl (Undefined ''no query''))
         | Some q \<Rightarrow> bindW (ActiveBoltQuery_Commit E q) (\<lambda>_. set_session (\<lambda>s. s\<lparr>ss_active_query := None, ss_state := READY\<rparr>)))) (\<lambda>_. ?A) ?X"
    by (cases qid) (use s n in simp_all)
  show "valid ?A (bindW (append_summary AppendSuccessEmpty) (\<lambda>_. FlushSessionBuffer)) (\<lambda>_. at sv k (finished type S0)) ?X"
    by (intro v_bind [OF v_append_summary] v_flush_summary) (auto intro: summary.intros)
qed

lemma v_has_more:
  "valid (pulls sv k type S0 qid) (bindW (append_summary (AppendSuccessHasMore True)) (\<lambda>_.
     bindW (set_state (if qid \<noteq> None then TX_STREAMING else STREAMING)) (\<lambda>_. FlushSessionBuffer)))
   (\<lambda>_. at sv k (finished type S0)) (at sv k (failing type S0))"
proof -
  have "valid (at sv k (concluded type S0 (on_stream qid))) (set_state (if qid \<noteq> None then TX_STREAMING else STREAMING))
      (\<lambda>_. at sv k (concluded type S0 agrees)) (at sv k (failing type S0))"
    unfolding set_state_def by (rule v_set) (auto simp: concluded_def on_stream_def agrees_def split: option.splits)
  from v_bind [OF this v_flush_summary] show ?thesis by (intro v_bind [OF v_append_summary]) (auto intro: summary.intros)
qed

lemma v_pull_from:
  "valid (pulls sv k type S0 qid) (pull_from E type qid cursor n) (\<lambda>_. at sv k (finished type S0)) (at sv k (failing type S0))"
  unfolding pull_from_def
proof (rule v_bind [OF v_pull_rows])
  fix remaining :: "int option"
  let ?X = "at sv k (failing type S0)" and ?Q = "\<lambda>_::unit. at sv k (finished type S0)"
  let ?summary = "bindW get_session (\<lambda>s.
      if (case find_query qid s of Some q \<Rightarrow> aq_buffered_row q \<noteq> None | None \<Rightarrow> False) then
        bindW (append_summary (AppendSuccessHasMore True)) (\<lambda>_.
        bindW (set_state (if qid \<noteq> None then TX_STREAMING else STREAMING)) (\<lambda>_. FlushSessionBuffer))
      else bindW IgnoreInterruptedOrClosedRequest (\<lambda>over. if over then AbortSession E else end_of_result E qid))"
  have s: "valid (pulls sv k type S0 qid) ?summary ?Q ?X"
    by (rule v_bind, rule v_get, rule v_from [of _ _ "pulling type S0 (on_stream qid)"], intro v_if v_has_more v_unless_over v_end_of_result)
      (auto intro: pulling_failing)
  have l: "valid (pulls sv k type S0 qid) (if b then look_ahead E qid cursor else returnW ()) (\<lambda>_. pulls sv k type S0 qid) ?X" for b
    by (rule v_if, rule v_look_ahead, rule v_done)
  have m: "valid (pulls sv k type S0 qid) (bindW (if b then look_ahead E qid cursor else returnW ()) (\<lambda>_.
      bindW IgnoreInterruptedOrClosedRequest (\<lambda>over. if over then AbortSession E else ?summary))) ?Q ?X" for b
    by (rule v_bind [OF l], rule v_unless_over [OF pulling_stable pulling_failing s])
  show "valid (at sv k (if remaining = None then finished type S0 else pulling type S0 (on_stream qid))) (case remaining of None \<Rightarrow> returnW ()
     | Some r \<Rightarrow> bindW (if \<not> n < 0 \<and> r = 0 then look_ahead E qid cursor else returnW ()) (\<lambda>_.
         bindW IgnoreInterruptedOrClosedRequest (\<lambda>over. if over then AbortSession E else ?summary))) ?Q ?X"
    by (rule v_option) (simp_all add: v_done m)
qed

definition streaming :: "BoltSession \<Rightarrow> bool" where
  "streaming s \<longleftrightarrow> agrees s \<and> (ss_state s = STREAMING \<or> ss_state s = TX_STREAMING)"

definition chosen :: "BoltSession \<Rightarrow> int option \<Rightarrow> bool" where
  "chosen s qid \<longleftrightarrow> (case ss_active_transaction s of None \<Rightarrow> qid = None | Some t \<Rightarrow> \<exists>i. qid = Some i \<and> map_of (at_queries t) i \<noteq> None)"

lemma chosen_on_stream: "streaming s \<Longrightarrow> chosen s qid \<Longrightarrow> on_stream qid s"
  by (auto simp: streaming_def chosen_def on_stream_def agrees_def split: option.splits)

lemma RG_CHECK_Inr: "RG_CHECK c code msg = Inr x \<Longrightarrow> c"
  by (simp add: RG_CHECK_def split: if_splits)

lemma v_pull:
  "valid (at sv k (waiting S0 streaming)) (ProcessPullOrDiscard E type xs) (\<lambda>_. at sv k (finished type S0)) (at sv k (failing type S0))"
  unfolding ProcessPullOrDiscard_def
proof (rule v_handler, rule v_then [OF detached_basic(6) waiting_failing], assumption, rule v_bind, rule v_get)
  fix md and s :: BoltSession
  let ?R = "\<lambda>s' S. s' = s \<and> waiting S0 streaming s S" and ?X = "at sv k (failing type S0)"
  have "detached (case ss_active_transaction s of
      Some t \<Rightarrow> bindW (CheckTransactionLeader E t) (\<lambda>_.
        let qid = (if pd_qid md = - 1 then at_next_query_id t - 1 else pd_qid md) in
        bindW (liftW (RG_CHECK (map_of (at_queries t) qid \<noteq> None) ''InputError''
          (BoltMsg_ToString type @ '' refers to an unknown result stream ['' @ show_int qid @ '']''))) (\<lambda>_. returnW (Some qid)))
    | None \<Rightarrow> bindW (liftW (RG_CHECK (pd_qid md = - 1) ''InputError'' ''auto-commit results do not have a qid'')) (\<lambda>_. returnW None)) (chosen s)"
    unfolding Let_def
    by (intro detached_option detached_bind [OF detached_transaction(3)] detached_bind [OF detached_basic(6)] detached_mono [OF detached_basic(7)])
      (auto simp: chosen_def dest!: RG_CHECK_Inr)
  then show "valid (at sv k ?R) (bindW (case ss_active_transaction s of
            Some t \<Rightarrow> bindW (CheckTransactionLeader E t) (\<lambda>_.
              let qid = (if pd_qid md = - 1 then at_next_query_id t - 1 else pd_qid md) in
              bindW (liftW (RG_CHECK (map_of (at_queries t) qid \<noteq> None) ''InputError''
                (BoltMsg_ToString type @ '' refers to an unknown result stream ['' @ show_int qid @ '']''))) (\<lambda>_. returnW (Some qid)))
          | None \<Rightarrow> bindW (liftW (RG_CHECK (pd_qid md = - 1) ''InputError'' ''auto-commit results do not have a qid'')) (\<lambda>_. returnW None)) (\<lambda>qid.
          case (case find_query qid s of Some q \<Rightarrow> aq_result q | None \<Rightarrow> None) of
            None \<Rightarrow> liftW (Inl (Thrown ''InputError'' (BoltMsg_ToString type @ '' requires an active result stream'')))
          | Some cursor \<Rightarrow> pull_from E type qid cursor (pd_n md)))
     (\<lambda>_. at sv k (finished type S0)) ?X"
  proof (rule v_then)
    fix qid assume "chosen s qid"
    then have "?R s' S \<Longrightarrow> pulling type S0 (on_stream qid) s' S" for s' S by (auto simp: waiting_def pulling_def chosen_on_stream)
    then show "valid (at sv k ?R) (case (case find_query qid s of Some q \<Rightarrow> aq_result q | None \<Rightarrow> None) of
            None \<Rightarrow> liftW (Inl (Thrown ''InputError'' (BoltMsg_ToString type @ '' requires an active result stream'')))
          | Some cursor \<Rightarrow> pull_from E type qid cursor (pd_n md)) (\<lambda>_. at sv k (finished type S0)) ?X"
      by (intro v_option v_from [OF v_pull_from] v_post [OF v_lift]) (auto intro: waiting_failing elim: at_mono)
  qed (auto intro: waiting_failing)
qed

section \<open>The state machine\<close>

lemma v_request:
  "valid (at sv k (\<lambda>s' S. s' = s \<and> waiting S0 agrees s S)) (case ss_state s of
         FAILED \<Rightarrow> ProcessRecoverableState E type
       | READY \<Rightarrow> ProcessReadyState E type xs
       | STREAMING \<Rightarrow> ProcessStreamingState E type xs
       | TX_READY \<Rightarrow> ProcessTransactionState E TX_READY type xs
       | TX_STREAMING \<Rightarrow> ProcessTransactionState E TX_STREAMING type xs
       | DEFUNCT \<Rightarrow> CloseProtocolError E) (\<lambda>_. at sv k (finished type S0)) (at sv k (failing type S0))"
proof -
  let ?R = "\<lambda>s' S. s' = s \<and> waiting S0 agrees s S" and ?X = "at sv k (failing type S0)" and ?Q = "\<lambda>_::unit. at sv k (finished type S0)"
  have i: "valid (at sv k ?R) PostIgnored ?Q ?X" unfolding PostIgnored_def
    by (rule v_from [OF v_answer [where P = agrees]]) (auto intro: summary.intros simp: quiescent_def)
  have f: "valid (at sv k ?R) (FailUnsupportedRequest E feature) ?Q ?X" for feature
    unfolding FailUnsupportedRequest_def by (rule v_from [OF v_fail]) (auto intro: waiting_failing)
  have b: "valid (at sv k ?R) (ProcessBegin E xs) ?Q ?X" if "ss_state s = READY"
    by (rule v_from [OF v_begin]) (use that in \<open>auto simp: waiting_def ready_session_def\<close>)
  have r: "valid (at sv k ?R) (ProcessRoute E xs) ?Q ?X"
    by (rule v_from [OF v_route]) (auto simp: waiting_def quiescent_def)
  have q: "valid (at sv k ?R) (ProcessRun E xs) ?Q ?X" if "ss_state s = READY \<or> ss_state s = TX_READY \<or> ss_state s = TX_STREAMING"
    by (rule v_from [OF v_run]) (use that in \<open>auto simp: waiting_def runnable_def agrees_def\<close>)
  have p: "valid (at sv k ?R) (ProcessPullOrDiscard E type xs) ?Q ?X" if "ss_state s = STREAMING \<or> ss_state s = TX_STREAMING"
    by (rule v_from [OF v_pull]) (use that in \<open>auto simp: waiting_def streaming_def\<close>)
  have c: "valid (at sv k ?R) (ProcessCommitOrRollback E type xs) ?Q ?X" if "ss_state s = TX_READY"
    by (rule v_from [OF v_end_transaction]) (use that in \<open>auto simp: waiting_def no_query_def agrees_def\<close>)
  have m: "valid (at sv k ?R) (bindW get_minor (\<lambda>minor. if minor < 3 then FailUnsupportedRequest E ''routing before Bolt 4.3'' else ProcessRoute E xs)) ?Q ?X"
    by (rule v_then [OF detached_basic(4)], auto intro: waiting_failing f r)
  show ?thesis
    by (cases "ss_state s")
      (simp_all only: SessionState.case ProcessRecoverableState_def ProcessReadyState_def ProcessStreamingState_def ProcessTransactionState_def,
        (intro v_if i v_close b m q p c; simp)+)
qed

text \<open>The answer to a \<open>RESET\<close>: the last one succeeds and has the session ready, the others are ignored.\<close>

definition success_message :: string where
  "success_message = map byte [0, 3, 0xb1, 0x70, 0xa0, 0, 0]"

definition ignored_message :: string where
  "ignored_message = map byte [0, 2, 0xb0, 0x7e, 0, 0]"

definition recovered :: "string list \<Rightarrow> assertion" where
  "recovered S0 s S \<longleftrightarrow> ss_ps s = PackStream_Reset \<and> ss_active_query s = None \<and> ss_active_transaction s = None \<and>
     (S = S0 @ [success_message] \<and> ss_state s = READY \<or> S = S0 @ [ignored_message] \<and> HasInterrupt s)"

lemma fixed_messages:
  "\<exists>ps. AppendSuccessEmpty PackStream_Reset = Inr ps \<and> pk_buf (ps_packer ps) = success_message"
  "\<exists>ps. AppendIgnored PackStream_Reset = Inr ps \<and> pk_buf (ps_packer ps) = ignored_message"
proof -
  have e: "\<exists>ps. message f PackStream_Reset = Inr ps \<and> pk_buf (ps_packer ps) = chunked msg"
    if "\<And>p. f p = Inr (append_buf msg p)" "length (chunked msg) < 100" for f msg
    using message_chunked [OF that(1), of PackStream_Reset] that(2) by (auto simp: returns_def PackStream_Reset_def)
  have c: "success_message = chunked (map byte [0xb1, 0x70, 0xa0])" "ignored_message = chunked (map byte [0xb0, 0x7e])"
    by (simp_all add: success_message_def ignored_message_def chunked.simps numeral_2_eq_2)
  show "\<exists>ps. AppendSuccessEmpty PackStream_Reset = Inr ps \<and> pk_buf (ps_packer ps) = success_message"
    unfolding c AppendSuccessEmpty_def
    by (rule e) (simp_all add: pack_appends len_bytes_def chunked.simps)
  show "\<exists>ps. AppendIgnored PackStream_Reset = Inr ps \<and> pk_buf (ps_packer ps) = ignored_message"
    unfolding c AppendIgnored_def AppendEmptyMessage_def
    by (rule e) (simp_all add: pack_appends len_bytes_def chunked.simps)
qed

lemma v_fixed:
  "valid (at sv k R) PostSuccess (\<lambda>_. at sv k (\<lambda>s S. \<exists>S0. S = S0 @ [success_message] \<and> R s S0)) X"
  "valid (at sv k R) PostIgnored (\<lambda>_. at sv k (\<lambda>s S. \<exists>S0. S = S0 @ [ignored_message] \<and> R s S0)) X"
proof -
  have p: "valid (at sv k R) (post_message pack) (\<lambda>_. at sv k (\<lambda>s S. \<exists>S0. S = S0 @ [b] \<and> R s S0)) X"
    if e: "\<exists>ps. pack PackStream_Reset = Inr ps \<and> pk_buf (ps_packer ps) = b" for pack b
  proof -
    obtain ps where "pack PackStream_Reset = Inr ps" "pk_buf (ps_packer ps) = b" using e by blast
    then have "post_message pack = (on_conn (PostResponse b) :: ('a, unit) act)" by (simp add: post_message_def bindW_def liftW_def)
    then show ?thesis by (simp add: v_respond)
  qed
  show "valid (at sv k R) PostSuccess (\<lambda>_. at sv k (\<lambda>s S. \<exists>S0. S = S0 @ [success_message] \<and> R s S0)) X"
    "valid (at sv k R) PostIgnored (\<lambda>_. at sv k (\<lambda>s S. \<exists>S0. S = S0 @ [ignored_message] \<and> R s S0)) X"
    unfolding PostSuccess_def PostIgnored_def by (intro p fixed_messages)+
qed

lemma recovered_stable [simp]: "io_stable (recovered S0)"
  by (auto simp: io_stable_def recovered_def same_session_fields HasInterrupt_same)

lemma recovered_finished: "recovered S0 s S \<Longrightarrow> finished type S0 s S"
proof -
  have "answer type success_message" "answer type ignored_message"
    using fixed_messages answer_alone summary.intros by metis+
  then show "recovered S0 s S \<Longrightarrow> finished type S0 s S"
    by (auto simp: recovered_def finished_def quiescent_def agrees_def intro: answeredI [OF begun_refl])
qed

definition aborted :: "string list \<Rightarrow> assertion" where
  "aborted S0 s S \<longleftrightarrow> S = S0 \<and> ss_ps s = PackStream_Reset \<and> ss_active_query s = None \<and> ss_active_transaction s = None"

text \<open>With an interrupt of its own at work, a session has one.\<close>

lemma v_get_interrupted:
  "valid (at sv 1 R) get_session (\<lambda>s w. HasInterrupt s \<and> at sv 1 (\<lambda>s' S. s' = s \<and> R s S) w) X"
  by (auto simp: valid_def get_session_def session_def at_def HasInterrupt_def interrupts_def)

lemma v_consume:
  assumes "HasInterrupt s"
  shows "valid (\<lambda>w. session w = Some s \<and> at sv 1 R w) (set_session (\<lambda>_. snd (ConsumeInterrupt s)))
    (\<lambda>_. at sv 0 (\<lambda>s' S. s' = s\<lparr>ss_remaining_interrupts := ss_remaining_interrupts s - 1\<rparr> \<and> R s S)) X"
  using assms by (auto simp: valid_def set_session_def at_def session_def base_def handler_set_def accounted_def interrupts_def resets_def stream_def
      closing_def told_def ConsumeInterrupt_def HasInterrupt_def Let_def)

lemma v_reset_session: "valid (at sv 1 (aborted S0)) reset_session (\<lambda>_. at sv 0 (recovered S0)) X"
  unfolding reset_session_def
proof (rule v_bind)
  show "valid (at sv 1 (aborted S0)) get_session (\<lambda>s w. HasInterrupt s \<and> session w = Some s \<and> at sv 1 (aborted S0) w) X"
    by (auto simp: valid_def get_session_def session_def at_def HasInterrupt_def interrupts_def)
  fix s :: BoltSession
  let ?s = "s\<lparr>ss_remaining_interrupts := ss_remaining_interrupts s - 1\<rparr>"
  have "valid (\<lambda>w. session w = Some s \<and> at sv 1 (aborted S0) w) (let (last, s') = ConsumeInterrupt s in
      bindW (set_session (\<lambda>_. s')) (\<lambda>_.
        if last then bindW (set_session (\<lambda>s. s\<lparr>ss_cancelled := False, ss_state := READY\<rparr>)) (\<lambda>_. PostSuccess) else PostIgnored))
     (\<lambda>_. at sv 0 (recovered S0)) X" if h: "HasInterrupt s"
  proof -
    have c: "ConsumeInterrupt s = (ss_remaining_interrupts s = 1, ?s)" using h by (simp add: ConsumeInterrupt_def HasInterrupt_def Let_def)
    let ?R = "\<lambda>s' S. s' = ?s \<and> aborted S0 s S" and ?A = "\<lambda>s S. aborted S0 s S \<and> ss_state s = READY"
    have r: "valid (at sv 0 ?R) (set_session (\<lambda>s. s\<lparr>ss_cancelled := False, ss_state := READY\<rparr>)) (\<lambda>_. at sv 0 ?A) X"
      by (rule v_set) (auto simp: aborted_def)
    have g: "valid (at sv 0 ?A) PostSuccess (\<lambda>_. at sv 0 (recovered S0)) X"
      by (rule v_post [OF v_fixed(1)]) (auto elim!: at_mono simp: aborted_def recovered_def)
    have i: "valid (at sv 0 ?R) PostIgnored (\<lambda>_. at sv 0 (recovered S0)) X" if "ss_remaining_interrupts s \<noteq> 1"
      by (rule v_post [OF v_fixed(2)]) (use that h in \<open>auto elim!: at_mono simp: aborted_def recovered_def HasInterrupt_def\<close>)
    show ?thesis unfolding c Let_def prod.case
      by (rule v_bind, rule v_consume [OF h, unfolded c snd_conv], rule v_if, rule v_bind [OF r g], rule i)
  qed
  then show "valid (\<lambda>w. HasInterrupt s \<and> session w = Some s \<and> at sv 1 (aborted S0) w) (let (last, s') = ConsumeInterrupt s in
      bindW (set_session (\<lambda>_. s')) (\<lambda>_.
        if last then bindW (set_session (\<lambda>s. s\<lparr>ss_cancelled := False, ss_state := READY\<rparr>)) (\<lambda>_. PostSuccess) else PostIgnored))
     (\<lambda>_. at sv 0 (recovered S0)) X"
    by (simp add: valid_def)
qed

lemma v_abort_waiting: "valid (at sv k (\<lambda>s' S. s' = s \<and> waiting S0 P s S)) (AbortSession E)
    (\<lambda>_. at sv k (\<lambda>s' S. aborted S0 s' S \<and> ss_remaining_interrupts s' = ss_remaining_interrupts s)) X"
  by (rule v_post, rule v_abort) (auto elim!: at_mono simp: waiting_def aborted_def cleared_def)

lemma v_reset:
  assumes "IsResetMessage type"
  shows "valid (at sv 1 (waiting S0 quiescent)) (ProcessBoltMessage E type xs) (\<lambda>_. at sv 0 (recovered S0)) X"
  unfolding ProcessBoltMessage_def
proof (rule v_bind, rule v_observe, rule waiting_stable, rule quiescent_same, assumption, assumption, rule v_bind, rule v_get_interrupted)
  fix s
  have "valid (at sv 1 (\<lambda>s' S. s' = s \<and> waiting S0 quiescent s S)) (bindW (AbortSession E) (\<lambda>_. reset_session)) (\<lambda>_. at sv 0 (recovered S0)) X"
    by (rule v_bind [OF v_abort_waiting], rule v_from [OF v_reset_session]) simp
  then show "valid (\<lambda>w. HasInterrupt s \<and> at sv 1 (\<lambda>s' S. s' = s \<and> waiting S0 quiescent s S) w)
      (if HasInterrupt s then bindW (AbortSession E) (\<lambda>_. if IsResetMessage type then reset_session else PostIgnored)
       else case ss_state s of
         FAILED \<Rightarrow> ProcessRecoverableState E type
       | READY \<Rightarrow> ProcessReadyState E type xs
       | STREAMING \<Rightarrow> ProcessStreamingState E type xs
       | TX_READY \<Rightarrow> ProcessTransactionState E TX_READY type xs
       | TX_STREAMING \<Rightarrow> ProcessTransactionState E TX_STREAMING type xs
       | DEFUNCT \<Rightarrow> CloseProtocolError E) (\<lambda>_. at sv 0 (recovered S0)) X"
    using assms by (auto simp: valid_def)
qed

lemma v_message:
  assumes "\<not> IsResetMessage type"
  shows "valid (at sv 0 (waiting S0 quiescent)) (ProcessBoltMessage E type xs) (\<lambda>_. at sv 0 (finished type S0)) (at sv 0 (failing type S0))"
  unfolding ProcessBoltMessage_def
proof (rule v_bind, rule v_observe, rule waiting_stable, rule quiescent_same, assumption, assumption, rule v_bind, rule v_get, rule v_if)
  fix s :: BoltSession
  let ?R = "\<lambda>s' S. s' = s \<and> waiting S0 quiescent s S"
  show "valid (at sv 0 ?R) (bindW (AbortSession E) (\<lambda>_. if IsResetMessage type then reset_session else PostIgnored))
      (\<lambda>_. at sv 0 (finished type S0)) (at sv 0 (failing type S0))" if "HasInterrupt s"
  proof (rule v_bind [OF v_abort_waiting])
    have "valid (at sv 0 (\<lambda>s' S. aborted S0 s' S \<and> ss_remaining_interrupts s' = ss_remaining_interrupts s)) PostIgnored
        (\<lambda>_. at sv 0 (finished type S0)) (at sv 0 (failing type S0))"
      by (rule v_post [OF v_fixed(2)], erule at_mono, rule recovered_finished)
        (use that in \<open>auto simp: recovered_def aborted_def HasInterrupt_def\<close>)
    then show "valid (at sv 0 (\<lambda>s' S. aborted S0 s' S \<and> ss_remaining_interrupts s' = ss_remaining_interrupts s))
        (if IsResetMessage type then reset_session else PostIgnored) (\<lambda>_. at sv 0 (finished type S0)) (at sv 0 (failing type S0))"
      using assms by simp
  qed
  assume "\<not> HasInterrupt s"
  then show "valid (at sv 0 ?R) (case ss_state s of
         FAILED \<Rightarrow> ProcessRecoverableState E type
       | READY \<Rightarrow> ProcessReadyState E type xs
       | STREAMING \<Rightarrow> ProcessStreamingState E type xs
       | TX_READY \<Rightarrow> ProcessTransactionState E TX_READY type xs
       | TX_STREAMING \<Rightarrow> ProcessTransactionState E TX_STREAMING type xs
       | DEFUNCT \<Rightarrow> CloseProtocolError E) (\<lambda>_. at sv 0 (finished type S0)) (at sv 0 (failing type S0))"
    by (intro v_from [OF v_request]) (auto simp: waiting_def quiescent_def)
qed

lemma v_task:
  assumes "valid (at sv k (waiting S0 quiescent)) (ProcessBoltMessage E type xs) (\<lambda>_. at sv 0 R) X" "io_stable R"
  shows "valid (at sv k (waiting S0 quiescent)) (message_task E type xs) (\<lambda>_. at sv 0 R) X"
  unfolding message_task_def
proof (rule v_bind, rule v_observe, rule waiting_stable, rule quiescent_same, assumption, assumption, rule v_bind, rule v_closed, rule v_bind)
  fix closed
  have "at sv 0 R w" if "at sv k (\<lambda>s S. waiting S0 quiescent s S \<and> \<not> True) w" for w :: "'a worker"
    using that by (auto simp: at_def)
  then have "valid (at sv k (\<lambda>s S. waiting S0 quiescent s S \<and> \<not> True)) (returnW ()) (\<lambda>_. at sv 0 R) X"
    by (simp add: valid_def returnW_def)
  then show "valid (at sv k (\<lambda>s S. waiting S0 quiescent s S \<and> \<not> closed)) (if \<not> closed then ProcessBoltMessage E type xs else returnW ()) (\<lambda>_. at sv 0 R) X"
    using assms(1) by (cases closed) simp_all
  show "valid (at sv 0 R) (bindW observe (\<lambda>_. bindW has_closed (\<lambda>closed. if closed then AbortSession E else returnW ()))) (\<lambda>_. at sv 0 R) X"
  proof (rule v_bind, rule v_observe [OF assms(2)], rule v_bind, rule v_closed, rule v_if)
    fix closed
    show "valid (at sv 0 (\<lambda>s S. R s S \<and> \<not> closed)) (AbortSession E) (\<lambda>_. at sv 0 R) X" if closed
      by (rule v_post [OF v_abort]) (use that in \<open>auto elim: at_mono\<close>)
  qed (rule v_done, simp)
qed

text \<open>What is left when the connection has been closed.\<close>

definition released :: "BoltSessionContext \<Rightarrow> bool" where
  "released cx \<longleftrightarrow> ss_active_query (cx_session cx) = None \<and> ss_active_transaction (cx_session cx) = None"

definition leaving :: "Server \<Rightarrow> (BoltSessionContext \<Rightarrow> bool) \<Rightarrow> 'w worker \<Rightarrow> bool" where
  "leaving sv P w \<longleftrightarrow> base sv w \<and> closing (wk_conn w) \<and> (\<exists>cx. cn_context (wk_conn w) = Some cx \<and> resets cx \<le> interrupts cx \<and> P cx)"

lemma abort_run:
  assumes "cn_context (wk_conn w) = Some cx"
  shows "\<exists>world. AbortSession E w = (Inr (), w\<lparr>wk_world := world,
    wk_conn := (wk_conn w)\<lparr>cn_context := Some (cx\<lparr>cx_session := cleared (cx_session cx)\<rparr>)\<rparr>\<rparr>)"
proof -
  let ?s = "cx_session cx"
  let ?q = "case ss_active_query ?s of Some q \<Rightarrow> ActiveBoltQuery_Rollback E q | None \<Rightarrow> returnW ()"
    and ?t = "case ss_active_transaction ?s of Some t \<Rightarrow> ActiveBoltTransaction_Rollback E t | None \<Rightarrow> returnW ()"
  have "sure ?q" "sure ?t" by (intro sure_option sure_return sure_query_rollback sure_transaction_rollback)+
  then obtain w1 w2 where "?q w = (Inr (), w\<lparr>wk_world := w1\<rparr>)" "?t (w\<lparr>wk_world := w1\<rparr>) = (Inr (), w\<lparr>wk_world := w1\<rparr>\<lparr>wk_world := w2\<rparr>)"
    unfolding sure_def by blast
  then have 1: "?q w = (Inr (), w\<lparr>wk_world := w1\<rparr>)" and 2: "?t (w\<lparr>wk_world := w1\<rparr>) = (Inr (), w\<lparr>wk_world := w2\<rparr>)" by simp_all
  have "AbortSession E w = (Inr (), w\<lparr>wk_world := w2, wk_conn := (wk_conn w)\<lparr>cn_context := Some (cx\<lparr>cx_session := cleared ?s\<rparr>)\<rparr>\<rparr>)"
    using 1 2 assms by (simp add: AbortSession_def bindW_def get_session_def session_def set_session_def cleared_def)
  then show ?thesis by blast
qed

lemma v_leave_abort: "valid (leaving sv P) (AbortSession E) (\<lambda>_. leaving sv released) X"
proof (rule validI)
  fix w :: "'a worker" assume w: "leaving sv P w"
  then obtain cx where cx: "cn_context (wk_conn w) = Some cx" by (auto simp: leaving_def)
  from abort_run [OF this, of E] show "ends (\<lambda>_. leaving sv released) X (AbortSession E w)"
    using w cx by (auto simp: leaving_def base_def handler_set_def closing_def resets_def interrupts_def released_def cleared_def)
qed

lemma v_leave_task:
  "valid (\<lambda>w. leaving sv (\<lambda>_. True) w \<and> cn_closed (wk_conn w)) (message_task E type xs) (\<lambda>_. leaving sv released) X"
proof -
  let ?L = "\<lambda>w. leaving sv (\<lambda>_. True) w \<and> cn_closed (wk_conn w)"
  have o: "valid ?L observe (\<lambda>_. ?L) X"
  proof (rule validI)
    fix w :: "'a worker" assume w: "?L w"
    show "ends (\<lambda>_. ?L) X (observe w)"
    proof (cases "wk_io w")
      case (Cons f fs)
      let ?d = "f (wk_conn w)"
      obtain cx where cx: "cn_context (wk_conn w) = Some cx" "resets cx \<le> interrupts cx" using w by (auto simp: leaving_def)
      have "io_kept sv (wk_conn w) ?d" "handler_set sv (wk_conn w)" using w Cons by (auto simp: leaving_def base_def)
      note d = io_keptD [OF this]
      obtain cx' where cx': "cn_context ?d = Some cx'" "ctx_moved (cn_closed ?d) cx cx'" using d(4) [OF cx(1)] by blast
      then have "resets cx' \<le> interrupts cx'" using cx(2) unfolding ctx_moved_def by linarith
      then show ?thesis using w Cons d(1-3) cx'(1) by (auto simp: observe_def leaving_def base_def)
    qed (use w in \<open>simp add: observe_def\<close>)
  qed
  have h: "valid ?L has_closed (\<lambda>b w. b \<and> ?L w) X" by (simp add: valid_def has_closed_def)
  have r: "valid (\<lambda>w. b \<and> ?L w) (if \<not> b then m else returnW ()) (\<lambda>_. ?L) X" for b m by (simp add: valid_def returnW_def)
  have a: "valid (\<lambda>w. b \<and> ?L w) (if b then AbortSession E else returnW ()) (\<lambda>_. leaving sv released) X" for b
    by (cases b) (auto simp: valid_def intro: validD [OF v_leave_abort])
  show ?thesis unfolding message_task_def
    by (rule v_bind [OF o v_bind [OF h v_bind [OF r v_bind [OF o v_bind [OF h a]]]]])
qed

end
