(* ===== verification/SessionProps.thy ===== *)
theory SessionProps
  imports SessionInv
begin

text \<open>
  Connections, their sessions and the workers together, and the properties of the Bolt server: the state of a session
  agrees with what it holds, every request is answered once, \<open>RESET\<close> recovers the session, and a closed session
  holds nothing.
\<close>

section \<open>Connections, sessions and workers\<close>

text \<open>
  The IO thread takes its steps, the world changes, and a worker runs the first task of the strand while the IO thread
  goes on. A task that ends with an exception nobody catches ends the process.
\<close>

definition io_thread :: "Server \<Rightarrow> (conn \<Rightarrow> conn) list \<Rightarrow> bool" where
  "io_thread sv fs \<longleftrightarrow> (\<forall>f \<in> set fs. \<forall>c. (io_step sv)\<^sup>*\<^sup>* c (f c))"

inductive sys_step :: "'w Engine \<Rightarrow> Server \<Rightarrow> conn \<times> 'w \<Rightarrow> conn \<times> 'w \<Rightarrow> bool" for E sv where
  io: "io_step sv c d \<Longrightarrow> sys_step E sv (c, world) (d, world)"
| elsewhere: "sys_step E sv (c, world) (c, world')"
| work: "io_thread sv fs \<Longrightarrow> run_strand E \<lparr>wk_conn = c, wk_world = world, wk_io = fs\<rparr> = (Inr (), w) \<Longrightarrow>
    sys_step E sv (c, world) (wk_conn w, wk_world w)"

definition sys_reach :: "'w Engine \<Rightarrow> Server \<Rightarrow> conn \<Rightarrow> 'w \<Rightarrow> bool" where
  "sys_reach E sv c world \<longleftrightarrow> (\<exists>ec w0. (sys_step E sv)\<^sup>*\<^sup>* (BoltConnection_Start ec new_connection, w0) (c, world))"

definition context_ok :: "Server \<Rightarrow> conn \<Rightarrow> BoltSessionContext \<Rightarrow> bool" where
  "context_ok sv c cx \<longleftrightarrow> resets cx \<le> interrupts cx \<and> (cn_closed c \<longrightarrow> told sv cx \<or> released cx) \<and>
     (closing c \<or> accounted 0 cx \<and> quiescent (cx_session cx))"

definition sys_ok :: "Server \<Rightarrow> conn \<Rightarrow> bool" where
  "sys_ok sv c \<longleftrightarrow> handler_set sv c \<and> (case cn_context c of None \<Rightarrow> True | Some cx \<Rightarrow> context_ok sv c cx)"

lemma io_thread_kept: "io_thread sv fs \<Longrightarrow> f \<in> set fs \<Longrightarrow> io_kept sv c (f c)"
proof -
  have "(io_step sv)\<^sup>*\<^sup>* c d \<Longrightarrow> io_kept sv c d" for d
    by (induction rule: rtranclp_induct) (simp, blast intro: io_kept_trans io_step_kept)
  then show "io_thread sv fs \<Longrightarrow> f \<in> set fs \<Longrightarrow> io_kept sv c (f c)" by (simp add: io_thread_def)
qed

lemma started_ok: "started cx \<Longrightarrow> accounted 0 cx \<and> quiescent (cx_session cx)"
  by (auto simp: started_def accounted_def quiescent_def hello_session_def new_session_def agrees_def interrupts_def resets_def)

lemma released_moved: "released cx \<Longrightarrow> ctx_moved b cx cx' \<Longrightarrow> released cx'"
  by (auto simp: released_def ctx_moved_def same_session_fields)

lemma moved_ok:
  assumes "ctx_moved b cx cx'" "accounted 0 cx" "quiescent (cx_session cx)" "\<not> b"
  shows "accounted 0 cx' \<and> quiescent (cx_session cx')"
  using assms quiescent_same by (auto simp: ctx_moved_def accounted_def)

lemma sys_ok_io:
  assumes "io_step sv c d" "sys_ok sv c"
  shows "sys_ok sv d"
proof -
  have h: "handler_set sv c" using assms(2) by (simp add: sys_ok_def)
  note d = io_keptD [OF io_step_kept [OF assms(1)] h]
  have "context_ok sv d cy" if y: "cn_context d = Some cy" for cy
  proof (cases "cn_context c")
    case None
    then obtain cx where x: "started cx" "ctx_moved (cn_closed d) cx cy" "cn_closed d \<longrightarrow> told sv cy" using d(5) y by blast
    have "resets cy \<le> interrupts cy" using x(2) started_ok [OF x(1)] unfolding ctx_moved_def accounted_def by linarith
    then show ?thesis using x started_ok [OF x(1)] moved_ok [OF x(2)] by (auto simp: context_ok_def closing_def)
  next
    case (Some cx)
    then have ok: "context_ok sv c cx" using assms(2) by (simp add: sys_ok_def)
    have x: "ctx_moved (cn_closed d) cx cy" "cn_closed d \<longrightarrow> cn_closed c \<or> told sv cy" using d(4) [OF Some] y by auto
    have "resets cy \<le> interrupts cy" using x(1) ok unfolding ctx_moved_def context_ok_def by linarith
    then show ?thesis using ok x(2) d(3) moved_ok [OF x(1)] told_moved [OF _ x(1)] released_moved [OF _ x(1)]
      by (auto simp: context_ok_def closing_def)
  qed
  then show ?thesis using d(1) by (simp add: sys_ok_def split: option.split)
qed

section \<open>The strand\<close>

lemma pop_moved:
  assumes "cn_context c = Some cx" "cx_strand cx = k # ks"
  shows "pop_task c = Some (k, c\<lparr>cn_context := Some (cx\<lparr>cx_strand := ks\<rparr>)\<rparr>)"
  using assms by (simp add: pop_task_def)

text \<open>A task that is run on an open connection starts with the session at rest.\<close>

lemma task_at:
  assumes "sys_ok sv c" "io_thread sv fs" "cn_context c = Some cx" "cx_strand cx = MessageTask type xs # ks" "\<not> cn_closed c"
  shows "at sv (if IsResetMessage type then 1 else 0) (waiting (stream c) quiescent)
    \<lparr>wk_conn = c\<lparr>cn_context := Some (cx\<lparr>cx_strand := ks\<rparr>)\<rparr>, wk_world = world, wk_io = fs\<rparr>"
proof -
  have "context_ok sv c cx" "handler_set sv c" using assms(1,3) by (simp_all add: sys_ok_def)
  then show ?thesis using assms(2-5) io_thread_kept [OF assms(2)]
    by (auto simp: at_def base_def handler_set_def context_ok_def accounted_def resets_def interrupts_def closing_def waiting_def quiescent_def stream_def)
qed

lemma task_leaving:
  assumes "sys_ok sv c" "io_thread sv fs" "cn_context c = Some cx" "cx_strand cx = k # ks" "closing c"
  shows "leaving sv (\<lambda>_. True) \<lparr>wk_conn = c\<lparr>cn_context := Some (cx\<lparr>cx_strand := ks\<rparr>)\<rparr>, wk_world = world, wk_io = fs\<rparr>"
proof -
  have "context_ok sv c cx" "handler_set sv c" using assms(1,3) by (simp_all add: sys_ok_def)
  then show ?thesis using assms(2-5) io_thread_kept [OF assms(2)]
    by (auto simp: leaving_def base_def handler_set_def context_ok_def resets_def interrupts_def closing_def split: if_splits)
qed

lemma strand_run:
  assumes "cn_context c = Some cx" "cx_strand cx = MessageTask type xs # ks"
  shows "run_strand E \<lparr>wk_conn = c, wk_world = world, wk_io = fs\<rparr> =
    message_task E type xs \<lparr>wk_conn = c\<lparr>cn_context := Some (cx\<lparr>cx_strand := ks\<rparr>)\<rparr>, wk_world = world, wk_io = fs\<rparr>"
  using pop_moved [OF assms] by (simp add: run_strand_def)

lemma strand_closed:
  assumes "sys_ok sv c" "io_thread sv fs" "cn_context c = Some cx" "cx_strand cx = MessageTask type xs # ks" "cn_closed c"
  shows "ends (\<lambda>_. leaving sv released) (\<lambda>_. False) (run_strand E \<lparr>wk_conn = c, wk_world = world, wk_io = fs\<rparr>)"
  unfolding strand_run [OF assms(3,4)]
  by (rule validD [OF v_leave_task]) (use task_leaving [OF assms(1-4), of world] assms(5) in \<open>simp add: closing_def\<close>)

lemma strand_reset:
  assumes "sys_ok sv c" "io_thread sv fs" "cn_context c = Some cx" "cx_strand cx = MessageTask type xs # ks" "\<not> cn_closed c" "IsResetMessage type"
  shows "ends (\<lambda>_. at sv 0 (recovered (stream c))) (\<lambda>_. False) (run_strand E \<lparr>wk_conn = c, wk_world = world, wk_io = fs\<rparr>)"
  unfolding strand_run [OF assms(3,4)]
  by (rule validD [OF v_task [OF v_reset [OF assms(6)] recovered_stable]]) (use task_at [OF assms(1-5), of world] assms(6) in simp)

lemma strand_request:
  assumes "sys_ok sv c" "io_thread sv fs" "cn_context c = Some cx" "cx_strand cx = MessageTask type xs # ks" "\<not> cn_closed c" "\<not> IsResetMessage type"
  shows "ends (\<lambda>_. at sv 0 (finished type (stream c))) (at sv 0 (failing type (stream c)))
    (run_strand E \<lparr>wk_conn = c, wk_world = world, wk_io = fs\<rparr>)"
  unfolding strand_run [OF assms(3,4)]
  by (rule validD [OF v_task [OF v_message [OF assms(6)] finished_stable]]) (use task_at [OF assms(1-5), of world] assms(6) in simp)

lemma strand_message:
  assumes "sys_ok sv c" "io_thread sv fs" "cn_context c = Some cx" "cx_strand cx = MessageTask type xs # ks"
  shows "ends (\<lambda>_ w. at sv 0 (finished type (stream c)) w \<or> leaving sv released w) (at sv 0 (failing type (stream c)))
    (run_strand E \<lparr>wk_conn = c, wk_world = world, wk_io = fs\<rparr>)"
proof -
  consider "cn_closed c" | "\<not> cn_closed c" "IsResetMessage type" | "\<not> cn_closed c" "\<not> IsResetMessage type" by blast
  then show ?thesis
  proof cases
    case 1
    show ?thesis by (rule ends_mono [OF strand_closed [OF assms 1]]) simp_all
  next
    case 2
    show ?thesis by (rule ends_mono [OF strand_reset [OF assms 2]]) (auto elim: at_mono intro: recovered_finished)
  next
    case 3
    show ?thesis by (rule ends_mono [OF strand_request [OF assms 3]]) simp_all
  qed
qed

lemma done_ok: "at sv 0 (finished type S0) w \<or> leaving sv released w \<Longrightarrow> sys_ok sv (wk_conn w)"
  by (auto simp: at_def leaving_def sys_ok_def context_ok_def base_def finished_def)

lemma sys_ok_work:
  assumes "sys_ok sv c" "io_thread sv fs" "run_strand E \<lparr>wk_conn = c, wk_world = world, wk_io = fs\<rparr> = (Inr (), w)"
  shows "sys_ok sv (wk_conn w)"
proof (cases "pop_task c")
  case None
  then show ?thesis using assms(1,3) by (auto simp: run_strand_def)
next
  case (Some kc)
  then obtain cx k ks where cx: "cn_context c = Some cx" "cx_strand cx = k # ks"
    by (auto simp: pop_task_def split: option.splits list.splits)
  show ?thesis
  proof (cases k)
    case (MessageTask type xs)
    from strand_message [OF assms(1,2) cx [unfolded this], of E world] show ?thesis
      unfolding assms(3) using done_ok by simp
  next
    case AbortTask
    then have "closing c" using assms(1) cx by (auto simp: sys_ok_def context_ok_def accounted_def)
    from validD [OF v_leave_abort task_leaving [OF assms(1,2) cx this], of "\<lambda>_. False" E world]
    show ?thesis using assms(3) pop_moved [OF cx] AbortTask done_ok by (auto simp: run_strand_def)
  qed
qed

lemma sys_reach_ok:
  assumes "sys_reach E sv c world"
  shows "sys_ok sv c"
proof -
  obtain ec w0 where r: "(sys_step E sv)\<^sup>*\<^sup>* (BoltConnection_Start ec new_connection, w0) (c, world)" using assms by (auto simp: sys_reach_def)
  have s: "sys_ok sv (BoltConnection_Start ec new_connection)"
    by (simp add: BoltConnection_Start_def new_connection_def sys_ok_def handler_set_def BoltConnection_Close_def Connection_Close_def)
  have "sys_step E sv p q \<Longrightarrow> sys_ok sv (fst p) \<Longrightarrow> sys_ok sv (fst q)" for p q
    by (induction rule: sys_step.induct) (auto intro: sys_ok_io sys_ok_work)
  with r have "sys_ok sv (fst (c, world))"
    by (induction rule: rtranclp_induct) (simp_all add: s)
  then show ?thesis by simp
qed

section \<open>A session at work\<close>

definition example_server :: Server where
  "example_server = \<lparr>sv_stopped = False, sv_conn_id = 7\<rparr>"

definition example_engine :: "unit Engine" where
  "example_engine = \<lparr>en_OpenGraph = (\<lambda>name w. (Inl (Thrown ''NoSuchGraph'' name), w)), en_raft_status = (\<lambda>g w. None), en_nodes = (\<lambda>g w. Inr []),
     en_address = (\<lambda>s. Some False), en_local_endpoint = (''127.0.0.1'', 7687), en_BeginTransaction = (\<lambda>g w. (Inr 0, w)),
     en_Commit = (\<lambda>t w. (Inr (), w)), en_Rollback = (\<lambda>t w. (Inr (), w)), en_active = (\<lambda>t w. False),
     en_Execute = (\<lambda>target cypher opts w. (Inr 0, w)), en_Columns = (\<lambda>c w. []), en_Next = (\<lambda>c w. (Inr None, w)), en_now = (\<lambda>w. 0),
     en_zoned = (\<lambda>v z. Inl (Thrown ''InputError'' z)), en_rows = 1\<rparr>"

lemma feed_io: "(io_step sv)\<^sup>*\<^sup>* c (feed (NewBoltHandler sv) bs c)"
  by (induction bs arbitrary: c) (auto intro: io_step.byte converse_rtranclp_into_rtranclp)

lemma reach_io: "sys_reach E sv c w \<Longrightarrow> (io_step sv)\<^sup>*\<^sup>* c d \<Longrightarrow> sys_reach E sv d w"
proof -
  have "(io_step sv)\<^sup>*\<^sup>* c d \<Longrightarrow> (sys_step E sv)\<^sup>*\<^sup>* (c, w) (d, w)" for d
    by (induction rule: rtranclp_induct) (auto intro: rtranclp.rtrancl_into_rtrancl sys_step.io)
  then show "sys_reach E sv c w \<Longrightarrow> (io_step sv)\<^sup>*\<^sup>* c d \<Longrightarrow> sys_reach E sv d w"
    unfolding sys_reach_def by (meson rtranclp_trans)
qed

definition shaken :: conn where
  "shaken = new_connection\<lparr>cn_protocol := Socket, cn_minor := 4, cn_answer := [byte 0, byte 0, byte 4, byte 4], cn_wait := WaitChunkSize\<rparr>"

lemma shaken_reached: "sys_reach E sv shaken w"
proof -
  let ?h = "NewBoltHandler sv" and ?c = "BoltConnection_Start False new_connection" and ?v = "map byte [0, 0, 4, 4, 0, 0, 0, 0, 0, 0, 0, 0, 0, 0, 0, 0]"
  have m: "select_minor ?v = 4" by code_simp
  have "feed ?h bolt_magic ?c = settle ?h (completed ?h False bolt_magic ?c)"
    by (rule feed_read [of _ 4]) (simp_all add: BoltConnection_Start_def new_connection_def on_socket_def bolt_magic_def)
  then have 1: "feed ?h bolt_magic ?c = new_connection\<lparr>cn_protocol := Socket, cn_wait := WaitVersion\<rparr>"
    by (simp add: BoltConnection_Start_def new_connection_def completed_def ReadMagicDone_def settle_def bolt_magic_def)
  have "feed ?h ?v (new_connection\<lparr>cn_protocol := Socket, cn_wait := WaitVersion\<rparr>) =
      settle ?h (completed ?h False ?v (new_connection\<lparr>cn_protocol := Socket, cn_wait := WaitVersion\<rparr>))"
    by (rule feed_read [of _ 16]) (simp_all add: new_connection_def on_socket_def)
  then have 2: "feed ?h ?v (new_connection\<lparr>cn_protocol := Socket, cn_wait := WaitVersion\<rparr>) = shaken\<lparr>cn_wait := WaitWritten\<rparr>"
    using m by (simp add: completed_def ReadVersionNegotiationDone_def Let_def SetSelectedBoltVersion_def settle_def shaken_def new_connection_def
        to_uint_def kSupportedBoltMajor_def)
  have 3: "completed ?h False [] (shaken\<lparr>cn_wait := WaitWritten\<rparr>) = shaken"
    by (simp add: shaken_def completed_def WriteResponseDone_def start_read_def new_connection_def)
  have "(io_step sv)\<^sup>*\<^sup>* ?c (shaken\<lparr>cn_wait := WaitWritten\<rparr>)" using feed_io [of sv ?c "bolt_magic @ ?v"] 1 2 by simp
  moreover have "io_step sv (shaken\<lparr>cn_wait := WaitWritten\<rparr>) shaken"
    using io_step.answered [of "shaken\<lparr>cn_wait := WaitWritten\<rparr>" sv] 3 by simp
  ultimately have "(io_step sv)\<^sup>*\<^sup>* ?c shaken" by simp
  moreover have "sys_reach E sv ?c w" unfolding sys_reach_def by blast
  ultimately show ?thesis by (metis reach_io)
qed

definition example_session :: BoltSession where
  "example_session = hello_session ''u'' [(''principal'', AString ''u''), (''credentials'', AString ''p'')]"

lemma struct_message_returns:
  assumes "wire (AMap m)" "length (packed (AMap m)) < 1000"
  shows "\<exists>ps. AppendStructMessage t m PackStream_Reset = Inr ps"
proof -
  let ?msg = "struct_bytes (byte (BoltMsg_code t)) [packed (AMap m)]"
  have "PackX (AMap m) (Packer_StructHeader (BoltMsg_code t) 1 p) = Inr (append_buf ?msg p)" for p
    using PackX_packed [OF assms(1)] by (simp add: pack_appends struct_bytes_def append_buf_def del: PackX.simps packed.simps)
  from message_chunked [OF this, of PackStream_Reset] show ?thesis
    using assms(2) by (auto simp: AppendStructMessage_def PackStream_Reset_def returns_def struct_bytes_def chunked.simps)
qed

lemma example_reply: "\<exists>ps. AppendSuccess (hello_reply example_server example_session) PackStream_Reset = Inr ps"
proof -
  have "show_nat 7 = [char_of (55 :: nat)]" by (subst show_nat.simps) simp
  then show ?thesis unfolding AppendSuccess_def
    by (intro struct_message_returns)
      (simp_all add: hello_reply_def example_server_def example_session_def hello_session_def new_session_def str_bytes_def len_bytes_def)
qed

lemma example_failure:
  "\<exists>ps. AppendFailure [(''code'', ACString (bolt_code ''NoSuchGraph'')), (''message'', AString kDefaultDatabaseName)] PackStream_Reset = Inr ps"
  unfolding AppendFailure_def by (intro struct_message_returns) (simp_all add: bolt_code_def kDefaultDatabaseName_def str_bytes_def len_bytes_def)

text \<open>A connection whose client has said \<open>HELLO\<close>.\<close>

lemma greeted_reached: "\<exists>c. sys_reach E example_server c w \<and> ready c \<and> cn_chunk c = [] \<and> \<not> closing c \<and> cn_max_message_size c = kDefaultMaxBoltMessageSize \<and> \<not> cn_debug c \<and>
    cn_context c = Some \<lparr>cx_session = example_session, cx_strand = []\<rparr>"
proof -
  let ?h = "NewBoltHandler example_server" and ?m = "[(''principal'', AString ''u''), (''credentials'', AString ''p'')]"
  let ?msg = "struct_bytes (byte (BoltMsg_code Msg_Hello)) (map packed [AMap ?m])"
  let ?c = "shaken\<lparr>cn_chunk := ?msg, cn_wait := WaitNothing\<rparr>"
  have l: "length ?msg < 100" by (simp add: struct_bytes_def str_bytes_def len_bytes_def)
  obtain ps where ps: "AppendSuccess (hello_reply example_server example_session) PackStream_Reset = Inr ps" using example_reply by blast
  let ?d = "Respond (pk_buf (ps_packer ps)) (SetCloseHandler (session_closed example_server) (?c\<lparr>cn_context := Some \<lparr>cx_session = example_session, cx_strand = []\<rparr>\<rparr>))"
  have h: "?h ?c (BoltMsg_code Msg_Hello) [AMap ?m] = (None, ?d)"
    using ps by (simp add: NewBoltHandler_def handle_hello_def shaken_def new_connection_def as_map_def as_string_def respond_message_def example_session_def)
  have "feed ?h (chunked ?msg) shaken = ?d\<lparr>cn_chunk := [], cn_wait := WaitChunkSize\<rparr>"
    using bolt.request_delivered [of shaken "BoltMsg_code Msg_Hello" "[AMap ?m]" example_server] l h
    by (simp add: ready_def shaken_def new_connection_def kDefaultMaxBoltMessageSize_def Respond_def DoSend_def SetCloseHandler_def Let_def)
  then have "sys_reach E example_server (?d\<lparr>cn_chunk := [], cn_wait := WaitChunkSize\<rparr>) w"
    using reach_io [OF shaken_reached feed_io] by metis
  then show ?thesis
    by (intro exI [of _ "?d\<lparr>cn_chunk := [], cn_wait := WaitChunkSize\<rparr>"] conjI) (simp_all add: ready_def shaken_def new_connection_def Respond_def DoSend_def SetCloseHandler_def Let_def closing_def)
qed

text \<open>The request that the client sends next.\<close>

lemma request_pending:
  assumes "ready c" "cn_chunk c = []" "cn_max_message_size c = kDefaultMaxBoltMessageSize" "cn_context c = Some cx" "\<not> cn_debug c"
    and t: "IsSessionRequest (BoltMsg_code t) \<or> IsResetMessage (BoltMsg_code t)"
    and "length xs < 0x10" "\<forall>x \<in> set xs. wire x" "length (struct_bytes (byte (BoltMsg_code t)) (map packed xs)) < 1000"
  defines "s \<equiv> (if IsResetMessage (BoltMsg_code t) then RequestInterrupt (cx_session cx) else cx_session cx)"
  shows "feed (NewBoltHandler example_server) (chunked (struct_bytes (byte (BoltMsg_code t)) (map packed xs))) c =
    c\<lparr>cn_context := Some (cx\<lparr>cx_session := s, cx_strand := cx_strand cx @ [MessageTask (BoltMsg_code t) (map received xs)]\<rparr>)\<rparr>"
proof -
  let ?msg = "struct_bytes (byte (BoltMsg_code t)) (map packed xs)"
  let ?c = "c\<lparr>cn_chunk := ?msg, cn_wait := WaitNothing\<rparr>"
  have n: "BoltMsg_code t \<noteq> BoltMsg_code Msg_Hello" "BoltMsg_code t \<noteq> BoltMsg_code Msg_Goodbye" "BoltMsg_code t < 0x100"
    using t by (cases t; simp add: IsSessionRequest_def IsExplicitTransactionRequest_def IsResetMessage_def)+
  have h: "NewBoltHandler example_server ?c (BoltMsg_code t) (map received xs) =
      (None, ?c\<lparr>cn_context := Some (cx\<lparr>cx_session := s, cx_strand := cx_strand cx @ [MessageTask (BoltMsg_code t) (map received xs)]\<rparr>)\<rparr>)"
    using n(1,2) t assms(4) by (simp del: BoltMsg_code.simps add: NewBoltHandler_def EnqueueSessionMessage_def Post_def example_server_def s_def)
  have "\<not> cn_closed c" "cn_wait c = WaitChunkSize" using assms(1) by (simp_all add: ready_def)
  with bolt.request_delivered [OF assms(1,2) n(3) assms(7,8), of example_server] h assms(2,3,5,9) show ?thesis
    by (simp del: BoltMsg_code.simps add: kDefaultMaxBoltMessageSize_def)
qed

lemma greeted_pending:
  assumes "IsSessionRequest (BoltMsg_code t) \<or> IsResetMessage (BoltMsg_code t)"
    and "length xs < 0x10" "\<forall>x \<in> set xs. wire x" "length (struct_bytes (byte (BoltMsg_code t)) (map packed xs)) < 1000"
  shows "\<exists>c cx. sys_reach E example_server c w \<and> cn_context c = Some cx \<and> \<not> closing c \<and>
    cx = \<lparr>cx_session = if IsResetMessage (BoltMsg_code t) then RequestInterrupt example_session else example_session,
      cx_strand = [MessageTask (BoltMsg_code t) (map received xs)]\<rparr>"
proof -
  obtain c where c: "sys_reach E example_server c w" "ready c" "cn_chunk c = []" "\<not> closing c" "cn_max_message_size c = kDefaultMaxBoltMessageSize"
      "cn_context c = Some \<lparr>cx_session = example_session, cx_strand = []\<rparr>" "\<not> cn_debug c"
    using greeted_reached [of E w] by auto
  let ?cx = "\<lparr>cx_session = if IsResetMessage (BoltMsg_code t) then RequestInterrupt example_session else example_session,
    cx_strand = [MessageTask (BoltMsg_code t) (map received xs)]\<rparr>"
  have "sys_reach E example_server (c\<lparr>cn_context := Some ?cx\<rparr>) w"
    using reach_io [OF c(1) feed_io [of _ _ "chunked (struct_bytes (byte (BoltMsg_code t)) (map packed xs))"]]
    unfolding request_pending [OF c(2,3,5,6,7) assms] by (cases "IsResetMessage (BoltMsg_code t)") simp_all
  then show ?thesis using c(4) by (intro exI [of _ "c\<lparr>cn_context := Some ?cx\<rparr>"] exI [of _ ?cx]) (simp add: closing_def)
qed

text \<open>The engine does not know the graph, so a query fails, and the session is then \<open>FAILED\<close>.\<close>

definition example_worker :: "conn \<Rightarrow> unit worker" where
  "example_worker c = \<lparr>wk_conn = c\<lparr>cn_context := Some \<lparr>cx_session = example_session, cx_strand = []\<rparr>\<rparr>, wk_world = (), wk_io = []\<rparr>"

lemma observe_alone [simp]: "wk_io w = [] \<Longrightarrow> observe w = (Inr (), w)"
  by (simp add: observe_def)

lemma example_get: "get_session (example_worker c) = (Inr example_session, example_worker c)"
  by (simp add: get_session_def session_def example_worker_def)

lemma example_fields: "ss_active_query example_session = None" "ss_active_transaction example_session = None" "ss_ps example_session = PackStream_Reset"
  "ss_state example_session = READY" "ss_remaining_interrupts example_session = 0" "ss_routing_enabled example_session = False"
  by (simp_all add: example_session_def hello_session_def new_session_def)

lemma example_process:
  "ProcessRun example_engine [AString ''RETURN 1'', AMap [], AMap []] (example_worker c) =
   FailSession example_engine ''NoSuchGraph'' kDefaultDatabaseName (example_worker c)"
proof -
  have 1: "run_fields [AString ''RETURN 1'', AMap [], AMap []] = Inr (''RETURN 1'', [], [])"
    by (simp add: run_fields_def RG_CHECK_def need_def as_string_def as_map_def)
  have 2: "ParseTransactionMetadata [] g b = Inr \<lparr>tm_graph = g, tm_read_only = b\<rparr>" for g b
    by (simp add: ParseTransactionMetadata_def if_given_def check_impersonation_def)
  have 3: "start_query example_engine \<lparr>tm_graph = kDefaultDatabaseName, tm_read_only = False\<rparr> opts None False ''RETURN 1'' (example_worker c) =
      (Inl (Thrown ''NoSuchGraph'' kDefaultDatabaseName), example_worker c)" for opts
    by (simp add: start_query_def kSystemDatabaseName_def kDefaultDatabaseName_def callW_def example_engine_def bindW_def example_worker_def)
  show ?thesis unfolding ProcessRun_def catchW_def
    by (simp add: 1 2 3 bindW_def example_get example_fields liftW_def returnW_def Let_def)
qed

lemma example_fail: "\<exists>w. FailSession example_engine ''NoSuchGraph'' kDefaultDatabaseName (example_worker c) = (Inr (), w) \<and> wk_io w = [] \<and>
    cn_closed (wk_conn w) = cn_closed c \<and> (closing c \<longleftrightarrow> closing (wk_conn w))" if "\<not> cn_closed c"
proof -
  obtain ps where ps: "AppendFailure [(''code'', ACString (bolt_code ''NoSuchGraph'')), (''message'', AString kDefaultDatabaseName)] PackStream_Reset = Inr ps"
    using example_failure by blast
  have 1: "AbortSession example_engine (example_worker c) = (Inr (), example_worker c)"
    by (simp add: AbortSession_def bindW_def example_get example_fields returnW_def)
      (simp add: set_session_def example_worker_def example_session_def hello_session_def new_session_def)
  have 2: "IgnoreInterruptedOrClosedRequest (example_worker c) = (Inr False, example_worker c)"
    using that by (simp add: IgnoreInterruptedOrClosedRequest_def bindW_def has_closed_def get_session_def session_def example_worker_def example_fields
        HasInterrupt_def returnW_def)
  show ?thesis
    using ps by (simp add: FailSession_def 1 2 PostFailure_def post_message_def bindW_def liftW_def on_conn_def set_state_def set_session_def)
      (simp add: PostResponse_def example_worker_def closing_def)
qed

lemma example_run:
  assumes "cn_context c = Some \<lparr>cx_session = example_session, cx_strand = [MessageTask (BoltMsg_code Msg_Run) [AString ''RETURN 1'', AMap [], AMap []]]\<rparr>"
    and "\<not> closing c"
  shows "\<exists>w. run_strand example_engine \<lparr>wk_conn = c, wk_world = (), wk_io = []\<rparr> = (Inr (), w) \<and> \<not> closing (wk_conn w)"
proof -
  let ?xs = "[AString ''RETURN 1'', AMap [], AMap []]"
  have o: "\<not> cn_closed c" using assms(2) by (simp add: closing_def)
  obtain w where w: "FailSession example_engine ''NoSuchGraph'' kDefaultDatabaseName (example_worker c) = (Inr (), w)" "wk_io w = []" "\<not> closing (wk_conn w)"
    using example_fail [OF o] assms(2) by auto
  have i: "observe (example_worker c) = (Inr (), example_worker c)" "has_closed (example_worker c) = (Inr False, example_worker c)"
    using o by (simp_all add: example_worker_def has_closed_def)
  have "ProcessBoltMessage example_engine (BoltMsg_code Msg_Run) ?xs (example_worker c) = (Inr (), w)"
    using example_process [of c] w(1) by (simp add: ProcessBoltMessage_def bindW_def i example_get HasInterrupt_def example_fields ProcessReadyState_def)
  then have "message_task example_engine (BoltMsg_code Msg_Run) ?xs (example_worker c) = (Inr (), w)"
    using w(2,3) i by (simp add: message_task_def bindW_def) (simp add: has_closed_def returnW_def closing_def)
  then show ?thesis using assms(1) w(3) by (simp add: run_strand_def pop_task_def example_worker_def)
qed

section \<open>Properties\<close>

text \<open>
  C21: The state of a session agrees with what the session holds. In every reachable state of a connection with a session
  that is not being closed, with any engine, whatever requests arrived, were interrupted or failed, and whatever bytes
  the IO thread handled while a worker was running: the interrupts that are pending are exactly the \<open>RESET\<close> requests on
  the strand; and when there are none, a session that is ready or failed holds no query and no transaction, one that
  streams holds a query with a result and no transaction, and one in a transaction holds the transaction and no query of
  its own, where the open queries of the transaction have different ids that were given out, and there are some exactly
  when the transaction is streaming.
\<close>

theorem session_state_agrees:
  assumes "sys_reach E sv c world" "cn_context c = Some cx" "\<not> closing c"
  shows "interrupts cx = resets cx \<and> (resets cx = 0 \<longrightarrow> agrees (cx_session cx))"
proof -
  have "context_ok sv c cx" using sys_reach_ok [OF assms(1)] assms(2) by (simp add: sys_ok_def)
  then have "interrupts cx = resets cx" "HasInterrupt (cx_session cx) \<or> agrees (cx_session cx)"
    using assms(3) by (simp_all add: context_ok_def accounted_def quiescent_def)
  then show ?thesis unfolding HasInterrupt_def interrupts_def by metis
qed

theorem session_state_agrees_witness:
  "\<exists>c. sys_reach example_engine example_server c () \<and> \<not> closing c \<and>
     (\<exists>cx. cn_context c = Some cx \<and> interrupts cx = resets cx \<and> resets cx = 0 \<and> agrees (cx_session cx))"
proof -
  obtain c where c: "sys_reach example_engine example_server c ()" "\<not> closing c"
      "cn_context c = Some \<lparr>cx_session = example_session, cx_strand = []\<rparr>"
    using greeted_reached [of example_engine "()"] by auto
  have "resets \<lparr>cx_session = example_session, cx_strand = []\<rparr> = 0" by (simp add: resets_def)
  with session_state_agrees [OF c(1,3,2)] c show ?thesis by auto
qed

text \<open>
  C22: Every request is answered once. When a worker takes a request from the strand in a reachable state and returns, and
  the connection is not being closed, then what was added to the responses is: buffers of records, and then one buffer
  that ends with the only summary (\<open>SUCCESS\<close>, \<open>FAILURE\<close> or \<open>IGNORED\<close>); only \<open>PULL\<close> is answered with records. A request
  that ends with an exception which nobody catches has been answered with records only.
\<close>

theorem request_answered_once:
  assumes "sys_reach E sv c world" "cn_context c = Some cx" "cx_strand cx = MessageTask type xs # ks" "io_thread sv fs"
    and "run_strand E \<lparr>wk_conn = c, wk_world = world, wk_io = fs\<rparr> = (r, w)" "\<not> closing (wk_conn w)"
  shows "case r of Inr _ \<Rightarrow> answered type (stream c) (stream (wk_conn w)) | Inl _ \<Rightarrow> begun type (stream c) (stream (wk_conn w))"
  using strand_message [OF sys_reach_ok [OF assms(1)] assms(4,2,3), of E world] assms(5,6)
  by (auto simp: ends_def at_def leaving_def finished_def failing_def split: sum.splits)

theorem request_answered_once_witness:
  "\<exists>c cx w. sys_reach example_engine example_server c () \<and> cn_context c = Some cx \<and>
     cx_strand cx = [MessageTask (BoltMsg_code Msg_Run) [AString ''RETURN 1'', AMap [], AMap []]] \<and>
     run_strand example_engine \<lparr>wk_conn = c, wk_world = (), wk_io = []\<rparr> = (Inr (), w) \<and> \<not> closing (wk_conn w) \<and>
     answered (BoltMsg_code Msg_Run) (stream c) (stream (wk_conn w))"
proof -
  let ?xs = "[AString ''RETURN 1'', AMap [], AMap []]"
  let ?cx = "\<lparr>cx_session = example_session, cx_strand = [MessageTask (BoltMsg_code Msg_Run) ?xs]\<rparr>"
  obtain c where c: "sys_reach example_engine example_server c ()" "cn_context c = Some ?cx" "\<not> closing c"
    using greeted_pending [of Msg_Run ?xs example_engine "()"]
    by (auto simp: IsSessionRequest_def IsResetMessage_def struct_bytes_def str_bytes_def len_bytes_def)
  obtain w where w: "run_strand example_engine \<lparr>wk_conn = c, wk_world = (), wk_io = []\<rparr> = (Inr (), w)" "\<not> closing (wk_conn w)"
    using example_run [OF c(2,3)] by auto
  have "io_thread example_server []" by (simp add: io_thread_def)
  from request_answered_once [OF c(1,2) _ this w] c w show ?thesis by (intro exI [of _ c] exI [of _ ?cx] exI [of _ w]) simp
qed

text \<open>
  C23: \<open>RESET\<close> recovers a session from every state. In a reachable state with a \<open>RESET\<close> at the head of the strand, whatever
  the state of the session, the engine and the steps of the IO thread meanwhile, the worker returns without an exception.
  Unless the connection is being closed, the session then holds no query and no transaction, and the request is
  answered by exactly one message: \<open>SUCCESS\<close> or \<open>IGNORED\<close>. When no other \<open>RESET\<close> waits, it is \<open>SUCCESS\<close>, the session is
  ready and no interrupt is left.
\<close>

theorem reset_recovers:
  assumes "sys_reach E sv c world" "cn_context c = Some cx" "cx_strand cx = MessageTask (BoltMsg_code Msg_Reset) xs # ks" "io_thread sv fs"
  shows "\<exists>w cx'. run_strand E \<lparr>wk_conn = c, wk_world = world, wk_io = fs\<rparr> = (Inr (), w) \<and> cn_context (wk_conn w) = Some cx' \<and>
    (closing (wk_conn w) \<or> released cx' \<and>
      (if resets cx' = 0 then stream (wk_conn w) = stream c @ [success_message] \<and> ss_state (cx_session cx') = READY \<and> \<not> HasInterrupt (cx_session cx')
       else stream (wk_conn w) = stream c @ [success_message] \<or> stream (wk_conn w) = stream c @ [ignored_message]))"
proof (cases "cn_closed c")
  case True
  have "ends (\<lambda>_. leaving sv released) (\<lambda>_. False) (run_strand E \<lparr>wk_conn = c, wk_world = world, wk_io = fs\<rparr>)"
    by (rule strand_closed [OF sys_reach_ok [OF assms(1)] assms(4,2,3) True])
  then show ?thesis
    by (cases "run_strand E \<lparr>wk_conn = c, wk_world = world, wk_io = fs\<rparr>"; cases "fst (run_strand E \<lparr>wk_conn = c, wk_world = world, wk_io = fs\<rparr>)")
      (auto simp: leaving_def)
next
  case False
  have "ends (\<lambda>_. at sv 0 (recovered (stream c))) (\<lambda>_. False) (run_strand E \<lparr>wk_conn = c, wk_world = world, wk_io = fs\<rparr>)"
    by (rule strand_reset [OF sys_reach_ok [OF assms(1)] assms(4,2,3) False]) (simp add: IsResetMessage_def)
  then show ?thesis
    by (cases "run_strand E \<lparr>wk_conn = c, wk_world = world, wk_io = fs\<rparr>"; cases "fst (run_strand E \<lparr>wk_conn = c, wk_world = world, wk_io = fs\<rparr>)")
      (auto simp: at_def recovered_def released_def accounted_def HasInterrupt_def interrupts_def)
qed

theorem reset_recovers_witness:
  "\<exists>c cx w cx'. sys_reach example_engine example_server c () \<and> cn_context c = Some cx \<and>
     cx_strand cx = [MessageTask (BoltMsg_code Msg_Reset) []] \<and>
     run_strand example_engine \<lparr>wk_conn = c, wk_world = (), wk_io = []\<rparr> = (Inr (), w) \<and> cn_context (wk_conn w) = Some cx' \<and>
     (closing (wk_conn w) \<or> released cx')"
proof -
  obtain c cx where c: "sys_reach example_engine example_server c ()" "cn_context c = Some cx" "cx_strand cx = [MessageTask (BoltMsg_code Msg_Reset) []]"
    using greeted_pending [of Msg_Reset "[]" example_engine "()"] by (auto simp: IsResetMessage_def struct_bytes_def)
  have "io_thread example_server []" by (simp add: io_thread_def)
  from reset_recovers [OF c this] c show ?thesis by blast
qed

text \<open>
  C24: A closed connection holds nothing. In every reachable state, when a connection is closed, the tasks of its session
  have all run and the worker pool has not been stopped, the session holds no query and no transaction.
\<close>

theorem closed_session_released:
  assumes "sys_reach E sv c world" "cn_context c = Some cx" "cn_closed c" "cx_strand cx = []" "\<not> sv_stopped sv"
  shows "ss_active_query (cx_session cx) = None \<and> ss_active_transaction (cx_session cx) = None"
  using sys_reach_ok [OF assms(1)] assms(2-5) by (auto simp: sys_ok_def context_ok_def told_def released_def)

theorem closed_session_released_witness:
  "\<exists>c cx. sys_reach example_engine example_server c () \<and> cn_context c = Some cx \<and> cn_closed c \<and> cx_strand cx = [] \<and>
     ss_active_query (cx_session cx) = None \<and> ss_active_transaction (cx_session cx) = None"
proof -
  obtain c where c: "sys_reach example_engine example_server c ()" "ready c" "cn_context c = Some \<lparr>cx_session = example_session, cx_strand = []\<rparr>"
    using greeted_reached [of example_engine "()"] by auto
  define d where "d = completed (NewBoltHandler example_server) True [] c"
  have "io_step example_server c d" unfolding d_def by (rule io_step.read_fails)
  with c(1) have d: "sys_reach example_engine example_server d ()" by (rule reach_io [OF _ r_into_rtranclp])
  have "cn_close_handler c = Some (session_closed example_server)" "\<not> cn_close_notified c"
    using sys_reach_ok [OF c(1)] c(2,3) by (simp_all add: sys_ok_def handler_set_def ready_def)
  then have "cn_closed d" and x: "cn_context d = Some \<lparr>cx_session = RequestInterrupt example_session, cx_strand = [AbortTask]\<rparr>"
    using c(2,3) by (simp_all add: d_def completed_def ready_def ReadChunkSizeDone_def BoltConnection_Close_def Connection_Close_def
        session_closed_def Post_def example_server_def)
  let ?c = "d\<lparr>cn_context := Some \<lparr>cx_session = RequestInterrupt example_session, cx_strand = []\<rparr>\<rparr>"
    and ?e = "d\<lparr>cn_context := Some \<lparr>cx_session = cleared (RequestInterrupt example_session), cx_strand = []\<rparr>\<rparr>"
  have "\<exists>world. AbortSession example_engine \<lparr>wk_conn = ?c, wk_world = (), wk_io = []\<rparr> = (Inr (), \<lparr>wk_conn = ?e, wk_world = world, wk_io = []\<rparr>)"
    using abort_run [of "\<lparr>wk_conn = ?c, wk_world = (), wk_io = []\<rparr>" "\<lparr>cx_session = RequestInterrupt example_session, cx_strand = []\<rparr>" example_engine] by simp
  then have "run_strand example_engine \<lparr>wk_conn = d, wk_world = (), wk_io = []\<rparr> = (Inr (), \<lparr>wk_conn = ?e, wk_world = (), wk_io = []\<rparr>)"
    using x by (simp add: run_strand_def pop_task_def)
  then have "sys_step example_engine example_server (d, ()) (?e, ())"
    using sys_step.work [of example_server "[]" example_engine d "()"] by (simp add: io_thread_def)
  then have e: "sys_reach example_engine example_server ?e ()" using d unfolding sys_reach_def by (meson rtranclp.rtrancl_into_rtrancl)
  have "\<not> sv_stopped example_server" by (simp add: example_server_def)
  from closed_session_released [OF e _ _ _ this] show ?thesis
    using e \<open>cn_closed d\<close> by (intro exI [of _ ?e] exI [of _ "\<lparr>cx_session = cleared (RequestInterrupt example_session), cx_strand = []\<rparr>"]) simp
qed

end
