(* ===== verification/Spec2Isabelle.thy ===== *)
theory Spec2Isabelle
  imports RawGroup NodeLog SendLoop SessionProps
begin

text \<open>
  \<^bold>\<open>Rocksgraph: a verification development\<close>

  Rocksgraph is a graph database over RocksDB. A graph may be replicated by Raft, and clients talk to the server over
  the Bolt protocol. The parts of the repository and how they interact:

  \<^item> \<open>src/etcd_raft\<close> is the Raft library: quorums, progress tracking, configuration changes, the log with its
    unstable tail and its storage interface, the node with its message handlers, and the raw node through which an
    application drives it (take a \<open>Ready\<close>, store and send what it holds, call \<open>Advance\<close>).
  \<^item> \<open>src/raft_driver\<close> runs raw nodes over a network and a log store on RocksDB.
  \<^item> \<open>src/bolt\<close> is the protocol: the PackStream encoding, the chunking of messages and the connection.
  \<^item> \<open>src/server\<close> answers the requests of a connection and owns the graphs.
  \<^item> \<open>src/value\<close> has the runtime values of the query language; \<open>src/ast\<close>, \<open>src/ir\<close>, \<open>src/planner\<close> and
    \<open>src/runtime\<close> turn a query into a plan and run it over \<open>src/graphdb\<close>.

  \<^bold>\<open>How the code is modelled.\<close> A class is a record, an enum or variant a datatype, a method a function that takes the
  object and returns the changed one. Every operation that may fail returns a sum (\<open>Inl\<close> a fault: a panic, an index
  out of range, undefined behaviour, an exception of the repository, or the end of the fuel of a loop). A \<open>uint64_t\<close>
  is a natural number with its wrap-around written out (\<open>add64\<close>, \<open>sub64\<close>), a signed integer an \<open>int\<close> with its
  conversions written out. Memory is taken to suffice: an allocation does not fail. Code that is not in the repository (RocksDB, Boost, protobuf, the time zone database) is a
  parameter of what uses it.

  \<^bold>\<open>The Raft library.\<close>
  \<^item> \<open>Prelude\<close>, \<open>Raftpb\<close>: arithmetic, faults, environment, and the messages.
  \<^item> \<open>Quorum\<close>: \<open>quorum/*.h\<close>; the committed index is the largest one a majority of each half has acknowledged, vote
    results are final, and quorums meet (locale \<open>quorum_system\<close>).
  \<^item> \<open>Inflights\<close>, \<open>Progress\<close>, \<open>Tracker\<close>: \<open>tracker/*.h\<close>; the ring buffer is a queue (locale \<open>flow_window\<close>).
  \<^item> \<open>ConfChange\<close>, \<open>ConfRestore\<close>: \<open>confchange/*.h\<close>; successive configurations have meeting quorums once there is a
    voter, joint changes can be completed, and \<open>Restore\<close> inverts \<open>ConfState\<close>.
  \<^item> \<open>Unstable\<close>, \<open>Storage\<close>, \<open>RaftLog\<close>, \<open>LogSpec\<close>, \<open>LogProps\<close>: \<open>log_unstable.h\<close>, \<open>storage.h\<close>, \<open>log.h\<close>; the log
    denotes one sequence of entries, which each operation reads or changes as specified, over any storage that keeps
    the contract of the locale \<open>storage_provider\<close>; a merge is described entry by entry for fewer than \<open>2 ^ 31\<close> new
    entries, because \<open>maybeAppend\<close> converts a position to \<open>int\<close>. The paging loops end: the fuel is the number of entries.
  \<^item> \<open>ReadOnly\<close>, \<open>Raft\<close>, \<open>RaftStep\<close>: \<open>read_only.h\<close>, \<open>raft.h\<close>; the whole node. \<open>RaftInv\<close> is the proof interface
    (locale \<open>raft_invariant\<close>) by which an invariant of the primitive changes becomes one of every handler.
  \<^item> \<open>RaftProps\<close>, \<open>Election\<close>, \<open>NodeLog\<close>: persistent state never regresses, at most one leader is elected per term,
    and committed entries stay what they are while the node works on its log and the application on its storage.
  \<^item> \<open>SendLoop\<close>: the loop by which a leader fills the window of a follower ends. Its fuel is the last index
    of the log and two, and a larger one gives the same result.
  \<^item> \<open>RawNode\<close>, \<open>RawGroup\<close>, \<open>ReadyCycle\<close>: \<open>rawnode.h\<close>, \<open>status.h\<close>; the same for groups of raw nodes, and the
    round of \<open>GetReady\<close>, storage write and \<open>Advance\<close> of a node that writes synchronously and has no snapshot pending.

  \<^bold>\<open>The Bolt protocol.\<close>
  \<^item> \<open>Bytes\<close>, \<open>Pack\<close>, \<open>PackMessage\<close>: \<open>pack.h\<close>, \<open>pack.cc\<close>, \<open>pack_stream.h\<close>; what the encoder writes, and that a
    message is sent as the chunks of its bytes.
  \<^item> \<open>Hydrate\<close>, \<open>BoltRoundTrip\<close>: the server's reader in \<open>hydrator.cc\<close>; it returns on every input and stays inside
    the message (the fuel is the number of bytes left and two), and it reads back what the encoder wrote.
  \<^item> \<open>BoltPrint\<close>: \<open>to_string.h\<close> and the text of temporal values in \<open>value/temporal.cc\<close>; which values the log can
    print. Writing JSON is Boost's and a parameter.
  \<^item> \<open>Connection\<close>: \<open>connection.h\<close>, \<open>connection.cc\<close>; the handshake, the chunk reader with its line in the debug log, and
    the queue of responses. The contract with the message handler is the locales \<open>message_handler\<close> and \<open>answering_handler\<close>.

  \<^bold>\<open>Values and sessions.\<close>
  \<^item> \<open>ValueTypes\<close>, \<open>Calendar\<close>: the values of \<open>value/value.h\<close> and the calendar of \<open>value/temporal.cc\<close>; day numbers
    count the days, and dates are recovered from day numbers, ordinal days and ISO weeks.
  \<^item> \<open>BoltConvert\<close>: the conversions of \<open>server/bolt_handler.cc\<close> between values and Bolt values; a value the
    server returns (without entities, paths and named time zones, and with years that \<open>std::chrono\<close> can hold) can be sent
    back as a parameter and is the same.
  \<^item> \<open>Session\<close>: \<open>server/bolt_session.h\<close>, \<open>server/bolt_handler.cc\<close>; the state machine of a session, its requests, its
    queries and transactions, and the message handler of the IO thread. A worker runs the tasks of a session one at a
    time; what the IO thread does meanwhile is a sequence of actions it meets at each look at the shared state. The
    graph store and the query runtime are the parameter \<open>Engine\<close>; the fuel of a pull is the number of rows asked for,
    or the engine's bound \<open>en_rows\<close> for a pull without a limit, and its end is a fault of its own.
  \<^item> \<open>SessionIO\<close>: the message handler satisfies the reader's contract (an interpretation of \<open>answering_handler\<close>), so
    a \<open>RUN\<close> request reaches the strand with the client's values in the receiver's form, unless the debug log cannot
    print them, and the invariant of connections holds with sessions.
  \<^item> \<open>SessionInv\<close>: a logic for the actions of a worker, with postconditions for the return and for an exception, whose
    assertions are stable under the IO thread, and with it a specification of every operation of \<open>Session\<close>.
  \<^item> \<open>SessionProps\<close>: the connection, its session and the workers as one transition system, for every engine; the state of
    a session agrees with the query and the transaction it holds, every request is answered once, \<open>RESET\<close> returns and
    recovers the session, and a closed session holds nothing.

  \<^bold>\<open>Not modelled.\<close> The parser generated by ANTLR and the protobuf classes are generated code. Comparison and hashing of
  values, the text of values other than temporal ones, the parsing of temporal values and time zones are left out. The Raft driver and its log store,
  the query planner and runtime, the storage of graphs, the HTTP server and the command-line tools are large parts of
  their own whose model would need one of RocksDB's transactions, of the file system and of threads.
\<close>

end
